(* ===== verification/Cvl_Schema.thy ===== *)
theory Cvl_Schema
  imports Prelude
begin

text \<open>
  The CVL abstract syntax of \<^verbatim>\<open>composer/cvl/schema.py\<close>. A pydantic class that is only a
  bundle of fields is a record; a union discriminated by its \<^verbatim>\<open>type\<close> literal is a datatype
  with one constructor per member class, so the discriminator is the constructor; a
  \<^verbatim>\<open>Literal\<close> of words is an enumeration. Optional fields are \<^typ>\<open>'a option\<close>. The classes
  that contain expressions or commands recursively (\<^verbatim>\<open>FunctionApplication\<close>,
  \<^verbatim>\<open>IfCmd\<close>, \<^verbatim>\<open>Else\<close>) are part of the mutually recursive datatypes.
\<close>

subsection \<open>Imports and types\<close>

record import_spec =
  is_spec_file :: string

record contract_import =
  ci_contract_name :: string
  ci_as_name :: string

datatype cvl_type =
    MappingType (key_type: cvl_type) (value_type: cvl_type)
  | ArrayType cvl_type
  | StaticArrayType cvl_type int
  | ContractType string string
  | StorageType
  | PrimitiveType string

text \<open>
  \<^verbatim>\<open>PrimitiveType.type_name\<close> ranges over the literals below; pydantic refuses any other
  word, which is \<open>valid_cvl_type\<close>.
\<close>

definition int_widths :: "nat list" where
  "int_widths = map (\<lambda>k. 8 * k) [1..<33]"

definition primitive_type_names :: "string list" where
  "primitive_type_names =
     map (\<lambda>w. ''uint'' @ show_nat w) int_widths @
     map (\<lambda>w. ''int'' @ show_nat w) int_widths @
     map (\<lambda>w. ''bytes'' @ show_nat w) [1..<33] @
     [''bool'', ''address'', ''bytes'', ''string'']"

fun valid_cvl_type :: "cvl_type \<Rightarrow> bool" where
  "valid_cvl_type (MappingType k v) = (valid_cvl_type k \<and> valid_cvl_type v)"
| "valid_cvl_type (ArrayType t) = valid_cvl_type t"
| "valid_cvl_type (StaticArrayType t n) = valid_cvl_type t"
| "valid_cvl_type (ContractType c n) = True"
| "valid_cvl_type StorageType = True"
| "valid_cvl_type (PrimitiveType n) = (n \<in> set primitive_type_names)"

datatype data_location = Loc_calldata | Loc_memory | Loc_storage

fun data_location_name :: "data_location \<Rightarrow> string" where
  "data_location_name Loc_calldata = ''calldata''"
| "data_location_name Loc_memory = ''memory''"
| "data_location_name Loc_storage = ''storage''"

record vm_type =
  vt_base_type :: cvl_type
  vt_location :: "data_location option"

record vm_param =
  vp_ty :: vm_type
  vp_name :: "string option"

record type_and_id =
  ti_decl_type :: cvl_type
  ti_id :: string

record method_reference =
  mr_contract :: "string option"
  mr_method_name :: string

record named_vm_param =
  np_param_type :: cvl_type
  np_name :: string

subsection \<open>Expressions\<close>

datatype ident_annotation = Ann_old | Ann_new

fun ident_annotation_name :: "ident_annotation \<Rightarrow> string" where
  "ident_annotation_name Ann_old = ''old''"
| "ident_annotation_name Ann_new = ''new''"

datatype app_annotation = Ann_withrevert | Ann_norevert

fun app_annotation_name :: "app_annotation \<Rightarrow> string" where
  "app_annotation_name Ann_withrevert = ''withrevert''"
| "app_annotation_name Ann_norevert = ''norevert''"

datatype binary_operator =
    B_add | B_sub | B_mul | B_div | B_mod | B_exponent | B_and | B_or | B_implies | B_iff
  | B_bw_or | B_bw_xor | B_bw_and | B_bw_lshift | B_bw_rshift | B_bw_rshift_wzeros
  | B_eq | B_ne | B_lt | B_le | B_gt | B_ge | B_in

datatype unary_operator = U_not | U_bw_not | U_uminus

datatype expression =
    BoolLiteral bool
  | NumberLiteral string
  | HexLiteral string
  | StringLiteral string
  | ArrayLiteral "expression list"
  | Identifier string "ident_annotation option"
  | BinaryOp binary_operator expression expression
  | UnaryOp unary_operator expression
  | ConditionalExp expression expression expression
  | QuantifierExp bool type_and_id expression
  | SumExp bool "type_and_id list" expression
  | ArrayAccess expression expression
  | FieldAccess expression string
  | FunctionCall function_application
  | SignatureLiteral method_reference "vm_type list"
and function_application =
    FunctionApplication (app_annotation: "app_annotation option") (app_name: string)
      (app_host_contract: "string option") (app_params: "expression list")
      (app_state: "string option")

record filtered_block =
  fb_e :: expression
  fb_method_param :: string

subsection \<open>Commands\<close>

datatype left_hand_side =
    IdLhs string
  | ArrayAccessLhs left_hand_side expression
  | FieldAccessLhs left_hand_side string

datatype command =
    DeclarationCmd type_and_id "expression option"
  | AssignmentCmd "left_hand_side list" expression
  | HavocCmd "left_hand_side list" "expression option"
  | AssumeCmd expression string
  | AssumeInvariantCmd string "expression list"
  | ApplyCmd function_application
  | ResetStorageCmd expression
  | AssertCmd expression string
  | SatisfyCmd expression string
  | ReturnCmd "expression list"
  | RevertCmd "string option"
  | CmdIf if_cmd
  | BlockCmd "command list"
and if_cmd =
    IfCmd expression "command list" "else_block option"
and else_block =
    ElseIf if_cmd
  | Else "command list"

record code_block =
  cb_commands :: "command list"

subsection \<open>Rules, functions, invariants\<close>

record rule_block =
  rb_rule_name :: string
  rb_rule_params :: "type_and_id list"
  rb_filtered_block :: "filtered_block list option"
  rb_block :: code_block

record function_def =
  fd_name :: string
  fd_params :: "type_and_id list"
  fd_return_value :: "cvl_type list"
  fd_block :: code_block

record method_without_return =
  mw_host_contract :: "string option"
  mw_name :: string
  mw_params :: "named_vm_param list"

datatype special_target = ST_constructor | ST_fallback

datatype proof_target =
    SpecialMethod special_target
  | GenericTarget
  | MethodTarget method_without_return

record with_block =
  wb_id :: string

record proof_block =
  pb_target :: proof_target
  pb_block :: code_block
  pb_with_binding :: "with_block option"

record invariant =
  inv_name :: string
  inv_params :: "type_and_id list"
  inv_expression :: expression
  inv_filter :: "filtered_block option"
  inv_proofs :: "proof_block list"

subsection \<open>Sorts, ghosts, macros\<close>

record sort_def =
  sd_sort_name :: string

datatype ghost_type =
    GhostFunction "cvl_type list" cvl_type
  | GhostVariable cvl_type

record ghost_axiom =
  ga_initial :: bool
  ga_exp :: expression

record ghost_def =
  gd_ghost_name :: string
  gd_ghost_type :: ghost_type
  gd_persistent :: bool
  gd_axioms :: "ghost_axiom list"

record macro_def =
  md_id :: string
  md_params :: "type_and_id list"
  md_result_type :: cvl_type
  md_exp :: expression

subsection \<open>Hooks\<close>

datatype slot_pattern =
    NamedSlotPattern string
  | MapAccessSlotPattern slot_pattern named_vm_param
  | ArrayAccessSlotPattern slot_pattern named_vm_param
  | FieldAccessSlotPattern slot_pattern string

datatype hook_pattern =
    SloadHook named_vm_param slot_pattern
  | SstoreHook slot_pattern named_vm_param "named_vm_param option"
  | TloadHook named_vm_param slot_pattern
  | TstoreHook slot_pattern named_vm_param "named_vm_param option"
  | CreateHook named_vm_param
  | OpcodeHook string "named_vm_param list" "named_vm_param option"

record hook_def =
  hd_pattern :: hook_pattern
  hd_block :: code_block

subsection \<open>The methods block\<close>

datatype expect_clause =
    ExpectType "vm_type list"
  | ExpectVoid

datatype havocing_summary = Hv_nondet | Hv_havoc_all | Hv_havoc_ecf | Hv_auto | Hv_assert_false

fun havoc_keyword :: "havocing_summary \<Rightarrow> string" where
  "havoc_keyword Hv_nondet = ''nondet''"
| "havoc_keyword Hv_havoc_all = ''havoc_all''"
| "havoc_keyword Hv_havoc_ecf = ''havoc_ecf''"
| "havoc_keyword Hv_auto = ''auto''"
| "havoc_keyword Hv_assert_false = ''assert_false''"

datatype keyword_summary = Kw_constant | Kw_per_callee_constant

fun summary_keyword :: "keyword_summary \<Rightarrow> string" where
  "summary_keyword Kw_constant = ''constant''"
| "summary_keyword Kw_per_callee_constant = ''per_callee_constant''"

datatype call_summary =
    KeywordSummary keyword_summary
  | AlwaysSummary expression
  | ExpressionSummary expression "expect_clause option"
  | DispatcherSummary (ds_optimistic: bool) (ds_use_fallback: bool)
  | HavocingSummary havocing_summary

datatype pre_return_flag = Vis_internal | Vis_external

fun pre_return_flag_name :: "pre_return_flag \<Rightarrow> string" where
  "pre_return_flag_name Vis_internal = ''internal''"
| "pre_return_flag_name Vis_external = ''external''"

datatype post_return_flag = Flag_optional | Flag_envfree

fun post_return_flag_name :: "post_return_flag \<Rightarrow> string" where
  "post_return_flag_name Flag_optional = ''optional''"
| "post_return_flag_name Flag_envfree = ''envfree''"

record method_signature =
  ms_method_ref :: method_reference
  ms_parameters :: "vm_param list"
  ms_return_types :: "vm_param list"
  ms_visibility :: pre_return_flag
  ms_post_flags :: "post_return_flag list"

record imported_function =
  if_signature :: method_signature
  if_summary :: "call_summary option"
  if_with_env :: "string option"

record catch_all_summary =
  ca_contract_name :: string
  ca_summary :: havocing_summary

datatype dispatch_pattern =
    SpecificMethodSignature "string option" string "vm_type list"
  | AllMethodsInContract string

record dispatch_list =
  dl_optimistic :: bool
  dl_use_fallback :: bool
  dl_patterns :: "dispatch_pattern list"
  dl_default_summary :: "havocing_summary option"

datatype unresolved_in_target =
    UnresolvedEverywhere
  | SpecificMethod "string option" "vm_param list" string
  | AnyMatchingSignature string "vm_param list"
  | UnresolvedAllInContract string

record unresolved_dynamic_summary =
  ud_method_ref :: unresolved_in_target
  ud_summary :: dispatch_list

datatype method_entry =
    ImportedFunctionEntry imported_function
  | CatchAllEntry catch_all_summary
  | UnresolvedDynamicEntry unresolved_dynamic_summary

record methods_block =
  mb_method_entries :: "method_entry list"

datatype basic_block =
    InvariantBlock invariant
  | FunctionBlock function_def
  | RuleBlock rule_block
  | SortBlock sort_def
  | GhostBlock ghost_def
  | MacroBlock macro_def
  | HookBlock hook_def
  | MethodsBlock methods_block

record cvl_file =
  cf_import_specs :: "import_spec list"
  cf_import_contract :: "contract_import list"
  cf_blocks :: "basic_block list"

end
