(* ===== verification/Cvl_Printer.thy ===== *)
theory Cvl_Printer
  imports Cvl_Schema
begin

text \<open>
  The expression half of \<^verbatim>\<open>composer/cvl/pretty_print.py\<close>: the precedence table, the
  decision where parentheses go, and the printers of types, expressions and left-hand sides,
  each a string function as in the class \<^verbatim>\<open>CVLPrettyPrinter\<close>.
\<close>

subsection \<open>Precedence\<close>

text \<open>
  The rows of the dictionary \<^verbatim>\<open>PRECEDENCE\<close>: one function per kind of key. Every operator of the
  schema has a row, so the defaults of \<^verbatim>\<open>PRECEDENCE.get\<close> are never used, and every expression type
  has one, so \<^verbatim>\<open>get_precedence\<close> never raises.
\<close>

fun binary_precedence :: "binary_operator \<Rightarrow> nat" where
  "binary_precedence B_iff = 1"
| "binary_precedence B_implies = 2"
| "binary_precedence B_or = 3"
| "binary_precedence B_and = 4"
| "binary_precedence B_eq = 5"
| "binary_precedence B_ne = 5"
| "binary_precedence B_lt = 5"
| "binary_precedence B_le = 5"
| "binary_precedence B_gt = 5"
| "binary_precedence B_ge = 5"
| "binary_precedence B_bw_or = 6"
| "binary_precedence B_bw_xor = 7"
| "binary_precedence B_bw_and = 8"
| "binary_precedence B_bw_lshift = 9"
| "binary_precedence B_bw_rshift = 9"
| "binary_precedence B_bw_rshift_wzeros = 9"
| "binary_precedence B_add = 10"
| "binary_precedence B_sub = 10"
| "binary_precedence B_mul = 11"
| "binary_precedence B_div = 11"
| "binary_precedence B_mod = 11"
| "binary_precedence B_exponent = 13"
| "binary_precedence B_in = 14"

fun unary_precedence :: "unary_operator \<Rightarrow> nat" where
  "unary_precedence U_not = 12"
| "unary_precedence U_bw_not = 12"
| "unary_precedence U_uminus = 12"

fun get_precedence :: "expression \<Rightarrow> nat" where
  "get_precedence (BinaryOp op l r) = binary_precedence op"
| "get_precedence (UnaryOp op e) = unary_precedence op"
| "get_precedence (ConditionalExp c t e) = 0"
| "get_precedence (QuantifierExp a v b) = 0"
| "get_precedence (SumExp u vs b) = 0"
| "get_precedence (ArrayAccess b i) = 15"
| "get_precedence (FieldAccess b f) = 15"
| "get_precedence (FunctionCall a) = 15"
| "get_precedence (BoolLiteral b) = 16"
| "get_precedence (NumberLiteral s) = 16"
| "get_precedence (HexLiteral s) = 16"
| "get_precedence (StringLiteral s) = 16"
| "get_precedence (ArrayLiteral es) = 16"
| "get_precedence (Identifier n a) = 16"
| "get_precedence (SignatureLiteral m ts) = 16"

definition right_assoc :: "binary_operator \<Rightarrow> bool" where
  "right_assoc op \<longleftrightarrow> op \<in> {B_implies, B_iff, B_exponent}"

definition needs_parentheses :: "expression \<Rightarrow> expression \<Rightarrow> bool \<Rightarrow> bool" where
  "needs_parentheses e parent is_right_operand =
     (let expr_prec = get_precedence e; parent_prec = get_precedence parent in
      if expr_prec < parent_prec then True
      else if expr_prec = parent_prec then
        (case parent of
           BinaryOp op l r \<Rightarrow> (if right_assoc op then \<not> is_right_operand else is_right_operand)
         | _ \<Rightarrow> False)
      else False)"

subsection \<open>Types and operators\<close>

fun print_cvl_type :: "cvl_type \<Rightarrow> string" where
  "print_cvl_type (MappingType k v) =
     ''mapping('' @ print_cvl_type k @ '' => '' @ print_cvl_type v @ '')''"
| "print_cvl_type (ArrayType t) = print_cvl_type t @ ''[]''"
| "print_cvl_type (StaticArrayType t n) = print_cvl_type t @ ''['' @ show_int n @ '']''"
| "print_cvl_type (PrimitiveType n) = n"
| "print_cvl_type StorageType = ''storage''"
| "print_cvl_type (ContractType host n) = host @ ''.'' @ n"

definition print_vm_type :: "vm_type \<Rightarrow> string" where
  "print_vm_type vmt =
     (let r = print_cvl_type (vt_base_type vmt) in
      case vt_location vmt of None \<Rightarrow> r | Some l \<Rightarrow> r @ '' '' @ data_location_name l)"

definition print_type_and_id :: "type_and_id \<Rightarrow> string" where
  "print_type_and_id tai = print_cvl_type (ti_decl_type tai) @ '' '' @ ti_id tai"

definition maybe_contract :: "string option \<Rightarrow> string" where
  "maybe_contract c = (if truthy c then the c @ ''.'' else [])"

definition print_method_reference :: "method_reference \<Rightarrow> string" where
  "print_method_reference ref = maybe_contract (mr_contract ref) @ mr_method_name ref"

fun print_binary_operator :: "binary_operator \<Rightarrow> string" where
  "print_binary_operator B_add = ''+''"
| "print_binary_operator B_and = ''&&''"
| "print_binary_operator B_bw_and = ''&''"
| "print_binary_operator B_bw_or = ''|''"
| "print_binary_operator B_bw_lshift = ''<<''"
| "print_binary_operator B_bw_rshift = ''>>''"
| "print_binary_operator B_bw_rshift_wzeros = ''>>>''"
| "print_binary_operator B_bw_xor = ''xor''"
| "print_binary_operator B_div = ''/''"
| "print_binary_operator B_exponent = ''^''"
| "print_binary_operator B_eq = ''==''"
| "print_binary_operator B_ge = ''>=''"
| "print_binary_operator B_gt = ''>''"
| "print_binary_operator B_iff = ''<=>''"
| "print_binary_operator B_implies = ''=>''"
| "print_binary_operator B_in = ''in''"
| "print_binary_operator B_le = ''<=''"
| "print_binary_operator B_lt = ''<''"
| "print_binary_operator B_mod = ''%''"
| "print_binary_operator B_mul = ''*''"
| "print_binary_operator B_ne = ''!=''"
| "print_binary_operator B_or = ''||''"
| "print_binary_operator B_sub = ''-''"

fun print_unary_operator :: "unary_operator \<Rightarrow> string" where
  "print_unary_operator U_bw_not = ''~''"
| "print_unary_operator U_not = ''!''"
| "print_unary_operator U_uminus = ''-''"

definition print_identifier :: "string \<Rightarrow> ident_annotation option \<Rightarrow> string" where
  "print_identifier n ann =
     (case ann of None \<Rightarrow> n | Some a \<Rightarrow> n @ ''@'' @ ident_annotation_name a)"

definition app_head :: "app_annotation option \<Rightarrow> string \<Rightarrow> string option \<Rightarrow> string" where
  \<comment> \<open>the part of \<^verbatim>\<open>_print_function_application\<close> before the argument list\<close>
  "app_head ann n host =
     maybe_contract host @ n @
     (case ann of None \<Rightarrow> [] | Some a \<Rightarrow> ''@'' @ app_annotation_name a)"

definition print_signature_literal :: "method_reference \<Rightarrow> vm_type list \<Rightarrow> string" where
  "print_signature_literal m ts =
     ''sig:'' @ print_method_reference m @ ''('' @ comma_join (map print_vm_type ts) @ '')''"

subsection \<open>Expressions\<close>

fun print_expression :: "expression \<Rightarrow> expression option \<Rightarrow> bool \<Rightarrow> string"
  and print_expression_inner :: "expression \<Rightarrow> string"
  and print_function_application :: "function_application \<Rightarrow> string"
where
  "print_expression e parent is_right_operand =
     (if (case parent of None \<Rightarrow> False | Some p \<Rightarrow> needs_parentheses e p is_right_operand)
      then ''('' @ print_expression_inner e @ '')''
      else print_expression_inner e)"
| "print_expression_inner (BoolLiteral b) = (if b then ''true'' else ''false'')"
| "print_expression_inner (NumberLiteral v) = v"
| "print_expression_inner (StringLiteral v) = dquote @ v @ dquote"
| "print_expression_inner (ArrayLiteral es) =
     ''['' @ comma_join (map (\<lambda>e. print_expression e None False) es) @ '']''"
| "print_expression_inner (Identifier n ann) = print_identifier n ann"
| "print_expression_inner (BinaryOp op l r) =
     (let self = BinaryOp op l r in
      print_expression l (Some self) False @ '' '' @ print_binary_operator op @ '' '' @
      print_expression r (Some self) True)"
| "print_expression_inner (UnaryOp op e) =
     print_unary_operator op @ '' '' @ print_expression e (Some (UnaryOp op e)) False"
| "print_expression_inner (ConditionalExp c t e) =
     (let self = ConditionalExp c t e in
      print_expression c (Some self) False @ '' ? '' @ print_expression t (Some self) False @
      '' : '' @ print_expression e (Some self) False)"
| "print_expression_inner (QuantifierExp is_forall v b) =
     (if is_forall then ''forall'' else ''exists'') @ '' '' @ print_type_and_id v @ ''.'' @
     print_expression b (Some (QuantifierExp is_forall v b)) False"
| "print_expression_inner (SumExp is_unsigned vs b) =
     (if is_unsigned then ''usum'' else ''sum'') @ '' '' @
     comma_join (map print_type_and_id vs) @ ''.'' @
     print_expression b (Some (SumExp is_unsigned vs b)) False"
| "print_expression_inner (ArrayAccess b i) =
     print_expression b (Some (ArrayAccess b i)) False @ ''['' @ print_expression i None False @ '']''"
| "print_expression_inner (FieldAccess b f) =
     print_expression b (Some (FieldAccess b f)) False @ ''.'' @ f"
| "print_expression_inner (FunctionCall app) = print_function_application app"
| "print_expression_inner (SignatureLiteral m ts) = print_signature_literal m ts"
| "print_expression_inner (HexLiteral v) = v"
| "print_function_application (FunctionApplication ann n host params state) =
     app_head ann n host @ ''('' @ comma_join (map (\<lambda>a. print_expression a None False) params) @ '')''"

abbreviation print_exp :: "expression \<Rightarrow> string" where
  \<comment> \<open>\<^verbatim>\<open>self.print_expression(e)\<close> with the default arguments\<close>
  "print_exp e \<equiv> print_expression e None False"

fun print_left_hand_side :: "left_hand_side \<Rightarrow> string" where
  "print_left_hand_side (IdLhs n) = n"
| "print_left_hand_side (ArrayAccessLhs b i) =
     print_left_hand_side b @ ''['' @ print_exp i @ '']''"
| "print_left_hand_side (FieldAccessLhs b f) = print_left_hand_side b @ ''.'' @ f"

definition print_namedvm_param :: "named_vm_param \<Rightarrow> string" where
  "print_namedvm_param p = print_cvl_type (np_param_type p) @ '' '' @ np_name p"

definition print_and_join :: "'a list \<Rightarrow> ('a \<Rightarrow> string) \<Rightarrow> string \<Rightarrow> string \<Rightarrow> string" where
  "print_and_join elems mapper prefix postfix = prefix @ comma_join (map mapper elems) @ postfix"

end
