(* ===== verification/Cvl_Reader.thy ===== *)
theory Cvl_Reader
  imports Cvl_Printer
begin

text \<open>
  What the parentheses of the printer promise. The precedence levels listed at the head of
  \<^verbatim>\<open>composer/cvl/pretty_print.py\<close> describe a grammar; \<open>reads\<close> is that grammar as a
  precedence-climbing reader over tokens, an inductive relation that uses none of the printer's tables. \<open>lexemes\<close> is the token stream of
  an expression with the printer's parentheses and blanks: its text is exactly what
  \<open>print_expression\<close> prints. The main results: the reader reads the printed tokens back to the same
  tree and to no other, for every expression that has no conditional, quantifier or sum as the
  condition of a conditional and no state binding on a call; outside that class the printed text is
  ambiguous.
\<close>

subsection \<open>Tokens\<close>

datatype token =
    T_bool bool | T_number string | T_hex string | T_string string
  | T_ident string "ident_annotation option"
  | T_sig method_reference "vm_type list"
  | T_call "app_annotation option" string "string option"
  | T_op string | T_quant bool type_and_id | T_sum bool "type_and_id list"
  | T_field string
  | T_question | T_colon | T_lparen | T_rparen | T_lbracket | T_rbracket | T_comma | T_sp

fun token_text :: "token \<Rightarrow> string" where
  "token_text (T_bool b) = (if b then ''true'' else ''false'')"
| "token_text (T_number v) = v"
| "token_text (T_hex v) = v"
| "token_text (T_string v) = dquote @ v @ dquote"
| "token_text (T_ident n a) = print_identifier n a"
| "token_text (T_sig m ts) = print_signature_literal m ts"
| "token_text (T_call ann n host) = app_head ann n host"
| "token_text (T_op s) = s"
| "token_text (T_quant a v) =
     (if a then ''forall'' else ''exists'') @ '' '' @ print_type_and_id v @ ''.''"
| "token_text (T_sum u vs) =
     (if u then ''usum'' else ''sum'') @ '' '' @ comma_join (map print_type_and_id vs) @ ''.''"
| "token_text (T_field f) = ''.'' @ f"
| "token_text T_question = ''?''"
| "token_text T_colon = '':''"
| "token_text T_lparen = ''(''"
| "token_text T_rparen = '')''"
| "token_text T_lbracket = ''[''"
| "token_text T_rbracket = '']''"
| "token_text T_comma = '', ''"
| "token_text T_sp = '' ''"

definition text_of :: "token list \<Rightarrow> string" where
  "text_of ts = concat (map token_text ts)"

definition strip :: "token list \<Rightarrow> token list" where
  "strip = filter (\<lambda>t. t \<noteq> T_sp)"

definition paren_tokens :: "bool \<Rightarrow> token list \<Rightarrow> token list" where
  "paren_tokens b ts = (if b then T_lparen # ts @ [T_rparen] else ts)"

fun lexemes :: "expression \<Rightarrow> token list"
  and app_lexemes :: "function_application \<Rightarrow> token list"
where
  "lexemes (BoolLiteral b) = [T_bool b]"
| "lexemes (NumberLiteral v) = [T_number v]"
| "lexemes (HexLiteral v) = [T_hex v]"
| "lexemes (StringLiteral v) = [T_string v]"
| "lexemes (ArrayLiteral es) = T_lbracket # join [T_comma] (map lexemes es) @ [T_rbracket]"
| "lexemes (Identifier n a) = [T_ident n a]"
| "lexemes (BinaryOp op l r) =
     (let self = BinaryOp op l r in
      paren_tokens (needs_parentheses l self False) (lexemes l) @
      T_sp # T_op (print_binary_operator op) # T_sp #
      paren_tokens (needs_parentheses r self True) (lexemes r))"
| "lexemes (UnaryOp op e) =
     T_op (print_unary_operator op) # T_sp #
     paren_tokens (needs_parentheses e (UnaryOp op e) False) (lexemes e)"
| "lexemes (ConditionalExp c t e) =
     (let self = ConditionalExp c t e in
      paren_tokens (needs_parentheses c self False) (lexemes c) @ T_sp # T_question # T_sp #
      paren_tokens (needs_parentheses t self False) (lexemes t) @ T_sp # T_colon # T_sp #
      paren_tokens (needs_parentheses e self False) (lexemes e))"
| "lexemes (QuantifierExp a v b) =
     T_quant a v # paren_tokens (needs_parentheses b (QuantifierExp a v b) False) (lexemes b)"
| "lexemes (SumExp u vs b) =
     T_sum u vs # paren_tokens (needs_parentheses b (SumExp u vs b) False) (lexemes b)"
| "lexemes (ArrayAccess b i) =
     paren_tokens (needs_parentheses b (ArrayAccess b i) False) (lexemes b) @
     T_lbracket # lexemes i @ [T_rbracket]"
| "lexemes (FieldAccess b f) =
     paren_tokens (needs_parentheses b (FieldAccess b f) False) (lexemes b) @ [T_field f]"
| "lexemes (FunctionCall app) = app_lexemes app"
| "lexemes (SignatureLiteral m ts) = [T_sig m ts]"
| "app_lexemes (FunctionApplication ann n host params state) =
     T_call ann n host # T_lparen # join [T_comma] (map lexemes params) @ [T_rparen]"

lemma text_of_simps [simp]:
  "text_of [] = []" "text_of (t # ts) = token_text t @ text_of ts"
  "text_of (xs @ ys) = text_of xs @ text_of ys"
  by (simp_all add: text_of_def)

lemma text_of_join: "text_of (join sep xs) = join (text_of sep) (map text_of xs)"
  by (induction sep xs rule: join.induct) auto

lemma strip_simps [simp]:
  "strip [] = []" "strip (xs @ ys) = strip xs @ strip ys"
  "strip (t # ts) = (if t = T_sp then strip ts else t # strip ts)"
  by (simp_all add: strip_def)

lemma strip_join: "strip (join sep xs) = join (strip sep) (map strip xs)"
  by (simp add: strip_def filter_join)

lemma strip_paren [simp]: "strip (paren_tokens b ts) = paren_tokens b (strip ts)"
  by (simp add: paren_tokens_def)

lemma text_of_paren:
  "text_of (paren_tokens b ts) = (if b then ''('' @ text_of ts @ '')'' else text_of ts)"
  by (simp add: paren_tokens_def)

lemma print_inner_lexemes:
  "print_expression_inner e = text_of (lexemes e)"
  "print_function_application a = text_of (app_lexemes a)"
  by (induction e and a rule: lexemes_app_lexemes.induct)
    (simp_all add: text_of_join text_of_paren o_def Let_def cong: map_cong)

subsection \<open>The reader\<close>

text \<open>
  The grammar, written out from its documentation and not from the printer's tables: the levels are those listed
  at the head of \<^verbatim>\<open>pretty_print.py\<close>; two operators are spelled as in \<^verbatim>\<open>kb/resources/cvl_baseline_facts.md\<close> (``In
  CVL, \<^verbatim>\<open>^\<close> is exponentiation; bitwise exclusive-or is the keyword \<^verbatim>\<open>xor\<close>''), where that list has \<^verbatim>\<open>^\<close> and \<^verbatim>\<open>**\<close>.
\<close>

definition grammar_levels :: "(nat \<times> (string \<times> binary_operator) list) list" where
  "grammar_levels =
     [(1, [(''<=>'', B_iff)]),
      (2, [(''=>'', B_implies)]),
      (3, [(''||'', B_or)]),
      (4, [(''&&'', B_and)]),
      (5, [(''=='', B_eq), (''!='', B_ne), (''<'', B_lt), (''<='', B_le), (''>'', B_gt), (''>='', B_ge)]),
      (6, [(''|'', B_bw_or)]),
      (7, [(''xor'', B_bw_xor)]),
      (8, [(''&'', B_bw_and)]),
      (9, [(''<<'', B_bw_lshift), (''>>'', B_bw_rshift), (''>>>'', B_bw_rshift_wzeros)]),
      (10, [(''+'', B_add), (''-'', B_sub)]),
      (11, [(''*'', B_mul), (''/'', B_div), (''%'', B_mod)]),
      (13, [(''^'', B_exponent)]),
      (14, [(''in'', B_in)])]"

definition prefix_level :: nat where "prefix_level = 12"

definition prefix_symbols :: "(string \<times> unary_operator) list" where
  "prefix_symbols = [(''!'', U_not), (''~'', U_bw_not), (''-'', U_uminus)]"

definition postfix_level :: nat where "postfix_level = 15"

text \<open>The operators that group to the right.\<close>

definition right_grouping :: "string list" where
  "right_grouping = [''=>'', ''<=>'', ''^'']"

definition operator_rows :: "(string \<times> nat \<times> binary_operator) list" where
  "operator_rows = concat (map (\<lambda>(p, row). map (\<lambda>(s, op). (s, p, op)) row) grammar_levels)"

text \<open>The level of a symbol and the operation it denotes; the level at which its right operand is read.\<close>

definition grammar_operator :: "string \<Rightarrow> (nat \<times> binary_operator) option" where
  "grammar_operator s = map_of operator_rows s"

definition operand_level :: "string \<Rightarrow> nat \<Rightarrow> nat" where
  "operand_level s p = (if s \<in> set right_grouping then p else Suc p)"

text \<open>What the printer's tables owe to the grammar: its symbols, its levels and its grouping.\<close>

lemma grammar_operator_print [simp]:
  "grammar_operator (print_binary_operator op) = Some (binary_precedence op, op)"
  by (cases op) (simp_all add: grammar_operator_def operator_rows_def grammar_levels_def)

lemma prefix_symbol_print [simp]: "map_of prefix_symbols (print_unary_operator u) = Some u"
  by (cases u) (simp_all add: prefix_symbols_def)

lemma print_binary_operator_inject [simp]:
  "print_binary_operator op = print_binary_operator op' \<longleftrightarrow> op = op'"
  by (metis grammar_operator_print option.inject prod.inject)

lemma print_unary_operator_inject [simp]:
  "print_unary_operator u = print_unary_operator u' \<longleftrightarrow> u = u'"
  by (cases u; cases u') simp_all

text \<open>
  How tightly the first token of a rest binds to what stands before it (\<open>None\<close>: it does not), and
  the level at which the right operand of an operator is read.
\<close>

fun binding :: "token list \<Rightarrow> nat option" where
  "binding (T_op s # ts) = map_option fst (grammar_operator s)"
| "binding (T_question # ts) = Some 0"
| "binding (T_lbracket # ts) = Some postfix_level"
| "binding (T_field f # ts) = Some postfix_level"
| "binding ts = None"

definition continues :: "nat \<Rightarrow> token list \<Rightarrow> bool" where
  "continues m ts = (case binding ts of None \<Rightarrow> False | Some p \<Rightarrow> m \<le> p)"

inductive reads :: "nat \<Rightarrow> token list \<Rightarrow> expression \<Rightarrow> token list \<Rightarrow> bool"
  and read_prefix :: "token list \<Rightarrow> expression \<Rightarrow> token list \<Rightarrow> bool"
  and read_loop :: "nat \<Rightarrow> expression \<Rightarrow> token list \<Rightarrow> expression \<Rightarrow> token list \<Rightarrow> bool"
  and read_list :: "token \<Rightarrow> token list \<Rightarrow> expression list \<Rightarrow> token list \<Rightarrow> bool"
where
  level: "\<lbrakk>read_prefix ts e ts1; read_loop m e ts1 e' r\<rbrakk> \<Longrightarrow> reads m ts e' r"
| bool: "read_prefix (T_bool b # ts) (BoolLiteral b) ts"
| number: "read_prefix (T_number v # ts) (NumberLiteral v) ts"
| hex: "read_prefix (T_hex v # ts) (HexLiteral v) ts"
| string: "read_prefix (T_string v # ts) (StringLiteral v) ts"
| ident: "read_prefix (T_ident n a # ts) (Identifier n a) ts"
| sig: "read_prefix (T_sig m tys # ts) (SignatureLiteral m tys) ts"
| array: "read_list T_rbracket ts es r \<Longrightarrow> read_prefix (T_lbracket # ts) (ArrayLiteral es) r"
| call: "read_list T_rparen ts es r \<Longrightarrow>
     read_prefix (T_call ann n host # T_lparen # ts)
       (FunctionCall (FunctionApplication ann n host es None)) r"
| paren: "reads 0 ts e (T_rparen # r) \<Longrightarrow> read_prefix (T_lparen # ts) e r"
| unary: "map_of prefix_symbols s = Some u \<Longrightarrow> reads prefix_level ts e r \<Longrightarrow>
     read_prefix (T_op s # ts) (UnaryOp u e) r"
| quant: "reads 0 ts e r \<Longrightarrow> read_prefix (T_quant a v # ts) (QuantifierExp a v e) r"
| sum: "reads 0 ts e r \<Longrightarrow> read_prefix (T_sum u vs # ts) (SumExp u vs e) r"
| stop: "\<not> continues m ts \<Longrightarrow> read_loop m e ts e ts"
| binary: "\<lbrakk>grammar_operator s = Some (p, op); m \<le> p; reads (operand_level s p) ts r ts1;
     read_loop m (BinaryOp op l r) ts1 e' r'\<rbrakk> \<Longrightarrow>
     read_loop m l (T_op s # ts) e' r'"
| cond: "\<lbrakk>reads 0 ts t (T_colon # ts1); reads 0 ts1 e ts2;
     read_loop 0 (ConditionalExp c t e) ts2 e' r'\<rbrakk> \<Longrightarrow>
     read_loop 0 c (T_question # ts) e' r'"
| index: "\<lbrakk>m \<le> postfix_level; reads 0 ts i (T_rbracket # ts1); read_loop m (ArrayAccess b i) ts1 e' r'\<rbrakk> \<Longrightarrow>
     read_loop m b (T_lbracket # ts) e' r'"
| field: "\<lbrakk>m \<le> postfix_level; read_loop m (FieldAccess b f) ts e' r'\<rbrakk> \<Longrightarrow>
     read_loop m b (T_field f # ts) e' r'"
| nil: "read_list c (c # ts) [] ts"
| one: "reads 0 ts e (c # r) \<Longrightarrow> c \<noteq> T_comma \<Longrightarrow> read_list c ts [e] r"
| more: "\<lbrakk>reads 0 ts e (T_comma # ts1); read_list c ts1 es r; es \<noteq> []; c \<noteq> T_comma\<rbrakk> \<Longrightarrow>
     read_list c ts (e # es) r"

inductive_cases reads_elim: "reads m ts e r"
inductive_cases prefix_elims:
  "read_prefix (T_bool b # ts) e r" "read_prefix (T_number v # ts) e r"
  "read_prefix (T_hex v # ts) e r" "read_prefix (T_string v # ts) e r"
  "read_prefix (T_ident n a # ts) e r" "read_prefix (T_sig m tys # ts) e r"
  "read_prefix (T_lbracket # ts) e r" "read_prefix (T_call ann n host # ts) e r"
  "read_prefix (T_lparen # ts) e r" "read_prefix (T_op s # ts) e r"
  "read_prefix (T_quant a v # ts) e r" "read_prefix (T_sum u vs # ts) e r"
  "read_prefix (T_rparen # ts) e r" "read_prefix (T_rbracket # ts) e r"
inductive_cases loop_elims:
  "read_loop m l (T_op s # ts) e r" "read_loop m l (T_question # ts) e r"
  "read_loop m l (T_lbracket # ts) e r" "read_loop m l (T_field f # ts) e r"
inductive_cases loop_elim: "read_loop m l ts e r"
inductive_cases list_elim: "read_list c ts es r"

subsection \<open>At most one reading\<close>

lemma no_closer_start:
  "reads m (T_rparen # ts) e r \<Longrightarrow> False" "reads m (T_rbracket # ts) e r \<Longrightarrow> False"
  by (auto elim!: reads_elim elim: read_prefix.cases)

lemma reads_deterministic:
  "reads m ts e r \<Longrightarrow> reads m ts e' r' \<Longrightarrow> e' = e \<and> r' = r"
  "read_prefix ts e r \<Longrightarrow> read_prefix ts e' r' \<Longrightarrow> e' = e \<and> r' = r"
  "read_loop m l ts e r \<Longrightarrow> read_loop m l ts e' r' \<Longrightarrow> e' = e \<and> r' = r"
  "read_list c ts es r \<Longrightarrow> c \<in> {T_rparen, T_rbracket} \<Longrightarrow> read_list c ts es' r' \<Longrightarrow> es' = es \<and> r' = r"
proof (induction arbitrary: e' r' and e' r' and e' r' and es' r' rule: reads_read_prefix_read_loop_read_list.inducts)
  case (level ts e ts1 m e2 r)
  from level.prems show ?case
    by (cases rule: reads.cases) (use level.IH in blast)
next
  case (array ts es r)
  from array.prems show ?case
    by (cases rule: read_prefix.cases) (auto dest: array.IH [simplified])
next
  case (call ts es r ann n host)
  from call.prems show ?case
    by (cases rule: read_prefix.cases) (auto dest: call.IH [simplified])
next
  case (paren ts e r)
  from paren.prems show ?case
    by (cases rule: read_prefix.cases) (auto dest: paren.IH)
next
  case (unary s u ts e r)
  from unary.prems show ?case
    by (cases rule: read_prefix.cases) (use unary.hyps in \<open>auto dest: unary.IH\<close>)
next
  case (quant ts e r a v)
  from quant.prems show ?case
    by (cases rule: read_prefix.cases) (auto dest: quant.IH)
next
  case (sum ts e r a v)
  from sum.prems show ?case
    by (cases rule: read_prefix.cases) (auto dest: sum.IH)
next
  case (stop m ts e)
  from stop.prems show ?case
    by (cases rule: read_loop.cases) (use stop.hyps in \<open>simp_all add: continues_def\<close>)
next
  case (binary s p op m ts r ts1 l e2 r2)
  from binary.prems show ?case
    by (cases rule: read_loop.cases) (use binary.hyps in \<open>auto simp: continues_def dest!: binary.IH\<close>)
next
  case (cond ts t ts1 e ts2 c e2 r2)
  from cond.prems show ?case
    by (cases rule: read_loop.cases) (use cond.hyps in \<open>auto simp: continues_def dest!: cond.IH\<close>)
next
  case (index m ts i ts1 b e2 r2)
  from index.prems show ?case
    by (cases rule: read_loop.cases) (use index.hyps in \<open>auto simp: continues_def dest!: index.IH\<close>)
next
  case (field m b f ts e2 r2)
  from field.prems show ?case
    by (cases rule: read_loop.cases) (use field.hyps in \<open>auto simp: continues_def dest!: field.IH\<close>)
next
  case (nil c ts)
  from nil.prems(2,1) show ?case
    by (cases rule: read_list.cases) (auto dest: no_closer_start)
next
  case (one ts e c r)
  from one.prems(2) show ?case
  proof (cases rule: read_list.cases)
    case nil
    with one.hyps(1) one.prems(1) show ?thesis by (auto dest: no_closer_start)
  next
    case (one e3)
    then show ?thesis using one.IH by blast
  next
    case (more e3 ts3 es3)
    then show ?thesis using one.IH one.hyps by blast
  qed
next
  case (more ts e ts1 c es r)
  from more.prems(2) show ?case
  proof (cases rule: read_list.cases)
    case nil
    with more.hyps more.prems(1) show ?thesis by (auto dest: no_closer_start)
  next
    case (one e3)
    then show ?thesis using more.IH(1) more.hyps by blast
  next
    case (more e3 ts3 es3)
    then show ?thesis using more.IH more.prems(1) by blast
  qed
qed (erule read_prefix.cases; simp)+

subsection \<open>At least one reading\<close>

text \<open>
  The expressions whose printed form keeps their tree: no conditional, quantifier or sum stands
  as the condition of a conditional, and no call carries a state binding.
\<close>

fun fit_condition :: "expression \<Rightarrow> bool" where
  "fit_condition (ConditionalExp c t e) = False"
| "fit_condition (QuantifierExp a v b) = False"
| "fit_condition (SumExp u vs b) = False"
| "fit_condition e = True"

fun safe :: "expression \<Rightarrow> bool" and safe_app :: "function_application \<Rightarrow> bool" where
  "safe (ArrayLiteral es) = list_all safe es"
| "safe (BinaryOp op l r) = (safe l \<and> safe r)"
| "safe (UnaryOp op e) = safe e"
| "safe (ConditionalExp c t e) = (fit_condition c \<and> safe c \<and> safe t \<and> safe e)"
| "safe (QuantifierExp a v b) = safe b"
| "safe (SumExp u vs b) = safe b"
| "safe (ArrayAccess b i) = (safe b \<and> safe i)"
| "safe (FieldAccess b f) = safe b"
| "safe (FunctionCall app) = safe_app app"
| "safe e = True"
| "safe_app (FunctionApplication ann n host params state) = (list_all safe params \<and> state = None)"

definition right_level :: "binary_operator \<Rightarrow> nat" where
  "right_level op = (if right_assoc op then binary_precedence op else Suc (binary_precedence op))"

lemma operand_level_print [simp]: "operand_level (print_binary_operator op) (binary_precedence op) = right_level op"
  by (cases op) (simp_all add: operand_level_def right_grouping_def right_level_def right_assoc_def)

text \<open>The lowest level an operand left open at the right end of the printed text is read at.\<close>

fun open_level :: "expression \<Rightarrow> nat" where
  "open_level (BinaryOp op l r) =
     (if needs_parentheses r (BinaryOp op l r) True then right_level op
      else min (right_level op) (open_level r))"
| "open_level (UnaryOp op e) =
     (if needs_parentheses e (UnaryOp op e) False then 12 else min 12 (open_level e))"
| "open_level (ConditionalExp c t e) = 0"
| "open_level (QuantifierExp a v b) = 0"
| "open_level (SumExp u vs b) = 0"
| "open_level e = 16"

lemma unary_precedence_12 [simp]: "unary_precedence u = 12"
  by (cases u) auto

lemma binary_precedence_range: "binary_precedence op \<in> {1..14} - {12}"
  by (cases op) auto

lemma fit_condition_level: "fit_condition e \<longleftrightarrow> 0 < get_precedence e"
proof (cases e)
  case (BinaryOp op l r)
  then show ?thesis using binary_precedence_range [of op] by auto
qed simp_all

lemma paren_right_level:
  "\<not> needs_parentheses r (BinaryOp op l r) True \<Longrightarrow> right_level op \<le> get_precedence r"
  by (auto simp: needs_parentheses_def right_level_def Let_def split: if_splits)

lemma paren_left_level:
  "\<not> needs_parentheses l (BinaryOp op l r) False \<Longrightarrow>
     binary_precedence op < get_precedence l \<or>
     binary_precedence op = get_precedence l \<and> \<not> right_assoc op"
  by (auto simp: needs_parentheses_def Let_def split: if_splits)

lemma paren_other_level:
  "\<not> needs_parentheses e p False \<Longrightarrow> get_precedence p \<le> get_precedence e"
  by (auto simp: needs_parentheses_def Let_def split: if_splits)

lemma open_level_ge: "min 16 (get_precedence e) \<le> open_level e"
proof (induction e rule: open_level.induct)
  case (1 op l r)
  then show ?case
    using paren_right_level [of r op l] binary_precedence_range [of op]
    by (auto simp: right_level_def split: if_splits)
next
  case (2 op e)
  then show ?case
    using paren_other_level [of e "UnaryOp op e"] by auto
qed auto

lemma right_assoc_same_level:
  "binary_precedence op = binary_precedence op' \<Longrightarrow> right_assoc op = right_assoc op'"
  by (cases op; cases op') (simp_all add: right_assoc_def)

lemma open_level_left:
  assumes "\<not> needs_parentheses l (BinaryOp op l r) False"
  shows "binary_precedence op < open_level l"
  using paren_left_level [OF assms]
proof
  assume "binary_precedence op < get_precedence l"
  then show ?thesis using open_level_ge [of l] binary_precedence_range [of op] by auto
next
  assume *: "binary_precedence op = get_precedence l \<and> \<not> right_assoc op"
  show ?thesis
  proof (cases l)
    case (BinaryOp op2 l2 r2)
    with * have "right_level op2 = Suc (binary_precedence op)"
      using right_assoc_same_level [of op op2] by (simp add: right_level_def)
    then show ?thesis
      using BinaryOp paren_right_level [of r2 op2 l2] open_level_ge [of r2]
        binary_precedence_range [of op]
      by (auto split: if_splits)
  qed (use * binary_precedence_range [of op] in auto)
qed


lemma continues_mono: "continues m ts \<Longrightarrow> k \<le> m \<Longrightarrow> continues k ts"
  by (auto simp: continues_def split: option.splits)

lemma not_continues_min:
  "\<not> continues (min a b) ts \<longleftrightarrow> \<not> continues a ts \<and> \<not> continues b ts"
  by (auto simp: continues_def split: option.splits)


lemma binary_precedence_le: "binary_precedence op \<le> 14"
  by (cases op) auto

lemma grammar_operator_le: "grammar_operator s = Some (p, op) \<Longrightarrow> p \<le> 14"
  unfolding grammar_operator_def
  by (drule map_of_SomeD) (auto simp: operator_rows_def grammar_levels_def)

lemma binding_le: "binding ts = Some p \<Longrightarrow> p \<le> 15"
  by (cases ts rule: binding.cases) (auto simp: postfix_level_def dest: grammar_operator_le)

lemma not_continues_simps [simp]:
  "\<not> continues 16 ts" "\<not> continues m (T_rparen # ts)" "\<not> continues m (T_rbracket # ts)"
  "\<not> continues m (T_colon # ts)" "\<not> continues m (T_comma # ts)" "\<not> continues m []"
  "continues m (T_question # ts) \<longleftrightarrow> m = 0"
  "continues m (T_lbracket # ts) \<longleftrightarrow> m \<le> 15" "continues m (T_field f # ts) \<longleftrightarrow> m \<le> 15"
  "continues m (T_op (print_binary_operator op) # ts) \<longleftrightarrow> m \<le> binary_precedence op"
  by (auto simp: continues_def postfix_level_def split: option.splits dest: binding_le)

definition readable :: "expression \<Rightarrow> bool" where
  "readable e \<longleftrightarrow> (\<forall>m rest e' r'. m \<le> get_precedence e \<longrightarrow> \<not> continues (open_level e) rest \<longrightarrow>
     read_loop m e rest e' r' \<longrightarrow> reads m (strip (lexemes e) @ rest) e' r')"

lemma readableD:
  "readable e \<Longrightarrow> m \<le> get_precedence e \<Longrightarrow> \<not> continues (open_level e) rest \<Longrightarrow>
     read_loop m e rest e' r' \<Longrightarrow> reads m (strip (lexemes e) @ rest) e' r'"
  by (simp add: readable_def)

lemma read_operand:
  assumes "readable e"
    and "\<not> b \<Longrightarrow> m \<le> get_precedence e \<and> \<not> continues (open_level e) rest"
    and "read_loop m e rest e' r'"
  shows "reads m (paren_tokens b (strip (lexemes e)) @ rest) e' r'"
proof (cases b)
  case True
  have "reads 0 (strip (lexemes e) @ T_rparen # rest) e (T_rparen # rest)"
    by (rule readableD [OF assms(1)]) (auto intro!: stop)
  from level [OF paren [OF this] assms(3)] True show ?thesis by (simp add: paren_tokens_def)
next
  case False
  with assms show ?thesis by (auto simp: readable_def paren_tokens_def)
qed

lemma read_operand_whole:
  assumes "readable e" and "\<not> b \<Longrightarrow> m \<le> get_precedence e \<and> \<not> continues (open_level e) rest"
    and "\<not> continues m rest"
  shows "reads m (paren_tokens b (strip (lexemes e)) @ rest) e rest"
  by (rule read_operand [OF assms(1,2)]) (auto intro: stop [OF assms(3)])

lemma read_delimited:
  assumes "readable e" "t \<in> {T_rparen, T_rbracket, T_colon, T_comma}"
  shows "reads 0 (strip (lexemes e) @ t # rest) e (t # rest)"
  by (rule readableD [OF assms(1)]) (use assms(2) in \<open>auto intro!: stop\<close>)

lemma read_items:
  assumes "\<And>e. e \<in> set es \<Longrightarrow> readable e" "c \<in> {T_rparen, T_rbracket}"
  shows "read_list c (join [T_comma] (map (\<lambda>e. strip (lexemes e)) es) @ c # r) es r"
  using assms(1)
proof (induction es rule: induct_list012)
  case (2 e)
  then show ?case using assms(2) by (auto intro!: one read_delimited)
next
  case (3 e e2 es)
  have "reads 0 (strip (lexemes e) @ T_comma # (join [T_comma] (map (\<lambda>e. strip (lexemes e)) (e2 # es)) @ c # r)) e
     (T_comma # (join [T_comma] (map (\<lambda>e. strip (lexemes e)) (e2 # es)) @ c # r))"
    by (rule read_delimited) (use 3 in auto)
  from more [OF this "3.IH"(2)] 3 assms(2) show ?case by auto
qed (auto intro: nil)

lemma read_closed:
  assumes "\<And>rest. read_prefix (strip (lexemes e) @ rest) e rest"
  shows "readable e"
  unfolding readable_def using assms by (blast intro: level)

lemma readable_binary:
  assumes "readable l" "readable r"
  shows "readable (BinaryOp op l r)"
  unfolding readable_def
proof (intro allI impI)
  fix m rest e' r'
  let ?e = "BinaryOp op l r"
  let ?bl = "needs_parentheses l ?e False" and ?br = "needs_parentheses r ?e True"
  let ?rest = "T_op (print_binary_operator op) # paren_tokens ?br (strip (lexemes r)) @ rest"
  assume m: "m \<le> get_precedence ?e" and right_end: "\<not> continues (open_level ?e) rest"
    and loop: "read_loop m ?e rest e' r'"
  have "reads (right_level op) (paren_tokens ?br (strip (lexemes r)) @ rest) r rest"
    using right_end paren_right_level [of r op l]
    by (intro read_operand_whole [OF assms(2)]) (auto simp: not_continues_min split: if_splits)
  then have "reads (operand_level (print_binary_operator op) (binary_precedence op))
      (paren_tokens ?br (strip (lexemes r)) @ rest) r rest" by simp
  with m loop have "read_loop m l ?rest e' r'" by (intro binary [OF grammar_operator_print]) auto
  then have "reads m (paren_tokens ?bl (strip (lexemes l)) @ ?rest) e' r'"
    using paren_left_level [of l op r] open_level_left [of l op r] m
    by (intro read_operand [OF assms(1)]) auto
  then show "reads m (strip (lexemes ?e) @ rest) e' r'" by (simp add: Let_def)
qed

lemma readable_unary:
  assumes "readable e"
  shows "readable (UnaryOp u e)"
  unfolding readable_def
proof (intro allI impI)
  fix m rest e' r'
  let ?b = "needs_parentheses e (UnaryOp u e) False"
  assume right_end: "\<not> continues (open_level (UnaryOp u e)) rest"
    and loop: "read_loop m (UnaryOp u e) rest e' r'"
  have "reads prefix_level (paren_tokens ?b (strip (lexemes e)) @ rest) e rest"
    using right_end paren_other_level [of e "UnaryOp u e"]
    by (intro read_operand_whole [OF assms])
      (auto simp: not_continues_min prefix_level_def split: if_splits)
  from level [OF unary [OF prefix_symbol_print this] loop]
  show "reads m (strip (lexemes (UnaryOp u e)) @ rest) e' r'" by simp
qed


lemma no_parens_at_0:
  "get_precedence p = 0 \<Longrightarrow> (\<And>op l r. p \<noteq> BinaryOp op l r) \<Longrightarrow> \<not> needs_parentheses e p b"
  by (cases p) (auto simp: needs_parentheses_def Let_def)

lemma readable_conditional:
  assumes "readable c" "readable t" "readable e" "0 < get_precedence c"
  shows "readable (ConditionalExp c t e)"
  unfolding readable_def
proof (intro allI impI)
  fix m rest e' r'
  let ?e = "ConditionalExp c t e"
  assume m: "m \<le> get_precedence ?e" and right_end: "\<not> continues (open_level ?e) rest"
    and loop: "read_loop m ?e rest e' r'"
  from right_end have rest: "\<not> continues k rest" for k
    using continues_mono [of k rest 0] by auto
  have "reads 0 (strip (lexemes e) @ rest) e rest"
    by (rule readableD [OF assms(3)]) (simp_all add: rest stop)
  moreover have "reads 0 (strip (lexemes t) @ T_colon # strip (lexemes e) @ rest) t
      (T_colon # strip (lexemes e) @ rest)"
    by (rule read_delimited [OF assms(2)]) simp
  ultimately have "read_loop 0 c (T_question # strip (lexemes t) @ T_colon # strip (lexemes e) @ rest) e' r'"
    using loop m by (auto intro: cond)
  then have "reads 0 (strip (lexemes c) @ T_question # strip (lexemes t) @ T_colon # strip (lexemes e) @ rest) e' r'"
    by (rule readableD [OF assms(1), rotated 2]) (use assms(4) open_level_ge [of c] in auto)
  then show "reads m (strip (lexemes ?e) @ rest) e' r'"
    using m by (simp add: Let_def no_parens_at_0 paren_tokens_def)
qed

lemma readable_binder:
  assumes "readable b" "get_precedence e = 0" "open_level e = 0"
    and lex: "strip (lexemes e) = t # strip (lexemes b)"
    and rule: "\<And>ts r. reads 0 ts b r \<Longrightarrow> read_prefix (t # ts) e r"
  shows "readable e"
  unfolding readable_def
proof (intro allI impI)
  fix m rest e' r'
  assume m: "m \<le> get_precedence e" and right_end: "\<not> continues (open_level e) rest"
    and loop: "read_loop m e rest e' r'"
  have rest: "\<not> continues k rest" for k
    using right_end assms(3) continues_mono [of k rest 0] by auto
  have "reads 0 (strip (lexemes b) @ rest) b rest"
    by (rule readableD [OF assms(1)]) (simp_all add: rest stop)
  from level [OF rule [OF this] loop] lex show "reads m (strip (lexemes e) @ rest) e' r'" by simp
qed

lemma readable_postfix:
  assumes "readable b" "get_precedence e = 15"
    and lex: "strip (lexemes e) = paren_tokens (needs_parentheses b e False) (strip (lexemes b)) @ ts"
    and rule: "\<And>m rest e' r'. m \<le> 15 \<Longrightarrow> read_loop m e rest e' r' \<Longrightarrow> read_loop m b (ts @ rest) e' r'"
  shows "readable e"
  unfolding readable_def
proof (intro allI impI)
  fix m rest e' r'
  assume m: "m \<le> get_precedence e" and loop: "read_loop m e rest e' r'"
  from rule [OF _ loop] m assms(2) have "read_loop m b (ts @ rest) e' r'" by simp
  then have "reads m (paren_tokens (needs_parentheses b e False) (strip (lexemes b)) @ ts @ rest) e' r'"
  proof (rule read_operand [OF assms(1), rotated])
    assume "\<not> needs_parentheses b e False"
    then have 15: "15 \<le> get_precedence b" using paren_other_level assms(2) by metis
    then have "open_level b = 16" by (cases b) (use binary_precedence_le le_trans in fastforce)+
    with 15 m assms(2) show "m \<le> get_precedence b \<and> \<not> continues (open_level b) (ts @ rest)" by simp
  qed
  with lex show "reads m (strip (lexemes e) @ rest) e' r'" by simp
qed

lemma safe_readable:
  "safe e \<Longrightarrow> readable e"
  "safe_app a \<Longrightarrow> readable (FunctionCall a)"
proof (induction e and a rule: safe_safe_app.induct)
  case (1 es)
  have "read_prefix (strip (lexemes (ArrayLiteral es)) @ rest) (ArrayLiteral es) rest" for rest
    using array [OF read_items [of es T_rbracket rest]] 1 by (auto simp: strip_join list_all_iff o_def)
  then show ?case by (rule read_closed)
next
  case (2 op l r)
  then show ?case by (auto intro: readable_binary)
next
  case (3 op e)
  then show ?case by (auto intro: readable_unary)
next
  case (4 c t e)
  then show ?case by (auto simp: fit_condition_level intro: readable_conditional)
next
  case (5 a v b)
  then have "readable b" by simp
  then show ?case
    by (rule readable_binder [where t = "T_quant a v"])
      (simp_all add: no_parens_at_0 paren_tokens_def quant)
next
  case (6 u vs b)
  then have "readable b" by simp
  then show ?case
    by (rule readable_binder [where t = "T_sum u vs"])
      (simp_all add: no_parens_at_0 paren_tokens_def reads_read_prefix_read_loop_read_list.sum)
next
  case (7 b i)
  then have b: "readable b" and i: "readable i" by auto
  show ?case
  proof (rule readable_postfix [OF b, where ts = "T_lbracket # strip (lexemes i) @ [T_rbracket]"])
    fix m :: nat and rest e' r'
    assume "m \<le> 15" "read_loop m (ArrayAccess b i) rest e' r'"
    then show "read_loop m b ((T_lbracket # strip (lexemes i) @ [T_rbracket]) @ rest) e' r'"
      using index [OF _ read_delimited [OF i, of T_rbracket rest]] by (simp add: postfix_level_def)
  qed simp_all
next
  case (8 b f)
  then have "readable b" by simp
  then show ?case
    by (rule readable_postfix [where ts = "[T_field f]"]) (simp_all add: field postfix_level_def)
next
  case (11 ann n host params state)
  have "read_prefix (strip (lexemes (FunctionCall (FunctionApplication ann n host params state))) @ rest)
      (FunctionCall (FunctionApplication ann n host params state)) rest" for rest
    using call [OF read_items [of params T_rparen rest]] 11 by (auto simp: strip_join list_all_iff o_def)
  then show ?case by (rule read_closed)
qed (auto intro!: read_closed bool number hex string ident sig)


subsection \<open>What the printer guarantees\<close>

lemma print_exp_text: "print_exp e = text_of (lexemes e)"
  by (simp add: print_inner_lexemes)

lemma safe_reads: "safe e \<Longrightarrow> reads 0 (strip (lexemes e)) e []"
  using readableD [OF safe_readable(1), of e 0 "[]" e "[]"] stop [of 0 "[]" e] by simp

text \<open>
  C7: The text \<^verbatim>\<open>print_expression\<close> produces for a safe expression is the text of a token stream
  that the grammar above, which owes nothing to the printer's tables, reads back, completely, as the very
  same expression, and as no other: the precedence levels, the groupings and the operator symbols of the
  printer are the grammar's, and the parentheses \<^verbatim>\<open>needs_parentheses\<close> asks for are enough for every
  operator, associativity and nesting. The token boundaries are the printer's.
\<close>

theorem printed_expression_reads_back:
  assumes "safe e"
  shows "print_expression e None False = text_of (lexemes e) \<and>
    reads 0 (strip (lexemes e)) e [] \<and>
    (\<forall>e' r. reads 0 (strip (lexemes e)) e' r \<longrightarrow> e' = e \<and> r = [])"
  using safe_reads [OF assms] reads_deterministic(1) print_exp_text by blast

definition sample_expression :: expression where
  \<comment> \<open>\<^verbatim>\<open>(a - (b - c)) ^ (- d) => (x ? y : z) in s\<close>\<close>
  "sample_expression =
     (let v = (\<lambda>n. Identifier n None) in
      BinaryOp B_implies
        (BinaryOp B_exponent
          (BinaryOp B_sub (v ''a'') (BinaryOp B_sub (v ''b'') (v ''c''))) (UnaryOp U_uminus (v ''d'')))
        (BinaryOp B_in (ConditionalExp (v ''x'') (v ''y'') (v ''z'')) (v ''s'')))"

theorem printed_expression_reads_back_witness:
  "print_expression sample_expression None False = ''(a - (b - c)) ^ (- d) => (x ? y : z) in s'' \<and>
   reads 0 (strip (lexemes sample_expression)) sample_expression []"
proof -
  have "safe sample_expression" by (simp add: sample_expression_def)
  from printed_expression_reads_back [OF this]
  have "reads 0 (strip (lexemes sample_expression)) sample_expression []" by blast
  moreover have "print_expression sample_expression None False =
      ''(a - (b - c)) ^ (- d) => (x ? y : z) in s''"
    by (simp add: sample_expression_def Let_def needs_parentheses_def right_assoc_def print_identifier_def)
  ultimately show ?thesis by simp
qed

text \<open>
  Two safe expressions that print to the same tokens are equal: the printer loses nothing of
  the tree, so \<^verbatim>\<open>print_expression\<close> is injective up to the lexing of names and literals.
\<close>

theorem print_expression_tokens_inject:
  assumes "safe e1" "safe e2" "strip (lexemes e1) = strip (lexemes e2)"
  shows "e1 = e2"
  using safe_reads [OF assms(1)] safe_reads [OF assms(2)] assms(3) reads_deterministic(1) by metis

theorem print_expression_tokens_inject_witness:
  "strip (lexemes sample_expression) \<noteq> strip (lexemes (BinaryOp B_iff sample_expression sample_expression))"
proof
  assume eq: "strip (lexemes sample_expression) =
    strip (lexemes (BinaryOp B_iff sample_expression sample_expression))"
  have "sample_expression = BinaryOp B_iff sample_expression sample_expression"
    by (rule print_expression_tokens_inject [OF _ _ eq]) (simp_all add: sample_expression_def)
  then show False by (simp add: sample_expression_def)
qed

text \<open>
  A conditional in the condition of a conditional is printed without parentheses, so the text is
  the one of the conditional nested in the else branch, for all operands: the two different trees
  cannot be told apart in the specification file.
\<close>

theorem nested_condition_ambiguous:
  "print_expression (ConditionalExp (ConditionalExp a b c) d e) None False =
     print_expression (ConditionalExp a b (ConditionalExp c d e)) None False \<and>
   ConditionalExp (ConditionalExp a b c) d e \<noteq> ConditionalExp a b (ConditionalExp c d e)"
proof
  show "print_expression (ConditionalExp (ConditionalExp a b c) d e) None False =
     print_expression (ConditionalExp a b (ConditionalExp c d e)) None False"
    by (simp add: Let_def no_parens_at_0)
  have "size (ConditionalExp a b c) \<noteq> size a" by simp
  then show "ConditionalExp (ConditionalExp a b c) d e \<noteq> ConditionalExp a b (ConditionalExp c d e)"
    by (metis expression.inject(9))
qed

text \<open>
  A quantifier in the condition of a conditional is printed without parentheses as well: the
  text is the one of the quantifier whose body is the whole conditional.
\<close>

theorem quantified_condition_ambiguous:
  "print_expression (ConditionalExp (QuantifierExp is_forall v b) t e) None False =
     print_expression (QuantifierExp is_forall v (ConditionalExp b t e)) None False"
  by (simp add: Let_def no_parens_at_0)

text \<open>
  The state binding of a call (the \<^verbatim>\<open>at\<close> clause, field \<^verbatim>\<open>state\<close>) never reaches the text: a
  call bound to a state prints exactly like the unbound call, whatever the state and wherever the
  call stands.
\<close>

theorem call_state_not_printed:
  "print_expression (FunctionCall (FunctionApplication ann n host params (Some s))) parent right =
     print_expression (FunctionCall (FunctionApplication ann n host params None)) parent right"
  by (auto simp: needs_parentheses_def split: option.split)

end
