(* ===== verification/Cvl_Lines.thy ===== *)
theory Cvl_Lines
  imports Cvl_Printer
begin

text \<open>
  The line builder of \<^verbatim>\<open>composer/cvl/pretty_print.py\<close> (\<^verbatim>\<open>LineBuilder\<close> with the line under
  construction, its \<^verbatim>\<open>LineInterleaver\<close>) and the printers of commands. A builder is a record
  passed along and returned. The nested builder of \<^verbatim>\<open>with ident.indent() as nested\<close> is a second
  record; leaving the block appends its buffer to the parent, which is \<open>exit_nested\<close>.

  \<open>command_layout\<close> is the specification: the lines of a command as pairs of nesting depth and text.
  The stateful printers append exactly these lines, and the layout is well nested.
\<close>

subsection \<open>The builder\<close>

record line_builder =
  lb_indent :: nat
  lb_buffer :: "string list"
  lb_child :: "string option" \<comment> \<open>the \<^verbatim>\<open>string_buff\<close> of \<^verbatim>\<open>child_line\<close>, if there is one\<close>

datatype print_error = MultipleLines \<comment> \<open>\<^verbatim>\<open>RuntimeError("Cannot build multiple lines at once")\<close>\<close>

definition new_builder :: "nat \<Rightarrow> line_builder" where
  "new_builder n = \<lparr>lb_indent = n, lb_buffer = [], lb_child = None\<rparr>"

definition indent_prefix :: "nat \<Rightarrow> string" where
  "indent_prefix n = concat (replicate n ''  '')"

definition line :: "string \<Rightarrow> line_builder \<Rightarrow> line_builder" where
  "line s b = b\<lparr>lb_buffer := lb_buffer b @ [indent_prefix (lb_indent b) @ s]\<rparr>"

definition flush_child :: "line_builder \<Rightarrow> line_builder" where
  "flush_child b =
     (case lb_child b of
        Some s \<Rightarrow> if s \<noteq> [] then (line s b)\<lparr>lb_child := Some []\<rparr> else b
      | None \<Rightarrow> b)"

definition exit_nested :: "line_builder \<Rightarrow> line_builder \<Rightarrow> line_builder" where
  "exit_nested parent nested = parent\<lparr>lb_buffer := lb_buffer parent @ lb_buffer nested\<rparr>"

definition with_indent :: "(line_builder \<Rightarrow> line_builder) \<Rightarrow> line_builder \<Rightarrow> line_builder" where
  \<comment> \<open>\<^verbatim>\<open>with ident.indent() as nested: body(nested)\<close>\<close>
  "with_indent body b = exit_nested (flush_child b) (body (new_builder (lb_indent b + 1)))"

definition append :: "string \<Rightarrow> line_builder \<Rightarrow> line_builder" where
  "append s b = b\<lparr>lb_child := map_option (\<lambda>t. t @ s) (lb_child b)\<rparr>"

definition finalize_me :: "line_builder \<Rightarrow> line_builder" where
  "finalize_me b =
     (case lb_child b of
        Some s \<Rightarrow> if s \<noteq> [] then (line s b)\<lparr>lb_child := None\<rparr> else b\<lparr>lb_child := None\<rparr>
      | None \<Rightarrow> b)"

definition open_line :: "line_builder \<Rightarrow> print_error + line_builder" where
  "open_line b = (if lb_child b \<noteq> None then Inl MultipleLines else Inr (b\<lparr>lb_child := Some []\<rparr>))"

definition with_line ::
  "(line_builder \<Rightarrow> line_builder) \<Rightarrow> line_builder \<Rightarrow> print_error + line_builder" where
  \<comment> \<open>\<^verbatim>\<open>with ident.line_builder() as lb: body(lb)\<close>\<close>
  "with_line body b = bindE (open_line b) (\<lambda>b1. Inr (finalize_me (body b1)))"

subsection \<open>Commands\<close>

definition print_declaration_cmd :: "type_and_id \<Rightarrow> expression option \<Rightarrow> string" where
  "print_declaration_cmd v init =
     (let var = print_type_and_id v in
      case init of Some e \<Rightarrow> var @ '' = '' @ print_exp e @ '';'' | None \<Rightarrow> var @ '';'')"

definition print_assignment_cmd :: "left_hand_side list \<Rightarrow> expression \<Rightarrow> string" where
  "print_assignment_cmd lhss e =
     (let lhs = map print_left_hand_side lhss; rhs = print_exp e in
      case lhs of
        [l] \<Rightarrow> l @ '' = '' @ rhs @ '';''
      | _ \<Rightarrow> ''('' @ comma_join lhs @ '') = '' @ rhs @ '';'')"

definition print_havoc_cmd :: "left_hand_side list \<Rightarrow> expression option \<Rightarrow> string" where
  "print_havoc_cmd targets assumed =
     ''havoc '' @ comma_join (map print_left_hand_side targets) @
     (case assumed of Some e \<Rightarrow> '' assuming '' @ print_exp e | None \<Rightarrow> []) @ '';''"

definition print_checked_cmd :: "string \<Rightarrow> expression \<Rightarrow> string \<Rightarrow> string" where
  \<comment> \<open>\<^verbatim>\<open>require(e, "msg");\<close>, and the same for \<^verbatim>\<open>assert\<close> and \<^verbatim>\<open>satisfy\<close>\<close>
  "print_checked_cmd kw e msg =
     kw @ ''('' @ print_exp e @ '', '' @ dquote @ msg @ dquote @ '');''"

definition print_assume_invariant_cmd :: "string \<Rightarrow> expression list \<Rightarrow> string" where
  "print_assume_invariant_cmd n args =
     ''requireInvariant '' @ n @
     (if args \<noteq> [] then print_and_join args print_exp ''('' '')'' else []) @ '';''"

definition print_return_cmd :: "expression list \<Rightarrow> string" where
  "print_return_cmd vs =
     (let values = map print_exp vs in
      case values of
        [] \<Rightarrow> ''return;''
      | [v] \<Rightarrow> ''return '' @ v @ '';''
      | _ \<Rightarrow> ''return ('' @ comma_join values @ '');'')"

definition print_revert_cmd :: "string option \<Rightarrow> string" where
  "print_revert_cmd msg =
     (if truthy msg then ''revert('' @ dquote @ the msg @ dquote @ '');'' else ''revert;'')"

definition if_header :: "expression \<Rightarrow> bool \<Rightarrow> string" where
  "if_header c is_elseif =
     (let if_line = ''if('' @ print_exp c @ '') {'' in
      if is_elseif then ''} else '' @ if_line else if_line)"

fun print_command :: "command \<Rightarrow> line_builder \<Rightarrow> line_builder"
  and print_command_seq :: "command list \<Rightarrow> line_builder \<Rightarrow> line_builder"
  and print_if_cmd :: "if_cmd \<Rightarrow> bool \<Rightarrow> line_builder \<Rightarrow> line_builder"
  and print_elif :: "else_block \<Rightarrow> line_builder \<Rightarrow> line_builder"
where
  "print_command (DeclarationCmd v init) b = line (print_declaration_cmd v init) b"
| "print_command (AssignmentCmd lhs e) b = line (print_assignment_cmd lhs e) b"
| "print_command (HavocCmd ts a) b = line (print_havoc_cmd ts a) b"
| "print_command (AssumeCmd e m) b = line (print_checked_cmd ''require'' e m) b"
| "print_command (AssumeInvariantCmd n args) b = line (print_assume_invariant_cmd n args) b"
| "print_command (ApplyCmd t) b = line (print_function_application t @ '';'') b"
| "print_command (ResetStorageCmd e) b = line (''reset_storage '' @ print_exp e @ '';'') b"
| "print_command (AssertCmd e m) b = line (print_checked_cmd ''assert'' e m) b"
| "print_command (SatisfyCmd e m) b = line (print_checked_cmd ''satisfy'' e m) b"
| "print_command (ReturnCmd vs) b = line (print_return_cmd vs) b"
| "print_command (RevertCmd m) b = line (print_revert_cmd m) b"
| "print_command (CmdIf i) b = print_if_cmd i False b"
| "print_command (BlockCmd cs) b =
     line ''}'' (with_indent (print_command_seq cs) (line ''{'' b))"
| "print_command_seq [] b = b"
| "print_command_seq (c # cs) b = print_command_seq cs (print_command c b)"
| "print_if_cmd (IfCmd c thn els) is_elseif b =
     (let b1 = with_indent (print_command_seq thn) (line (if_header c is_elseif) b) in
      case els of None \<Rightarrow> line ''}'' b1 | Some e \<Rightarrow> print_elif e b1)"
| "print_elif (Else cs) b = line ''}'' (with_indent (print_command_seq cs) (line ''} else {'' b))"
| "print_elif (ElseIf i) b = print_if_cmd i True b"

subsection \<open>The layout of a command\<close>

type_synonym layout = "(nat \<times> string) list"

definition deeper :: "layout \<Rightarrow> layout" where
  "deeper = map (\<lambda>(d, s). (Suc d, s))"

definition render_line :: "nat \<Rightarrow> nat \<times> string \<Rightarrow> string" where
  "render_line n = (\<lambda>(d, s). indent_prefix (n + d) @ s)"

definition emit :: "layout \<Rightarrow> line_builder \<Rightarrow> line_builder" where
  "emit ls b = b\<lparr>lb_buffer := lb_buffer b @ map (render_line (lb_indent b)) ls\<rparr>"

fun command_layout :: "command \<Rightarrow> layout"
  and commands_layout :: "command list \<Rightarrow> layout"
  and if_layout :: "if_cmd \<Rightarrow> bool \<Rightarrow> layout"
  and elif_layout :: "else_block \<Rightarrow> layout"
where
  "command_layout (DeclarationCmd v init) = [(0, print_declaration_cmd v init)]"
| "command_layout (AssignmentCmd lhs e) = [(0, print_assignment_cmd lhs e)]"
| "command_layout (HavocCmd ts a) = [(0, print_havoc_cmd ts a)]"
| "command_layout (AssumeCmd e m) = [(0, print_checked_cmd ''require'' e m)]"
| "command_layout (AssumeInvariantCmd n args) = [(0, print_assume_invariant_cmd n args)]"
| "command_layout (ApplyCmd t) = [(0, print_function_application t @ '';'')]"
| "command_layout (ResetStorageCmd e) = [(0, ''reset_storage '' @ print_exp e @ '';'')]"
| "command_layout (AssertCmd e m) = [(0, print_checked_cmd ''assert'' e m)]"
| "command_layout (SatisfyCmd e m) = [(0, print_checked_cmd ''satisfy'' e m)]"
| "command_layout (ReturnCmd vs) = [(0, print_return_cmd vs)]"
| "command_layout (RevertCmd m) = [(0, print_revert_cmd m)]"
| "command_layout (CmdIf i) = if_layout i False"
| "command_layout (BlockCmd cs) = (0, ''{'') # deeper (commands_layout cs) @ [(0, ''}'')]"
| "commands_layout [] = []"
| "commands_layout (c # cs) = command_layout c @ commands_layout cs"
| "if_layout (IfCmd c thn els) is_elseif =
     (0, if_header c is_elseif) # deeper (commands_layout thn) @
     (case els of None \<Rightarrow> [(0, ''}'')] | Some e \<Rightarrow> elif_layout e)"
| "elif_layout (Else cs) = (0, ''} else {'') # deeper (commands_layout cs) @ [(0, ''}'')]"
| "elif_layout (ElseIf i) = if_layout i True"

lemma emit_Nil [layout_simps]: "emit [] b = b"
  by (simp add: emit_def)

lemma emit_emit [layout_simps]: "emit ks (emit ls b) = emit (ls @ ks) b"
  by (simp add: emit_def)

lemma line_emit [layout_simps]: "line s b = emit [(0, s)] b"
  by (simp add: line_def emit_def render_line_def)

lemma lb_indent_emit [simp]: "lb_indent (emit ls b) = lb_indent b"
  and lb_child_emit [simp]: "lb_child (emit ls b) = lb_child b"
  by (simp_all add: emit_def)

lemma with_indent_emit [layout_simps]:
  assumes "\<And>b'. lb_child b' = None \<Longrightarrow> body b' = emit ls b'" and "lb_child b = None"
  shows "with_indent body b = emit (deeper ls) b"
proof -
  have "body (new_builder (lb_indent b + 1)) = emit ls (new_builder (lb_indent b + 1))"
    by (rule assms(1)) (simp add: new_builder_def)
  then show ?thesis
    using assms(2)
    by (simp add: with_indent_def flush_child_def exit_nested_def emit_def new_builder_def
        deeper_def render_line_def split_beta o_def)
qed

lemma print_command_emit:
  "lb_child b = None \<Longrightarrow> print_command c b = emit (command_layout c) b"
  "lb_child b = None \<Longrightarrow> print_command_seq cs b = emit (commands_layout cs) b"
  "lb_child b = None \<Longrightarrow> print_if_cmd i el b = emit (if_layout i el) b"
  "lb_child b = None \<Longrightarrow> print_elif e b = emit (elif_layout e) b"
  by (induction c b and cs b and i el b and e b
      rule: print_command_print_command_seq_print_if_cmd_print_elif.induct)
    (simp_all add: layout_simps with_indent_emit split: option.splits)

subsection \<open>The line under construction\<close>

text \<open>
  \<open>building ls s b\<close>: the builder \<open>b\<close> after the lines \<open>ls\<close>, with the text \<open>s\<close> waiting in the
  interleaver. Entering a nested block emits the waiting text first, so lines keep their order.
\<close>

definition building :: "layout \<Rightarrow> string \<Rightarrow> line_builder \<Rightarrow> line_builder" where
  "building ls s b = emit ls (b\<lparr>lb_child := Some s\<rparr>)"

definition waiting :: "string \<Rightarrow> layout" where
  "waiting s = (if s = [] then [] else [(0, s)])"

lemma waiting_simps [layout_simps]: "waiting [] = []" "s \<noteq> [] \<Longrightarrow> waiting s = [(0, s)]"
  by (simp_all add: waiting_def)

lemma append_building [layout_simps]: "append t (building ls s b) = building ls (s @ t) b"
  by (simp add: append_def building_def emit_def)

lemma with_indent_building [layout_simps]:
  assumes "\<And>b'. lb_child b' = None \<Longrightarrow> body b' = emit ks b'"
  shows "with_indent body (building ls s b) = building (ls @ waiting s @ deeper ks) [] b"
proof -
  have "body (new_builder (lb_indent b + 1)) = emit ks (new_builder (lb_indent b + 1))"
    by (rule assms(1)) (simp add: new_builder_def)
  then show ?thesis
    by (simp add: with_indent_def flush_child_def exit_nested_def emit_def new_builder_def building_def
        waiting_def line_def deeper_def render_line_def split_beta o_def)
qed

lemma finalize_me_building [layout_simps]:
  "finalize_me (building ls s b) = emit (ls @ waiting s) (b\<lparr>lb_child := None\<rparr>)"
  by (simp add: finalize_me_def building_def emit_def waiting_def line_def render_line_def)

lemma no_child_update [simp]: "lb_child b = None \<Longrightarrow> b\<lparr>lb_child := None\<rparr> = b"
  by (cases b) simp

lemma with_line_building [layout_simps]:
  assumes "lb_child b = None"
  shows "with_line body b = Inr (finalize_me (body (building [] [] b)))"
proof -
  have "b\<lparr>lb_child := Some []\<rparr> = building [] [] b"
    by (simp add: building_def emit_Nil)
  with assms show ?thesis
    by (simp add: with_line_def open_line_def)
qed

subsection \<open>Well-nested layouts\<close>

text \<open>
  A layout is well nested at depth \<open>d\<close> when its lines are plain lines at depth \<open>d\<close> and blocks: a line
  at depth \<open>d\<close> that ends in an opening brace, a body well nested one level deeper, possibly
  continued by lines that close the brace and open the next one, and a closing brace at depth \<open>d\<close>.
\<close>

definition opens :: "string \<Rightarrow> bool" where
  "opens s \<longleftrightarrow> s \<noteq> [] \<and> last s = CHR ''{''"

definition reopens :: "string \<Rightarrow> bool" where
  "reopens s \<longleftrightarrow> opens s \<and> take 2 s = ''} ''"

definition statement :: "string \<Rightarrow> bool" where
  "statement s \<longleftrightarrow> s \<noteq> [] \<and> last s = CHR '';''"

inductive well_nested :: "(string \<Rightarrow> bool) \<Rightarrow> nat \<Rightarrow> layout \<Rightarrow> bool"
  and closing :: "(string \<Rightarrow> bool) \<Rightarrow> nat \<Rightarrow> layout \<Rightarrow> bool"
  for P :: "string \<Rightarrow> bool"
where
  wn_nil: "well_nested P d []"
| wn_line: "P s \<Longrightarrow> well_nested P d rest \<Longrightarrow> well_nested P d ((d, s) # rest)"
| wn_block: "opens s \<Longrightarrow> well_nested P (Suc d) body \<Longrightarrow> closing P d tail \<Longrightarrow> well_nested P d rest \<Longrightarrow>
     well_nested P d ((d, s) # body @ tail @ rest)"
| wn_close: "closing P d [(d, ''}'')]"
| wn_reopen: "reopens s \<Longrightarrow> well_nested P (Suc d) body \<Longrightarrow> closing P d tail \<Longrightarrow>
     closing P d ((d, s) # body @ tail)"

lemma deeper_simps [simp]:
  "deeper [] = []" "deeper ((d, s) # ls) = (Suc d, s) # deeper ls"
  "deeper (ls @ ks) = deeper ls @ deeper ks"
  by (simp_all add: deeper_def)

lemma well_nested_deeper:
  "well_nested P d ls \<Longrightarrow> well_nested P (Suc d) (deeper ls)"
  "closing P d ls \<Longrightarrow> closing P (Suc d) (deeper ls)"
  by (induction rule: well_nested_closing.inducts) (auto intro: well_nested_closing.intros)

lemma well_nested_append:
  "well_nested P d ls \<Longrightarrow> well_nested P d ks \<Longrightarrow> well_nested P d (ls @ ks)"
  by (induction ls rule: well_nested_closing.inducts(1) [where ?P2.0 = "\<lambda>_ _. True"])
    (auto intro: well_nested_closing.intros)

lemma well_nested_mono:
  "well_nested P d ls \<Longrightarrow> (\<And>s. P s \<Longrightarrow> Q s) \<Longrightarrow> well_nested Q d ls"
  "closing P d ls \<Longrightarrow> (\<And>s. P s \<Longrightarrow> Q s) \<Longrightarrow> closing Q d ls"
  by (induction rule: well_nested_closing.inducts) (auto intro: well_nested_closing.intros)

lemma well_nested_block:
  "opens s \<Longrightarrow> well_nested P 0 body \<Longrightarrow> closing P 0 tail \<Longrightarrow>
     well_nested P 0 ((0, s) # deeper body @ tail)"
  using wn_block [of s P 0 "deeper body" tail "[]"] by (auto intro: well_nested_deeper wn_nil)

lemma well_nested_single: "P s \<Longrightarrow> well_nested P 0 [(0, s)]"
  by (auto intro: wn_line wn_nil)

lemma statement_texts [simp]:
  "statement (print_declaration_cmd v init)" "statement (print_assignment_cmd lhs e)"
  "statement (print_havoc_cmd ts a)" "statement (print_checked_cmd kw e m)"
  "statement (print_assume_invariant_cmd n args)" "statement (print_return_cmd vs)"
  "statement (print_revert_cmd r)" "statement (t @ '';'')"
  by (simp_all add: statement_def print_declaration_cmd_def print_assignment_cmd_def print_havoc_cmd_def
      print_checked_cmd_def print_assume_invariant_cmd_def print_return_cmd_def print_revert_cmd_def
      Let_def split: option.split list.split)

lemma statement_Cons [simp]: "t \<noteq> [] \<Longrightarrow> statement (c # t) = statement t"
  by (simp add: statement_def)

lemma if_header_opens [simp]: "opens (if_header c el)" "reopens (if_header c True)"
  by (simp_all add: opens_def reopens_def if_header_def Let_def)

lemma brace_texts [simp]: "opens ''{''" "reopens ''} else {''"
  by (simp_all add: opens_def reopens_def)

lemma closing_block:
  "reopens s \<Longrightarrow> well_nested P 0 body \<Longrightarrow> closing P 0 tail \<Longrightarrow>
     closing P 0 ((0, s) # deeper body @ tail)"
  by (auto intro: well_nested_deeper wn_reopen)

lemma layout_well_nested:
  "well_nested statement 0 (command_layout c)"
  "well_nested statement 0 (commands_layout cs)"
  "(if el then closing statement 0 (if_layout i el) else well_nested statement 0 (if_layout i el))"
  "closing statement 0 (elif_layout e)"
proof (induction c and cs and i el and e
    rule: command_layout_commands_layout_if_layout_elif_layout.induct)
  case (16 c thn els el)
  have tail: "closing statement 0 (case els of None \<Rightarrow> [(0, ''}'')] | Some e \<Rightarrow> elif_layout e)"
    using "16.IH"(2) by (auto intro: wn_close split: option.split)
  show ?case
    using closing_block [OF if_header_opens(2) "16.IH"(1) tail]
      well_nested_block [OF if_header_opens(1) "16.IH"(1) tail]
    by simp
qed (auto intro!: well_nested_single well_nested_block closing_block wn_close wn_nil well_nested_append
      simp del: deeper_simps)

text \<open>
  Printing a command appends exactly the lines of its layout, each indented by two blanks per
  level below the builder's own indentation, leaves the builder otherwise unchanged, and the layout is
  well nested: every line is a statement ending in a semicolon at its depth or opens a block whose
  body stands one level deeper and whose closing brace stands at the depth of its opening line.
\<close>

theorem print_command_layout:
  assumes "lb_child b = None"
  shows "print_command c b =
      b\<lparr>lb_buffer := lb_buffer b @ map (render_line (lb_indent b)) (command_layout c)\<rparr> \<and>
    well_nested statement 0 (command_layout c)"
  using print_command_emit(1) [OF assms] layout_well_nested(1) by (simp add: emit_def)

definition sample_command :: command where
  \<comment> \<open>an \<^verbatim>\<open>if\<close> / \<^verbatim>\<open>else if\<close> / \<^verbatim>\<open>else\<close> chain with a nested block\<close>
  "sample_command =
     (let v = (\<lambda>n. Identifier n None) in
      CmdIf (IfCmd (v ''a'') [RevertCmd None]
        (Some (ElseIf (IfCmd (v ''b'') [BlockCmd [ReturnCmd []]]
          (Some (Else [AssignmentCmd [IdLhs ''x''] (v ''y'')])))))))"

theorem print_command_layout_witness:
  "lb_buffer (print_command sample_command (new_builder 1)) =
     [''  if(a) {'', ''    revert;'', ''  } else if(b) {'', ''    {'', ''      return;'', ''    }'',
      ''  } else {'', ''    x = y;'', ''  }''] \<and>
   well_nested statement 0 (command_layout sample_command)"
proof -
  have child: "lb_child (new_builder 1) = None" by (simp add: new_builder_def)
  have "map (render_line 1) (command_layout sample_command) =
     [''  if(a) {'', ''    revert;'', ''  } else if(b) {'', ''    {'', ''      return;'', ''    }'',
      ''  } else {'', ''    x = y;'', ''  }'']"
    by (simp add: sample_command_def Let_def deeper_def render_line_def indent_prefix_def numeral_eq_Suc
        if_header_def print_identifier_def print_revert_cmd_def print_return_cmd_def
        print_assignment_cmd_def)
  then show ?thesis
    using print_command_layout [OF child, of sample_command] by (simp add: new_builder_def)
qed

end

