(* ===== verification/Cvl_Blocks.thy ===== *)
theory Cvl_Blocks
  imports Cvl_Lines
begin

text \<open>
  The top-level printers of \<^verbatim>\<open>composer/cvl/pretty_print.py\<close>: rules, functions, invariants, sorts,
  ghosts, macros, hooks, the methods block, and \<^verbatim>\<open>pretty_print\<close> itself. Each block is printed
  into a fresh line builder; the ones that assemble a header piece by piece use the interleaver and
  may therefore raise, which the error sum records.

  \<open>block_layout\<close> specifies the lines of every kind of block.
\<close>

subsection \<open>Pieces\<close>

definition print_code_block :: "code_block \<Rightarrow> line_builder \<Rightarrow> line_builder" where
  "print_code_block blk b = print_command_seq (cb_commands blk) b"

definition filtered_text :: "filtered_block \<Rightarrow> bool \<Rightarrow> string" where
  "filtered_text f append_comma =
     (let l = fb_method_param f @ '' -> '' @ print_exp (fb_e f) in
      if append_comma then l @ '','' else l)"

definition print_filtered_block :: "filtered_block \<Rightarrow> bool \<Rightarrow> line_builder \<Rightarrow> line_builder" where
  "print_filtered_block f append_comma b = line (filtered_text f append_comma) b"

fun print_filters :: "filtered_block list \<Rightarrow> line_builder \<Rightarrow> line_builder" where
  \<comment> \<open>the loop over \<^verbatim>\<open>enumerate(rule.filtered_block)\<close>: a comma after all but the last\<close>
  "print_filters [] b = b"
| "print_filters (f # fs) b = print_filters fs (print_filtered_block f (fs \<noteq> []) b)"

definition print_vm_param :: "vm_param \<Rightarrow> string" where
  "print_vm_param p =
     (let res = print_vm_type (vp_ty p) in
      if truthy (vp_name p) then res @ '' '' @ the (vp_name p) else res)"

definition to_cvl_bool :: "bool \<Rightarrow> string" where
  "to_cvl_bool b = (if b then ''true'' else ''false'')"

fun print_slot_pattern :: "slot_pattern \<Rightarrow> string" where
  "print_slot_pattern (ArrayAccessSlotPattern base p) =
     print_slot_pattern base @ ''[INDEX '' @ print_namedvm_param p @ '']''"
| "print_slot_pattern (NamedSlotPattern n) = n"
| "print_slot_pattern (FieldAccessSlotPattern base f) = print_slot_pattern base @ ''.'' @ f"
| "print_slot_pattern (MapAccessSlotPattern base p) =
     print_slot_pattern base @ ''[KEY '' @ print_namedvm_param p @ '']''"

definition type_to_pattern_name :: "string \<Rightarrow> string" where
  "type_to_pattern_name ty = upper (take 1 ty) @ drop 1 ty"

subsection \<open>Rules, functions, invariants\<close>

definition rule_head :: "rule_block \<Rightarrow> string" where
  "rule_head r =
     (let params = print_and_join (rb_rule_params r) print_type_and_id [] [] in
      ''rule '' @ rb_rule_name r @ (if params \<noteq> [] then ''('' @ params @ '')'' else []))"

definition print_rule_block :: "rule_block \<Rightarrow> line_builder \<Rightarrow> print_error + line_builder" where
  "print_rule_block r b =
     bindE (with_line
        (\<lambda>lb. let params = print_and_join (rb_rule_params r) print_type_and_id [] [];
                  b1 = append (''rule '' @ rb_rule_name r) lb;
                  b2 = (if params \<noteq> [] then append (''('' @ params @ '')'') b1 else b1);
                  b3 = (case rb_filtered_block r of
                          None \<Rightarrow> b2
                        | Some fs \<Rightarrow>
                            if fs = [] then b2
                            else append ''}'' (with_indent (print_filters fs) (append '' filtered {'' b2)))
              in append '' {'' b3) b)
       (\<lambda>b. Inr (line ''}'' (with_indent (print_code_block (rb_block r)) b)))"

definition function_head :: "function_def \<Rightarrow> string" where
  "function_head f =
     (let params = print_and_join (fd_params f) print_type_and_id [] [];
          return_types = map print_cvl_type (fd_return_value f);
          function_open = ''function '' @ fd_name f @ ''('' @ params @ '')'' in
      case return_types of
        [] \<Rightarrow> function_open @ '' {''
      | [t] \<Rightarrow> function_open @ '' returns '' @ t @ '' {''
      | _ \<Rightarrow> function_open @ '' returns ('' @ comma_join return_types @ '') {'')"

definition print_function_def :: "function_def \<Rightarrow> line_builder \<Rightarrow> line_builder" where
  "print_function_def f b =
     line ''}'' (with_indent (print_code_block (fd_block f)) (line (function_head f) b))"

definition proof_head :: "proof_block \<Rightarrow> string" where
  \<comment> \<open>the pieces \<^verbatim>\<open>_print_proof_block\<close> appends between \<^verbatim>\<open>preserved\<close> and the brace\<close>
  "proof_head p =
     (case pb_target p of
        SpecialMethod ST_constructor \<Rightarrow> '' constructor()''
      | SpecialMethod ST_fallback \<Rightarrow> ''fallback()''
      | GenericTarget \<Rightarrow> []
      | MethodTarget sig \<Rightarrow>
          '' '' @ maybe_contract (mw_host_contract sig) @
          print_and_join (mw_params sig) print_namedvm_param (mw_name sig @ ''('') '')'') @
     (case pb_with_binding p of None \<Rightarrow> [] | Some w \<Rightarrow> '' with (env '' @ wb_id w @ '')'')"

definition print_proof_block :: "proof_block \<Rightarrow> line_builder \<Rightarrow> print_error + line_builder" where
  "print_proof_block p b =
     bindE (with_line (\<lambda>lb. append '' {'' (append (proof_head p) (append ''preserved'' lb))) b)
       (\<lambda>b. Inr (line ''}'' (with_indent (print_code_block (pb_block p)) b)))"

definition with_indentE ::
  "(line_builder \<Rightarrow> print_error + line_builder) \<Rightarrow> line_builder \<Rightarrow> print_error + line_builder" where
  \<comment> \<open>\<open>with_indent\<close> whose body may raise\<close>
  "with_indentE body b =
     bindE (body (new_builder (lb_indent b + 1))) (\<lambda>n. Inr (exit_nested (flush_child b) n))"

definition print_invariant :: "invariant \<Rightarrow> line_builder \<Rightarrow> print_error + line_builder" where
  "print_invariant iv b =
     bindE (with_line
        (\<lambda>lb. let b1 = append (''invariant '' @ inv_name iv) lb;
                  b2 = (if inv_params iv \<noteq> []
                        then append (print_and_join (inv_params iv) print_type_and_id ''('' '')'') b1
                        else b1);
                  b3 = append ('' '' @ print_exp (inv_expression iv)) b2;
                  b4 = (case inv_filter iv of
                          None \<Rightarrow> b3
                        | Some f \<Rightarrow>
                            append ''}'' (with_indent (print_filtered_block f False)
                                            (append '' filtered {'' b3)))
              in if inv_proofs iv \<noteq> [] then append '' {'' b4 else b4) b)
       (\<lambda>b. if inv_proofs iv = [] then Inr b
             else bindE (with_indentE (foldE print_proof_block (inv_proofs iv)) b)
                    (\<lambda>b. Inr (line ''}'' b)))"

subsection \<open>Sorts, ghosts, macros\<close>

definition print_sort_def :: "sort_def \<Rightarrow> line_builder \<Rightarrow> line_builder" where
  "print_sort_def s b = line (''sort '' @ sd_sort_name s @ '';'') b"

definition ghost_axiom_text :: "ghost_axiom \<Rightarrow> string" where
  "ghost_axiom_text ax =
     (if ga_initial ax then ''init_state '' else []) @ ''axiom '' @ print_exp (ga_exp ax) @ '';''"

definition print_ghost_axiom :: "ghost_axiom \<Rightarrow> line_builder \<Rightarrow> line_builder" where
  "print_ghost_axiom ax b = line (ghost_axiom_text ax) b"

definition ghost_head :: "ghost_def \<Rightarrow> string" where
  "ghost_head g =
     (if gd_persistent g then ''persistent '' else []) @ ''ghost '' @
     (case gd_ghost_type g of
        GhostFunction params result \<Rightarrow>
          gd_ghost_name g @ ''('' @ print_and_join params print_cvl_type [] [] @ '') returns '' @
          print_cvl_type result
      | GhostVariable t \<Rightarrow> print_cvl_type t @ '' '' @ gd_ghost_name g)"

definition print_ghost_def :: "ghost_def \<Rightarrow> line_builder \<Rightarrow> print_error + line_builder" where
  "print_ghost_def g b =
     bindE (with_line
        (\<lambda>lb. let b1 = append (ghost_head g) lb in
              if gd_axioms g = [] then append '';'' b1 else append '' {'' b1) b)
       (\<lambda>b. if gd_axioms g = [] then Inr b
             else Inr (line ''}'' (with_indent (fold print_ghost_axiom (gd_axioms g)) b)))"

definition macro_text :: "macro_def \<Rightarrow> string" where
  "macro_text m =
     ''definition '' @ md_id m @ print_and_join (md_params m) print_type_and_id ''('' '')'' @
     '' returns '' @ print_cvl_type (md_result_type m) @ '' = '' @ print_exp (md_exp m) @ '';''"

definition print_macro_def :: "macro_def \<Rightarrow> line_builder \<Rightarrow> line_builder" where
  "print_macro_def m b = line (macro_text m) b"

subsection \<open>Hooks\<close>

definition load_pattern_text :: "string \<Rightarrow> named_vm_param \<Rightarrow> slot_pattern \<Rightarrow> string" where
  "load_pattern_text ty v slot =
     type_to_pattern_name ty @ '' '' @ print_namedvm_param v @ '' '' @ print_slot_pattern slot"

definition store_pattern_text ::
  "string \<Rightarrow> slot_pattern \<Rightarrow> named_vm_param \<Rightarrow> named_vm_param option \<Rightarrow> string" where
  "store_pattern_text ty slot new old =
     type_to_pattern_name ty @ '' '' @ print_slot_pattern slot @ '' '' @ print_namedvm_param new @
     (case old of None \<Rightarrow> [] | Some p \<Rightarrow> '' '' @ print_namedvm_param p)"

fun hook_pattern_text :: "hook_pattern \<Rightarrow> string" where
  "hook_pattern_text (SstoreHook slot new old) = store_pattern_text ''sstore'' slot new old"
| "hook_pattern_text (TstoreHook slot new old) = store_pattern_text ''tstore'' slot new old"
| "hook_pattern_text (SloadHook v slot) = load_pattern_text ''sload'' v slot"
| "hook_pattern_text (TloadHook v slot) = load_pattern_text ''tload'' v slot"
| "hook_pattern_text (CreateHook p) = ''CREATE ('' @ print_namedvm_param p @ '')''"
| "hook_pattern_text (OpcodeHook n inputs output) =
     n @ (if inputs \<noteq> [] then print_and_join inputs print_namedvm_param ''('' '')'' else []) @
     (case output of None \<Rightarrow> [] | Some p \<Rightarrow> '' '' @ print_namedvm_param p)"

definition print_hook_pattern :: "hook_pattern \<Rightarrow> line_builder \<Rightarrow> print_error + line_builder" where
  "print_hook_pattern p b =
     with_line (\<lambda>lb. append '' {'' (append (hook_pattern_text p) (append ''hook '' lb))) b"

definition print_hook_def :: "hook_def \<Rightarrow> line_builder \<Rightarrow> print_error + line_builder" where
  "print_hook_def h b =
     bindE (print_hook_pattern (hd_pattern h) b)
       (\<lambda>b. Inr (line ''}'' (with_indent (print_code_block (hd_block h)) b)))"

subsection \<open>The methods block\<close>

fun print_unresolved_target :: "unresolved_in_target \<Rightarrow> string" where
  "print_unresolved_target (UnresolvedAllInContract c) = c @ ''._''"
| "print_unresolved_target UnresolvedEverywhere = ''_._''"
| "print_unresolved_target (AnyMatchingSignature n ps) =
     ''_.'' @ n @ ''('' @ print_and_join ps print_vm_param [] [] @ '')''"
| "print_unresolved_target (SpecificMethod host ps n) =
     maybe_contract host @ n @ ''('' @ print_and_join ps print_vm_param [] [] @ '')''"

fun print_method_pattern :: "dispatch_pattern \<Rightarrow> bool \<Rightarrow> string" where
  "print_method_pattern (AllMethodsInContract c) add_comma =
     c @ ''._'' @ (if add_comma then '','' else [])"
| "print_method_pattern (SpecificMethodSignature host n ps) add_comma =
     maybe_contract host @ n @ ''('' @ print_and_join ps print_vm_type [] [] @ '')'' @
     (if add_comma then '','' else [])"

fun print_method_patterns :: "dispatch_pattern list \<Rightarrow> line_builder \<Rightarrow> line_builder" where
  "print_method_patterns [] b = b"
| "print_method_patterns (p # ps) b =
     print_method_patterns ps (line (print_method_pattern p (ps \<noteq> [])) b)"

definition print_havoc_summary :: "havocing_summary \<Rightarrow> string" where
  "print_havoc_summary h = upper (havoc_keyword h)"

fun print_expect_clause :: "expect_clause option \<Rightarrow> string" where
  "print_expect_clause None = []"
| "print_expect_clause (Some (ExpectType ts)) = print_and_join ts print_vm_type '' expect ('' '')''"
| "print_expect_clause (Some ExpectVoid) = '' expect void''"

fun print_summary :: "call_summary \<Rightarrow> string" where
  "print_summary (AlwaysSummary e) = ''ALWAYS('' @ print_exp e @ '')''"
| "print_summary (HavocingSummary h) = print_havoc_summary h"
| "print_summary (KeywordSummary k) = upper (summary_keyword k)"
| "print_summary (DispatcherSummary optimistic use_fallback) =
     ''DISPATCHER(use_fallback='' @ to_cvl_bool use_fallback @
     '', optimistic='' @ to_cvl_bool optimistic @ '')''"
| "print_summary (ExpressionSummary e ec) = print_exp e @ print_expect_clause ec"

definition print_method_signature :: "method_signature \<Rightarrow> string" where
  "print_method_signature s =
     maybe_contract (mr_contract (ms_method_ref s)) @ mr_method_name (ms_method_ref s) @
     print_and_join (ms_parameters s) print_vm_param ''('' '')'' @
     '' '' @ pre_return_flag_name (ms_visibility s) @
     print_and_join (ms_return_types s) print_vm_param '' returns ('' '')'' @
     (if ms_post_flags s \<noteq> []
      then '' '' @ join '' '' (map post_return_flag_name (ms_post_flags s)) else [])"

definition unresolved_head :: "unresolved_dynamic_summary \<Rightarrow> string" where
  "unresolved_head u =
     ''unresolved external in '' @ print_unresolved_target (ud_method_ref u) @
     ''=> DISPATCH(use_fallback='' @ to_cvl_bool (dl_use_fallback (ud_summary u)) @
     '', optimistic='' @ to_cvl_bool (dl_optimistic (ud_summary u)) @ '') [''"

definition default_text :: "havocing_summary option \<Rightarrow> string" where
  "default_text d = (case d of None \<Rightarrow> [] | Some h \<Rightarrow> '' default '' @ print_havoc_summary h)"

definition catch_all_text :: "catch_all_summary \<Rightarrow> string" where
  "catch_all_text c =
     ''function '' @ ca_contract_name c @ ''._ external => '' @ print_havoc_summary (ca_summary c) @ '';''"

definition imported_function_text :: "imported_function \<Rightarrow> string" where
  "imported_function_text f =
     ''function '' @ print_method_signature (if_signature f) @
     (if truthy (if_with_env f) then '' with (env '' @ the (if_with_env f) @ '')'' else []) @
     (case if_summary f of None \<Rightarrow> [] | Some s \<Rightarrow> '' => '' @ print_summary s) @ '';''"

fun print_method_entry :: "method_entry \<Rightarrow> line_builder \<Rightarrow> print_error + line_builder" where
  "print_method_entry (UnresolvedDynamicEntry u) b =
     with_line (\<lambda>lb.
       append '';'' (append (default_text (dl_default_summary (ud_summary u)))
         (append '']'' (with_indent (print_method_patterns (dl_patterns (ud_summary u)))
           (append (unresolved_head u) lb))))) b"
| "print_method_entry (CatchAllEntry c) b = with_line (append (catch_all_text c)) b"
| "print_method_entry (ImportedFunctionEntry f) b = with_line (append (imported_function_text f)) b"

definition print_methods_block :: "methods_block \<Rightarrow> line_builder \<Rightarrow> print_error + line_builder" where
  "print_methods_block m b =
     bindE (with_indentE (foldE print_method_entry (mb_method_entries m)) (line ''methods {'' b))
       (\<lambda>b. Inr (line ''}'' b))"

subsection \<open>Files\<close>

fun print_block_into :: "basic_block \<Rightarrow> line_builder \<Rightarrow> print_error + line_builder" where
  "print_block_into (RuleBlock r) b = print_rule_block r b"
| "print_block_into (FunctionBlock f) b = Inr (print_function_def f b)"
| "print_block_into (InvariantBlock i) b = print_invariant i b"
| "print_block_into (SortBlock s) b = Inr (print_sort_def s b)"
| "print_block_into (GhostBlock g) b = print_ghost_def g b"
| "print_block_into (MacroBlock m) b = Inr (print_macro_def m b)"
| "print_block_into (HookBlock h) b = print_hook_def h b"
| "print_block_into (MethodsBlock m) b = print_methods_block m b"

definition print_basic_block :: "basic_block \<Rightarrow> print_error + string" where
  "print_basic_block blk =
     bindE (print_block_into blk (new_builder 0)) (\<lambda>b. Inr (join newline (lb_buffer b)))"

definition print_contract_import :: "contract_import \<Rightarrow> string" where
  "print_contract_import i = ''using '' @ ci_contract_name i @ '' as '' @ ci_as_name i @ '';''"

definition print_spec_import :: "import_spec \<Rightarrow> string" where
  "print_spec_import i = ''import '' @ dquote @ is_spec_file i @ dquote @ '';''"

definition pretty_print :: "cvl_file \<Rightarrow> print_error + string" where
  "pretty_print f =
     bindE (foldE (\<lambda>bb out. bindE (print_basic_block bb) (\<lambda>s. Inr (out @ [s, []])))
              (cf_blocks f)
              (map print_spec_import (cf_import_specs f) @
               map print_contract_import (cf_import_contract f)))
       (\<lambda>out. Inr (join newline out))"

subsection \<open>The layout of a block\<close>

fun comma_layout :: "('a \<Rightarrow> bool \<Rightarrow> string) \<Rightarrow> 'a list \<Rightarrow> layout" where
  "comma_layout f [] = []"
| "comma_layout f (x # xs) = (0, f x (xs \<noteq> [])) # comma_layout f xs"

definition braced :: "string \<Rightarrow> layout \<Rightarrow> layout" where
  "braced h body = (0, h) # deeper body @ [(0, ''}'')]"

definition proof_layout :: "proof_block \<Rightarrow> layout" where
  "proof_layout p =
     braced (''preserved'' @ proof_head p @ '' {'') (commands_layout (cb_commands (pb_block p)))"

definition invariant_head :: "invariant \<Rightarrow> string" where
  "invariant_head iv =
     ''invariant '' @ inv_name iv @
     (if inv_params iv \<noteq> [] then print_and_join (inv_params iv) print_type_and_id ''('' '')'' else []) @
     '' '' @ print_exp (inv_expression iv)"

definition filtered_head :: "string \<Rightarrow> layout \<Rightarrow> string \<times> layout" where
  \<comment> \<open>with a filter, the header line ends in \<^verbatim>\<open>filtered {\<close>, and the line closing it goes on\<close>
  "filtered_head h fs =
     (if fs = [] then (h, []) else (''}'', (0, h @ '' filtered {'') # deeper fs))"

definition rule_layout :: "rule_block \<Rightarrow> layout" where
  "rule_layout r =
     (let fs = (case rb_filtered_block r of None \<Rightarrow> [] | Some fs \<Rightarrow> comma_layout filtered_text fs);
          (h, pre) = filtered_head (rule_head r) fs
      in pre @ braced (h @ '' {'') (commands_layout (cb_commands (rb_block r))))"

definition invariant_layout :: "invariant \<Rightarrow> layout" where
  "invariant_layout iv =
     (let fs = (case inv_filter iv of None \<Rightarrow> [] | Some f \<Rightarrow> [(0, filtered_text f False)]);
          (h, pre) = filtered_head (invariant_head iv) fs
      in pre @ (if inv_proofs iv = [] then [(0, h)]
                else braced (h @ '' {'') (concat (map proof_layout (inv_proofs iv)))))"

fun method_entry_layout :: "method_entry \<Rightarrow> layout" where
  "method_entry_layout (UnresolvedDynamicEntry u) =
     (0, unresolved_head u) # deeper (comma_layout print_method_pattern (dl_patterns (ud_summary u))) @
     [(0, '']'' @ default_text (dl_default_summary (ud_summary u)) @ '';'')]"
| "method_entry_layout (CatchAllEntry c) = [(0, catch_all_text c)]"
| "method_entry_layout (ImportedFunctionEntry f) = [(0, imported_function_text f)]"

fun block_layout :: "basic_block \<Rightarrow> layout" where
  "block_layout (RuleBlock r) = rule_layout r"
| "block_layout (FunctionBlock f) =
     braced (function_head f) (commands_layout (cb_commands (fd_block f)))"
| "block_layout (InvariantBlock i) = invariant_layout i"
| "block_layout (SortBlock s) = [(0, ''sort '' @ sd_sort_name s @ '';'')]"
| "block_layout (GhostBlock g) =
     (if gd_axioms g = [] then [(0, ghost_head g @ '';'')]
      else braced (ghost_head g @ '' {'') (map (\<lambda>ax. (0, ghost_axiom_text ax)) (gd_axioms g)))"
| "block_layout (MacroBlock m) = [(0, macro_text m)]"
| "block_layout (HookBlock h) =
     braced (''hook '' @ hook_pattern_text (hd_pattern h) @ '' {'')
       (commands_layout (cb_commands (hd_block h)))"
| "block_layout (MethodsBlock m) =
     braced ''methods {'' (concat (map method_entry_layout (mb_method_entries m)))"

definition file_text :: "cvl_file \<Rightarrow> string" where
  "file_text f =
     join newline
       (map print_spec_import (cf_import_specs f) @ map print_contract_import (cf_import_contract f) @
        concat (map (\<lambda>bb. [join newline (map (render_line 0) (block_layout bb)), []]) (cf_blocks f)))"

subsection \<open>The printers implement the layout\<close>

lemma with_indentE_emit:
  assumes "\<And>b'. lb_child b' = None \<Longrightarrow> body b' = Inr (emit ls b')" and "lb_child b = None"
  shows "with_indentE body b = Inr (emit (deeper ls) b)"
proof -
  have "body (new_builder (lb_indent b + 1)) = Inr (emit ls (new_builder (lb_indent b + 1)))"
    by (rule assms(1)) (simp add: new_builder_def)
  then show ?thesis
    using assms(2)
    by (simp add: with_indentE_def flush_child_def exit_nested_def emit_def new_builder_def
        deeper_def render_line_def split_beta o_def)
qed

lemma foldE_emit:
  assumes "\<And>x b'. x \<in> set xs \<Longrightarrow> lb_child b' = None \<Longrightarrow> f x b' = Inr (emit (g x) b')"
    and "lb_child b = None"
  shows "foldE f xs b = Inr (emit (concat (map g xs)) b)"
  using assms
proof (induction xs arbitrary: b)
  case (Cons x xs)
  have "foldE f xs (emit (g x) b) = Inr (emit (concat (map g xs)) (emit (g x) b))"
    by (rule Cons.IH) (use Cons.prems in auto)
  with Cons.prems show ?case by (simp add: layout_simps)
qed (simp add: layout_simps)

lemma with_indentE_foldE:
  assumes "\<And>x b'. x \<in> set xs \<Longrightarrow> lb_child b' = None \<Longrightarrow> f x b' = Inr (emit (g x) b')"
    and "lb_child b = None"
  shows "with_indentE (foldE f xs) b = Inr (emit (deeper (concat (map g xs))) b)"
  by (rule with_indentE_emit [OF foldE_emit [OF assms(1)] assms(2)])

lemma fold_ghost_axioms_emit [layout_simps]:
  "fold print_ghost_axiom axs b = emit (map (\<lambda>ax. (0, ghost_axiom_text ax)) axs) b"
  by (induction axs arbitrary: b) (simp_all add: print_ghost_axiom_def layout_simps)

lemma print_filters_emit [layout_simps]: "print_filters fs b = emit (comma_layout filtered_text fs) b"
  by (induction fs arbitrary: b) (simp_all add: print_filtered_block_def layout_simps)

lemma print_method_patterns_emit [layout_simps]:
  "print_method_patterns ps b = emit (comma_layout print_method_pattern ps) b"
  by (induction ps arbitrary: b) (simp_all add: layout_simps)

lemma print_code_block_emit [layout_simps]:
  "lb_child b = None \<Longrightarrow> print_code_block blk b = emit (commands_layout (cb_commands blk)) b"
  by (simp add: print_code_block_def print_command_emit)

lemma comma_layout_Nil_iff [simp]: "comma_layout f xs = [] \<longleftrightarrow> xs = []"
  by (cases xs) auto

lemmas block_print_simps = braced_def Let_def filtered_head_def waiting_def

lemma print_rule_block_emit: "lb_child b = None \<Longrightarrow> print_rule_block r b = Inr (emit (rule_layout r) b)"
  by (auto simp: print_rule_block_def rule_layout_def rule_head_def layout_simps block_print_simps
      split: option.split)

lemma print_proof_block_emit [layout_simps]:
  "lb_child b = None \<Longrightarrow> print_proof_block p b = Inr (emit (proof_layout p) b)"
  by (simp add: print_proof_block_def proof_layout_def layout_simps block_print_simps)

lemma print_proofs_emit [layout_simps]:
  "lb_child b = None \<Longrightarrow> with_indentE (foldE print_proof_block ps) b =
     Inr (emit (deeper (concat (map proof_layout ps))) b)"
  by (rule with_indentE_foldE) (simp_all add: print_proof_block_emit)

lemma print_invariant_emit: "lb_child b = None \<Longrightarrow> print_invariant i b = Inr (emit (invariant_layout i) b)"
  by (auto simp: print_invariant_def invariant_layout_def invariant_head_def layout_simps block_print_simps
      print_filtered_block_def split: option.split)

lemma print_ghost_def_emit:
  "lb_child b = None \<Longrightarrow> print_ghost_def g b = Inr (emit (block_layout (GhostBlock g)) b)"
  by (simp add: print_ghost_def_def layout_simps block_print_simps)

lemma print_hook_def_emit:
  "lb_child b = None \<Longrightarrow> print_hook_def h b = Inr (emit (block_layout (HookBlock h)) b)"
  by (simp add: print_hook_def_def print_hook_pattern_def layout_simps block_print_simps)

lemma print_method_entry_emit [layout_simps]:
  "lb_child b = None \<Longrightarrow> print_method_entry e b = Inr (emit (method_entry_layout e) b)"
  by (cases e)
    (simp_all add: layout_simps block_print_simps unresolved_head_def catch_all_text_def imported_function_text_def)

lemma print_entries_emit [layout_simps]:
  "lb_child b = None \<Longrightarrow> with_indentE (foldE print_method_entry es) b =
     Inr (emit (deeper (concat (map method_entry_layout es))) b)"
  by (rule with_indentE_foldE) (simp_all add: print_method_entry_emit)

lemma print_block_into_emit:
  "lb_child b = None \<Longrightarrow> print_block_into blk b = Inr (emit (block_layout blk) b)"
  by (cases blk)
    (simp_all add: print_rule_block_emit print_invariant_emit print_ghost_def_emit print_hook_def_emit
      print_function_def_def print_sort_def_def print_macro_def_def print_methods_block_def
      layout_simps braced_def del: block_layout.simps(5,7))

subsection \<open>Properties\<close>

abbreviation any_text :: "string \<Rightarrow> bool" where
  "any_text \<equiv> \<lambda>_. True"

lemma well_nested_plain: "(\<And>l. l \<in> set ls \<Longrightarrow> fst l = 0) \<Longrightarrow> well_nested any_text 0 ls"
proof (induction ls)
  case (Cons l ls)
  then have "well_nested any_text 0 ls" by simp
  from wn_line [OF _ this, of "snd l"] Cons.prems [of l] show ?case by (cases l) auto
qed (rule wn_nil)

lemma comma_layout_plain: "well_nested any_text 0 (comma_layout f xs)"
  by (induction xs) (auto intro: wn_line wn_nil)

lemma commands_nested: "well_nested any_text 0 (commands_layout cs)"
  by (rule well_nested_mono(1) [OF layout_well_nested(2)]) simp

lemma braced_nested: "opens h \<Longrightarrow> well_nested P 0 body \<Longrightarrow> well_nested P 0 (braced h body)"
  by (simp add: braced_def well_nested_block wn_close)

lemma opens_append [simp]: "opens (s @ '' {'')" "opens (s @ '' filtered {'')"
  by (simp_all add: opens_def)

lemma opens_Cons [simp]: "t \<noteq> [] \<Longrightarrow> opens (c # t) = opens t"
  by (simp add: opens_def)

lemma opens_append_right [simp]: "t \<noteq> [] \<Longrightarrow> opens (s @ t) = opens t"
  by (simp add: opens_def)

lemma function_head_opens [simp]: "opens (function_head f)"
  by (simp add: function_head_def Let_def split: list.split)

lemma filtered_nested:
  assumes "well_nested P 0 fs" "well_nested P 0 body" "filtered_head h fs = (h', pre)"
  shows "well_nested P 0 (pre @ braced (h' @ '' {'') body)"
proof (cases "fs = []")
  case True
  then show ?thesis using assms(2,3) by (auto simp: filtered_head_def braced_nested)
next
  case False
  have "closing P 0 ((0, ''} {'') # deeper body @ [(0, ''}'')])"
    by (rule closing_block [OF _ assms(2) wn_close]) (simp add: reopens_def opens_def)
  from well_nested_block [OF _ assms(1) this, of "h @ '' filtered {''"] False assms(3)
  show ?thesis by (auto simp: filtered_head_def braced_def)
qed

lemma proof_layout_nested: "well_nested any_text 0 (proof_layout p)"
  by (simp add: proof_layout_def braced_nested commands_nested opens_def)

lemma concat_nested: "(\<And>x. x \<in> set xs \<Longrightarrow> well_nested P 0 (f x)) \<Longrightarrow> well_nested P 0 (concat (map f xs))"
  by (induction xs) (auto intro: wn_nil well_nested_append)

lemma rule_layout_nested: "well_nested any_text 0 (rule_layout r)"
  by (auto simp: rule_layout_def Let_def wn_nil comma_layout_plain commands_nested
      split: option.split prod.split intro!: filtered_nested)

lemma invariant_layout_nested: "well_nested any_text 0 (invariant_layout i)"
proof -
  let ?fs = "case inv_filter i of None \<Rightarrow> [] | Some f \<Rightarrow> [(0::nat, filtered_text f False)]"
  have fs: "well_nested any_text 0 ?fs" by (rule well_nested_plain) (auto split: option.splits)
  show ?thesis
  proof (cases "inv_proofs i = []")
    case True
    have "well_nested any_text 0 ((0, h @ '' filtered {'') # deeper ?fs @ [(0, ''}'')])" for h
      by (rule well_nested_block [OF _ fs wn_close]) simp
    with True show ?thesis
      by (auto simp: invariant_layout_def filtered_head_def Let_def intro: well_nested_single)
  next
    case False
    have "well_nested any_text 0 (concat (map proof_layout (inv_proofs i)))"
      by (rule concat_nested) (rule proof_layout_nested)
    with False filtered_nested [OF fs this, of "invariant_head i"]
    show ?thesis by (auto simp: invariant_layout_def Let_def split: prod.split)
  qed
qed

text \<open>
  C21: Printing a top-level block never raises the builder's error and yields exactly the lines of the
  block's layout; for every block but a methods block the layout is well nested, so each opening brace
  has its closing brace at the same indentation and its body one level deeper.
\<close>

theorem print_basic_block_layout:
  "print_basic_block blk = Inr (join newline (map (render_line 0) (block_layout blk))) \<and>
   ((\<forall>m. blk \<noteq> MethodsBlock m) \<longrightarrow> well_nested (\<lambda>_. True) 0 (block_layout blk))"
proof
  have "print_block_into blk (new_builder 0) = Inr (emit (block_layout blk) (new_builder 0))"
    by (rule print_block_into_emit) (simp add: new_builder_def)
  then show "print_basic_block blk = Inr (join newline (map (render_line 0) (block_layout blk)))"
    by (simp add: print_basic_block_def emit_def new_builder_def)
  show "(\<forall>m. blk \<noteq> MethodsBlock m) \<longrightarrow> well_nested any_text 0 (block_layout blk)"
  proof (cases blk)
    case (GhostBlock g)
    have "well_nested any_text 0 (map (\<lambda>ax. (0, ghost_axiom_text ax)) (gd_axioms g))"
      by (rule well_nested_plain) auto
    with GhostBlock show ?thesis by (simp add: braced_nested well_nested_single)
  qed (simp_all add: rule_layout_nested invariant_layout_nested commands_nested braced_nested
        well_nested_single)
qed

definition sample_ghost :: ghost_def where
  "sample_ghost = \<lparr>gd_ghost_name = ''total'', gd_ghost_type = GhostVariable (PrimitiveType ''uint256''),
     gd_persistent = True, gd_axioms = [\<lparr>ga_initial = True, ga_exp = BoolLiteral True\<rparr>]\<rparr>"

theorem print_basic_block_layout_witness:
  "well_nested (\<lambda>_. True) 0 (block_layout (GhostBlock sample_ghost)) \<and>
   block_layout (GhostBlock sample_ghost) =
     [(0, ''persistent ghost uint256 total {''), (1, ''init_state axiom true;''), (0, ''}'')]"
  using print_basic_block_layout [of "GhostBlock sample_ghost"]
  by (auto simp: sample_ghost_def braced_def ghost_head_def ghost_axiom_text_def)

text \<open>
  \<^verbatim>\<open>pretty_print\<close> returns for every file, never raising: the text is the spec imports, the
  contract imports and then every block, in the file's order, each block followed by an empty line.
\<close>

theorem pretty_print_text: "pretty_print f = Inr (file_text f)"
proof -
  have "foldE (\<lambda>bb out. bindE (print_basic_block bb) (\<lambda>s. Inr (out @ [s, []]))) bs out =
      Inr (out @ concat (map (\<lambda>bb. [join newline (map (render_line 0) (block_layout bb)), []]) bs))"
    for bs out
    by (induction bs arbitrary: out)
      (simp_all add: print_basic_block_def print_block_into_emit new_builder_def emit_def)
  then show ?thesis by (simp add: pretty_print_def file_text_def)
qed

text \<open>
  The header of a \<^verbatim>\<open>preserved\<close> block for the fallback function is printed without a blank between
  the keyword and the target, so it starts with the single word \<^verbatim>\<open>preservedfallback\<close>; the one for the
  constructor has the blank.
\<close>

theorem preserved_fallback_header:
  "pb_target p = SpecialMethod t \<Longrightarrow>
   \<exists>ls suffix. print_proof_block p (new_builder 0) =
     Inr ((new_builder 0)\<lparr>lb_buffer :=
        ((case t of ST_fallback \<Rightarrow> ''preservedfallback()'' | ST_constructor \<Rightarrow> ''preserved constructor()'')
          @ suffix) # ls\<rparr>)"
  by (cases t)
    (auto simp: print_proof_block_emit new_builder_def emit_def proof_layout_def braced_def render_line_def
      proof_head_def indent_prefix_def)

theorem preserved_fallback_header_witness:
  "let p = \<lparr>pb_target = SpecialMethod ST_fallback, pb_block = \<lparr>cb_commands = []\<rparr>, pb_with_binding = None\<rparr>
   in \<exists>ls suffix. print_proof_block p (new_builder 0) =
        Inr ((new_builder 0)\<lparr>lb_buffer := (''preservedfallback()'' @ suffix) # ls\<rparr>)"
  using preserved_fallback_header
    [of "\<lparr>pb_target = SpecialMethod ST_fallback, pb_block = \<lparr>cb_commands = []\<rparr>, pb_with_binding = None\<rparr>"
        ST_fallback]
  by simp

end
