(* ===== verification/Budget.thy ===== *)
theory Budget
  imports Complex_Main Prelude
begin

text \<open>
  The run budget of \<^verbatim>\<open>composer/diagnostics/budget.py\<close>: cost counters arranged as per-phase caps
  over a shared pool, the context managers that install and select them, cost accrual, and the monitors
  that warn and stop agents.

  \<^verbatim>\<open>BudgetCounter\<close> objects are mutable and shared (every cap points to the one pool), so they live in
  an explicit store, a list in creation order; an object is its index, and a parent is created before its
  child. The four context variables are the other fields of \<open>budget_state\<close>. A context manager is a
  function of its body: it runs the body between its entry and its exit, and the exit (the
  \<^verbatim>\<open>finally\<close>) happens whether or not the body raises, so a body returns the optional exception together
  with the state. Costs and times are exact rationals: the code adds them, multiplies by the threshold and
  compares, and rounding of binary floating point is not modelled. The clock behind
  \<^verbatim>\<open>RunSummary.total_wall_s\<close> is a field of the state.
\<close>

subsection \<open>Counters\<close>

type_synonym addr = nat

record budget_counter =
  total_budget :: rat
  curr_cost :: rat
  parent :: "addr option"

type_synonym heap = "budget_counter list"

definition budget_pressure_threshold :: rat where
  "budget_pressure_threshold = 8 / 10"

text \<open>The chain of a counter: itself and its ancestors up to the pool.\<close>

function chain :: "heap \<Rightarrow> addr \<Rightarrow> addr list" where
  "chain h i =
     (if i < length h
      then i # (case parent (h ! i) of None \<Rightarrow> [] | Some p \<Rightarrow> if p < i then chain h p else [])
      else [])"
  by pat_completeness auto
termination
  by (relation "measure snd") auto

declare chain.simps [simp del]

function overbudget :: "heap \<Rightarrow> addr \<Rightarrow> bool" where
  "overbudget h i =
     (if i < length h then
        (if curr_cost (h ! i) > total_budget (h ! i) then True
         else case parent (h ! i) of None \<Rightarrow> False | Some p \<Rightarrow> if p < i then overbudget h p else False)
      else False)"
  by pat_completeness auto
termination
  by (relation "measure snd") auto

declare overbudget.simps [simp del]

function pressured :: "heap \<Rightarrow> rat \<Rightarrow> addr \<Rightarrow> bool" where
  "pressured h threshold i =
     (if i < length h then
        (if curr_cost (h ! i) \<ge> total_budget (h ! i) * threshold then True
         else case parent (h ! i) of None \<Rightarrow> False
              | Some p \<Rightarrow> if p < i then pressured h threshold p else False)
      else False)"
  by pat_completeness auto
termination
  by (relation "measure (\<lambda>(h, t, i). i)") auto

declare pressured.simps [simp del]

function accrue :: "heap \<Rightarrow> addr \<Rightarrow> rat \<Rightarrow> heap" where
  \<comment> \<open>the loop of \<^verbatim>\<open>accumulate_cost\<close> up the parents\<close>
  "accrue h i cost =
     (if i < length h then
        (let h' = h[i := (h ! i)\<lparr>curr_cost := curr_cost (h ! i) + cost\<rparr>] in
         case parent (h ! i) of None \<Rightarrow> h' | Some p \<Rightarrow> if p < i then accrue h' p cost else h')
      else h)"
  by pat_completeness auto
termination
  by (relation "measure (\<lambda>(h, i, c). i)") auto

declare accrue.simps [simp del]

subsection \<open>Context variables and context managers\<close>

record budget_state =
  store :: heap
  budget_accumulator :: "addr option"
  cost_centers :: "(string, addr) dict option"
  cost_center_name :: "string option"
  time_limit :: "rat option"
  wall_s :: "rat option" \<comment> \<open>\<^verbatim>\<open>get_run_summary_or_none()\<close> and its wall clock\<close>

datatype budget_error =
    BudgetAlreadyInstalled
  | NoCostsInstalled
  | UnknownBudgetItem string
  | NestedBudgets
  | NestedTimings
  | BudgetExceeded string
  | BudgetPressureAbort
  | OtherError string

type_synonym body = "budget_state \<Rightarrow> budget_error option \<times> budget_state"

definition with_time_budget :: "rat \<Rightarrow> body \<Rightarrow> body" where
  "with_time_budget limit run s =
     (if time_limit s \<noteq> None then (Some NestedTimings, s)
      else let prev = time_limit s; (e, s') = run (s\<lparr>time_limit := Some limit\<rparr>)
           in (e, s'\<lparr>time_limit := prev\<rparr>))"

definition install_caps :: "heap \<Rightarrow> addr \<Rightarrow> (string, rat) dict \<Rightarrow> heap \<times> (string, addr) dict" where
  "install_caps h pool caps =
     (h @ map (\<lambda>(k, v). \<lparr>total_budget = v, curr_cost = 0, parent = Some pool\<rparr>) caps,
      zip (keys caps) [length h..<length h + length caps])"

definition with_total_budget :: "rat \<Rightarrow> (string, rat) dict \<Rightarrow> body \<Rightarrow> body" where
  "with_total_budget amount caps run s =
     (if cost_centers s \<noteq> None then (Some BudgetAlreadyInstalled, s)
      else
        let pool = length (store s);
            h1 = store s @ [\<lparr>total_budget = amount, curr_cost = 0, parent = None\<rparr>];
            (h2, centers) = install_caps h1 pool caps;
            prev_centers = cost_centers s; prev_accum = budget_accumulator s;
            (e, s') = run (s\<lparr>store := h2, cost_centers := Some centers, budget_accumulator := Some pool\<rparr>)
        in (e, s'\<lparr>budget_accumulator := prev_accum, cost_centers := prev_centers\<rparr>))"

definition with_named_budget :: "string \<Rightarrow> body \<Rightarrow> body" where
  "with_named_budget nm run s =
     (case cost_centers s of
        None \<Rightarrow> (Some NoCostsInstalled, s)
      | Some res \<Rightarrow>
          (case dget res nm of
             None \<Rightarrow> (Some (UnknownBudgetItem nm), s)
           | Some a \<Rightarrow>
               let prev = budget_accumulator s; prev_name = cost_center_name s;
                   (e, s') = run (s\<lparr>budget_accumulator := Some a, cost_center_name := Some nm\<rparr>)
               in (e, s'\<lparr>cost_center_name := prev_name, budget_accumulator := prev\<rparr>)))"

definition with_named_budget_or_nop :: "string \<Rightarrow> body \<Rightarrow> body" where
  "with_named_budget_or_nop nm run s =
     (if cost_centers s = None then
        let prev_name = cost_center_name s; (e, s') = run (s\<lparr>cost_center_name := Some nm\<rparr>)
        in (e, s'\<lparr>cost_center_name := prev_name\<rparr>)
      else with_named_budget nm run s)"

definition with_token_cost_budget :: "rat \<Rightarrow> body \<Rightarrow> body" where
  "with_token_cost_budget total_cost run s =
     (if budget_accumulator s \<noteq> None then (Some NestedBudgets, s)
      else
        let a = length (store s);
            h = store s @ [\<lparr>total_budget = total_cost, curr_cost = 0, parent = None\<rparr>];
            prev = budget_accumulator s;
            (e, s') = run (s\<lparr>store := h, budget_accumulator := Some a\<rparr>)
        in (e, s'\<lparr>budget_accumulator := prev\<rparr>))"

definition accumulate_cost :: "rat \<Rightarrow> body" where
  "accumulate_cost cost s =
     (None, case budget_accumulator s of None \<Rightarrow> s | Some a \<Rightarrow> s\<lparr>store := accrue (store s) a cost\<rparr>)"

subsection \<open>Constraints\<close>

datatype constraint_type = TimeSort | TokenSort

datatype resource_constraint = TokenConstraint addr | TimeConstraint rat

fun constraint_sort :: "resource_constraint \<Rightarrow> constraint_type" where
  "constraint_sort (TokenConstraint a) = TokenSort"
| "constraint_sort (TimeConstraint b) = TimeSort"

definition time_overbudget :: "rat \<Rightarrow> rat \<Rightarrow> bool" where
  "time_overbudget wall budget \<longleftrightarrow> wall > budget"

definition time_pressured :: "rat \<Rightarrow> rat \<Rightarrow> rat \<Rightarrow> bool" where
  "time_pressured wall threshold budget \<longleftrightarrow> wall > budget * threshold"

text \<open>A time constraint exists only where there is a run summary, whose wall clock it reads.\<close>

definition wall_now :: "budget_state \<Rightarrow> rat" where
  "wall_now s = (case wall_s s of None \<Rightarrow> 0 | Some w \<Rightarrow> w)"

fun constraint_overbudget :: "budget_state \<Rightarrow> resource_constraint \<Rightarrow> bool" where
  "constraint_overbudget s (TokenConstraint a) = overbudget (store s) a"
| "constraint_overbudget s (TimeConstraint b) = time_overbudget (wall_now s) b"

fun constraint_pressured :: "budget_state \<Rightarrow> rat \<Rightarrow> resource_constraint \<Rightarrow> bool" where
  "constraint_pressured s threshold (TokenConstraint a) = pressured (store s) threshold a"
| "constraint_pressured s threshold (TimeConstraint b) = time_pressured (wall_now s) threshold b"

definition get_constraints :: "budget_state \<Rightarrow> resource_constraint list" where
  "get_constraints s =
     (case budget_accumulator s of Some a \<Rightarrow> [TokenConstraint a] | None \<Rightarrow> []) @
     (case (time_limit s, wall_s s) of (Some t, Some w) \<Rightarrow> [TimeConstraint t] | _ \<Rightarrow> [])"

definition budget_pressure :: "budget_state \<Rightarrow> bool" where
  "budget_pressure s =
     list_ex (constraint_pressured s budget_pressure_threshold) (get_constraints s)"

definition exhausted_constraint :: "budget_state \<Rightarrow> constraint_type option" where
  "exhausted_constraint s =
     map_option constraint_sort (find (constraint_overbudget s) (get_constraints s))"

fun constraint_sort_to_noun :: "constraint_type \<Rightarrow> string" where
  "constraint_sort_to_noun TimeSort = ''Time''"
| "constraint_sort_to_noun TokenSort = ''Token cost''"

definition raise_budget_exceeded :: "constraint_type \<Rightarrow> budget_error" where
  "raise_budget_exceeded what =
     BudgetExceeded (constraint_sort_to_noun what @
       '' budget exhausted; the agent was cooperatively terminated.'')"

definition raise_if_budget_exhausted :: "budget_state \<Rightarrow> budget_error option" where
  "raise_if_budget_exhausted s = map_option raise_budget_exceeded (exhausted_constraint s)"

definition pressure_abort_monitor :: "budget_state \<Rightarrow> budget_error option" where
  "pressure_abort_monitor s = (if budget_pressure s then Some BudgetPressureAbort else None)"

subsection \<open>The monitor of an agent\<close>

definition resource_pressure_message :: "string \<Rightarrow> string" where
  "resource_pressure_message resource =
     newline @ ''<system-alert>'' @ newline @
     ''You have almost exceeded the '' @ resource @ '' allotted for this task.'' @ newline @ newline @
     ''Finish your task in as orderly a fashion as possible; partial/incomplete results are better'' @ newline @
     ''than going over budget.'' @ newline @ ''</system-alert>'' @ newline"

fun default_warnings :: "constraint_type \<Rightarrow> string" where
  "default_warnings TimeSort = resource_pressure_message ''time''"
| "default_warnings TokenSort = resource_pressure_message ''token cost budget''"

datatype 'st warning_message = NoMessage | FixedMessage string | ComputedMessage "'st \<Rightarrow> constraint_type \<Rightarrow> string"

record ('st, 'v) monitor_options =
  warn_threshold :: rat
  warning_message :: "'st warning_message"
  state_transformer :: "('st \<Rightarrow> constraint_type \<Rightarrow> (string, 'v) dict) option"
  on_overbudget :: "(constraint_type \<Rightarrow> budget_error option) option"

text \<open>The keyword defaults of \<^verbatim>\<open>budget_monitor\<close>.\<close>

definition default_options :: "('st, 'v) monitor_options" where
  "default_options = \<lparr>warn_threshold = budget_pressure_threshold, warning_message = NoMessage,
     state_transformer = None, on_overbudget = None\<rparr>"

type_synonym warned = "constraint_type \<Rightarrow> bool"

fun warning_text :: "'st warning_message \<Rightarrow> 'st \<Rightarrow> constraint_type \<Rightarrow> string" where
  "warning_text NoMessage st what = default_warnings what"
| "warning_text (FixedMessage m) st what = m"
| "warning_text (ComputedMessage f) st what = f st what"

definition overbudget_error :: "('st, 'v) monitor_options \<Rightarrow> budget_state \<Rightarrow> resource_constraint \<Rightarrow> budget_error option" where
  "overbudget_error opts s c =
     (if constraint_overbudget s c
      then (case on_overbudget opts of None \<Rightarrow> None | Some f \<Rightarrow> f (constraint_sort c))
      else None)"

text \<open>
  The loop of the closure \<^verbatim>\<open>monitor\<close>. \<^verbatim>\<open>warned\<close> is the dictionary the closure keeps from
  call to call, so it is returned also when the callback raises.
\<close>

fun monitor_loop :: "('st, 'v) monitor_options \<Rightarrow> budget_state \<Rightarrow> 'st \<Rightarrow> resource_constraint list \<Rightarrow> warned \<Rightarrow>
    string list \<Rightarrow> (string, 'v) dict \<Rightarrow> warned \<times> (budget_error + string list \<times> (string, 'v) dict)" where
  "monitor_loop opts s st [] w msgs upd = (w, Inr (msgs, upd))"
| "monitor_loop opts s st (c # cs) w msgs upd =
     (case overbudget_error opts s c of
        Some e \<Rightarrow> (w, Inl e)
      | None \<Rightarrow>
          if \<not> constraint_pressured s (warn_threshold opts) c \<or> w (constraint_sort c)
          then monitor_loop opts s st cs w msgs upd
          else monitor_loop opts s st cs (w(constraint_sort c := True))
                 (msgs @ [warning_text (warning_message opts) st (constraint_sort c)])
                 (case state_transformer opts of None \<Rightarrow> upd
                  | Some f \<Rightarrow> AList.updates (keys (f st (constraint_sort c))) (vals (f st (constraint_sort c))) upd))"

definition none_if_empty :: "'a list \<Rightarrow> 'a list option" where
  "none_if_empty xs = (if xs = [] then None else Some xs)"

type_synonym 'v monitor_return = "string list option \<times> (string, 'v) dict option"

definition monitor_call :: "('st, 'v) monitor_options \<Rightarrow> resource_constraint list \<Rightarrow> budget_state \<Rightarrow> 'st \<Rightarrow> warned \<Rightarrow>
    warned \<times> (budget_error + 'v monitor_return)" where
  "monitor_call opts accum s st w =
     (if accum = [] then (w, Inr (None, None))
      else case monitor_loop opts s st accum w [] [] of
             (w', Inl e) \<Rightarrow> (w', Inl e)
           | (w', Inr (msgs, upd)) \<Rightarrow> (w', Inr (none_if_empty msgs, none_if_empty upd)))"

text \<open>
  \<^verbatim>\<open>budget_monitor\<close> reads the constraints once, when it is built; the agent calls the closure between its
  turns, each time on a later budget state and with its own current state. A raise ends the agent.
\<close>

fun monitor_turns :: "('st, 'v) monitor_options \<Rightarrow> resource_constraint list \<Rightarrow> (budget_state \<times> 'st) list \<Rightarrow> warned \<Rightarrow>
    (budget_error + 'v monitor_return) list" where
  "monitor_turns opts accum [] w = []"
| "monitor_turns opts accum ((s, st) # ts) w =
     (case monitor_call opts accum s st w of
        (w', Inl e) \<Rightarrow> [Inl e]
      | (w', Inr r) \<Rightarrow> Inr r # monitor_turns opts accum ts w')"

definition budget_monitor :: "('st, 'v) monitor_options \<Rightarrow> budget_state \<Rightarrow> (budget_state \<times> 'st) list \<Rightarrow>
    (budget_error + 'v monitor_return) list" where
  "budget_monitor opts s0 ts = monitor_turns opts (get_constraints s0) ts (\<lambda>_. False)"

end
