(* ===== verification/Budget_Laws.thy ===== *)
theory Budget_Laws
  imports Budget
begin

text \<open>
  What the run budget promises: a counter trips exactly when a counter on its chain does, cost is conserved
  up the chain, the hard stop lies inside the pressure window (one contract, shared by token counters, time
  limits and their sum), both are sticky while costs are not negative, every nesting of scopes leaves the
  context variables as it found them, and a monitor warns at most once per sort and stops exactly where the
  polling check does.
\<close>

subsection \<open>Counters along a chain\<close>

definition exceeded :: "budget_counter \<Rightarrow> bool" where
  "exceeded b \<longleftrightarrow> curr_cost b > total_budget b"

definition near :: "rat \<Rightarrow> budget_counter \<Rightarrow> bool" where
  "near threshold b \<longleftrightarrow> curr_cost b \<ge> total_budget b * threshold"

lemma chain_range: "j \<in> set (chain h i) \<Longrightarrow> j \<le> i \<and> j < length h"
proof (induction h i rule: chain.induct)
  case (1 h i)
  from "1.prems" consider "j = i" "i < length h"
    | p where "i < length h" "parent (h ! i) = Some p" "p < i" "j \<in> set (chain h p)"
    by (cases "parent (h ! i)") (auto simp: chain.simps [of h i] split: if_splits)
  then show ?case by cases (use "1.IH" in \<open>force+\<close>)
qed

lemma distinct_chain: "distinct (chain h i)"
proof (induction h i rule: chain.induct)
  case (1 h i)
  then show ?case
    by (subst chain.simps) (auto split: option.split dest!: chain_range)
qed

lemma overbudget_iff: "overbudget h i \<longleftrightarrow> (\<exists>j\<in>set (chain h i). exceeded (h ! j))"
proof (induction h i rule: overbudget.induct)
  case (1 h i)
  then show ?case
    by (subst overbudget.simps, subst chain.simps) (auto simp: exceeded_def split: option.split)
qed

lemma pressured_iff: "pressured h t i \<longleftrightarrow> (\<exists>j\<in>set (chain h i). near t (h ! j))"
proof (induction h t i rule: pressured.induct)
  case (1 h t i)
  then show ?case
    by (subst pressured.simps, subst chain.simps) (auto simp: near_def split: option.split)
qed

definition same_shape :: "heap \<Rightarrow> heap \<Rightarrow> bool" where
  \<comment> \<open>the heap grows, and old counters keep their budget and their parent\<close>
  "same_shape h h' \<longleftrightarrow> length h \<le> length h' \<and>
     (\<forall>j<length h. total_budget (h' ! j) = total_budget (h ! j) \<and> parent (h' ! j) = parent (h ! j))"

lemma same_shape_refl [simp]: "same_shape h h"
  by (simp add: same_shape_def)

lemma same_shape_trans: "same_shape h h' \<Longrightarrow> same_shape h' h'' \<Longrightarrow> same_shape h h''"
  by (auto simp: same_shape_def)

lemma same_shape_append [simp]: "same_shape h (h @ k)"
  by (simp add: same_shape_def nth_append)

lemma same_shape_chain: "same_shape h h' \<Longrightarrow> i < length h \<Longrightarrow> chain h' i = chain h i"
proof (induction h i rule: chain.induct)
  case (1 h i)
  then show ?case
    by (subst (1 2) chain.simps) (auto simp: same_shape_def split: option.split)
qed

lemma length_accrue [simp]: "length (accrue h i c) = length h"
proof (induction h i c rule: accrue.induct)
  case (1 h i c)
  then show ?case by (subst accrue.simps) (auto simp: Let_def split: option.split)
qed

lemma chain_curr_cost:
  "i < length h \<Longrightarrow> chain (h[i := (h ! i)\<lparr>curr_cost := x\<rparr>]) j = chain h j"
  using same_shape_chain [of h "h[i := (h ! i)\<lparr>curr_cost := x\<rparr>]" j]
  by (cases "j < length h") (auto simp: same_shape_def nth_list_update chain.simps [of _ j])

lemma accrue_nth:
  "j < length h \<Longrightarrow> accrue h i c ! j =
     (if j \<in> set (chain h i) then (h ! j)\<lparr>curr_cost := curr_cost (h ! j) + c\<rparr> else h ! j)"
proof (induction h i c arbitrary: j rule: accrue.induct)
  case (1 h i c)
  show ?case
  proof (cases "i < length h")
    case False
    then show ?thesis by (simp add: accrue.simps [of h i] chain.simps [of h i])
  next
    case True
    let ?h = "h[i := (h ! i)\<lparr>curr_cost := curr_cost (h ! i) + c\<rparr>]"
    show ?thesis
    proof (cases "\<exists>p. parent (h ! i) = Some p \<and> p < i")
      case False
      then show ?thesis using True "1.prems"
        by (auto simp: accrue.simps [of h i] chain.simps [of h i] Let_def nth_list_update split: option.split)
    next
      case up: True
      then obtain p where p: "parent (h ! i) = Some p" "p < i" by auto
      have "accrue ?h p c ! j = (if j \<in> set (chain ?h p)
              then (?h ! j)\<lparr>curr_cost := curr_cost (?h ! j) + c\<rparr> else ?h ! j)"
        using "1.IH" [OF True refl p(1) p(2), of j] "1.prems" by simp
      moreover have "i \<notin> set (chain h p)" using chain_range [of i h p] p by auto
      ultimately show ?thesis using True p "1.prems"
        by (auto simp: accrue.simps [of h i] chain.simps [of h i] Let_def nth_list_update chain_curr_cost)
    qed
  qed
qed

lemma same_shape_accrue [simp]: "same_shape h (accrue h i c)"
  by (simp add: same_shape_def accrue_nth)

definition grown :: "heap \<Rightarrow> heap \<Rightarrow> bool" where
  \<comment> \<open>the heap of a later moment: old counters keep their shape and have spent no less\<close>
  "grown h h' \<longleftrightarrow> same_shape h h' \<and> (\<forall>j<length h. curr_cost (h ! j) \<le> curr_cost (h' ! j))"

lemma grown_refl [simp]: "grown h h"
  by (simp add: grown_def)

lemma grown_trans: "grown h h' \<Longrightarrow> grown h' h'' \<Longrightarrow> grown h h''"
  by (auto simp: grown_def same_shape_def intro: order_trans)

lemma grown_append [simp]: "grown h (h @ k)"
  by (simp add: grown_def nth_append)

lemma grown_accrue: "0 \<le> c \<Longrightarrow> grown h (accrue h i c)"
  by (simp add: grown_def accrue_nth)

lemma grown_at:
  assumes "grown h h'" and "j \<in> set (chain h i)"
  shows "j \<in> set (chain h' i)" "exceeded (h ! j) \<Longrightarrow> exceeded (h' ! j)" "near t (h ! j) \<Longrightarrow> near t (h' ! j)"
proof -
  from assms(2) have "i < length h" by (simp add: chain.simps [of h i] split: if_splits)
  then show "j \<in> set (chain h' i)" using assms same_shape_chain [of h h' i] by (simp add: grown_def)
  have "j < length h" using chain_range [OF assms(2)] by simp
  then have "total_budget (h' ! j) = total_budget (h ! j)" "curr_cost (h ! j) \<le> curr_cost (h' ! j)"
    using assms(1) by (simp_all add: grown_def same_shape_def)
  then show "exceeded (h ! j) \<Longrightarrow> exceeded (h' ! j)" "near t (h ! j) \<Longrightarrow> near t (h' ! j)"
    by (simp_all add: exceeded_def near_def)
qed

lemma grown_overbudget: "grown h h' \<Longrightarrow> overbudget h i \<Longrightarrow> overbudget h' i"
  unfolding overbudget_iff by (meson grown_at)

lemma grown_pressured: "grown h h' \<Longrightarrow> pressured h t i \<Longrightarrow> pressured h' t i"
  unfolding pressured_iff by (meson grown_at)

subsection \<open>The contract of a resource constraint\<close>

text \<open>
  What the protocol \<^verbatim>\<open>ResourceConstraint\<close> promises its callers: being past the budget implies being inside
  the pressure window, a lower threshold opens the window earlier, and both conditions persist while the
  resource is only spent.
\<close>

locale spent_resource =
  fixes over :: "'s \<Rightarrow> 'c \<Rightarrow> bool"
    and pressed :: "'s \<Rightarrow> rat \<Rightarrow> 'c \<Rightarrow> bool"
    and sane :: "'s \<Rightarrow> 'c \<Rightarrow> bool"
    and later :: "'s \<Rightarrow> 's \<Rightarrow> bool"
  assumes stop_in_window: "over s c \<Longrightarrow> sane s c \<Longrightarrow> t \<le> 1 \<Longrightarrow> pressed s t c"
    and window_mono: "pressed s t' c \<Longrightarrow> sane s c \<Longrightarrow> t \<le> t' \<Longrightarrow> pressed s t c"
    and over_later: "later s s' \<Longrightarrow> over s c \<Longrightarrow> over s' c"
    and pressed_later: "later s s' \<Longrightarrow> pressed s t c \<Longrightarrow> pressed s' t c"
begin

lemma find_over_pressed:
  assumes "find (over s) cs = Some c" and "list_all (sane s) cs" and "t \<le> 1"
  shows "list_ex (pressed s t) cs"
proof -
  from find_SomeD [OF assms(1)] have "c \<in> set cs" "over s c" by simp_all
  then show ?thesis using stop_in_window [of s c t] assms(2,3) by (auto simp: list_ex_iff list_all_iff)
qed

lemma find_over_later:
  "later s s' \<Longrightarrow> find (over s) cs = Some c \<Longrightarrow> find (over s') cs \<noteq> None"
  using over_later [of s s' c] by (auto simp: find_None_iff dest!: find_SomeD)

lemma list_ex_pressed_later:
  "later s s' \<Longrightarrow> list_ex (pressed s t) cs \<Longrightarrow> list_ex (pressed s' t) cs"
  by (auto simp: list_ex_iff dest: pressed_later)

end

definition sane_chain :: "heap \<Rightarrow> addr \<Rightarrow> bool" where
  "sane_chain h i \<longleftrightarrow> (\<forall>j\<in>set (chain h i). 0 \<le> total_budget (h ! j))"

lemma scale_le: "(0::rat) \<le> b \<Longrightarrow> t \<le> t' \<Longrightarrow> b * t \<le> b * t'"
  by (rule mult_left_mono)

lemma exceeded_near: "exceeded b \<Longrightarrow> 0 \<le> total_budget b \<Longrightarrow> t \<le> 1 \<Longrightarrow> near t b"
  using scale_le [of "total_budget b" t 1] by (simp add: exceeded_def near_def)

lemma near_mono: "near t' b \<Longrightarrow> 0 \<le> total_budget b \<Longrightarrow> t \<le> t' \<Longrightarrow> near t b"
  using scale_le [of "total_budget b" t t'] by (simp add: near_def)

interpretation token: spent_resource overbudget pressured sane_chain grown
proof
  show "overbudget h i \<Longrightarrow> sane_chain h i \<Longrightarrow> t \<le> 1 \<Longrightarrow> pressured h t i" for h t i
    by (auto simp: overbudget_iff pressured_iff sane_chain_def intro: exceeded_near)
  show "pressured h t' i \<Longrightarrow> sane_chain h i \<Longrightarrow> t \<le> t' \<Longrightarrow> pressured h t i" for h t t' i
    by (auto simp: pressured_iff sane_chain_def intro: near_mono)
qed (auto intro: grown_overbudget grown_pressured)

interpretation clock: spent_resource time_overbudget time_pressured "\<lambda>w b. 0 \<le> b" "(\<le>)"
proof
  show "time_overbudget w b \<Longrightarrow> 0 \<le> b \<Longrightarrow> t \<le> 1 \<Longrightarrow> time_pressured w t b" for w b t
    using scale_le [of b t 1] by (simp add: time_overbudget_def time_pressured_def)
  show "time_pressured w t' b \<Longrightarrow> 0 \<le> b \<Longrightarrow> t \<le> t' \<Longrightarrow> time_pressured w t b" for w b t t'
    using scale_le [of b t t'] by (simp add: time_pressured_def)
qed (auto simp: time_overbudget_def time_pressured_def)

fun sane_constraint :: "budget_state \<Rightarrow> resource_constraint \<Rightarrow> bool" where
  "sane_constraint s (TokenConstraint a) = sane_chain (store s) a"
| "sane_constraint s (TimeConstraint b) = (0 \<le> b)"

definition later_state :: "budget_state \<Rightarrow> budget_state \<Rightarrow> bool" where
  "later_state s s' \<longleftrightarrow> grown (store s) (store s') \<and> wall_now s \<le> wall_now s'"

interpretation constraint: spent_resource constraint_overbudget constraint_pressured sane_constraint later_state
proof
  fix s s' :: budget_state and c t t'
  show "constraint_overbudget s c \<Longrightarrow> sane_constraint s c \<Longrightarrow> t \<le> 1 \<Longrightarrow> constraint_pressured s t c"
    by (cases c) (auto intro: token.stop_in_window clock.stop_in_window)
  show "constraint_pressured s t' c \<Longrightarrow> sane_constraint s c \<Longrightarrow> t \<le> t' \<Longrightarrow> constraint_pressured s t c"
    by (cases c) (auto intro: token.window_mono clock.window_mono)
  show "later_state s s' \<Longrightarrow> constraint_overbudget s c \<Longrightarrow> constraint_overbudget s' c"
    by (cases c) (auto simp: later_state_def intro: token.over_later clock.over_later)
  show "later_state s s' \<Longrightarrow> constraint_pressured s t c \<Longrightarrow> constraint_pressured s' t c"
    by (cases c) (auto simp: later_state_def intro: token.pressed_later clock.pressed_later)
qed

text \<open>
  C24: Whenever an active constraint is spent past 100%, so that polling callers get
  \<^verbatim>\<open>BudgetExceeded\<close>, \<^verbatim>\<open>budget_pressure\<close> is already true: the wrap-up window opens no later than the hard
  stop, for token chains and wall-clock limits alike. Budgets must not be negative.
\<close>

theorem exhausted_implies_pressure:
  assumes "list_all (sane_constraint s) (get_constraints s)"
    and "raise_if_budget_exhausted s \<noteq> None"
  shows "budget_pressure s \<and> pressure_abort_monitor s = Some BudgetPressureAbort"
proof -
  obtain c where "find (constraint_overbudget s) (get_constraints s) = Some c"
    using assms(2) by (auto simp: raise_if_budget_exhausted_def exhausted_constraint_def)
  then have "budget_pressure s"
    unfolding budget_pressure_def
    by (rule constraint.find_over_pressed [OF _ assms(1)]) (simp add: budget_pressure_threshold_def)
  then show ?thesis by (simp add: pressure_abort_monitor_def)
qed

definition sample_state :: budget_state where
  "sample_state = \<lparr>store = [\<lparr>total_budget = 10, curr_cost = 5, parent = None\<rparr>,
       \<lparr>total_budget = 2, curr_cost = 3, parent = Some 0\<rparr>],
     budget_accumulator = Some 1, cost_centers = Some [(''formalization'', 1)],
     cost_center_name = Some ''formalization'', time_limit = Some 60, wall_s = Some 20\<rparr>"

lemmas sample_chain = chain.simps [of "store sample_state" 1] chain.simps [of "store sample_state" 0]

lemma exhausted_implies_pressure_witness:
  "raise_if_budget_exhausted sample_state = Some (raise_budget_exceeded TokenSort)
   \<and> budget_pressure sample_state \<and> pressure_abort_monitor sample_state = Some BudgetPressureAbort"
proof -
  have over: "raise_if_budget_exhausted sample_state = Some (raise_budget_exceeded TokenSort)"
    using sample_chain
    by (simp add: raise_if_budget_exhausted_def exhausted_constraint_def get_constraints_def overbudget_iff
        exceeded_def sample_state_def)
  moreover have "list_all (sane_constraint sample_state) (get_constraints sample_state)"
    using sample_chain by (simp add: get_constraints_def sane_chain_def sample_state_def)
  ultimately show ?thesis using exhausted_implies_pressure [of sample_state] by simp
qed

subsection \<open>Nested scopes\<close>

text \<open>
  The client code of the budget: any nesting of the five context managers around cost charges, waiting and
  raising. Phases of a pipeline run are \<open>InNamedOrNop\<close> scopes inside one \<open>InTotal\<close>.
\<close>

datatype workload =
    Charge rat
  | Wait rat
  | Raise string
  | Then workload workload
  | InTotal rat "(string, rat) dict" workload
  | InNamed string workload
  | InNamedOrNop string workload
  | InToken rat workload
  | InTime rat workload

primrec run_workload :: "workload \<Rightarrow> body" where
  "run_workload (Charge c) s = accumulate_cost c s"
| "run_workload (Wait d) s = (None, s\<lparr>wall_s := map_option (\<lambda>w. w + d) (wall_s s)\<rparr>)"
| "run_workload (Raise m) s = (Some (OtherError m), s)"
| "run_workload (Then p q) s =
     (case run_workload p s of (None, s') \<Rightarrow> run_workload q s' | (Some e, s') \<Rightarrow> (Some e, s'))"
| "run_workload (InTotal b caps p) s = with_total_budget b caps (run_workload p) s"
| "run_workload (InNamed n p) s = with_named_budget n (run_workload p) s"
| "run_workload (InNamedOrNop n p) s = with_named_budget_or_nop n (run_workload p) s"
| "run_workload (InToken b p) s = with_token_cost_budget b (run_workload p) s"
| "run_workload (InTime b p) s = with_time_budget b (run_workload p) s"

lemma run_scopes:
  "run_workload (InTotal b caps p) = with_total_budget b caps (run_workload p)"
  "run_workload (InNamed n p) = with_named_budget n (run_workload p)"
  "run_workload (InNamedOrNop n p) = with_named_budget_or_nop n (run_workload p)"
  "run_workload (InToken b p) = with_token_cost_budget b (run_workload p)"
  "run_workload (InTime b p) = with_time_budget b (run_workload p)"
  by (simp_all add: fun_eq_iff)

lemmas manager_defs = with_total_budget_def with_named_budget_def with_named_budget_or_nop_def
  with_token_cost_budget_def with_time_budget_def accumulate_cost_def install_caps_def

definition context_of :: "budget_state \<Rightarrow> addr option \<times> (string, addr) dict option \<times> string option \<times> rat option \<times> bool" where
  "context_of s = (budget_accumulator s, cost_centers s, cost_center_name s, time_limit s, wall_s s = None)"

definition context_preserving :: "body \<Rightarrow> bool" where
  "context_preserving b \<longleftrightarrow> (\<forall>s. context_of (snd (b s)) = context_of s)"

lemma context_preservingD:
  assumes "context_preserving b"
  shows "budget_accumulator (snd (b s)) = budget_accumulator s" "cost_centers (snd (b s)) = cost_centers s"
    "cost_center_name (snd (b s)) = cost_center_name s" "time_limit (snd (b s)) = time_limit s"
    "(wall_s (snd (b s)) = None) = (wall_s s = None)"
  using assms by (auto simp: context_preserving_def context_of_def)

lemma context_preserving_managers:
  assumes "context_preserving b"
  shows "context_preserving (with_total_budget amount caps b)" "context_preserving (with_named_budget n b)"
    "context_preserving (with_named_budget_or_nop n b)" "context_preserving (with_token_cost_budget amount b)"
    "context_preserving (with_time_budget amount b)"
  by (auto simp: context_preserving_def [of "with_total_budget amount caps b"]
      context_preserving_def [of "with_named_budget n b"] context_preserving_def [of "with_named_budget_or_nop n b"]
      context_preserving_def [of "with_token_cost_budget amount b"] context_preserving_def [of "with_time_budget amount b"]
      manager_defs context_of_def Let_def split_beta context_preservingD [OF assms] split: option.split)

lemma context_preserving_run: "context_preserving (run_workload p)"
proof (induction p)
  case (Then p q)
  then show ?case by (auto simp: context_preserving_def split: prod.split option.split) (metis snd_conv)+
qed (simp_all add: context_preserving_managers run_scopes,
     simp_all add: context_preserving_def context_of_def accumulate_cost_def split: option.split)

text \<open>
  C39: However scopes are nested, and whether the body returns or raises, leaving them restores the active
  accumulator, the cost centers, the cost-center name and the time limit to what they were on entry.
\<close>

theorem scopes_restore_context:
  "budget_accumulator (snd (run_workload p s)) = budget_accumulator s \<and>
   cost_centers (snd (run_workload p s)) = cost_centers s \<and>
   cost_center_name (snd (run_workload p s)) = cost_center_name s \<and>
   time_limit (snd (run_workload p s)) = time_limit s"
  by (simp add: context_preservingD [OF context_preserving_run])

subsection \<open>How the counters evolve\<close>

lemma wall_now_updates [simp]:
  "wall_now (s\<lparr>store := h\<rparr>) = wall_now s" "wall_now (s\<lparr>budget_accumulator := a\<rparr>) = wall_now s"
  "wall_now (s\<lparr>cost_centers := cs\<rparr>) = wall_now s" "wall_now (s\<lparr>cost_center_name := n\<rparr>) = wall_now s"
  "wall_now (s\<lparr>time_limit := l\<rparr>) = wall_now s"
  by (simp_all add: wall_now_def)

text \<open>
  A relation on heaps that holds when a counter is created and when an allowed cost is accrued, and one on
  clock readings that holds when time passes, hold from the start to the end of every workload that charges
  and waits as allowed.
\<close>

locale store_order =
  fixes rel :: "heap \<Rightarrow> heap \<Rightarrow> bool"
    and allowed :: "rat \<Rightarrow> bool"
    and clock :: "rat \<Rightarrow> rat \<Rightarrow> bool"
    and passing :: "rat \<Rightarrow> bool"
  assumes rel_refl: "rel h h"
    and rel_trans: "rel h h' \<Longrightarrow> rel h' h'' \<Longrightarrow> rel h h''"
    and rel_append: "rel h (h @ k)"
    and rel_accrue: "allowed c \<Longrightarrow> rel h (accrue h a c)"
    and clock_refl: "clock w w"
    and clock_trans: "clock w w' \<Longrightarrow> clock w' w'' \<Longrightarrow> clock w w''"
    and clock_passing: "passing d \<Longrightarrow> clock w (w + d)"

primrec charges_only :: "(rat \<Rightarrow> bool) \<Rightarrow> (rat \<Rightarrow> bool) \<Rightarrow> workload \<Rightarrow> bool" where
  "charges_only P Q (Charge c) = P c"
| "charges_only P Q (Wait d) = Q d"
| "charges_only P Q (Raise m) = True"
| "charges_only P Q (Then p q) = (charges_only P Q p \<and> charges_only P Q q)"
| "charges_only P Q (InTotal b caps p) = charges_only P Q p"
| "charges_only P Q (InNamed n p) = charges_only P Q p"
| "charges_only P Q (InNamedOrNop n p) = charges_only P Q p"
| "charges_only P Q (InToken b p) = charges_only P Q p"
| "charges_only P Q (InTime b p) = charges_only P Q p"

context store_order
begin

definition evolves :: "body \<Rightarrow> bool" where
  "evolves b \<longleftrightarrow> (\<forall>s. rel (store s) (store (snd (b s))) \<and> clock (wall_now s) (wall_now (snd (b s))))"

lemma evolvesD:
  assumes "evolves b"
  shows "rel h (store s) \<Longrightarrow> rel h (store (snd (b s)))" "clock w (wall_now s) \<Longrightarrow> clock w (wall_now (snd (b s)))"
  using assms rel_trans clock_trans unfolding evolves_def by blast+

lemma evolves_managers:
  assumes "evolves b"
  shows "evolves (with_total_budget amount caps b)" "evolves (with_named_budget n b)"
    "evolves (with_named_budget_or_nop n b)" "evolves (with_token_cost_budget amount b)"
    "evolves (with_time_budget amount b)"
  using evolvesD [OF assms] rel_refl rel_append clock_refl
  by (auto simp: evolves_def [of "with_total_budget amount caps b"]
      evolves_def [of "with_named_budget n b"] evolves_def [of "with_named_budget_or_nop n b"]
      evolves_def [of "with_token_cost_budget amount b"] evolves_def [of "with_time_budget amount b"]
      manager_defs Let_def split_beta split: option.split)

lemma evolves_run: "charges_only allowed passing p \<Longrightarrow> evolves (run_workload p)"
proof (induction p)
  case (Then p q)
  then have pq: "evolves (run_workload p)" "evolves (run_workload q)" by simp_all
  show ?case unfolding evolves_def
  proof
    fix s
    show "rel (store s) (store (snd (run_workload (Then p q) s))) \<and>
      clock (wall_now s) (wall_now (snd (run_workload (Then p q) s)))"
      using evolvesD(1) [OF pq(1), of "store s" s] evolvesD(2) [OF pq(1), of "wall_now s" s]
        evolvesD(1) [OF pq(2), of "store s" "snd (run_workload p s)"]
        evolvesD(2) [OF pq(2), of "wall_now s" "snd (run_workload p s)"] rel_refl clock_refl
      by (auto split: prod.split option.split)
  qed
qed (simp_all add: evolves_managers run_scopes,
     auto simp: evolves_def accumulate_cost_def wall_now_def rel_refl rel_accrue clock_refl clock_passing split: option.split)

end

interpretation shape: store_order same_shape "\<lambda>_. True" "\<lambda>_ _. True" "\<lambda>_. True"
  by unfold_locales (auto intro: same_shape_trans)

interpretation growth: store_order grown "(\<le>) 0" "(\<le>)" "(\<le>) 0"
  by unfold_locales (auto intro: grown_trans grown_accrue)

lemma later_state_run: "charges_only ((\<le>) 0) ((\<le>) 0) p \<Longrightarrow> later_state s (snd (run_workload p s))"
  using growth.evolves_run [of p] by (simp add: growth.evolves_def later_state_def)

lemma get_constraints_run: "get_constraints (snd (run_workload p s)) = get_constraints s"
  using context_preservingD [OF context_preserving_run [of p], of s]
  by (auto simp: get_constraints_def split: option.split)

text \<open>
  As long as nothing is refunded, running out is final: once a caller polling the budget would be
  stopped (or finds itself under pressure), it still is after any further nested work, waiting or failure.
\<close>

theorem exhaustion_is_final:
  assumes "charges_only ((\<le>) 0) ((\<le>) 0) p"
  shows "(exhausted_constraint s \<noteq> None \<longrightarrow> exhausted_constraint (snd (run_workload p s)) \<noteq> None) \<and>
    (budget_pressure s \<longrightarrow> budget_pressure (snd (run_workload p s)))"
  using constraint.find_over_later [OF later_state_run [OF assms], of s "get_constraints s"]
    constraint.list_ex_pressed_later [OF later_state_run [OF assms], of s budget_pressure_threshold "get_constraints s"]
  by (auto simp: exhausted_constraint_def budget_pressure_def get_constraints_run)

subsection \<open>Where the money goes\<close>

text \<open>
  The charges of a workload that count for a counter: \<open>hit\<close> says for which innermost cost center (none for
  work outside any named scope) a charge reaches it.
\<close>

primrec charged :: "(string option \<Rightarrow> bool) \<Rightarrow> string option \<Rightarrow> workload \<Rightarrow> rat" where
  "charged hit center (Charge c) = (if hit center then c else 0)"
| "charged hit center (Wait d) = 0"
| "charged hit center (Raise m) = 0"
| "charged hit center (Then p q) = charged hit center p + charged hit center q"
| "charged hit center (InTotal b caps p) = 0"
| "charged hit center (InNamed n p) = charged hit (Some n) p"
| "charged hit center (InNamedOrNop n p) = charged hit (Some n) p"
| "charged hit center (InToken b p) = 0"
| "charged hit center (InTime b p) = charged hit center p"

definition tracked :: "addr \<Rightarrow> (string option \<Rightarrow> bool) \<Rightarrow> string option \<Rightarrow> budget_state \<Rightarrow> bool" where
  "tracked x hit center s \<longleftrightarrow> x < length (store s) \<and>
     (\<exists>a<length (store s). budget_accumulator s = Some a \<and> (x \<in> set (chain (store s) a)) = hit center) \<and>
     (\<exists>cs. cost_centers s = Some cs \<and>
        (\<forall>n a. dget cs n = Some a \<longrightarrow> a < length (store s) \<and> (x \<in> set (chain (store s) a)) = hit (Some n)))"

lemma tracked_cong:
  assumes "tracked x hit center s" and "same_shape (store s) (store s')"
    and "budget_accumulator s' = budget_accumulator s" and "cost_centers s' = cost_centers s"
  shows "tracked x hit center s'"
proof -
  have "length (store s) \<le> length (store s')" using assms(2) by (simp add: same_shape_def)
  with assms show ?thesis
    using same_shape_chain [OF assms(2)] unfolding tracked_def by fastforce
qed

lemma tracked_run:
  assumes "tracked x hit center s"
  shows "tracked x hit center (snd (run_workload p s))"
  using assms
proof (rule tracked_cong)
  have "charges_only (\<lambda>_. True) (\<lambda>_. True) p" by (induction p) simp_all
  then show "same_shape (store s) (store (snd (run_workload p s)))"
    using shape.evolves_run [of p] by (simp add: shape.evolves_def)
qed (simp_all add: context_preservingD [OF context_preserving_run])

lemma charged_run:
  assumes "tracked x hit center s" and "run_workload p s = (None, s')"
  shows "curr_cost (store s' ! x) = curr_cost (store s ! x) + charged hit center p"
  using assms
proof (induction p arbitrary: s s' center)
  case (Charge c)
  then show ?case by (auto simp: tracked_def accumulate_cost_def accrue_nth)
next
  case (Then p q)
  then obtain s1 where "run_workload p s = (None, s1)" "run_workload q s1 = (None, s')"
    by (auto split: prod.splits option.splits)
  then show ?case
    using Then.IH(1) [OF Then.prems(1)] Then.IH(2) [of center s1 s'] tracked_run [OF Then.prems(1), of p] by simp
next
  case (InNamed n p)
  then obtain cs a where cs: "cost_centers s = Some cs" "dget cs n = Some a"
    by (auto simp: with_named_budget_def tracked_def split: option.splits)
  then have "tracked x hit (Some n) (s\<lparr>budget_accumulator := Some a, cost_center_name := Some n\<rparr>)"
    using InNamed.prems(1) by (auto simp: tracked_def)
  with InNamed cs show ?case
    by (auto simp: with_named_budget_def Let_def split: prod.splits)
next
  case (InNamedOrNop n p)
  then obtain cs a where cs: "cost_centers s = Some cs" "dget cs n = Some a"
    by (auto simp: with_named_budget_or_nop_def with_named_budget_def tracked_def split: option.splits)
  then have "tracked x hit (Some n) (s\<lparr>budget_accumulator := Some a, cost_center_name := Some n\<rparr>)"
    using InNamedOrNop.prems(1) by (auto simp: tracked_def)
  with InNamedOrNop cs show ?case
    by (auto simp: with_named_budget_or_nop_def with_named_budget_def Let_def split: prod.splits)
next
  case (InTime b p)
  then have "tracked x hit center (s\<lparr>time_limit := Some b\<rparr>)" by (auto simp: tracked_def)
  with InTime show ?case
    by (auto simp: with_time_budget_def Let_def split: prod.splits if_splits)
qed (auto simp: tracked_def with_total_budget_def with_token_cost_budget_def)

text \<open>The state in which the body of \<^verbatim>\<open>total_budget\<close> starts: pool, then one cap per phase.\<close>

definition installed :: "rat \<Rightarrow> (string, rat) dict \<Rightarrow> budget_state \<Rightarrow> budget_state" where
  "installed amount caps s =
     s\<lparr>store := fst (install_caps (store s @ [\<lparr>total_budget = amount, curr_cost = 0, parent = None\<rparr>])
         (length (store s)) caps),
       cost_centers := Some (snd (install_caps (store s @ [\<lparr>total_budget = amount, curr_cost = 0, parent = None\<rparr>])
         (length (store s)) caps)),
       budget_accumulator := Some (length (store s))\<rparr>"

lemma store_installed:
  "store (installed amount caps s) = store s @ \<lparr>total_budget = amount, curr_cost = 0, parent = None\<rparr> #
     map (\<lambda>(k, v). \<lparr>total_budget = v, curr_cost = 0, parent = Some (length (store s))\<rparr>) caps"
  by (simp add: installed_def install_caps_def)

lemma chain_pool: "chain (store (installed amount caps s)) (length (store s)) = [length (store s)]"
  by (subst chain.simps) (simp add: store_installed nth_append)

lemma chain_cap:
  assumes "i < length caps"
  shows "chain (store (installed amount caps s)) (Suc (length (store s) + i)) =
    [Suc (length (store s) + i), length (store s)]"
  using assms
  by (subst chain.simps) (simp add: store_installed nth_append chain_pool [unfolded store_installed] split_beta)

lemma dget_zip_keys:
  assumes "dict_ok caps" and "dget (zip (keys caps) [m..<m + length caps]) n = Some a"
  shows "\<exists>i<length caps. a = m + i \<and> keys caps ! i = n"
  using assms by (auto simp: dict_ok_def map_of_zip_nth dest!: dget_Some_in simp: in_set_conv_nth)

lemma tracked_installed:
  assumes "dict_ok caps"
  shows "tracked (length (store s)) (\<lambda>_. True) None (installed amount caps s)"
    and "i < length caps \<Longrightarrow>
      tracked (Suc (length (store s) + i)) (\<lambda>c. c = Some (keys caps ! i)) None (installed amount caps s)"
proof -
  let ?n = "length (store s)"
  have len: "length (store (installed amount caps s)) = Suc (?n + length caps)" by (simp add: store_installed)
  have centers: "cost_centers (installed amount caps s) = Some (zip (keys caps) [Suc ?n..<Suc ?n + length caps])"
    "budget_accumulator (installed amount caps s) = Some ?n"
    by (simp_all add: installed_def install_caps_def)
  let ?h = "store (installed amount caps s)"
  have get: "\<exists>j<length caps. a = Suc (?n + j) \<and> keys caps ! j = m"
    if "dget (zip (keys caps) [Suc ?n..<Suc ?n + length caps]) m = Some a" for m a
    using dget_zip_keys [OF assms that] by simp
  have chains: "a < length ?h \<and> ?n \<in> set (chain ?h a) \<and>
      (i < length caps \<longrightarrow> (Suc (?n + i) \<in> set (chain ?h a)) = (m = keys caps ! i))"
    if "dget (zip (keys caps) [Suc ?n..<Suc ?n + length caps]) m = Some a" for m a
  proof -
    note got = that
    obtain j where j: "j < length caps" "a = Suc (?n + j)" "keys caps ! j = m" using get [OF got] by blast
    have "(i = j) = (m = keys caps ! i)" if "i < length caps"
      using assms that j(1,3) nth_eq_iff_index_eq [of "keys caps" j i] by (auto simp: dict_ok_def)
    then show ?thesis by (auto simp: j(2) len chain_cap [OF j(1)] j(1))
  qed
  show "tracked ?n (\<lambda>_. True) None (installed amount caps s)"
    using chains by (simp add: tracked_def centers len chain_pool)
  show "tracked (Suc (?n + i)) (\<lambda>c. c = Some (keys caps ! i)) None (installed amount caps s)" if "i < length caps"
    using chains that by (simp add: tracked_def centers len chain_pool)
qed

text \<open>
  C11: Inside \<^verbatim>\<open>total_budget\<close>, the pool's accrued cost is the sum of every charge of the body, whichever
  nested phase made it, and the cap of a phase has accrued exactly the charges whose innermost named scope
  was that phase.
\<close>

theorem pool_and_caps_account_for_every_charge:
  assumes "dict_ok caps" and "run_workload (InTotal amount caps p) s = (None, s')"
  shows "curr_cost (store s' ! length (store s)) = charged (\<lambda>_. True) None p \<and>
    (\<forall>i<length caps. curr_cost (store s' ! (Suc (length (store s)) + i)) =
       charged (\<lambda>c. c = Some (keys caps ! i)) None p)"
proof -
  let ?s1 = "snd (run_workload p (installed amount caps s))"
  have s1: "run_workload p (installed amount caps s) = (None, ?s1)" "store s' = store ?s1"
    using assms(2)
    by (auto simp: with_total_budget_def installed_def Let_def split_beta prod_eq_iff split: if_splits)
  note run = charged_run [OF _ s1(1)]
  show ?thesis
    using run [OF tracked_installed(1) [OF assms(1)]] run [OF tracked_installed(2) [OF assms(1)]]
    by (auto simp: s1(2) store_installed nth_append split_beta)
qed

definition sample_run :: workload where
  "sample_run = Then (Charge 1) (Then (InNamed ''analysis'' (Charge 2))
     (InNamedOrNop ''formalization'' (Then (Charge 4) (InNamed ''analysis'' (Charge 8)))))"

definition sample_idle :: budget_state where
  "sample_idle = \<lparr>store = [], budget_accumulator = None, cost_centers = None, cost_center_name = None,
     time_limit = None, wall_s = Some 0\<rparr>"

lemma pool_and_caps_account_for_every_charge_witness:
  "\<exists>s'. run_workload (InTotal 20 [(''analysis'', 9), (''formalization'', 12)] sample_run) sample_idle = (None, s') \<and>
     curr_cost (store s' ! 0) = 15 \<and> curr_cost (store s' ! 1) = 10 \<and> curr_cost (store s' ! 2) = 4"
proof -
  let ?caps = "[(''analysis'', 9), (''formalization'', 12)] :: (string, rat) dict"
  let ?s = "snd (run_workload (InTotal 20 ?caps sample_run) sample_idle)"
  have run: "run_workload (InTotal 20 ?caps sample_run) sample_idle = (None, ?s)"
    by (simp add: sample_run_def sample_idle_def manager_defs Let_def)
  have ok: "dict_ok ?caps" by (simp add: dict_ok_def)
  show ?thesis
  proof (intro exI conjI)
    note all = pool_and_caps_account_for_every_charge [OF ok run]
    show "run_workload (InTotal 20 ?caps sample_run) sample_idle = (None, ?s)" by (rule run)
    show "curr_cost (store ?s ! 0) = 15"
      using conjunct1 [OF all] by (simp add: sample_run_def sample_idle_def del: run_workload.simps)
    show "curr_cost (store ?s ! 1) = 10"
      using spec [OF conjunct2 [OF all], of 0] by (simp add: sample_run_def sample_idle_def del: run_workload.simps)
    show "curr_cost (store ?s ! 2) = 4"
      using spec [OF conjunct2 [OF all], of 1]
      by (simp add: sample_run_def sample_idle_def numeral_2_eq_2 del: run_workload.simps)
  qed
qed

lemma exhaustion_is_final_witness:
  "exhausted_constraint (snd (run_workload (Then (Wait 5) (InNamed ''formalization'' (Raise ''stuck''))) sample_state))
     \<noteq> None"
proof -
  have "exhausted_constraint sample_state \<noteq> None"
    using sample_chain
    by (simp add: exhausted_constraint_def get_constraints_def overbudget_iff exceeded_def sample_state_def)
  then show ?thesis
    using exhaustion_is_final [of "Then (Wait 5) (InNamed ''formalization'' (Raise ''stuck''))" sample_state]
    by simp
qed

subsection \<open>Monitors\<close>

lemma monitor_loop_raises:
  "snd (monitor_loop opts s st cs w msgs upd) = Inl e \<longleftrightarrow>
     (\<exists>c. find (\<lambda>c. overbudget_error opts s c \<noteq> None) cs = Some c \<and> overbudget_error opts s c = Some e)"
  by (induction cs arbitrary: w msgs upd) (auto split: option.split)

text \<open>
  A monitor that opted into the hard stop (\<^verbatim>\<open>on_overbudget=raise_budget_exceeded\<close>) raises between two
  turns exactly when, and with exactly the exception that, a caller polling
  \<^verbatim>\<open>raise_if_budget_exhausted\<close> under the same scopes would get.
\<close>

theorem monitor_agrees_with_polling:
  "snd (monitor_call (opts\<lparr>on_overbudget := Some (\<lambda>k. Some (raise_budget_exceeded k))\<rparr>) (get_constraints s) s st w) = Inl e
   \<longleftrightarrow> raise_if_budget_exhausted s = Some e"
proof -
  let ?o = "opts\<lparr>on_overbudget := Some (\<lambda>k. Some (raise_budget_exceeded k))\<rparr>"
  have err: "overbudget_error ?o s c =
      (if constraint_overbudget s c then Some (raise_budget_exceeded (constraint_sort c)) else None)" for c
    by (simp add: overbudget_error_def)
  then have stop: "(overbudget_error ?o s c \<noteq> None) = constraint_overbudget s c" for c by simp
  show ?thesis
  proof (cases "get_constraints s = []")
    case True
    then show ?thesis by (simp add: monitor_call_def raise_if_budget_exhausted_def exhausted_constraint_def)
  next
    case False
    have "snd (monitor_call ?o (get_constraints s) s st w) = Inl e \<longleftrightarrow>
        snd (monitor_loop ?o s st (get_constraints s) w [] []) = Inl e"
      using False by (auto simp: monitor_call_def split: prod.split sum.split)
    also have "\<dots> \<longleftrightarrow> raise_if_budget_exhausted s = Some e"
      unfolding monitor_loop_raises stop
      by (auto simp: err raise_if_budget_exhausted_def exhausted_constraint_def dest: find_SomeD)
    finally show ?thesis .
  qed
qed

definition warnings :: "(budget_error + 'v monitor_return) list \<Rightarrow> string list" where
  "warnings rs = concat (map (\<lambda>r. case r of Inr (Some ms, u) \<Rightarrow> ms | _ \<Rightarrow> []) rs)"

lemma warnings_Cons: "warnings (r # rs) = (case r of Inr (Some ms, u) \<Rightarrow> ms | _ \<Rightarrow> []) @ warnings rs"
  by (simp add: warnings_def)

definition fresh :: "('st, 'v) monitor_options \<Rightarrow> warned \<Rightarrow> budget_state \<Rightarrow> resource_constraint \<Rightarrow> bool" where
  "fresh opts w s c \<longleftrightarrow> constraint_pressured s (warn_threshold opts) c \<and> \<not> w (constraint_sort c)"

lemma monitor_loop_warns:
  assumes "on_overbudget opts = None" and "distinct (map constraint_sort cs)"
  shows "\<exists>upd'. monitor_loop opts s st cs w msgs upd =
    (\<lambda>k. w k \<or> (\<exists>c\<in>set cs. constraint_sort c = k \<and> fresh opts w s c),
     Inr (msgs @ map (\<lambda>c. warning_text (warning_message opts) st (constraint_sort c)) (filter (fresh opts w s) cs), upd'))"
  using assms(2)
proof (induction cs arbitrary: w msgs upd)
  case Nil
  then show ?case by simp
next
  case (Cons c cs)
  have none: "overbudget_error opts s c = None" using assms(1) by (simp add: overbudget_error_def)
  have other: "fresh opts (w(constraint_sort c := True)) s d = fresh opts w s d" if "d \<in> set cs" for d
  proof -
    have "constraint_sort d \<noteq> constraint_sort c" using that Cons.prems by (metis distinct.simps(2) image_eqI list.simps(9) set_map)
    then show ?thesis by (simp add: fresh_def)
  qed
  have filt: "filter (fresh opts (w(constraint_sort c := True)) s) cs = filter (fresh opts w s) cs"
    by (rule filter_cong) (simp_all add: other)
  show ?case
  proof (cases "fresh opts w s c")
    case False
    then show ?thesis using Cons.IH [of w msgs upd] Cons.prems none by (auto simp: fresh_def fun_eq_iff)
  next
    case True
    let ?w = "w(constraint_sort c := True)"
    have after: "(\<lambda>k. ?w k \<or> (\<exists>d\<in>set cs. constraint_sort d = k \<and> fresh opts ?w s d)) =
        (\<lambda>k. w k \<or> (\<exists>d\<in>set (c # cs). constraint_sort d = k \<and> fresh opts w s d))"
      using other True by (auto simp: fun_eq_iff)
    have "distinct (map constraint_sort cs)" using Cons.prems by simp
    note ih = Cons.IH [OF this, of ?w "msgs @ [warning_text (warning_message opts) st (constraint_sort c)]",
        unfolded after filt]
    have "constraint_pressured s (warn_threshold opts) c" "\<not> w (constraint_sort c)"
      using True by (simp_all add: fresh_def)
    then show ?thesis using ih True none by (simp del: fun_upd_apply)
  qed
qed

lemma monitor_call_warns:
  assumes "on_overbudget opts = None" and "distinct (map constraint_sort cs)"
  shows "\<exists>w' r. monitor_call opts cs s st w = (w', Inr r) \<and>
    (\<forall>k. w' k = (w k \<or> (\<exists>c\<in>set cs. constraint_sort c = k \<and> fresh opts w s c))) \<and>
    length (case r of (Some ms, u) \<Rightarrow> ms | _ \<Rightarrow> []) = length (filter (fresh opts w s) cs)"
proof (cases "cs = []")
  case True
  then show ?thesis by (simp add: monitor_call_def)
next
  case False
  with monitor_loop_warns [OF assms, of s st w "[]" "[]"] show ?thesis
    by (auto simp: monitor_call_def none_if_empty_def)
qed

lemma length_filter_split:
  "length (filter P xs) + length (filter (\<lambda>x. Q x \<and> \<not> P x) xs) = length (filter (\<lambda>x. P x \<or> Q x) xs)"
  by (induction xs) auto

lemma fresh_later:
  assumes "distinct (map constraint_sort cs)"
    and "\<forall>k. w' k = (w k \<or> (\<exists>c\<in>set cs. constraint_sort c = k \<and> fresh opts w s c))"
    and "c \<in> set cs"
  shows "fresh opts w' s' c = (fresh opts w s' c \<and> \<not> fresh opts w s c)"
proof -
  have "d = c" if "d \<in> set cs" "constraint_sort d = constraint_sort c" for d
    using assms(1,3) that by (metis distinct_map inj_on_def)
  then have "w' (constraint_sort c) = (w (constraint_sort c) \<or> fresh opts w s c)"
    using assms(2,3) by metis
  then show ?thesis by (auto simp: fresh_def)
qed

lemma warnings_turns:
  assumes "on_overbudget opts = None" and "distinct (map constraint_sort cs)"
  shows "length (warnings (monitor_turns opts cs ts w)) =
    length (filter (\<lambda>c. \<exists>(s, st)\<in>set ts. fresh opts w s c) cs)"
proof (induction ts arbitrary: w)
  case Nil
  then show ?case by (simp add: warnings_def)
next
  case (Cons t ts)
  obtain s st where t: "t = (s, st)" by (cases t)
  obtain w' r where call: "monitor_call opts cs s st w = (w', Inr r)"
    and w': "\<forall>k. w' k = (w k \<or> (\<exists>c\<in>set cs. constraint_sort c = k \<and> fresh opts w s c))"
    and len: "length (case r of (Some ms, u) \<Rightarrow> ms | _ \<Rightarrow> []) = length (filter (fresh opts w s) cs)"
    using monitor_call_warns [OF assms] by blast
  have "filter (\<lambda>c. \<exists>(s, st)\<in>set ts. fresh opts w' s c) cs =
      filter (\<lambda>c. (\<exists>(s, st)\<in>set ts. fresh opts w s c) \<and> \<not> fresh opts w s c) cs"
    by (rule filter_cong) (auto simp: fresh_later [OF assms(2) w'])
  then have "length (warnings (monitor_turns opts cs (t # ts) w)) =
      length (filter (fresh opts w s) cs) +
      length (filter (\<lambda>c. (\<exists>(s, st)\<in>set ts. fresh opts w s c) \<and> \<not> fresh opts w s c) cs)"
    by (simp add: t call warnings_Cons len Cons.IH)
  then show ?case by (simp add: length_filter_split t)
qed

lemma distinct_constraint_sorts: "distinct (map constraint_sort (get_constraints s))"
  by (auto simp: get_constraints_def split: option.split)

text \<open>
  Over the whole life of an agent whose monitor has no hard stop, the number of warnings injected is
  exactly the number of installed constraints that were under pressure at some turn: each is announced once,
  the first time it is seen, and never repeated, whatever happens to the budget in between.
\<close>

theorem each_constraint_warned_exactly_once:
  assumes "on_overbudget opts = None"
  shows "length (warnings (budget_monitor opts s0 turns)) =
    length (filter (\<lambda>c. \<exists>(s, st)\<in>set turns. constraint_pressured s (warn_threshold opts) c) (get_constraints s0))"
  unfolding budget_monitor_def
  by (subst warnings_turns [OF assms distinct_constraint_sorts]) (simp add: fresh_def)

lemma each_constraint_warned_exactly_once_witness:
  "length (warnings (budget_monitor (default_options :: (nat, nat) monitor_options) sample_state
     [(sample_state, 0), (sample_state, 1), (sample_state\<lparr>wall_s := Some 50\<rparr>, 2)])) = 2"
proof -
  have "pressured (store sample_state) budget_pressure_threshold 1"
    using sample_chain
    by (simp add: pressured_iff near_def sample_state_def budget_pressure_threshold_def)
  then show ?thesis
    using each_constraint_warned_exactly_once [of "default_options :: (nat, nat) monitor_options" sample_state
        "[(sample_state, 0), (sample_state, 1), (sample_state\<lparr>wall_s := Some 50\<rparr>, 2)]"]
    by (simp add: default_options_def get_constraints_def sample_state_def time_pressured_def wall_now_def
        budget_pressure_threshold_def)
qed

end
