(* ===== verification/Pystr.thy ===== *)
theory Pystr
  imports Prelude
begin

text \<open>
  The string routines of the Python standard library that the components use: \<^verbatim>\<open>strip\<close>,
  \<^verbatim>\<open>rstrip\<close>, \<^verbatim>\<open>capitalize\<close>, \<^verbatim>\<open>count\<close>, \<^verbatim>\<open>replace\<close>, \<^verbatim>\<open>repr\<close> of strings and of lists of
  strings, \<^verbatim>\<open>int\<close>, POSIX path arithmetic, and JSON values with \<^verbatim>\<open>json.dumps(..., sort_keys=True)\<close>.
  Character classes are those of ASCII; a byte of a non-ASCII character counts as a printable
  character that is neither blank nor alphanumeric.
\<close>

subsection \<open>Characters\<close>

abbreviation code :: "char \<Rightarrow> nat" where
  "code c \<equiv> of_char c"

definition is_blank :: "char \<Rightarrow> bool" where
  "is_blank c \<longleftrightarrow> (9 \<le> code c \<and> code c \<le> 13) \<or> (28 \<le> code c \<and> code c \<le> 32)"

definition is_digit :: "char \<Rightarrow> bool" where
  "is_digit c \<longleftrightarrow> 48 \<le> code c \<and> code c \<le> 57"

definition is_alnum :: "char \<Rightarrow> bool" where
  "is_alnum c \<longleftrightarrow> is_digit c \<or> (65 \<le> code c \<and> code c \<le> 90) \<or> (97 \<le> code c \<and> code c \<le> 122)"

definition lower_char :: "char \<Rightarrow> char" where
  "lower_char c = (let n = code c in if 65 \<le> n \<and> n \<le> 90 then char_of (n + 32) else c)"

fun capitalize :: "string \<Rightarrow> string" where
  "capitalize [] = []"
| "capitalize (c # cs) = upper_char c # map lower_char cs"

definition lstrip :: "string \<Rightarrow> string" where
  "lstrip = dropWhile is_blank"

definition rstrip :: "string \<Rightarrow> string" where
  "rstrip s = rev (dropWhile is_blank (rev s))"

definition strip :: "string \<Rightarrow> string" where
  "strip s = rstrip (lstrip s)"

definition rstrip_char :: "char \<Rightarrow> string \<Rightarrow> string" where
  "rstrip_char x s = rev (dropWhile (\<lambda>c. c = x) (rev s))"

definition lower :: "string \<Rightarrow> string" where
  "lower = map lower_char"

subsection \<open>Searching and replacing\<close>

definition starts_with :: "'a list \<Rightarrow> 'a list \<Rightarrow> bool" where
  "starts_with p s \<longleftrightarrow> take (length p) s = p"

lemma starts_with_iff: "starts_with p s \<longleftrightarrow> (\<exists>r. s = p @ r)"
  by (metis append_eq_conv_conj append_take_drop_id starts_with_def)

definition ends_in :: "string \<Rightarrow> string \<Rightarrow> bool" where
  "ends_in s suffix \<longleftrightarrow> starts_with (rev suffix) (rev s)"

fun occurs_in :: "string \<Rightarrow> string \<Rightarrow> bool" where
  \<comment> \<open>\<^verbatim>\<open>marker in text\<close>\<close>
  "occurs_in marker [] \<longleftrightarrow> marker = []"
| "occurs_in marker (c # cs) \<longleftrightarrow> starts_with marker (c # cs) \<or> occurs_in marker cs"

text \<open>\<^verbatim>\<open>s.count(old)\<close>: leftmost non-overlapping occurrences; the empty string occurs between all characters.\<close>

function count_occurrences :: "string \<Rightarrow> string \<Rightarrow> nat" where
  "count_occurrences old s =
     (if old = [] \<or> s = [] then 0
      else if starts_with old s then Suc (count_occurrences old (drop (length old) s))
      else count_occurrences old (tl s))"
  by pat_completeness auto
termination
  by (relation "measure (\<lambda>(old, s). length s)") (auto simp: neq_Nil_conv)

declare count_occurrences.simps [simp del]

definition str_count :: "string \<Rightarrow> string \<Rightarrow> nat" where
  "str_count old s = (if old = [] then length s + 1 else count_occurrences old s)"

text \<open>\<^verbatim>\<open>s.replace(old, new, n)\<close>; a negative \<^verbatim>\<open>n\<close> (here None) replaces every occurrence.\<close>

function replace_occurrences :: "nat option \<Rightarrow> string \<Rightarrow> string \<Rightarrow> string \<Rightarrow> string" where
  "replace_occurrences n old new s =
     (if old = [] \<or> s = [] \<or> n = Some 0 then s
      else if starts_with old s
      then new @ replace_occurrences (map_option (\<lambda>k. k - 1) n) old new (drop (length old) s)
      else hd s # replace_occurrences n old new (tl s))"
  by pat_completeness auto
termination
  by (relation "measure (\<lambda>(n, old, new, s). length s)") (auto simp: neq_Nil_conv)

declare replace_occurrences.simps [simp del]

fun replace_empty :: "nat option \<Rightarrow> string \<Rightarrow> string \<Rightarrow> string" where
  "replace_empty n new s =
     (if n = Some 0 then s
      else new @ (case s of [] \<Rightarrow> [] | c # cs \<Rightarrow> c # replace_empty (map_option (\<lambda>k. k - 1) n) new cs))"

declare replace_empty.simps [simp del]

definition str_replace :: "nat option \<Rightarrow> string \<Rightarrow> string \<Rightarrow> string \<Rightarrow> string" where
  "str_replace n old new s = (if old = [] then replace_empty n new s else replace_occurrences n old new s)"

lemma count_occurrences_Nil [simp]: "count_occurrences old [] = 0"
  by (simp add: count_occurrences.simps)

lemma count_occurrences_skip:
  "\<not> starts_with old (c # cs) \<Longrightarrow> count_occurrences old (c # cs) = count_occurrences old cs"
  by (cases "old = []") (simp_all add: count_occurrences.simps [of old "c # cs"] starts_with_def)

lemma count_occurrences_hit:
  "old \<noteq> [] \<Longrightarrow> count_occurrences old (old @ q) = Suc (count_occurrences old q)"
  by (simp add: count_occurrences.simps [of old "old @ q"] starts_with_def)

lemma replace_occurrences_skip:
  "\<not> starts_with old (c # cs) \<Longrightarrow> n \<noteq> Some 0 \<Longrightarrow>
   replace_occurrences n old new (c # cs) = c # replace_occurrences n old new cs"
  by (cases "old = []") (simp_all add: replace_occurrences.simps [of n old new "c # cs"] starts_with_def)

lemma replace_occurrences_once:
  "old \<noteq> [] \<Longrightarrow> replace_occurrences (Some 1) old new (old @ q) = new @ q"
  by (simp add: replace_occurrences.simps [of "Some (Suc 0)" old new "old @ q"] replace_occurrences.simps [of "Some 0"]
      starts_with_def)

lemma replace_empty_once: "replace_empty (Some 1) new s = new @ s"
  by (cases s) (simp_all add: replace_empty.simps [of "Some (Suc 0)"] replace_empty.simps [of "Some 0"])

text \<open>Splitting at a character, as \<^verbatim>\<open>s.split(c)\<close> does.\<close>

fun split_on :: "char \<Rightarrow> string \<Rightarrow> string list" where
  "split_on sep [] = [[]]"
| "split_on sep (c # cs) =
     (if c = sep then [] # split_on sep cs
      else case split_on sep cs of [] \<Rightarrow> [[c]] | w # ws \<Rightarrow> (c # w) # ws)"

lemma split_on_not_Nil [simp]: "split_on sep s \<noteq> []"
  by (cases s) (auto split: list.split)

lemma join_split_on: "join [sep] (split_on sep s) = s"
proof (induction s)
  case Nil
  then show ?case by simp
next
  case (Cons c cs)
  then show ?case by (cases "split_on sep cs") (auto simp: join_Cons split: if_splits)
qed

lemma split_on_no_sep: "sep \<notin> set w \<Longrightarrow> split_on sep w = [w]"
  by (induction w) auto

lemma split_on_append: "sep \<notin> set w \<Longrightarrow> split_on sep (w @ sep # s) = w # split_on sep s"
  by (induction w) auto

lemma split_on_join:
  "ws \<noteq> [] \<Longrightarrow> \<forall>w\<in>set ws. sep \<notin> set w \<Longrightarrow> split_on sep (join [sep] ws) = ws"
  by (induction ws) (auto simp: join_Cons split_on_no_sep split_on_append)

lemma join_sep_inject:
  fixes sep :: char
  assumes "join [sep] xs = join [sep] ys" and "xs \<noteq> []" "ys \<noteq> []"
    and "\<forall>w\<in>set xs. sep \<notin> set w" "\<forall>w\<in>set ys. sep \<notin> set w"
  shows "xs = ys"
proof -
  have "xs = split_on sep (join [sep] xs)" by (rule split_on_join [OF assms(2,4), symmetric])
  also have "\<dots> = split_on sep (join [sep] ys)" by (simp only: assms(1))
  also have "\<dots> = ys" by (rule split_on_join [OF assms(3,5)])
  finally show ?thesis .
qed

definition split_once :: "char \<Rightarrow> string \<Rightarrow> string \<times> string" where
  \<comment> \<open>\<^verbatim>\<open>s.split(c, 1)\<close> for a string that contains the character\<close>
  "split_once c s = (takeWhile (\<lambda>x. x \<noteq> c) s, tl (dropWhile (\<lambda>x. x \<noteq> c) s))"

text \<open>\<^verbatim>\<open>str.splitlines\<close>.\<close>

definition is_line_break :: "char \<Rightarrow> bool" where
  "is_line_break c \<longleftrightarrow> (10 \<le> code c \<and> code c \<le> 13) \<or> (28 \<le> code c \<and> code c \<le> 30)"

fun splitlines_from :: "string \<Rightarrow> string \<Rightarrow> string list" where
  \<comment> \<open>\<^verbatim>\<open>str.splitlines\<close>; the first argument is the current line; a line feed ends the same line as the
     carriage return before it\<close>
  "splitlines_from cur [] = (if cur = [] then [] else [cur])"
| "splitlines_from cur (c # cs) =
     (if \<not> is_line_break c then splitlines_from (cur @ [c]) cs
      else cur # (if c = CHR 0x0D \<and> starts_with newline cs then splitlines_from [] (tl cs) else splitlines_from [] cs))"

definition splitlines :: "string \<Rightarrow> string list" where
  "splitlines = splitlines_from []"

subsection \<open>Integers\<close>

text \<open>\<^verbatim>\<open>int(s)\<close>: an optional sign, digits with single underscores between them, blanks around.\<close>

definition parse_digits :: "string \<Rightarrow> int option" where
  "parse_digits s =
     (let groups = split_on (CHR ''_'') s in
      if list_all (\<lambda>g. g \<noteq> [] \<and> list_all is_digit g) groups
      then Some (fold (\<lambda>c n. 10 * n + (int (code c) - 48)) (concat groups) 0) else None)"

definition parse_int :: "string \<Rightarrow> int option" where
  "parse_int s =
     (case s of [] \<Rightarrow> None
      | c # cs \<Rightarrow> if c = CHR ''-'' then map_option uminus (parse_digits cs)
                  else if c = CHR ''+'' then parse_digits cs else parse_digits s)"

definition py_int :: "string \<Rightarrow> int option" where
  "py_int s = parse_int (strip s)"

subsection \<open>Representations\<close>

definition hex_digit :: "nat \<Rightarrow> char" where
  "hex_digit d = (if d < 10 then char_of (48 + d) else char_of (87 + d))"

text \<open>The UTF-8 bytes of an em dash.\<close>

definition em_dash :: string where
  "em_dash = [CHR 0xE2, CHR 0x80, CHR 0x94]"

definition squote :: string where
  "squote = [CHR 0x27]"

definition backslash :: char where
  "backslash = CHR 0x5C"

definition repr_char :: "char \<Rightarrow> char \<Rightarrow> string" where
  "repr_char q c =
     (if c = q \<or> c = backslash then [backslash, c]
      else if c = CHR 0x09 then backslash # ''t''
      else if c = CHR 0x0A then backslash # ''n''
      else if c = CHR 0x0D then backslash # ''r''
      else if code c < 32 \<or> code c = 127 then backslash # ''x'' @ [hex_digit (code c div 16), hex_digit (code c mod 16)]
      else [c])"

definition py_repr :: "string \<Rightarrow> string" where
  "py_repr s =
     (let q = (if CHR 0x27 \<in> set s \<and> CHR 0x22 \<notin> set s then CHR 0x22 else CHR 0x27)
      in [q] @ concat (map (repr_char q) s) @ [q])"

definition repr_list :: "string list \<Rightarrow> string" where
  "repr_list ss = ''['' @ comma_join (map py_repr ss) @ '']''"

subsection \<open>Paths\<close>

text \<open>
  \<^verbatim>\<open>PurePosixPath(s)\<close>: the root (none, one slash, or exactly two) and the components without empty ones
  and single dots. \<^verbatim>\<open>posixpath.normpath\<close> also resolves the parent steps.
\<close>

datatype posix_path = PosixPath (path_root: nat) (path_parts: "string list")

fun leading_slashes :: "string \<Rightarrow> nat" where
  "leading_slashes [] = 0"
| "leading_slashes (c # cs) = (if c = CHR 0x2F then Suc (leading_slashes cs) else 0)"

definition root_of :: "string \<Rightarrow> nat" where
  "root_of s = (let n = leading_slashes s in if n = 0 then 0 else if n = 2 then 2 else 1)"

definition pure_path :: "string \<Rightarrow> posix_path" where
  "pure_path s = PosixPath (root_of s) (filter (\<lambda>c. c \<noteq> [] \<and> c \<noteq> ''.'') (split_on (CHR 0x2F) s))"

definition path_join :: "posix_path \<Rightarrow> string \<Rightarrow> posix_path" where
  \<comment> \<open>\<^verbatim>\<open>p / s\<close>: an absolute right operand replaces the left one\<close>
  "path_join p s = (let r = pure_path s in if path_root r \<noteq> 0 then r else PosixPath (path_root p) (path_parts p @ path_parts r))"

definition path_parent :: "posix_path \<Rightarrow> posix_path" where
  "path_parent p = PosixPath (path_root p) (butlast (path_parts p))"

definition path_str :: "posix_path \<Rightarrow> string" where
  "path_str p = (let t = replicate (path_root p) (CHR 0x2F) @ join ''/'' (path_parts p) in if t = [] then ''.'' else t)"

text \<open>\<^verbatim>\<open>Path.stem\<close>: the last component without its suffix.\<close>

definition path_stem :: "string \<Rightarrow> string" where
  "path_stem p =
     (let name = (case path_parts (pure_path p) of [] \<Rightarrow> [] | ps \<Rightarrow> last ps);
          suffix = takeWhile (\<lambda>c. c \<noteq> CHR ''.'') (rev name);
          n = length name - length suffix
      in if suffix = [] \<or> n \<le> 1 then name else take (n - 1) name)"

fun norm_parts :: "bool \<Rightarrow> string list \<Rightarrow> string list \<Rightarrow> string list" where
  \<comment> \<open>the loop of \<^verbatim>\<open>normpath\<close>; the accumulator holds the new components in reverse\<close>
  "norm_parts rooted [] acc = rev acc"
| "norm_parts rooted (c # cs) acc =
     (if c = [] \<or> c = ''.'' then norm_parts rooted cs acc
      else if c \<noteq> ''..'' \<or> (\<not> rooted \<and> acc = []) \<or> (acc \<noteq> [] \<and> hd acc = ''..'') then norm_parts rooted cs (c # acc)
      else if acc \<noteq> [] then norm_parts rooted cs (tl acc)
      else norm_parts rooted cs acc)"

definition normpath :: "string \<Rightarrow> string" where
  "normpath s =
     (if s = [] then ''.''
      else let r = root_of s;
               t = replicate r (CHR 0x2F) @ join ''/'' (norm_parts (r \<noteq> 0) (split_on (CHR 0x2F) s) [])
           in if t = [] then ''.'' else t)"

subsection \<open>JSON\<close>

text \<open>Numbers are kept as integers, or as the text Python prints for a float.\<close>

datatype json =
    JNull
  | JBool bool
  | JInt int
  | JFloat string
  | JString string
  | JArray "json list"
  | JObject "(string \<times> json) list"

definition json_char :: "char \<Rightarrow> string" where
  "json_char c =
     (if c = CHR 0x22 \<or> c = backslash then [backslash, c]
      else if c = CHR 0x0A then backslash # ''n''
      else if c = CHR 0x0D then backslash # ''r''
      else if c = CHR 0x09 then backslash # ''t''
      else if c = CHR 0x0C then backslash # ''f''
      else if c = CHR 0x08 then backslash # ''b''
      else if code c < 32 \<or> code c = 127
      then backslash # ''u00'' @ [hex_digit (code c div 16), hex_digit (code c mod 16)]
      else [c])"

definition json_string :: "string \<Rightarrow> string" where
  "json_string s = dquote @ concat (map json_char s) @ dquote"

text \<open>\<^verbatim>\<open>json.dumps(v, sort_keys=True)\<close>.\<close>

fun json_dumps :: "json \<Rightarrow> string" where
  "json_dumps JNull = ''null''"
| "json_dumps (JBool b) = (if b then ''true'' else ''false'')"
| "json_dumps (JInt i) = show_int i"
| "json_dumps (JFloat t) = t"
| "json_dumps (JString s) = json_string s"
| "json_dumps (JArray xs) = ''['' @ comma_join (map json_dumps xs) @ '']''"
| "json_dumps (JObject kvs) =
     ''{'' @ comma_join (map snd (sort_key fst (map (\<lambda>(k, v). (k, json_string k @ '': '' @ json_dumps v)) kvs))) @ ''}''"

subsection \<open>Values of unknown type\<close>

text \<open>
  What Python does with a value that came out of a file: \<^verbatim>\<open>get\<close> on what is not a dictionary, iteration over what is
  not iterable, and text where a name is missing, raise.
\<close>

datatype py_error = AttributeError | TypeError | NameMissing

fun json_truthy :: "json \<Rightarrow> bool" where
  "json_truthy JNull = False"
| "json_truthy (JBool b) = b"
| "json_truthy (JInt i) = (i \<noteq> 0)"
| "json_truthy (JFloat t) = (t \<noteq> ''0.0'' \<and> t \<noteq> ''-0.0'')"
| "json_truthy (JString s) = (s \<noteq> [])"
| "json_truthy (JArray xs) = (xs \<noteq> [])"
| "json_truthy (JObject kvs) = (kvs \<noteq> [])"

fun json_get :: "json \<Rightarrow> string \<Rightarrow> json \<Rightarrow> py_error + json" where
  \<comment> \<open>\<^verbatim>\<open>d.get(k, default)\<close>; only a dictionary has the method\<close>
  "json_get (JObject kvs) k d = Inr (case map_of kvs k of None \<Rightarrow> d | Some v \<Rightarrow> v)"
| "json_get v k d = Inl AttributeError"

fun json_iter :: "json \<Rightarrow> py_error + json list" where
  \<comment> \<open>the values a \<^verbatim>\<open>for\<close> loop visits\<close>
  "json_iter (JArray xs) = Inr xs"
| "json_iter (JString s) = Inr (map (\<lambda>c. JString [c]) s)"
| "json_iter (JObject kvs) = Inr (map (JString \<circ> fst) kvs)"
| "json_iter v = Inl TypeError"

fun json_repr :: "json \<Rightarrow> string" where
  "json_repr JNull = ''None''"
| "json_repr (JBool b) = (if b then ''True'' else ''False'')"
| "json_repr (JInt i) = show_int i"
| "json_repr (JFloat t) = t"
| "json_repr (JString s) = py_repr s"
| "json_repr (JArray xs) = ''['' @ comma_join (map json_repr xs) @ '']''"
| "json_repr (JObject kvs) = ''{'' @ comma_join (map (\<lambda>(k, v). py_repr k @ '': '' @ json_repr v) kvs) @ ''}''"

definition json_str :: "json \<Rightarrow> string" where
  "json_str v = (case v of JString s \<Rightarrow> s | v \<Rightarrow> json_repr v)"

end
