(* ===== verification/Authoring.thy ===== *)
theory Authoring
  imports Pystr
begin

text \<open>
  The state of an authoring session and its publish gate (\<^verbatim>\<open>composer/authoring/state.py\<close>), the reducer
  it borrows from \<^verbatim>\<open>composer/core/state.py\<close>, and the surgical edit of a buffer
  (\<^verbatim>\<open>composer/core/edit.py\<close>).

  The MD5 digest is an argument \<open>md5\<close> of the definitions, from a text to its hexadecimal digest: the
  theorems hold for every such function, and say where they need it not to collide. A digester that is
  updated with several texts hashes their concatenation.
\<close>

subsection \<open>Reducers\<close>

record skipped_property =
  property_title :: string
  reason :: string

definition merge_validation :: "(string, string) dict \<Rightarrow> (string, string) dict \<Rightarrow> (string, string) dict" where
  "merge_validation l r = fold (\<lambda>(k, v). dset k v) r l"

definition merge_skips :: "skipped_property list \<Rightarrow> skipped_property list \<Rightarrow> skipped_property list" where
  "merge_skips l r =
     (let by_title = fold (\<lambda>s. dset (property_title s) s) r (fold (\<lambda>s. dset (property_title s) s) l [])
      in sort_key property_title (filter (\<lambda>s. reason s \<noteq> []) (vals by_title)))"

definition merge_expected_failures :: "(string, string) dict \<Rightarrow> (string, string) dict \<Rightarrow> (string, string) dict" where
  "merge_expected_failures l r = fold (\<lambda>(k, v) d. if v = [] then dpop k d else dset k v d) r l"

subsection \<open>Digests and stamps\<close>

record authoring_state =
  curr_spec :: "string option"
  skipped :: "skipped_property list"
  validations :: "(string, string) dict"
  required_validations :: "string list"
  expected_failures :: "(string, string) dict" \<comment> \<open>only a \<^verbatim>\<open>CheckingExtra\<close> session reads it\<close>

definition spec_text :: "string \<Rightarrow> skipped_property list \<Rightarrow> string list \<Rightarrow> string" where
  \<comment> \<open>what the digester of \<^verbatim>\<open>spec_digest\<close> is fed\<close>
  "spec_text spec skips history =
     spec @ concat (map (\<lambda>s. property_title s @ '':'' @ reason s) skips) @
     concat (map (\<lambda>e. ''edit:'' @ e) history)"

definition spec_digest :: "(string \<Rightarrow> string) \<Rightarrow> string \<Rightarrow> skipped_property list \<Rightarrow> string list \<Rightarrow> string" where
  "spec_digest md5 spec skips history = md5 (spec_text spec skips history)"

definition draft_digest :: "(string \<Rightarrow> string) \<Rightarrow> authoring_state \<Rightarrow> string list \<Rightarrow> string" where
  "draft_digest md5 s history =
     spec_digest md5 (case curr_spec s of None \<Rightarrow> [] | Some t \<Rightarrow> t) (skipped s) history"

definition marked_text :: "string \<Rightarrow> string list \<Rightarrow> string" where
  "marked_text draft names = draft @ concat (map (\<lambda>n. ''expect:'' @ n) (sort names))"

definition marked_digest :: "(string \<Rightarrow> string) \<Rightarrow> string \<Rightarrow> string list \<Rightarrow> string" where
  "marked_digest md5 draft names = md5 (marked_text draft names)"

definition checked_digest :: "(string \<Rightarrow> string) \<Rightarrow> authoring_state \<Rightarrow> string list \<Rightarrow> string" where
  "checked_digest md5 s history = marked_digest md5 (draft_digest md5 s history) (keys (expected_failures s))"

type_synonym stamper = "authoring_state \<Rightarrow> string list \<Rightarrow> (string, string) dict"

definition make_validation_stamper :: "(string \<Rightarrow> string) \<Rightarrow> string \<Rightarrow> stamper" where
  "make_validation_stamper md5 key s history = [(key, draft_digest md5 s history)]"

definition make_verdict_stamper :: "(string \<Rightarrow> string) \<Rightarrow> string \<Rightarrow> stamper" where
  "make_verdict_stamper md5 key s history = [(key, checked_digest md5 s history)]"

subsection \<open>The publish gate\<close>

datatype authoring_error = ValueError string

text \<open>The default of the keyword \<^verbatim>\<open>nothing_written\<close>.\<close>

definition nothing_written_default :: string where
  "nothing_written_default = ''no spec written yet.''"

fun check_required :: "(string, string) dict \<Rightarrow> (string, string) dict \<Rightarrow> string list \<Rightarrow> authoring_error + string option" where
  "check_required current stamps [] = Inr None"
| "check_required current stamps (key # ks) =
     (case dget current key of
        None \<Rightarrow> Inl (ValueError (''no stamper for the required validation '' @ py_repr key))
      | Some d \<Rightarrow>
          if dget stamps key \<noteq> Some d
          then Inr (Some (''Completion REJECTED: '' @ key @ '' validation not satisfied or stale.''))
          else check_required current stamps ks)"

definition current_stamps :: "stamper list \<Rightarrow> authoring_state \<Rightarrow> string list \<Rightarrow> (string, string) dict" where
  "current_stamps stampers s history = fold (\<lambda>st d. merge_validation d (st s history)) stampers []"

definition check_completion :: "authoring_state \<Rightarrow> stamper list \<Rightarrow> string list \<Rightarrow> string \<Rightarrow> authoring_error + string option" where
  "check_completion s stampers history nothing_written =
     (if curr_spec s = None then Inr (Some (''Completion REJECTED: '' @ nothing_written))
      else check_required (current_stamps stampers s history) (validations s) (required_validations s))"

subsection \<open>The property to check mapping\<close>

record mapping_vocab =
  check_noun :: string
  field_name :: string
  ran_source :: string

text \<open>The sets \<^verbatim>\<open>mapped\<close> and \<^verbatim>\<open>claimed\<close> and the errors of the first loop of \<^verbatim>\<open>validate_check_mapping\<close>.\<close>

record mapping_scan =
  errs :: "string list"
  mapped :: "string list"
  claimed :: "string list"

definition claim_error :: "mapping_vocab \<Rightarrow> string \<Rightarrow> string \<Rightarrow> string" where
  "claim_error vocab title name =
     ''Property '' @ py_repr title @ '' claims '' @ check_noun vocab @ '' '' @ py_repr name @ '', but no '' @
     check_noun vocab @ '' by that name ran in '' @ ran_source vocab @ ''.''"

fun scan_names :: "mapping_vocab \<Rightarrow> string list \<Rightarrow> string \<Rightarrow> string list \<Rightarrow> mapping_scan \<Rightarrow> mapping_scan" where
  "scan_names vocab ran_names title [] a = a"
| "scan_names vocab ran_names title (name # names) a =
     scan_names vocab ran_names title names
       (let a' = a\<lparr>claimed := name # claimed a\<rparr>
        in if name \<notin> set ran_names then a'\<lparr>errs := errs a' @ [claim_error vocab title name]\<rparr> else a')"

definition stripped_names :: "string list \<Rightarrow> string list" where
  "stripped_names names = map strip (filter (\<lambda>n. strip n \<noteq> []) names)"

definition scan_entry :: "mapping_vocab \<Rightarrow> string list \<Rightarrow> string list \<Rightarrow> string list option \<Rightarrow>
    string \<times> string list \<Rightarrow> mapping_scan \<Rightarrow> mapping_scan" where
  "scan_entry vocab titles skips ran_names entry a =
     (case entry of (title, declared) \<Rightarrow>
        if title \<notin> set titles
        then a\<lparr>errs := errs a @ [''Unknown property title '' @ py_repr title @
               '' (not one of the batch's properties).'']\<rparr>
        else if title \<in> set (mapped a)
        then a\<lparr>errs := errs a @ [''Property '' @ py_repr title @ '' appears more than once in the mapping.'']\<rparr>
        else
          let a' = a\<lparr>mapped := title # mapped a\<rparr> in
          if title \<in> set skips
          then a'\<lparr>errs := errs a' @ [''Property '' @ py_repr title @
                 '' is marked as skipped and must not appear in the mapping (un-skip it or remove it).'']\<rparr>
          else
            let names = stripped_names declared in
            if names = []
            then a'\<lparr>errs := errs a' @ [''Property '' @ py_repr title @ '' must map to at least one non-empty '' @
                   check_noun vocab @ '' name.'']\<rparr>
            else case ran_names of None \<Rightarrow> a' | Some r \<Rightarrow> scan_names vocab r title names a')"

definition unmapped_error :: "mapping_vocab \<Rightarrow> string \<Rightarrow> string" where
  "unmapped_error vocab title =
     ''Property '' @ py_repr title @ '' is neither skipped nor mapped to any '' @ check_noun vocab @ ''s.''"

definition untied_error :: "mapping_vocab \<Rightarrow> string \<Rightarrow> string" where
  "untied_error vocab name =
     capitalize (check_noun vocab) @ '' '' @ py_repr name @
     '' ran but is not tied back to any property in the mapping. Every '' @ check_noun vocab @
     '' in the file must demonstrate one of the batch's properties.''"

definition mapping_errors :: "(string \<times> string list) list \<Rightarrow> skipped_property list \<Rightarrow> string list \<Rightarrow> mapping_vocab \<Rightarrow>
    string list option \<Rightarrow> string list" where
  "mapping_errors mapping skips titles vocab ran_names =
     (let skipped_titles = map property_title skips;
          a = fold (scan_entry vocab titles skipped_titles ran_names) mapping
                \<lparr>errs = [], mapped = [], claimed = []\<rparr>
      in errs a @
         map (unmapped_error vocab) (filter (\<lambda>t. t \<notin> set skipped_titles \<and> t \<notin> set (mapped a)) titles) @
         map (untied_error vocab)
           (sorted_set (filter (\<lambda>n. n \<notin> set (claimed a)) (case ran_names of None \<Rightarrow> [] | Some r \<Rightarrow> r))))"

definition validate_check_mapping :: "(string \<times> string list) list \<Rightarrow> skipped_property list \<Rightarrow> string list \<Rightarrow>
    mapping_vocab \<Rightarrow> string list option \<Rightarrow> string option" where
  "validate_check_mapping mapping skips titles vocab ran_names =
     (let es = mapping_errors mapping skips titles vocab ran_names in
      if es = [] then None
      else Some (''Completion REJECTED: the '' @ field_name vocab @
             '' mapping is invalid. Fix all of the following and resubmit:'' @ newline @ ''- '' @
             join (newline @ ''- '') es))"

subsection \<open>Surgical edits\<close>

datatype edit_result = EditOk string | EditErr string

definition old_string_absent :: string where
  "old_string_absent =
     ''`old_string` was not found in the current buffer. It must match an '' @
     ''exact span of the contents, including whitespace and indentation. '' @
     ''Read the buffer back and copy the target span verbatim.''"

definition old_string_ambiguous :: "nat \<Rightarrow> string" where
  "old_string_ambiguous n =
     ''`old_string` matched '' @ show_nat n @ '' locations; it must match exactly one. '' @
     ''Include more surrounding context so the target span is unique.''"

definition replace_unique :: "string \<Rightarrow> string \<Rightarrow> string \<Rightarrow> bool \<Rightarrow> edit_result" where
  "replace_unique buffer old new replace_all =
     (if \<not> replace_all then
        let n = str_count old buffer in
        if n = 0 then EditErr old_string_absent
        else if n > 1 then EditErr (old_string_ambiguous n)
        else EditOk (str_replace (Some 1) old new buffer)
      else EditOk (str_replace None old new buffer))"

end
