(* ===== verification/Walks.thy ===== *)
theory Walks
  imports Prelude
begin

text \<open>
  Worklist walks of a graph. Several components mark what can be reached from some nodes: the import closure
  of a spec buffer, the transitive imports of a spec file, the reachability passes over a call graph. They
  differ in the discipline of the worklist (stack or queue) and in which successors they add; what they
  compute is the same, and is proved once here.
\<close>

inductive_set reach :: "('a \<Rightarrow> 'a list) \<Rightarrow> ('a \<Rightarrow> bool) \<Rightarrow> 'a set \<Rightarrow> 'a set"
  for succ keep start where
  reach_start: "n \<in> start \<Longrightarrow> keep n \<Longrightarrow> n \<in> reach succ keep start"
| reach_succ: "m \<in> reach succ keep start \<Longrightarrow> n \<in> set (succ m) \<Longrightarrow> keep n \<Longrightarrow> n \<in> reach succ keep start"

text \<open>
  One round of a loop, on the set of visited nodes and the set of waiting ones: a waiting node is dropped, or
  visited, and then its unvisited successors of interest wait. A worklist with repetitions may still hold the node.
\<close>

inductive walk_step :: "('a \<Rightarrow> 'a list) \<Rightarrow> ('a \<Rightarrow> bool) \<Rightarrow> 'a set \<times> 'a set \<Rightarrow> 'a set \<times> 'a set \<Rightarrow> bool"
  for succ keep where
  walk_drop: "n \<in> seen \<or> \<not> keep n \<Longrightarrow> work - {n} \<subseteq> work' \<Longrightarrow> work' \<subseteq> work \<Longrightarrow>
    walk_step succ keep (seen, work) (seen, work')"
| walk_visit: "n \<in> work \<Longrightarrow> keep n \<Longrightarrow> work - {n} \<subseteq> work' \<Longrightarrow>
    {m \<in> set (succ n). keep m} - insert n seen \<subseteq> work' \<Longrightarrow> work' \<subseteq> work \<union> set (succ n) \<Longrightarrow>
    walk_step succ keep (seen, work) (insert n seen, work')"

inductive_cases walk_stepE: "walk_step succ keep c c'"

abbreviation walk :: "('a \<Rightarrow> 'a list) \<Rightarrow> ('a \<Rightarrow> bool) \<Rightarrow> 'a set \<times> 'a set \<Rightarrow> 'a set \<times> 'a set \<Rightarrow> bool" where
  "walk succ keep \<equiv> (walk_step succ keep)\<^sup>*\<^sup>*"

definition walk_inv :: "('a \<Rightarrow> 'a list) \<Rightarrow> ('a \<Rightarrow> bool) \<Rightarrow> 'a set \<Rightarrow> 'a set \<times> 'a set \<Rightarrow> bool" where
  "walk_inv succ keep start c \<longleftrightarrow> (case c of (seen, work) \<Rightarrow>
     seen \<subseteq> reach succ keep start \<and>
     (\<forall>n\<in>work. keep n \<longrightarrow> n \<in> reach succ keep start) \<and>
     (\<forall>n\<in>start. keep n \<longrightarrow> n \<in> seen \<union> work) \<and>
     (\<forall>m\<in>seen. \<forall>n\<in>set (succ m). keep n \<longrightarrow> n \<in> seen \<union> work))"

lemma walk_inv_step:
  assumes "walk_step succ keep c c'" and "walk_inv succ keep start c"
  shows "walk_inv succ keep start c'"
  using assms
proof (cases rule: walk_step.cases)
  case (walk_drop n seen work work')
  then have "\<forall>m\<in>work. keep m \<longrightarrow> m \<in> seen \<union> work'" by blast
  then show ?thesis using walk_drop assms(2) unfolding walk_inv_def by blast
next
  case (walk_visit n work work' seen)
  let ?R = "reach succ keep start"
  from assms(2) walk_visit(1) have inv: "seen \<subseteq> ?R" "\<forall>n\<in>work. keep n \<longrightarrow> n \<in> ?R" "\<forall>n\<in>start. keep n \<longrightarrow> n \<in> seen \<union> work"
    "\<forall>m\<in>seen. \<forall>n\<in>set (succ m). keep n \<longrightarrow> n \<in> seen \<union> work"
    by (simp_all add: walk_inv_def)
  have n: "n \<in> ?R" using inv(2) walk_visit by blast
  have kept: "seen \<union> work \<subseteq> insert n seen \<union> work'" using walk_visit(5) by blast
  have new: "{m \<in> set (succ n). keep m} \<subseteq> insert n seen \<union> work'" using walk_visit(6) by blast
  have "\<forall>m\<in>work'. keep m \<longrightarrow> m \<in> ?R"
  proof (intro ballI impI)
    fix m assume "m \<in> work'" "keep m"
    then consider "m \<in> work" | "m \<in> set (succ n)" using walk_visit(7) by blast
    then show "m \<in> ?R" using inv(2) \<open>keep m\<close> reach_succ [OF n] by cases blast+
  qed
  moreover have "\<forall>n'\<in>start. keep n' \<longrightarrow> n' \<in> insert n seen \<union> work'" using inv(3) kept by blast
  moreover have "\<forall>m\<in>insert n seen. \<forall>n'\<in>set (succ m). keep n' \<longrightarrow> n' \<in> insert n seen \<union> work'"
    using inv(4) kept new by blast
  ultimately show ?thesis using inv(1) n walk_visit(2) by (simp add: walk_inv_def)
qed

lemma walk_reach:
  assumes "walk succ keep ({}, start) (seen, {})"
  shows "seen = reach succ keep start"
proof -
  have "walk_inv succ keep start c" if "walk succ keep ({}, start) c" for c
    using that
  proof induction
    case base
    show ?case by (auto simp: walk_inv_def intro: reach_start)
  next
    case step
    then show ?case by (blast intro: walk_inv_step)
  qed
  from this [OF assms] have inv: "walk_inv succ keep start (seen, {})" .
  have "n \<in> seen" if "n \<in> reach succ keep start" for n
    using that inv by induction (auto simp: walk_inv_def)
  then show ?thesis using inv by (auto simp: walk_inv_def)
qed

text \<open>
  What a client knows of a worklist loop: started on nodes it is ready for and run to its end, it has made a
  walk. The nodes it collects are then those that can be reached, whatever the order it worked in.
\<close>

locale graph_walk =
  fixes succ :: "'a \<Rightarrow> 'a list"
    and keep :: "'a \<Rightarrow> bool"
    and collect :: "'a list \<Rightarrow> 'a list"
    and ready :: "'a list \<Rightarrow> bool"
  assumes collect_walk: "ready start \<Longrightarrow> walk succ keep ({}, set start) (set (collect start), {})"
begin

lemma collected_iff: "ready start \<Longrightarrow> n \<in> set (collect start) \<longleftrightarrow> n \<in> reach succ keep (set start)"
  using walk_reach [OF collect_walk] by simp

lemma collected_start: "ready start \<Longrightarrow> n \<in> set start \<Longrightarrow> keep n \<Longrightarrow> n \<in> set (collect start)"
  by (simp add: collected_iff reach_start)

lemma collected_closed:
  "ready start \<Longrightarrow> m \<in> set (collect start) \<Longrightarrow> n \<in> set (succ m) \<Longrightarrow> keep n \<Longrightarrow> n \<in> set (collect start)"
  by (auto simp: collected_iff intro: reach_succ)

lemma collected_least:
  assumes "ready start" "\<And>n. n \<in> set start \<Longrightarrow> keep n \<Longrightarrow> n \<in> C"
    and "\<And>m n. m \<in> C \<Longrightarrow> n \<in> set (succ m) \<Longrightarrow> keep n \<Longrightarrow> n \<in> C"
  shows "set (collect start) \<subseteq> C"
proof
  fix n assume "n \<in> set (collect start)"
  then have "n \<in> reach succ keep (set start)" by (simp add: collected_iff assms(1))
  then show "n \<in> C" by induction (auto intro: assms(2,3))
qed

end

lemma reach_keep: "n \<in> reach succ keep start \<Longrightarrow> keep n"
  by (induction rule: reach.induct)

lemma reach_cong:
  assumes "\<And>n. n \<in> reach succ keep start \<Longrightarrow> set (succ' n) = set (succ n)"
    and "\<And>n. n \<in> start \<Longrightarrow> keep' n = keep n"
    and "\<And>m n. m \<in> reach succ keep start \<Longrightarrow> n \<in> set (succ m) \<Longrightarrow> keep' n = keep n"
  shows "reach succ' keep' start = reach succ keep start"
proof
  show "reach succ keep start \<subseteq> reach succ' keep' start"
  proof
    fix n assume "n \<in> reach succ keep start"
    then show "n \<in> reach succ' keep' start"
    proof induction
      case (reach_start n)
      then show ?case by (simp add: assms(2) reach.reach_start)
    next
      case (reach_succ m n)
      then show ?case using assms(1,3) [OF reach_succ(1)] by (metis reach.reach_succ)
    qed
  qed
  show "reach succ' keep' start \<subseteq> reach succ keep start"
  proof
    fix n assume "n \<in> reach succ' keep' start"
    then show "n \<in> reach succ keep start"
    proof induction
      case (reach_start n)
      then show ?case by (simp add: assms(2) reach.reach_start)
    next
      case (reach_succ m n)
      then show ?case using assms(1,3) [OF reach_succ.IH] by (metis reach.reach_succ)
    qed
  qed
qed

end
