(* ===== verification/Spec_Imports.thy ===== *)
theory Spec_Imports
  imports Pystr Walks
begin

text \<open>
  Finding the imports of CVL text and of spec files (\<^verbatim>\<open>certora_autosetup/parsers/spec_imports.py\<close>).

  The lexer walks an index \<^verbatim>\<open>i\<close> over the text and looks back at \<^verbatim>\<open>text[i - 1]\<close>; here it carries the
  rest of the text and the character before it. The file system is an argument: a dictionary from the paths
  that can be opened to their texts, and the function that resolves an import against the importing file.
\<close>

subsection \<open>The lexer\<close>

definition is_word :: "char \<Rightarrow> bool" where
  "is_word c \<longleftrightarrow> is_alnum c \<or> c = CHR ''_''"

fun skip_string :: "string \<Rightarrow> string" where
  "skip_string [] = []"
| "skip_string (c # cs) =
     (if c = CHR 0x22 then cs
      else if c = backslash then (case cs of [] \<Rightarrow> [] | d # ds \<Rightarrow> skip_string ds)
      else skip_string cs)"

definition skip_line :: "string \<Rightarrow> string" where
  "skip_line s = drop 1 (dropWhile (\<lambda>c. c \<noteq> CHR 0x0A) s)"

fun skip_block :: "string \<Rightarrow> string" where
  "skip_block [] = []"
| "skip_block (c # cs) = (if starts_with ''*/'' (c # cs) then tl cs else skip_block cs)"

fun read_target :: "string \<Rightarrow> string \<times> string" where
  "read_target [] = ([], [])"
| "read_target (c # cs) =
     (if c = CHR 0x22 then ([], cs)
      else if c = backslash
      then (case cs of [] \<Rightarrow> ([c], []) | d # ds \<Rightarrow> (let (t, r) = read_target ds in (d # t, r)))
      else let (t, r) = read_target cs in (c # t, r))"

definition is_import_space :: "char \<Rightarrow> bool" where
  "is_import_space c \<longleftrightarrow> c = CHR '' '' \<or> c = CHR 0x09 \<or> c = CHR 0x0D \<or> c = CHR 0x0A"

text \<open>The target and the rest of the text, where an import statement starts here.\<close>

definition import_here :: "char option \<Rightarrow> string \<Rightarrow> (string \<times> string) option" where
  "import_here prev s =
     (if starts_with ''import'' s \<and> (case prev of None \<Rightarrow> True | Some p \<Rightarrow> \<not> is_word p) then
        let after = drop 6 s in
        if after \<noteq> [] \<and> \<not> is_word (hd after) then
          let k = dropWhile is_import_space after in
          if k \<noteq> [] \<and> hd k = CHR 0x22 then Some (read_target (tl k)) else None
        else None
      else None)"

lemma length_skip_string: "length (skip_string s) \<le> length s"
proof (induction s rule: skip_string.induct)
  case (2 c cs)
  then show ?case by (cases cs) (simp_all add: le_SucI)
qed simp

lemma length_skip_line: "length (skip_line s) \<le> length s"
  using length_dropWhile_le [of "\<lambda>c. c \<noteq> CHR 0x0A" s] by (simp add: skip_line_def)

lemma length_skip_block: "length (skip_block s) \<le> length s"
  by (induction s rule: skip_block.induct) (simp_all add: le_SucI)

lemma length_read_target: "length (snd (read_target s)) \<le> length s"
proof (induction s rule: read_target.induct)
  case (2 c cs)
  then show ?case by (cases cs) (simp_all add: split_beta Let_def le_SucI)
qed simp

lemma length_import_here: "import_here prev s = Some (t, r) \<Longrightarrow> length r < length s"
proof -
  assume i: "import_here prev s = Some (t, r)"
  let ?k = "dropWhile is_import_space (drop 6 s)"
  from i have "r = snd (read_target (tl ?k))" "?k \<noteq> []"
    by (auto simp: import_here_def Let_def prod_eq_iff split: if_splits)
  moreover have "length ?k \<le> length (drop 6 s)" by (rule length_dropWhile_le)
  ultimately show ?thesis
    using length_read_target [of "tl ?k"] by (cases ?k) auto
qed

function imports_from :: "char option \<Rightarrow> string \<Rightarrow> string list" where
  "imports_from prev [] = []"
| "imports_from prev (c # cs) =
     (if c = CHR 0x22 then imports_from (Some c) (skip_string cs)
      else if c = CHR ''/'' \<and> starts_with ''/'' cs then imports_from (Some (CHR 0x0A)) (skip_line cs)
      else if c = CHR ''/'' \<and> starts_with ''*'' cs then imports_from (Some (CHR ''/'')) (skip_block (tl cs))
      else case import_here prev (c # cs) of
          Some (t, r) \<Rightarrow> t # imports_from (Some (CHR 0x22)) r
        | None \<Rightarrow> imports_from (Some c) cs)"
  by pat_completeness auto
termination
proof (relation "measure (\<lambda>(prev, s). length s)", goal_cases)
  case (4 prev c cs)
  then show ?case using length_skip_block [of "tl cs"] by (cases cs) simp_all
next
  case (6 prev c cs x t r)
  then show ?case using length_import_here [of prev "c # cs" t r] by simp
qed (simp_all add: length_skip_string length_skip_line less_Suc_eq_le)

definition imports_in_cvl :: "string \<Rightarrow> string list" where
  "imports_in_cvl text = imports_from None text"

subsection \<open>Transitive imports of a spec file\<close>

definition parse_direct_imports :: "(string, string) dict \<Rightarrow> (string \<Rightarrow> string \<Rightarrow> string) \<Rightarrow> string \<Rightarrow> string list option" where
  \<comment> \<open>None: \<^verbatim>\<open>read_text\<close> raises. A target that does not exist is logged and skipped\<close>
  "parse_direct_imports files resolve_from path =
     map_option (\<lambda>text. filter (\<lambda>p. p \<in> set (keys files)) (map (resolve_from path) (imports_in_cvl text)))
       (dget files path)"

lemma parse_direct_readable: "parse_direct_imports files rf path = Some ps \<Longrightarrow> set ps \<subseteq> set (keys files)"
  by (auto simp: parse_direct_imports_def)

function import_queue :: "(string, string) dict \<Rightarrow> (string \<Rightarrow> string \<Rightarrow> string) \<Rightarrow> string list \<Rightarrow> string list \<Rightarrow>
    string list \<Rightarrow> string list option" where
  "import_queue files rf visited [] found = Some found"
| "import_queue files rf visited (current # queue) found =
     (if current \<in> set visited then import_queue files rf visited queue found
      else case parse_direct_imports files rf current of
          None \<Rightarrow> None
        | Some imported \<Rightarrow>
            import_queue files rf (current # visited)
              (queue @ filter (\<lambda>p. p \<notin> set (current # visited)) imported) (found @ [current]))"
  by pat_completeness auto
termination
proof (relation "measures [\<lambda>(files, rf, visited, queue, found). card (set (keys files) - set visited),
    \<lambda>(files, rf, visited, queue, found). length queue]", goal_cases)
  case (3 files rf visited current queue found imported)
  then have "current \<in> set (keys files) - set visited"
    by (force simp: parse_direct_imports_def dest: dget_Some_in)
  then have "card (set (keys files) - set (current # visited)) < card (set (keys files) - set visited)"
    by (intro psubset_card_mono) auto
  then show ?case by simp
qed simp_all

definition parse_imports_from_spec :: "(string, string) dict \<Rightarrow> (string \<Rightarrow> string \<Rightarrow> string) \<Rightarrow> (string \<Rightarrow> string) \<Rightarrow>
    string \<Rightarrow> bool \<Rightarrow> string list option" where
  "parse_imports_from_spec files rf resolve spec_path recursive =
     (case parse_direct_imports files rf spec_path of
        None \<Rightarrow> None
      | Some direct \<Rightarrow>
          if \<not> recursive then Some direct
          else import_queue files rf [resolve spec_path] direct [])"

fun find_shared_specs :: "(string, string) dict \<Rightarrow> (string \<Rightarrow> string \<Rightarrow> string) \<Rightarrow> (string \<Rightarrow> string) \<Rightarrow>
    string list \<Rightarrow> string set option" where
  "find_shared_specs files rf resolve [] = Some {}"
| "find_shared_specs files rf resolve (f # fs) =
     (case parse_imports_from_spec files rf resolve f True of
        None \<Rightarrow> None
      | Some ps \<Rightarrow> map_option (\<lambda>rest. set (map path_stem ps) \<union> rest) (find_shared_specs files rf resolve fs))"

subsection \<open>What the queue collects\<close>

definition direct_imports :: "(string, string) dict \<Rightarrow> (string \<Rightarrow> string \<Rightarrow> string) \<Rightarrow> string \<Rightarrow> string list" where
  "direct_imports files rf path = (case parse_direct_imports files rf path of None \<Rightarrow> [] | Some ps \<Rightarrow> ps)"

lemma import_queue_walk:
  assumes "set queue \<subseteq> set (keys files)" and "start \<in> set visited"
    and "distinct found" "set found \<subseteq> set visited" "set visited - {start} \<subseteq> set found" "start \<notin> set found"
  shows "\<exists>ps. import_queue files rf visited queue found = Some ps \<and> distinct ps \<and> start \<notin> set ps \<and>
    walk (direct_imports files rf) (\<lambda>p. p \<noteq> start) (set found, set queue) (set ps, {})"
  using assms
proof (induction files rf visited queue found rule: import_queue.induct)
  case (1 files rf visited found)
  then show ?case by simp
next
  case (2 files rf visited current queue found)
  let ?step = "walk_step (direct_imports files rf) (\<lambda>p. p \<noteq> start)"
  show ?case
  proof (cases "current \<in> set visited")
    case True
    then have "?step (set found, set (current # queue)) (set found, set queue)"
      using "2.prems" by (intro walk_drop [of current]) auto
    then show ?thesis
      using "2.IH"(1) [OF True] "2.prems" True by (auto intro: converse_rtranclp_into_rtranclp)
  next
    case False
    obtain contents where "dget files current = Some contents" using "2.prems"(1) dget_keys by (metis list.set_intros(1) subsetD)
    then obtain ps where ps: "parse_direct_imports files rf current = Some ps" by (simp add: parse_direct_imports_def)
    let ?q = "queue @ filter (\<lambda>p. p \<notin> set (current # visited)) ps"
    have succ: "direct_imports files rf current = ps" by (simp add: direct_imports_def ps)
    have "?step (set found, set (current # queue)) (insert current (set found), set ?q)"
      using False "2.prems" by (intro walk_visit) (auto simp: succ)
    moreover have "set ?q \<subseteq> set (keys files)" using "2.prems"(1) parse_direct_readable [OF ps] by auto
    ultimately show ?thesis
      using "2.IH"(2) [OF False ps] "2.prems" False ps
      by (auto intro: converse_rtranclp_into_rtranclp)
  qed
qed

interpretation spec_files: graph_walk "direct_imports files rf" "\<lambda>p. p \<noteq> start"
    "\<lambda>queue. the (import_queue files rf [start] queue [])" "\<lambda>queue. set queue \<subseteq> set (keys files)" for files rf start
proof
  fix queue assume "set queue \<subseteq> set (keys files)"
  from import_queue_walk [OF this, of start "[start]" "[]" rf]
  show "walk (direct_imports files rf) (\<lambda>p. p \<noteq> start) ({}, set queue)
      (set (the (import_queue files rf [start] queue [])), {})" by auto
qed


definition sample_files :: "(string, string) dict" where
  "sample_files = [(''a'', ''import '' @ dquote @ ''b'' @ dquote), (''b'', ''import '' @ dquote @ ''a'' @ dquote)]"


subsection \<open>What the lexer finds\<close>

text \<open>
  CVL text as the lexer's grammar has it: string literals, comments, import statements, identifiers and
  punctuation. \<open>render\<close> writes it out; in a literal a quote or a backslash is escaped. \<open>lexical\<close> says which
  sequences are token sequences: an identifier is not the keyword, and does not run into a following word.
\<close>

datatype chunk =
    Literal string
  | LineComment string
  | BlockComment string
  | Import string string
  | Ident string
  | Punct char
  | Slash

definition escape_char :: "char \<Rightarrow> string" where
  "escape_char c = (if c = CHR 0x22 \<or> c = backslash then [backslash, c] else [c])"

definition quoted :: "string \<Rightarrow> string" where
  "quoted t = CHR 0x22 # concat (map escape_char t) @ [CHR 0x22]"

fun render :: "chunk \<Rightarrow> string" where
  "render (Literal t) = quoted t"
| "render (LineComment t) = ''//'' @ t @ [CHR 0x0A]"
| "render (BlockComment t) = ''/*'' @ t @ ''*/''"
| "render (Import blank t) = ''import'' @ blank @ quoted t"
| "render (Ident w) = w"
| "render (Punct c) = [c]"
| "render Slash = ''/ ''"

fun targets :: "chunk \<Rightarrow> string list" where
  "targets (Import blank t) = [t]"
| "targets _ = []"

fun chunk_ok :: "chunk \<Rightarrow> bool" where
  "chunk_ok (Literal t) = True"
| "chunk_ok (LineComment t) = (CHR 0x0A \<notin> set t)"
| "chunk_ok (BlockComment t) = (\<forall>p q. t @ ''*'' \<noteq> p @ ''*/'' @ q)"
| "chunk_ok (Import blank t) = list_all is_import_space blank"
| "chunk_ok (Ident w) = (w \<noteq> [] \<and> list_all is_word w \<and> w \<noteq> ''import'')"
| "chunk_ok (Punct c) = (\<not> is_word c \<and> c \<noteq> CHR 0x22 \<and> c \<noteq> CHR ''/'')"
| "chunk_ok Slash = True"

fun wordy :: "chunk \<Rightarrow> bool" where
  "wordy (Ident w) = True"
| "wordy (Import blank t) = True"
| "wordy _ = False"

fun lexical :: "chunk list \<Rightarrow> bool" where
  "lexical [] = True"
| "lexical (c # cs) \<longleftrightarrow> chunk_ok c \<and> lexical cs \<and>
     (case c of Ident w \<Rightarrow> (case cs of [] \<Rightarrow> True | d # ds \<Rightarrow> \<not> wordy d) | _ \<Rightarrow> True)"

lemma skip_string_quoted: "skip_string (concat (map escape_char t) @ CHR 0x22 # r) = r"
  by (induction t) (auto simp: escape_char_def backslash_def)

lemma read_target_quoted: "read_target (concat (map escape_char t) @ CHR 0x22 # r) = (t, r)"
  by (induction t) (auto simp: escape_char_def backslash_def)

lemma skip_line_comment: "CHR 0x0A \<notin> set t \<Longrightarrow> skip_line (t @ CHR 0x0A # r) = r"
  by (induction t) (auto simp: skip_line_def)

lemma skip_block_comment: "\<forall>p q. t @ ''*'' \<noteq> p @ ''*/'' @ q \<Longrightarrow> skip_block (t @ ''*/'' @ r) = r"
proof (induction t)
  case Nil
  then show ?case by (simp add: starts_with_def)
next
  case (Cons c t)
  have "\<not> starts_with ''*/'' ((c # t) @ ''*/'' @ r)"
  proof
    assume s: "starts_with ''*/'' ((c # t) @ ''*/'' @ r)"
    show False
    proof (cases t)
      case Nil
      with s show False by (simp add: starts_with_def)
    next
      case (Cons d u)
      with s have "(c # t) @ ''*'' = [] @ ''*/'' @ u @ ''*''" by (simp add: starts_with_def)
      then show False using Cons.prems by blast
    qed
  qed
  moreover have "\<forall>p q. t @ ''*'' \<noteq> p @ ''*/'' @ q" using Cons.prems by (metis append_Cons)
  ultimately show ?case using Cons.IH by simp
qed

lemma word_not_special: "is_word c \<Longrightarrow> c \<noteq> CHR 0x22 \<and> c \<noteq> CHR ''/'' \<and> \<not> is_import_space c"
  by (auto simp: is_word_def is_alnum_def is_digit_def is_import_space_def)

lemma import_here_after_word: "is_word p \<Longrightarrow> import_here (Some p) s = None"
  by (simp add: import_here_def)

lemma import_here_not: "c \<noteq> CHR ''i'' \<Longrightarrow> import_here prev (c # s) = None"
  by (simp add: import_here_def starts_with_def)

definition stops :: "string \<Rightarrow> bool" where
  "stops r \<longleftrightarrow> (case r of [] \<Rightarrow> True | c # cs \<Rightarrow> \<not> is_word c)"

lemma is_word_import [simp]: "list_all is_word ''import''"
  by (simp add: is_word_def is_alnum_def)

lemma import_here_ident:
  assumes "list_all is_word w" "w \<noteq> ''import''" "w \<noteq> []" "stops r"
  shows "import_here prev (w @ r) = None"
proof (rule ccontr)
  assume "import_here prev (w @ r) \<noteq> None"
  then have s: "starts_with ''import'' (w @ r)" and after: "drop 6 (w @ r) \<noteq> []" "\<not> is_word (hd (drop 6 (w @ r)))"
    by (auto simp: import_here_def Let_def split: if_splits)
  have pre: "take 6 (w @ r) = ''import''" using s by (simp add: starts_with_def eval_nat_numeral)
  consider "length w < 6" | "length w = 6" | "length w > 6" by linarith
  then show False
  proof cases
    case 1
    then have r: "r \<noteq> []" using after(1) by auto
    have "hd r = take 6 (w @ r) ! length w" using 1 r by (simp add: hd_conv_nth nth_append)
    also have "\<dots> = ''import'' ! length w" by (simp only: pre)
    finally have "is_word (hd r)" using list_all_length [THEN iffD1, OF is_word_import] 1 by simp
    then show False using assms(4) r by (cases r) (auto simp: stops_def)
  next
    case 2
    then show False using pre assms(2) by simp
  next
    case 3
    then have "hd (drop 6 (w @ r)) = w ! 6" by (simp add: hd_append hd_drop_conv_nth)
    moreover have "is_word (w ! 6)" using assms(1) 3 by (simp add: list_all_length)
    ultimately show False using after(2) by simp
  qed
qed

lemma scan_word:
  "list_all is_word w \<Longrightarrow> is_word p \<Longrightarrow>
   imports_from (Some p) (w @ r) = imports_from (Some (last (p # w))) r"
proof (induction w arbitrary: p)
  case Nil
  then show ?case by simp
next
  case (Cons c w)
  then show ?case using word_not_special [of c] by (simp add: import_here_after_word)
qed

lemma scan_ident:
  assumes "list_all is_word w" "w \<noteq> ''import''" "w \<noteq> []" "stops r"
  shows "\<exists>p. imports_from prev (w @ r) = imports_from p r"
proof -
  obtain c v where w: "w = c # v" using assms(3) by (cases w) auto
  have "imports_from prev (w @ r) = imports_from (Some c) (v @ r)"
    using import_here_ident [OF assms, of prev] word_not_special [of c] assms(1) by (simp add: w)
  then show ?thesis using scan_word [of v c r] assms(1) by (auto simp: w)
qed

lemma import_here_statement:
  assumes "case prev of None \<Rightarrow> True | Some p \<Rightarrow> \<not> is_word p" "list_all is_import_space blank"
  shows "import_here prev (''import'' @ blank @ quoted t @ r) = Some (t, r)"
proof -
  let ?k = "quoted t @ r"
  have k: "hd ?k = CHR 0x22" "?k \<noteq> []" "tl ?k = concat (map escape_char t) @ CHR 0x22 # r"
    by (simp_all add: quoted_def)
  have "\<not> is_word (hd (blank @ ?k))"
    using assms(2) k(1,2) word_not_special by (cases blank) auto
  moreover have "dropWhile is_import_space (blank @ ?k) = ?k"
    using assms(2) k(1,2) by (cases ?k) (auto simp: list_all_iff dropWhile_append2 is_import_space_def)
  ultimately show ?thesis
    using assms(1) k by (simp add: import_here_def Let_def starts_with_def read_target_quoted)
qed

text \<open>What may stand before a chunk: a word only before a chunk that is not one.\<close>

definition fits :: "char option \<Rightarrow> chunk list \<Rightarrow> bool" where
  "fits prev cs \<longleftrightarrow> (case prev of None \<Rightarrow> True | Some p \<Rightarrow> \<not> is_word p) \<or> (case cs of [] \<Rightarrow> True | d # ds \<Rightarrow> \<not> wordy d)"

lemma scan_chunk:
  assumes "chunk_ok c" "fits prev (c # cs)"
    and "case c of Ident w \<Rightarrow> stops r \<and> fits (Some CHR ''a'') cs | _ \<Rightarrow> True"
  shows "\<exists>p. imports_from prev (render c @ r) = targets c @ imports_from p r \<and> fits p cs"
proof (cases c)
  case (Literal t)
  then show ?thesis
    by (intro exI [of _ "Some CHR 0x22"])
      (simp add: quoted_def skip_string_quoted fits_def is_word_def is_alnum_def is_digit_def)
next
  case (LineComment t)
  with assms(1) have "skip_line (t @ CHR 0x0A # r) = r" by (simp add: skip_line_comment)
  moreover have "skip_line (CHR ''/'' # t @ CHR 0x0A # r) = skip_line (t @ CHR 0x0A # r)" by (simp add: skip_line_def)
  ultimately show ?thesis using LineComment
    by (intro exI [of _ "Some CHR 0x0A"])
      (simp add: starts_with_def fits_def is_word_def is_alnum_def is_digit_def)
next
  case (BlockComment t)
  with assms(1) have "skip_block (t @ ''*/'' @ r) = r" by (intro skip_block_comment) simp
  then show ?thesis using BlockComment
    by (intro exI [of _ "Some CHR ''/''"])
      (simp add: starts_with_def fits_def is_word_def is_alnum_def is_digit_def)
next
  case (Import blank t)
  with assms have "import_here prev (''import'' @ blank @ quoted t @ r) = Some (t, r)"
    by (intro import_here_statement) (simp_all add: fits_def)
  then show ?thesis using Import
    by (intro exI [of _ "Some CHR 0x22"]) (simp add: fits_def is_word_def is_alnum_def is_digit_def)
next
  case (Ident w)
  then have w: "list_all is_word w" "w \<noteq> ''import''" "w \<noteq> []" "stops r" using assms(1,3) by simp_all
  show ?thesis using scan_ident [OF w, of prev] assms(3) Ident
    by (auto simp: fits_def is_word_def is_alnum_def)
next
  case (Punct d)
  then have "\<not> is_word d" "d \<noteq> CHR 0x22" "d \<noteq> CHR ''/''" using assms(1) by simp_all
  moreover from this have "d \<noteq> CHR ''i''" by (auto simp: is_word_def is_alnum_def)
  ultimately show ?thesis using Punct
    by (intro exI [of _ "Some d"]) (simp add: import_here_not fits_def)
next
  case Slash
  then show ?thesis
    by (intro exI [of _ "Some CHR '' ''"])
      (simp add: import_here_not starts_with_def fits_def is_word_def is_alnum_def is_digit_def)
qed

lemma stops_render: "lexical cs \<Longrightarrow> (case cs of [] \<Rightarrow> True | d # ds \<Rightarrow> \<not> wordy d) \<Longrightarrow> stops (concat (map render cs))"
proof (cases cs)
  case (Cons d ds)
  assume "lexical cs" "case cs of [] \<Rightarrow> True | d # ds \<Rightarrow> \<not> wordy d"
  with Cons show ?thesis
    by (cases d) (auto simp: stops_def quoted_def is_word_def is_alnum_def is_digit_def)
qed (simp add: stops_def)

lemma scan_chunks:
  "lexical cs \<Longrightarrow> fits prev cs \<Longrightarrow> imports_from prev (concat (map render cs)) = concat (map targets cs)"
proof (induction cs arbitrary: prev)
  case Nil
  then show ?case by simp
next
  case (Cons c cs)
  have "case c of Ident w \<Rightarrow> stops (concat (map render cs)) \<and> fits (Some CHR ''a'') cs | _ \<Rightarrow> True"
    using Cons.prems(1) stops_render [of cs] by (cases c) (auto simp: fits_def)
  then obtain p where "imports_from prev (render c @ concat (map render cs)) =
      targets c @ imports_from p (concat (map render cs))" "fits p cs"
    using scan_chunk [of c prev cs] Cons.prems by auto
  then show ?case using Cons.IH Cons.prems(1) by simp
qed



end
