(* ===== verification/Spec_Buffers.thy ===== *)
theory Spec_Buffers
  imports Authoring Spec_Imports "HOL-Library.Product_Lexorder"
begin

text \<open>
  Multi-buffer CVL specs (\<^verbatim>\<open>composer/spec/source/spec_buffers.py\<close>): named buffers that import one
  another, the content digest of a buffer and its import closure, the per-buffer stamps the publish gate
  reads, and the publish-time validators.

  The SHA-256 digest is an argument \<open>sha\<close> and the MD5 digest an argument \<open>md5\<close>, each from a text to its
  hexadecimal digest; the CVL parser behind \<^verbatim>\<open>extract_cvl_ast\<close> is an argument \<open>ast_of\<close>. A Python set is a
  list read as a set. Looking up a missing buffer raises \<^verbatim>\<open>KeyError\<close>.
\<close>

subsection \<open>Buffers\<close>

definition default_max_spec_buffers :: int where
  "default_max_spec_buffers = 6"

definition max_spec_buffers :: "string option \<Rightarrow> int" where
  "max_spec_buffers raw =
     (case raw of None \<Rightarrow> default_max_spec_buffers
      | Some t \<Rightarrow>
          (case parse_int (strip t) of None \<Rightarrow> default_max_spec_buffers
           | Some n \<Rightarrow> if n \<ge> 1 then n else default_max_spec_buffers))"

record named_buffer =
  buf_name :: string
  cvl :: string
  path :: string
  property_rules :: "(string, string list) dict"
  is_run_target :: bool

definition specs_dir :: string where
  "specs_dir = ''certora/specs''"

text \<open>Construction runs the validator, which derives the path of a named buffer from its name.\<close>

definition derive_path_from_name :: "named_buffer \<Rightarrow> named_buffer" where
  "derive_path_from_name b =
     (if buf_name b \<noteq> []
      then b\<lparr>path := path_str (path_join (pure_path specs_dir) (buf_name b @ ''.spec''))\<rparr> else b)"

definition properties :: "named_buffer \<Rightarrow> string list" where
  "properties b = keys (property_rules b)"

definition owned_rules :: "named_buffer \<Rightarrow> string list" where
  "owned_rules b = remdups (concat (vals (property_rules b)))"

type_synonym buffers = "(string, named_buffer) dict"

definition merge_buffers :: "buffers \<Rightarrow> (string, named_buffer option) dict \<Rightarrow> buffers" where
  "merge_buffers l r =
     fold (\<lambda>(name, v) out. case v of None \<Rightarrow> dpop name out | Some b \<Rightarrow> dset name b out) r l"

subsection \<open>Imports\<close>

definition by_path :: "buffers \<Rightarrow> (string, string) dict" where
  "by_path bs = fold (\<lambda>(nm, b). dset (normpath (path b)) nm) bs []"

definition imports_of :: "buffers \<Rightarrow> named_buffer \<Rightarrow> string list" where
  \<comment> \<open>\<^verbatim>\<open>buffer_imports\<close> once \<^verbatim>\<open>buffers[name]\<close> is found\<close>
  "imports_of bs b =
     List.map_filter (\<lambda>t. dget (by_path bs) (normpath (path_str (path_join (path_parent (pure_path (path b))) t))))
       (imports_in_cvl (cvl b))"

datatype buffer_error = KeyError string

definition buffer_imports :: "buffers \<Rightarrow> string \<Rightarrow> buffer_error + string list" where
  "buffer_imports bs name =
     (case dget bs name of None \<Rightarrow> Inl (KeyError name) | Some b \<Rightarrow> Inr (imports_of bs b))"

function closure_loop :: "buffers \<Rightarrow> string list \<Rightarrow> string list \<Rightarrow> string list" where
  \<comment> \<open>the stack's top is the last element\<close>
  "closure_loop bs seen stack =
     (if stack = [] then seen
      else let n = last stack; rest = butlast stack in
        if n \<in> set seen then closure_loop bs seen rest
        else case dget bs n of
            None \<Rightarrow> closure_loop bs seen rest
          | Some b \<Rightarrow> closure_loop bs (n # seen) (rest @ imports_of bs b))"
  by pat_completeness auto
termination
proof (relation "measures [\<lambda>(bs, seen, stack). card (set (keys bs) - set seen), \<lambda>(bs, seen, stack). length stack]",
    goal_cases)
  case (4 bs seen stack n rest b)
  then have "n \<in> set (keys bs) - set seen" by (force dest: dget_Some_in)
  then have "card (set (keys bs) - set (n # seen)) < card (set (keys bs) - set seen)"
    by (intro psubset_card_mono) auto
  then show ?case by simp
qed auto

declare closure_loop.simps [simp del]

definition import_closure :: "buffers \<Rightarrow> string \<Rightarrow> named_buffer list" where
  "import_closure bs name =
     List.map_filter (dget bs) (sorted_set (closure_loop bs [] [name]))"

subsection \<open>Digests\<close>

definition hash_text :: "(string \<Rightarrow> string) \<Rightarrow> string \<Rightarrow> string" where
  "hash_text sha t = take 16 (sha t)"

definition hash_content_parts :: "(string \<Rightarrow> string) \<Rightarrow> string list \<Rightarrow> string" where
  "hash_content_parts sha ps = take 32 (sha (join newline ps))"

definition digest_parts :: "(string \<Rightarrow> string) \<Rightarrow> buffers \<Rightarrow> string \<Rightarrow> string list \<Rightarrow> string list" where
  "digest_parts sha bs name extra =
     map (\<lambda>b. buf_name b @ '':'' @ hash_text sha (cvl b)) (import_closure bs name) @
     map (\<lambda>p. ''extra:'' @ p) extra"

definition buffer_digest :: "(string \<Rightarrow> string) \<Rightarrow> buffers \<Rightarrow> string \<Rightarrow> string list \<Rightarrow> string" where
  "buffer_digest sha bs name extra = hash_content_parts sha (digest_parts sha bs name extra)"

definition run_targets :: "buffers \<Rightarrow> named_buffer list" where
  "run_targets bs = filter is_run_target (vals (sort_key fst bs))"

definition skips_validation_key :: string where
  "skips_validation_key = ''skips_review''"

definition prover_validation_key :: string where
  "prover_validation_key = ''prover''"

definition feedback_validation_key :: string where
  "feedback_validation_key = ''feedback''"

definition digest_volatile_keys :: "string list" where
  "digest_volatile_keys = [''verify'', ''rule'', ''exclude_rule'', ''msg'']"

definition config_part :: "(string, json) dict option \<Rightarrow> string list" where
  "config_part config =
     (case config of None \<Rightarrow> []
      | Some c \<Rightarrow> if c = [] then []
                  else [''config:'' @ json_dumps (JObject (filter (\<lambda>(k, v). k \<notin> set digest_volatile_keys) c))])"

definition claim_part :: "named_buffer \<Rightarrow> string" where
  "claim_part b =
     ''claim:'' @ join '';'' (map (\<lambda>(t, rs). t @ ''='' @ join '','' rs) (sort_key fst (property_rules b)))"

definition buffer_state_digest :: "(string \<Rightarrow> string) \<Rightarrow> buffers \<Rightarrow> string \<Rightarrow> string list \<Rightarrow>
    (string, json) dict option \<Rightarrow> bool \<Rightarrow> buffer_error + string" where
  "buffer_state_digest sha bs name version_history config include_claim =
     (let extra = map (\<lambda>e. ''edit:'' @ e) version_history @ config_part config in
      if include_claim
      then (case dget bs name of None \<Rightarrow> Inl (KeyError name)
            | Some b \<Rightarrow> Inr (buffer_digest sha bs name (extra @ [claim_part b])))
      else Inr (buffer_digest sha bs name extra))"

definition buffer_prover_digest :: "(string \<Rightarrow> string) \<Rightarrow> (string \<Rightarrow> string) \<Rightarrow> buffers \<Rightarrow> string \<Rightarrow> string list \<Rightarrow>
    (string, json) dict option \<Rightarrow> string list \<Rightarrow> buffer_error + string" where
  "buffer_prover_digest sha md5 bs name version_history config rule_skips =
     (case dget bs name of None \<Rightarrow> Inl (KeyError name)
      | Some b \<Rightarrow>
          bindE (buffer_state_digest sha bs name version_history config False)
            (\<lambda>d. Inr (marked_digest md5 d (filter (\<lambda>r. r \<in> set (owned_rules b)) rule_skips))))"

definition skips_review_digest :: "(string \<Rightarrow> string) \<Rightarrow> buffers \<Rightarrow> (string \<times> string) list \<Rightarrow> string list \<Rightarrow> string" where
  "skips_review_digest sha bs skips version_history =
     hash_content_parts sha
       (map (\<lambda>b. ''buf:'' @ buf_name b @ '':'' @ hash_text sha (cvl b)) (sort_key buf_name (vals bs)) @
        map (\<lambda>(t, r). ''skip:'' @ t @ '':'' @ r) (sort skips) @
        map (\<lambda>e. ''edit:'' @ e) version_history)"

subsection \<open>The publish gate\<close>

record gate_inputs =
  stamps :: "(string, string) dict"
  required :: "string list"
  skip_decls :: "(string \<times> string) list"
  history :: "string list"
  prover_config :: "(string, json) dict option"
  marked_rules :: "string list"

definition stamp_digest :: "(string \<Rightarrow> string) \<Rightarrow> (string \<Rightarrow> string) \<Rightarrow> buffers \<Rightarrow> gate_inputs \<Rightarrow> string \<Rightarrow> string \<Rightarrow>
    buffer_error + string" where
  \<comment> \<open>the local function \<^verbatim>\<open>digest\<close>\<close>
  "stamp_digest sha md5 bs g key name =
     (if key = prover_validation_key
      then buffer_prover_digest sha md5 bs name (history g) (prover_config g) (marked_rules g)
      else buffer_state_digest sha bs name (history g) (prover_config g) (key = feedback_validation_key))"

definition stale_stamp :: "(string \<Rightarrow> string) \<Rightarrow> (string \<Rightarrow> string) \<Rightarrow> buffers \<Rightarrow> gate_inputs \<Rightarrow>
    named_buffer \<times> string \<Rightarrow> string list \<Rightarrow> buffer_error + string list" where
  "stale_stamp sha md5 bs g = (\<lambda>(b, key) stale.
     bindE (stamp_digest sha md5 bs g key (buf_name b))
       (\<lambda>d. Inr (if dget (stamps g) (key @ '':'' @ buf_name b) \<noteq> Some d
                 then stale @ [py_repr (buf_name b) @ '' '' @ key] else stale)))"

definition check_buffer_completion :: "(string \<Rightarrow> string) \<Rightarrow> (string \<Rightarrow> string) \<Rightarrow> buffers \<Rightarrow> gate_inputs \<Rightarrow>
    buffer_error + string option" where
  "check_buffer_completion sha md5 bs g =
     bindE (foldE (stale_stamp sha md5 bs g)
              (concat (map (\<lambda>b. map (\<lambda>key. (b, key)) (required g)) (run_targets bs))) [])
       (\<lambda>stale.
          let stale' = stale @
            (if skip_decls g \<noteq> [] \<and>
                dget (stamps g) skips_validation_key \<noteq> Some (skips_review_digest sha bs (skip_decls g) (history g))
             then [''skip review''] else [])
          in Inr (if stale' = [] then None
                  else Some (''Completion REJECTED: re-verify/re-review each of these buffer validations before '' @
                    ''publishing: '' @ comma_join stale' @ ''.'')))"

subsection \<open>Review documents\<close>

definition render_buffers :: "named_buffer list \<Rightarrow> (named_buffer \<Rightarrow> string) \<Rightarrow> string" where
  "render_buffers ordered label =
     join (newline @ newline)
       (map (\<lambda>b. ''// ===== buffer '' @ buf_name b @ '' ('' @ label b @ '') ====='' @ newline @ rstrip (cvl b)) ordered)"

definition buffer_review_text :: "buffers \<Rightarrow> string \<Rightarrow> string" where
  "buffer_review_text bs name =
     render_buffers (import_closure bs name) (\<lambda>b. if buf_name b = name then ''under review'' else ''imported'')"

definition combined_buffers_view :: "buffers \<Rightarrow> string" where
  "combined_buffers_view bs =
     render_buffers (vals (sort_key fst bs)) (\<lambda>b. if is_run_target b then ''run-target'' else ''shared'')"

subsection \<open>Validators\<close>

text \<open>The loop that splits a list into what was seen and what was seen again.\<close>

fun scan_duplicates :: "string list \<Rightarrow> string list \<Rightarrow> string list \<Rightarrow> string list \<times> string list" where
  "scan_duplicates [] seen dup = (seen, dup)"
| "scan_duplicates (p # ps) seen dup =
     (if p \<in> set seen then scan_duplicates ps seen (p # dup) else scan_duplicates ps (p # seen) dup)"

definition set_minus :: "string list \<Rightarrow> string list \<Rightarrow> string list" where
  "set_minus xs ys = filter (\<lambda>x. x \<notin> set ys) xs"

definition inter_set :: "string list \<Rightarrow> string list \<Rightarrow> string list" where
  "inter_set xs ys = filter (\<lambda>x. x \<in> set ys) xs"

definition validate_coverage :: "buffers \<Rightarrow> string list \<Rightarrow> string list \<Rightarrow> string option" where
  "validate_coverage bs all_properties skips =
     (let (seen, duplicated) = scan_duplicates (concat (map properties (run_targets bs))) [] [];
          missing = set_minus (set_minus all_properties skips) seen;
          unknown = set_minus seen all_properties;
          skipped_assigned = inter_set seen skips;
          problems =
            (if duplicated \<noteq> []
             then [''properties assigned to more than one buffer: '' @ repr_list (sorted_set duplicated)] else []) @
            (if missing \<noteq> []
             then [''non-skipped properties assigned to no buffer: '' @ repr_list (sorted_set missing)] else []) @
            (if unknown \<noteq> [] then [''unknown property titles: '' @ repr_list (sorted_set unknown)] else []) @
            (if skipped_assigned \<noteq> []
             then [''skipped properties should not be assigned to a buffer: '' @ repr_list (sorted_set skipped_assigned)]
             else [])
      in if problems \<noteq> [] then Some (join ''; '' problems) else None)"

definition validate_disjoint_rules :: "buffers \<Rightarrow> string option" where
  "validate_disjoint_rules bs =
     (let (seen, dup) = scan_duplicates (concat (map owned_rules (run_targets bs))) [] []
      in if dup \<noteq> [] then Some (''rules owned by more than one buffer: '' @ repr_list (sorted_set dup)) else None)"

text \<open>\<^verbatim>\<open>declared_by_buffer.get(name)\<close>: no entry and the entry None both say that no run covered the buffer.\<close>

definition declared_in :: "(string, string list option) dict \<Rightarrow> string \<Rightarrow> string list option" where
  "declared_in declared name = (case dget declared name of None \<Rightarrow> None | Some d \<Rightarrow> d)"

text \<open>\<^verbatim>\<open>cited_by_buffer.get(name, set())\<close>.\<close>

definition cited_in :: "(string, string list) dict \<Rightarrow> string \<Rightarrow> string list" where
  "cited_in cited_by name = (case dget cited_by name of None \<Rightarrow> [] | Some c \<Rightarrow> c)"

definition named_list :: "string \<Rightarrow> string list \<Rightarrow> string" where
  "named_list name xs = py_repr name @ '': '' @ comma_join (sorted_set xs)"

definition validate_declared_rules_mapped :: "buffers \<Rightarrow> (string, string list option) dict \<Rightarrow> string option" where
  "validate_declared_rules_mapped bs declared =
     (let problems = List.map_filter (\<lambda>b.
        case declared_in declared (buf_name b) of None \<Rightarrow> None
        | Some d \<Rightarrow> (let unmapped = set_minus d (owned_rules b) in
                     if unmapped = [] then None else Some (named_list (buf_name b) unmapped))) (run_targets bs)
      in if problems = [] then None
         else Some (''these rules/invariants are declared but named by no property '' @ [CHR 0xE2, CHR 0x80, CHR 0x94] @
           '' every declared rule must be attributed to the property it verifies. Map each under that property, '' @
           ''or remove it from the buffer: '' @ join ''; '' problems))"

definition ends_with :: "string \<Rightarrow> string \<Rightarrow> bool" where
  "ends_with suf s \<longleftrightarrow> starts_with (rev suf) (rev s)"

definition assume_invariant_cmd :: string where
  "assume_invariant_cmd = ''AssumeCmd.AssumeInvariant''"

text \<open>\<^verbatim>\<open>str\<close> of a value that is not a string ends in a bracket, a digit or a constant's name, never in the tag.\<close>

definition cited_here :: "(string \<times> json) list \<Rightarrow> string list" where
  "cited_here node =
     (case dget node ''cmd_type'' of
        Some (JString t) \<Rightarrow>
          if ends_with assume_invariant_cmd t
          then (case dget node ''id'' of Some (JString name) \<Rightarrow> [name] | _ \<Rightarrow> []) else []
      | _ \<Rightarrow> [])"

fun walk_ast :: "json \<Rightarrow> string list" where
  "walk_ast (JObject node) = cited_here node @ concat (map (\<lambda>(k, v). walk_ast v) node)"
| "walk_ast (JArray vs) = concat (map walk_ast vs)"
| "walk_ast _ = []"

definition requireinvariant_citations :: "(string \<Rightarrow> json option) \<Rightarrow> string \<Rightarrow> string list" where
  "requireinvariant_citations ast_of text =
     (case ast_of text of None \<Rightarrow> [] | Some a \<Rightarrow> walk_ast a)"

definition validate_requireinvariant_proved :: "buffers \<Rightarrow> (string, string list) dict \<Rightarrow>
    (string, string list option) dict \<Rightarrow> string list \<Rightarrow> string option" where
  "validate_requireinvariant_proved bs cited_by declared expected_to_fail =
     (let cited = (\<lambda>b. cited_in cited_by (buf_name b));
          failing_by = List.map_filter (\<lambda>b.
            let failing = inter_set (cited b) expected_to_fail in
            if failing = [] then None else Some (named_list (buf_name b) failing)) (run_targets bs);
          unproved_by = List.map_filter (\<lambda>b.
            case declared_in declared (buf_name b) of None \<Rightarrow> None
            | Some d \<Rightarrow> (let unproved = set_minus (cited b) d in
                         if unproved = [] then None else Some (named_list (buf_name b) unproved))) (run_targets bs);
          problems =
            (if unproved_by \<noteq> []
             then [''these invariants are cited with requireInvariant but not declared (so not proved) in the '' @
               ''citing buffer '' @ [CHR 0xE2, CHR 0x80, CHR 0x94] @
               '' an imported invariant is not re-verified in the importing run, so the citation '' @
               ''would be an unproven assumption. Declare each invariant in the buffer whose rule cites it: '' @
               join ''; '' unproved_by] else []) @
            (if failing_by \<noteq> []
             then [''these invariants are cited with requireInvariant but marked expected-to-fail, so the citation '' @
               ''would assume an invariant that is not expected to hold: '' @ join ''; '' failing_by] else [])
      in if problems \<noteq> [] then Some (join '' | '' problems) else None)"

end
