(* ===== verification/Authoring_Laws.thy ===== *)
theory Authoring_Laws
  imports Authoring
begin

text \<open>
  What the authoring session promises: the state reducers are keyed last-writer-wins maps (one contract with
  four instances, the fourth in the spec buffers), the publish gate accepts exactly the drafts every
  required gate has stamped, a mapping is accepted exactly when it ties properties and checks together, and a
  surgical edit changes one site.
\<close>

subsection \<open>Keyed reducers\<close>

text \<open>
  A reducer merges an update into a state, key by key: \<open>change u k\<close> is what the update says of a key, nothing,
  a new value, or removal.
\<close>

locale keyed_reducer =
  fixes merge :: "'s \<Rightarrow> 'u \<Rightarrow> 's"
    and ok :: "'s \<Rightarrow> bool"
    and entry :: "'s \<Rightarrow> 'k \<Rightarrow> 'v option"
    and change :: "'u \<Rightarrow> 'k \<Rightarrow> 'v option option"
  assumes entry_merge: "ok s \<Longrightarrow> entry (merge s u) k = (case change u k of None \<Rightarrow> entry s k | Some v \<Rightarrow> v)"
    and ok_merge: "ok s \<Longrightarrow> ok (merge s u)"
begin

lemma ok_foldl: "ok s \<Longrightarrow> ok (foldl merge s us)"
  by (induction us arbitrary: s) (simp_all add: ok_merge)

lemma merge_again: "ok s \<Longrightarrow> entry (merge (merge s u) u) k = entry (merge s u) k"
  by (simp add: entry_merge ok_merge split: option.split)

lemma merge_disjoint_commute:
  "ok s \<Longrightarrow> (\<And>k. change u k = None \<or> change u' k = None) \<Longrightarrow>
   entry (merge (merge s u) u') k = entry (merge (merge s u') u) k"
  by (cases "change u k"; cases "change u' k")
    (auto simp: entry_merge ok_merge, metis option.distinct(1))

lemma entry_foldl:
  "ok s \<Longrightarrow> entry (foldl merge s us) k =
     (case find (\<lambda>u. change u k \<noteq> None) (rev us) of None \<Rightarrow> entry s k | Some u \<Rightarrow> the (change u k))"
proof (induction us rule: rev_induct)
  case Nil
  then show ?case by simp
next
  case (snoc u us)
  then show ?case by (auto simp: entry_merge ok_foldl split: option.split)
qed

end

lemma dget_fold_dset:
  "dget (fold (\<lambda>(k, v). dset k v) r l) k = (case dget (rev r) k of None \<Rightarrow> dget l k | Some v \<Rightarrow> Some v)"
  by (induction r rule: rev_induct) (auto simp: dget_dset split: option.split)

lemma dict_ok_fold_dset: "dict_ok l \<Longrightarrow> dict_ok (fold (\<lambda>(k, v). dset k v) r l)"
  by (induction r arbitrary: l) auto

interpretation validation: keyed_reducer merge_validation dict_ok dget "\<lambda>r k. map_option Some (dget (rev r) k)"
  by unfold_locales
    (auto simp: merge_validation_def dget_fold_dset dict_ok_fold_dset split: option.split)

lemma dget_expected:
  "dict_ok l \<Longrightarrow> dget (merge_expected_failures l r) k =
     (case dget (rev r) k of None \<Rightarrow> dget l k | Some v \<Rightarrow> if v = [] then None else Some v) \<and>
   dict_ok (merge_expected_failures l r)"
  unfolding merge_expected_failures_def
  by (induction r rule: rev_induct) (auto simp: dget_dset dget_dpop split: option.split)

interpretation expected: keyed_reducer merge_expected_failures dict_ok dget
  "\<lambda>r k. map_option (\<lambda>v. if v = [] then None else Some v) (dget (rev r) k)"
  by unfold_locales (auto simp: dget_expected split: option.split)

lemma dget_same_set:
  assumes "dict_ok d" "dict_ok d'" "set d = set d'"
  shows "dget d = dget d'"
proof
  fix k
  have "dget d k = Some v \<longleftrightarrow> dget d' k = Some v" for v
    using assms by (simp add: dget_in_iff)
  then show "dget d k = dget d' k" by (metis not_Some_eq)
qed

definition by_title :: "skipped_property list \<Rightarrow> (string, skipped_property) dict" where
  "by_title skips = map (\<lambda>s. (property_title s, s)) skips"

definition skips_ok :: "skipped_property list \<Rightarrow> bool" where
  "skips_ok skips \<longleftrightarrow> distinct (map property_title skips) \<and> sorted (map property_title skips) \<and>
     (\<forall>s\<in>set skips. reason s \<noteq> [])"

definition titled :: "(string, skipped_property) dict \<Rightarrow> bool" where
  "titled d \<longleftrightarrow> dict_ok d \<and> (\<forall>(t, s)\<in>set d. property_title s = t)"

lemma titled_dset:
  assumes "titled d"
  shows "titled (dset (property_title s) s d)"
proof -
  have "property_title s' = t" if "(t, s') \<in> set (dset (property_title s) s d)" for t s'
  proof -
    have "dget (dset (property_title s) s d) t = Some s'"
      using that assms by (simp add: dget_in_iff titled_def)
    then show ?thesis using assms
      by (auto simp: dget_dset titled_def split: if_splits dest!: dget_Some_in)
  qed
  then show ?thesis using assms by (auto simp: titled_def)
qed

lemma titled_fold: "titled d \<Longrightarrow> titled (fold (\<lambda>s. dset (property_title s) s) r d)"
  by (induction r arbitrary: d) (simp_all add: titled_dset)

lemma dget_fold_titles:
  "dget (fold (\<lambda>s. dset (property_title s) s) r d) t =
     (case find (\<lambda>s. property_title s = t) (rev r) of None \<Rightarrow> dget d t | Some s \<Rightarrow> Some s)"
  by (induction r rule: rev_induct) (auto simp: dget_dset)

lemma dget_by_title: "dget (by_title skips) t = find (\<lambda>s. property_title s = t) skips"
  by (induction skips) (auto simp: by_title_def)

lemma by_title_filter: "by_title (filter P skips) = filter (\<lambda>(t, s). P s) (by_title skips)"
  by (induction skips) (auto simp: by_title_def)

lemma dget_filter:
  "dict_ok d \<Longrightarrow> dget (filter (\<lambda>(t, s). P s) d) t =
     (case dget d t of None \<Rightarrow> None | Some s \<Rightarrow> if P s then Some s else None)"
proof (induction d)
  case (Cons kv d)
  then have "dict_ok d" "fst kv \<notin> fst ` set d" by (simp_all add: dict_ok_def)
  then have none: "dget d (fst kv) = None" by (simp add: dget_None_iff)
  show ?case using Cons.IH [OF \<open>dict_ok d\<close>] none by (cases kv) auto
qed simp

lemma find_rev_distinct:
  "distinct (map property_title skips) \<Longrightarrow>
   find (\<lambda>s. property_title s = t) (rev skips) = find (\<lambda>s. property_title s = t) skips"
proof (induction skips)
  case Nil
  then show ?case by simp
next
  case (Cons a skips)
  have "find (\<lambda>s. property_title s = t) skips = None" if "property_title a = t"
    using Cons.prems that by (auto simp: find_None_iff) (metis image_eqI)
  with Cons show ?case by (auto simp: find_append split: option.split)
qed

lemma merge_skips_ok: "skips_ok (merge_skips l r)"
  and dget_merge_skips: "skips_ok l \<Longrightarrow>
    dget (by_title (merge_skips l r)) t =
      (case find (\<lambda>s. property_title s = t) (rev r) of None \<Rightarrow> dget (by_title l) t
       | Some s \<Rightarrow> if reason s = [] then None else Some s)"
proof -
  let ?d = "fold (\<lambda>s. dset (property_title s) s) r (fold (\<lambda>s. dset (property_title s) s) l [])"
  let ?f = "filter (\<lambda>s. reason s \<noteq> []) (vals ?d)"
  have d: "titled ?d" by (intro titled_fold) (simp add: titled_def)
  then have eq: "by_title (vals ?d) = ?d"
    by (auto simp: by_title_def titled_def intro!: map_idI)
  have titles: "map property_title (vals ?d) = keys ?d"
    using arg_cong [OF eq, of keys] by (simp add: by_title_def comp_def)
  have dist: "distinct (map property_title ?f)"
    by (rule distinct_map_filter) (use d in \<open>simp only: titles titled_def dict_ok_def\<close>)
  have m: "merge_skips l r = sort_key property_title ?f" by (simp add: merge_skips_def Let_def)
  show "skips_ok (merge_skips l r)"
    using dist by (auto simp: skips_ok_def m distinct_map)
  show "dget (by_title (merge_skips l r)) t =
      (case find (\<lambda>s. property_title s = t) (rev r) of None \<Rightarrow> dget (by_title l) t
       | Some s \<Rightarrow> if reason s = [] then None else Some s)" if "skips_ok l"
  proof -
    have "dget (by_title (merge_skips l r)) = dget (by_title ?f)"
      using dist by (intro dget_same_set) (auto simp: by_title_def dict_ok_def m comp_def distinct_map)
    moreover have "dget (by_title ?f) t = (case dget ?d t of None \<Rightarrow> None | Some s \<Rightarrow> if reason s \<noteq> [] then Some s else None)"
      using d eq by (simp add: by_title_filter dget_filter titled_def)
    moreover have "dget ?d t = (case find (\<lambda>s. property_title s = t) (rev r) of None \<Rightarrow> dget (by_title l) t | Some s \<Rightarrow> Some s)"
      using that find_rev_distinct [of l t]
      by (simp add: dget_fold_titles dget_by_title skips_ok_def split: option.split)
    moreover have "reason s \<noteq> []" if "dget (by_title l) t = Some s" for s
      using that \<open>skips_ok l\<close> by (auto simp: by_title_def skips_ok_def dest!: dget_Some_in)
    ultimately show ?thesis by (auto split: option.split)
  qed
qed

interpretation skips: keyed_reducer merge_skips skips_ok "\<lambda>s. dget (by_title s)"
  "\<lambda>r t. map_option (\<lambda>s. if reason s = [] then None else Some s) (find (\<lambda>s. property_title s = t) (rev r))"
  by unfold_locales (auto simp: dget_merge_skips merge_skips_ok split: option.split)

text \<open>
  After any sequence of skip updates the list is sorted by title, has one entry per property and no
  empty reason, and a property is listed exactly with the reason of the last update that named it: an empty
  reason takes it off the list, and properties no update named keep their entry.
\<close>

theorem skips_follow_last_update:
  assumes "skips_ok s"
  shows "skips_ok (foldl merge_skips s us) \<and>
    dget (by_title (foldl merge_skips s us)) t =
      (case find (\<lambda>u. \<exists>x\<in>set u. property_title x = t) (rev us) of
         None \<Rightarrow> dget (by_title s) t
       | Some u \<Rightarrow> (let x = the (find (\<lambda>x. property_title x = t) (rev u)) in if reason x = [] then None else Some x))"
proof -
  have named: "(map_option f (find (\<lambda>x. property_title x = t) (rev u)) \<noteq> None) = (\<exists>x\<in>set u. property_title x = t)"
    for f :: "skipped_property \<Rightarrow> skipped_property option" and u
    by (auto simp: find_None_iff)
  have sel: "the (map_option f (find (\<lambda>x. property_title x = t) (rev u))) = f (the (find (\<lambda>x. property_title x = t) (rev u)))"
    if "\<exists>x\<in>set u. property_title x = t" for f :: "skipped_property \<Rightarrow> skipped_property option" and u
    using that by (cases "find (\<lambda>x. property_title x = t) (rev u)") (auto simp: find_None_iff)
  have "dget (by_title (foldl merge_skips s us)) t =
      (case find (\<lambda>u. \<exists>x\<in>set u. property_title x = t) (rev us) of
         None \<Rightarrow> dget (by_title s) t
       | Some u \<Rightarrow> (let x = the (find (\<lambda>x. property_title x = t) (rev u)) in if reason x = [] then None else Some x))"
    using skips.entry_foldl [OF assms, of us t] sel find_SomeD unfolding named
    by (cases "find (\<lambda>u. \<exists>x\<in>set u. property_title x = t) (rev us)") (fastforce simp: Let_def)+
  then show ?thesis using skips.ok_foldl [OF assms] by simp
qed

definition sample_skips :: "skipped_property list" where
  "sample_skips = [\<lparr>property_title = ''a'', reason = ''pure''\<rparr>, \<lparr>property_title = ''b'', reason = ''dup''\<rparr>]"

lemma skips_follow_last_update_witness:
  "dget (by_title (foldl merge_skips sample_skips
      [[\<lparr>property_title = ''b'', reason = ''x''\<rparr>], [\<lparr>property_title = ''b'', reason = []\<rparr>]])) ''b'' = None"
proof -
  have "skips_ok sample_skips" by (simp add: skips_ok_def sample_skips_def)
  from skips_follow_last_update [OF this, of "[[\<lparr>property_title = ''b'', reason = ''x''\<rparr>],
      [\<lparr>property_title = ''b'', reason = []\<rparr>]]" "''b''"]
  show ?thesis by simp
qed

subsection \<open>The gate\<close>

lemma check_required_None_iff:
  "check_required current stamps ks = Inr None \<longleftrightarrow>
     (\<forall>k\<in>set ks. dget current k \<noteq> None \<and> dget stamps k = dget current k)"
  by (induction ks) (auto split: option.split)

lemma check_completion_None_iff:
  "check_completion s stampers history nw = Inr None \<longleftrightarrow> curr_spec s \<noteq> None \<and>
     (\<forall>k\<in>set (required_validations s). dget (current_stamps stampers s history) k \<noteq> None \<and>
        dget (validations s) k = dget (current_stamps stampers s history) k)"
  by (simp add: check_completion_def check_required_None_iff)

text \<open>A gate tool of a session: a judge stamps the draft, a checker the draft and its markings.\<close>

datatype gate = Judge string | Checker string

fun gate_key :: "gate \<Rightarrow> string" where
  "gate_key (Judge k) = k"
| "gate_key (Checker k) = k"

fun gate_stamper :: "(string \<Rightarrow> string) \<Rightarrow> gate \<Rightarrow> stamper" where
  "gate_stamper md5 (Judge k) = make_validation_stamper md5 k"
| "gate_stamper md5 (Checker k) = make_verdict_stamper md5 k"

fun gate_digest :: "(string \<Rightarrow> string) \<Rightarrow> gate \<Rightarrow> authoring_state \<Rightarrow> string list \<Rightarrow> string" where
  "gate_digest md5 (Judge k) s h = draft_digest md5 s h"
| "gate_digest md5 (Checker k) s h = checked_digest md5 s h"

lemma gate_stamper_eq: "gate_stamper md5 g s h = [(gate_key g, gate_digest md5 g s h)]"
  by (cases g) (simp_all add: make_validation_stamper_def make_verdict_stamper_def)

lemma dget_current_stamps:
  "distinct (map gate_key gs) \<Longrightarrow> g \<in> set gs \<Longrightarrow>
   dget (current_stamps (map (gate_stamper md5) gs) s h) (gate_key g) = Some (gate_digest md5 g s h)"
proof (induction gs rule: rev_induct)
  case Nil
  then show ?case by simp
next
  case (snoc g' gs)
  then show ?case
    by (auto simp: current_stamps_def merge_validation_def gate_stamper_eq dget_dset image_iff)
qed

lemma dget_current_stamps_None:
  "k \<notin> gate_key ` set gs \<Longrightarrow> dget (current_stamps (map (gate_stamper md5) gs) s h) k = None"
  by (induction gs rule: rev_induct)
    (auto simp: current_stamps_def merge_validation_def gate_stamper_eq dget_dset)

text \<open>
  A session as its tools drive it: the draft is written, skips and markings are merged, a source edit is
  recorded, and a gate of the session accepts the draft as it stands and stamps it. The log collects what
  was accepted: the gate with the state and the edit history it saw.
\<close>

type_synonym acceptance = "gate \<times> authoring_state \<times> string list"

inductive session :: "(string \<Rightarrow> string) \<Rightarrow> gate list \<Rightarrow> authoring_state \<Rightarrow> string list \<Rightarrow> acceptance list \<Rightarrow> bool"
  for md5 gates where
  session_start: "validations s = [] \<Longrightarrow> session md5 gates s [] []"
| session_write: "session md5 gates s h log \<Longrightarrow> session md5 gates (s\<lparr>curr_spec := Some t\<rparr>) h log"
| session_skip: "session md5 gates s h log \<Longrightarrow>
    session md5 gates (s\<lparr>skipped := merge_skips (skipped s) u\<rparr>) h log"
| session_mark: "session md5 gates s h log \<Longrightarrow>
    session md5 gates (s\<lparr>expected_failures := merge_expected_failures (expected_failures s) m\<rparr>) h log"
| session_source_edit: "session md5 gates s h log \<Longrightarrow> session md5 gates s (h @ [e]) log"
| session_accept: "session md5 gates s h log \<Longrightarrow> g \<in> set gates \<Longrightarrow>
    session md5 gates (s\<lparr>validations := merge_validation (validations s) (gate_stamper md5 g s h)\<rparr>) h
      ((g, s, h) # log)"

inductive_cases session_acceptE: "session md5 gates s h (a # log)"

lemma stamps_were_accepted:
  assumes "session md5 gates s h log" and "dget (validations s) k = Some d"
  shows "\<exists>(g, s0, h0)\<in>set log. g \<in> set gates \<and> gate_key g = k \<and> d = gate_digest md5 g s0 h0"
  using assms
proof (induction arbitrary: d rule: session.induct)
  case (session_accept s h log g)
  then show ?case
    by (cases "gate_key g = k") (auto simp: merge_validation_def gate_stamper_eq dget_dset)
qed auto

text \<open>
  C1: If the publish gate lets a session through, then for every required validation its gate did accept,
  at some earlier point, a draft with the digest the published draft has now: there is no way to a
  publishable state that skips a gate, whatever was edited, skipped, marked or stamped in between.
\<close>

theorem published_was_accepted:
  assumes "session md5 gates s h log" and "distinct (map gate_key gates)"
    and "check_completion s (map (gate_stamper md5) gates) h nw = Inr None"
  shows "curr_spec s \<noteq> None \<and> (\<forall>k\<in>set (required_validations s).
    \<exists>(g, s0, h0)\<in>set log. gate_key g = k \<and> gate_digest md5 g s0 h0 = gate_digest md5 g s h)"
proof -
  have ok: "curr_spec s \<noteq> None"
    "\<forall>k\<in>set (required_validations s). dget (current_stamps (map (gate_stamper md5) gates) s h) k \<noteq> None \<and>
        dget (validations s) k = dget (current_stamps (map (gate_stamper md5) gates) s h) k"
    using assms(3) by (auto simp: check_completion_None_iff)
  have "\<exists>(g, s0, h0)\<in>set log. gate_key g = k \<and> gate_digest md5 g s0 h0 = gate_digest md5 g s h"
    if "k \<in> set (required_validations s)" for k
  proof -
    note current = bspec [OF ok(2) that]
    obtain d where d: "dget (validations s) k = Some d"
      and cur: "dget (current_stamps (map (gate_stamper md5) gates) s h) k = Some d"
      using current by fastforce
    obtain g s0 h0 where g: "(g, s0, h0) \<in> set log" "g \<in> set gates" "gate_key g = k" "d = gate_digest md5 g s0 h0"
      using stamps_were_accepted [OF assms(1) d] by auto
    then show ?thesis using cur dget_current_stamps [OF assms(2) g(2), of md5 s h] by auto
  qed
  with ok(1) show ?thesis by blast
qed

definition sample_draft :: authoring_state where
  "sample_draft = \<lparr>curr_spec = None, skipped = [], validations = [], required_validations = [''feedback'', ''prover''],
     expected_failures = []\<rparr>"

definition sample_gates :: "gate list" where
  "sample_gates = [Judge ''feedback'', Checker ''prover'']"

lemma published_was_accepted_witness:
  "\<exists>s log. session (\<lambda>t. t) sample_gates s [] log \<and> curr_spec s \<noteq> None \<and>
     (\<exists>(g, s0, h0)\<in>set log. gate_key g = ''prover'' \<and>
        gate_digest (\<lambda>t. t) g s0 h0 = gate_digest (\<lambda>t. t) g s [])"
proof -
  let ?md5 = "\<lambda>t. t :: string"
  let ?s1 = "sample_draft\<lparr>curr_spec := Some ''rule r { assert true; }''\<rparr>"
  let ?acc = "\<lambda>s g. s\<lparr>validations := merge_validation (validations s) (gate_stamper ?md5 g s [])\<rparr>"
  let ?s2 = "?acc ?s1 (Judge ''feedback'')"
  let ?s3 = "?acc ?s2 (Checker ''prover'')"
  have start: "session ?md5 sample_gates sample_draft [] []" by (rule session_start) (simp add: sample_draft_def)
  have "session ?md5 sample_gates ?s1 [] []" by (rule session_write [OF start])
  then have "session ?md5 sample_gates ?s2 [] [(Judge ''feedback'', ?s1, [])]"
    by (rule session_accept) (simp add: sample_gates_def)
  then have three: "session ?md5 sample_gates ?s3 [] [(Checker ''prover'', ?s2, []), (Judge ''feedback'', ?s1, [])]"
    by (rule session_accept) (simp add: sample_gates_def)
  have dist: "distinct (map gate_key sample_gates)" by (simp add: sample_gates_def)
  have "check_completion ?s3 (map (gate_stamper ?md5) sample_gates) [] nothing_written_default = Inr None"
    by (simp add: check_completion_None_iff sample_gates_def sample_draft_def current_stamps_def merge_validation_def
        make_validation_stamper_def make_verdict_stamper_def draft_digest_def checked_digest_def)
  from published_was_accepted [OF three dist this]
  have "curr_spec ?s3 \<noteq> None"
    "\<exists>(g, s0, h0)\<in>set [(Checker ''prover'', ?s2, []), (Judge ''feedback'', ?s1, [])]. gate_key g = ''prover'' \<and>
       gate_digest ?md5 g s0 h0 = gate_digest ?md5 g ?s3 []"
    by (simp_all add: sample_draft_def)
  with three show ?thesis by blast
qed

definition gate_texts :: "(string \<Rightarrow> string) \<Rightarrow> gate \<Rightarrow> authoring_state \<Rightarrow> string list \<Rightarrow> string set" where
  "gate_texts md5 g s h =
     {spec_text (case curr_spec s of None \<Rightarrow> [] | Some t \<Rightarrow> t) (skipped s) h} \<union>
     (case g of Judge k \<Rightarrow> {} | Checker k \<Rightarrow> {marked_text (draft_digest md5 s h) (keys (expected_failures s))})"

lemma gate_digest_identifies_spec:
  assumes "inj_on md5 (gate_texts md5 g s h \<union> gate_texts md5 g s' h)"
    and "gate_digest md5 g s h = gate_digest md5 g s' h"
    and "skipped s' = skipped s" "expected_failures s' = expected_failures s"
    and "curr_spec s = Some t" "curr_spec s' = Some t'"
  shows "t' = t"
proof -
  have "draft_digest md5 s h = draft_digest md5 s' h"
  proof (cases g)
    case (Judge k)
    with assms(2) show ?thesis by simp
  next
    case (Checker k)
    let ?m = "\<lambda>s. marked_text (draft_digest md5 s h) (keys (expected_failures s))"
    have "md5 (?m s) = md5 (?m s')" using assms(2) Checker by (simp add: checked_digest_def marked_digest_def)
    then have "?m s = ?m s'" by (rule inj_onD [OF assms(1)]) (simp_all add: gate_texts_def Checker)
    then show ?thesis by (simp add: marked_text_def assms(4))
  qed
  then have "spec_text t (skipped s) h = spec_text t' (skipped s') h"
    using inj_onD [OF assms(1), of "spec_text t (skipped s) h" "spec_text t' (skipped s') h"] assms(5,6)
    by (simp add: draft_digest_def spec_digest_def gate_texts_def)
  then show ?thesis by (simp add: spec_text_def assms(3))
qed

text \<open>
  Editing the spec after a gate has stamped it invalidates the stamp with nothing having to clear it:
  as long as MD5 does not collide on the texts involved, the gate rejects the edited draft.
\<close>

theorem edited_draft_is_rejected:
  assumes "g \<in> set gates" "distinct (map gate_key gates)" "gate_key g \<in> set (required_validations s)"
    and "dget (validations s) (gate_key g) = Some (gate_digest md5 g s h)"
    and "curr_spec s = Some t" "t' \<noteq> t" "s' = s\<lparr>curr_spec := Some t'\<rparr>"
    and "inj_on md5 (gate_texts md5 g s h \<union> gate_texts md5 g s' h)"
  shows "check_completion s' (map (gate_stamper md5) gates) h nw \<noteq> Inr None"
proof
  assume "check_completion s' (map (gate_stamper md5) gates) h nw = Inr None"
  then have "dget (validations s') (gate_key g) = Some (gate_digest md5 g s' h)"
    using assms(3,7) dget_current_stamps [OF assms(2,1), of md5 s' h] by (auto simp: check_completion_None_iff)
  then have "gate_digest md5 g s h = gate_digest md5 g s' h" using assms(4,7) by simp
  from gate_digest_identifies_spec [OF assms(8) this _ _ assms(5), of t'] assms(6,7) show False by simp
qed

lemma edited_draft_is_rejected_witness:
  "check_completion (sample_draft\<lparr>curr_spec := Some ''b'', validations := [(''prover'', ''a'')]\<rparr>)
     (map (gate_stamper (\<lambda>t. t)) sample_gates) [] nothing_written_default \<noteq> Inr None"
  by (rule edited_draft_is_rejected [of "Checker ''prover''" _
        "sample_draft\<lparr>curr_spec := Some ''a'', validations := [(''prover'', ''a'')]\<rparr>" _ _ "''a''" "''b''"])
    (simp_all add: sample_gates_def sample_draft_def checked_digest_def marked_digest_def marked_text_def
      draft_digest_def spec_digest_def spec_text_def)

text \<open>
  The digest does not separate its parts: a draft that declares a skip and a draft without it whose text
  ends in \<^verbatim>\<open>title:reason\<close> get the same stamp, whatever the hash function.
\<close>

theorem skip_and_text_share_a_digest:
  "spec_digest md5 spec (\<lparr>property_title = t, reason = r\<rparr> # skips) h = spec_digest md5 (spec @ t @ '':'' @ r) skips h"
  by (simp add: spec_digest_def spec_text_def)

subsection \<open>The mapping\<close>

definition entry_ok :: "string list \<Rightarrow> string list \<Rightarrow> string list option \<Rightarrow> string \<times> string list \<Rightarrow> bool" where
  "entry_ok titles skips executed e \<longleftrightarrow> fst e \<in> set titles \<and> fst e \<notin> set skips \<and> stripped_names (snd e) \<noteq> [] \<and>
     (case executed of None \<Rightarrow> True | Some r \<Rightarrow> set (stripped_names (snd e)) \<subseteq> set r)"

lemma scan_names_eq:
  "scan_names vocab r t names a =
     a\<lparr>claimed := rev names @ claimed a,
       errs := errs a @ map (claim_error vocab t) (filter (\<lambda>n. n \<notin> set r) names)\<rparr>"
  by (induction names arbitrary: a) (simp_all add: Let_def)

lemma scan_entry_errs:
  "errs (scan_entry vocab titles skips executed e a) = [] \<longleftrightarrow>
     errs a = [] \<and> entry_ok titles skips executed e \<and> fst e \<notin> set (mapped a)"
  by (cases e)
    (auto simp: scan_entry_def Let_def entry_ok_def scan_names_eq filter_empty_conv split: option.split)

lemma scan_entry_ok:
  "entry_ok titles skips executed e \<Longrightarrow> fst e \<notin> set (mapped a) \<Longrightarrow>
   scan_entry vocab titles skips executed e a =
     a\<lparr>mapped := fst e # mapped a,
       claimed := (case executed of None \<Rightarrow> claimed a | Some r \<Rightarrow> rev (stripped_names (snd e)) @ claimed a)\<rparr>"
  by (cases e; cases a)
    (auto simp: scan_entry_def Let_def entry_ok_def scan_names_eq filter_empty_conv split: option.split)

lemma scan_errs_mono: "errs (fold (scan_entry vocab titles skips executed) es a) = [] \<Longrightarrow> errs a = []"
proof (induction es arbitrary: a)
  case (Cons e es)
  then have "errs (scan_entry vocab titles skips executed e a) = []" by simp
  then show ?case by (simp add: scan_entry_errs)
qed simp

lemma scan_errs:
  "errs (fold (scan_entry vocab titles skips executed) es a) = [] \<longleftrightarrow>
     errs a = [] \<and> (\<forall>e\<in>set es. entry_ok titles skips executed e \<and> fst e \<notin> set (mapped a)) \<and> distinct (keys es)"
proof (induction es arbitrary: a)
  case Nil
  then show ?case by simp
next
  case (Cons e es)
  show ?case
  proof (cases "entry_ok titles skips executed e \<and> fst e \<notin> set (mapped a)")
    case True
    then show ?thesis using Cons.IH by (auto simp: scan_entry_ok image_iff)
  next
    case False
    then show ?thesis
      using scan_errs_mono [of vocab titles skips executed es "scan_entry vocab titles skips executed e a"]
      by (auto simp: scan_entry_errs)
  qed
qed

lemma scan_sets:
  assumes "\<forall>e\<in>set es. entry_ok titles skips executed e \<and> fst e \<notin> set (mapped a)" "distinct (keys es)"
  shows "set (mapped (fold (scan_entry vocab titles skips executed) es a)) = set (mapped a) \<union> set (keys es) \<and>
    (executed \<noteq> None \<longrightarrow> set (claimed (fold (scan_entry vocab titles skips executed) es a)) =
       set (claimed a) \<union> (\<Union>e\<in>set es. set (stripped_names (snd e))))"
  using assms
proof (induction es arbitrary: a)
  case Nil
  then show ?case by simp
next
  case (Cons e es)
  let ?a = "scan_entry vocab titles skips executed e a"
  have e: "?a = a\<lparr>mapped := fst e # mapped a,
      claimed := (case executed of None \<Rightarrow> claimed a | Some r \<Rightarrow> rev (stripped_names (snd e)) @ claimed a)\<rparr>"
    by (rule scan_entry_ok) (use Cons.prems(1) in auto)
  have "\<forall>e\<in>set es. entry_ok titles skips executed e \<and> fst e \<notin> set (mapped ?a)" "distinct (keys es)"
    using Cons.prems by (simp_all add: e) (metis image_eqI)
  note ih = Cons.IH [OF this]
  have "fold (scan_entry vocab titles skips executed) (e # es) a = fold (scan_entry vocab titles skips executed) es ?a"
    by simp
  moreover have "set (mapped ?a) = insert (fst e) (set (mapped a))"
    "executed \<noteq> None \<Longrightarrow> set (claimed ?a) = set (claimed a) \<union> set (stripped_names (snd e))"
    by (auto simp: e split: option.split)
  ultimately show ?case using ih by (simp add: Un_assoc)
qed

lemma mapping_accepted:
  "validate_check_mapping mapping skips titles vocab executed = None \<longleftrightarrow>
     distinct (keys mapping) \<and>
     (\<forall>(t, names)\<in>set mapping. t \<in> set titles \<and> t \<notin> property_title ` set skips \<and> stripped_names names \<noteq> []) \<and>
     set titles \<subseteq> property_title ` set skips \<union> set (keys mapping) \<and>
     (case executed of None \<Rightarrow> True | Some r \<Rightarrow> set r = (\<Union>(t, names)\<in>set mapping. set (stripped_names names)))"
proof -
  let ?a = "fold (scan_entry vocab titles (map property_title skips) executed) mapping
      \<lparr>errs = [], mapped = [], claimed = []\<rparr>"
  let ?ok = "(\<forall>e\<in>set mapping. entry_ok titles (map property_title skips) executed e) \<and> distinct (keys mapping)"
  have errs: "errs ?a = [] \<longleftrightarrow> ?ok" by (auto simp: scan_errs)
  have sets: "set (mapped ?a) = set (keys mapping)"
    "executed \<noteq> None \<Longrightarrow> set (claimed ?a) = (\<Union>e\<in>set mapping. set (stripped_names (snd e)))" if ?ok
    using scan_sets [of mapping titles "map property_title skips" executed "\<lparr>errs = [], mapped = [], claimed = []\<rparr>" vocab]
      that by auto
  have "validate_check_mapping mapping skips titles vocab executed = None \<longleftrightarrow>
      ?ok \<and> set titles \<subseteq> property_title ` set skips \<union> set (mapped ?a) \<and>
      (case executed of None \<Rightarrow> True | Some r \<Rightarrow> set r \<subseteq> set (claimed ?a))"
    by (auto simp: validate_check_mapping_def mapping_errors_def Let_def errs filter_empty_conv split: option.split)
  also have "\<dots> \<longleftrightarrow> ?ok \<and> set titles \<subseteq> property_title ` set skips \<union> set (keys mapping) \<and>
      (case executed of None \<Rightarrow> True | Some r \<Rightarrow> set r \<subseteq> (\<Union>e\<in>set mapping. set (stripped_names (snd e))))"
  proof (cases ?ok)
    case True
    then show ?thesis using sets [OF True] by (cases executed) simp_all
  next
    case False
    then show ?thesis by blast
  qed
  also have "?ok \<longleftrightarrow> distinct (keys mapping) \<and>
      (\<forall>e\<in>set mapping. fst e \<in> set titles \<and> fst e \<notin> property_title ` set skips \<and> stripped_names (snd e) \<noteq> []) \<and>
      (case executed of None \<Rightarrow> True | Some r \<Rightarrow> (\<Union>e\<in>set mapping. set (stripped_names (snd e))) \<subseteq> set r)"
    by (cases executed) (simp_all add: entry_ok_def UN_subset_iff ball_conj_distrib, blast+)
  finally show ?thesis
    by (cases executed) (simp_all add: split_beta set_eq_subset, blast+)
qed

text \<open>
  C34: The mapping declared at completion is accepted exactly when no property is mapped twice, every mapped
  property is one of the batch's, is not skipped and names a check, every property is skipped or mapped, and,
  where the executed checks are known, the checks named and the checks executed are the same.
\<close>

theorem mapping_accepted_iff:
  "validate_check_mapping mapping skips titles vocab executed = None \<longleftrightarrow>
     distinct (keys mapping) \<and>
     (\<forall>(t, names)\<in>set mapping. t \<in> set titles \<and> t \<notin> property_title ` set skips \<and> stripped_names names \<noteq> []) \<and>
     set titles \<subseteq> property_title ` set skips \<union> set (keys mapping) \<and>
     (case executed of None \<Rightarrow> True | Some r \<Rightarrow> set r = (\<Union>(t, names)\<in>set mapping. set (stripped_names names)))"
  by (rule mapping_accepted)

definition rule_vocab :: mapping_vocab where
  "rule_vocab = \<lparr>check_noun = ''test'', field_name = ''property_tests'', ran_source = ''the run''\<rparr>"

lemma mapping_accepted_iff_witness:
  "validate_check_mapping [(''solvent'', ['' t1 '', ''t2''])] sample_skips [''a'', ''b'', ''solvent''] rule_vocab
     (Some [''t2'', ''t1'']) = None"
proof -
  have "stripped_names ['' t1 '', ''t2''] = [''t1'', ''t2'']"
    by (simp add: stripped_names_def strip_def lstrip_def rstrip_def is_blank_def)
  then show ?thesis
    unfolding mapping_accepted_iff by (auto simp: sample_skips_def)
qed

subsection \<open>Edits\<close>

lemma count_occurrences_0: "count_occurrences old s = 0 \<longleftrightarrow> old = [] \<or> (\<nexists>p q. s = p @ old @ q)"
proof (induction old s rule: count_occurrences.induct)
  case (1 old s)
  show ?case
  proof (cases "old = [] \<or> s = []")
    case True
    then show ?thesis by (auto simp: count_occurrences.simps [of old s])
  next
    case False
    then obtain c cs where s: "s = c # cs" by (cases s) auto
    have "(\<exists>p q. c # cs = p @ old @ q) \<longleftrightarrow> starts_with old (c # cs) \<or> (\<exists>p q. cs = p @ old @ q)"
      unfolding starts_with_iff by (metis append_Cons append_Nil hd_append2 list.sel(1,3) neq_Nil_conv tl_append2)
    note iff = this
    show ?thesis
    proof (cases "starts_with old s")
      case True
      then obtain q where "s = old @ q" by (auto simp: starts_with_iff)
      then show ?thesis using False by (auto simp: count_occurrences_hit dest: spec [of _ "[]"])
    next
      case no: False
      then show ?thesis using False "1.IH"(2) iff by (simp add: s count_occurrences_skip)
    qed
  qed
qed

lemma replace_first:
  assumes "old \<noteq> []" and "count_occurrences old s = 1"
  shows "\<exists>p q. s = p @ old @ q \<and> replace_occurrences (Some 1) old new s = p @ new @ q \<and>
    (\<forall>p' q'. s = p' @ old @ q' \<longrightarrow> length p \<le> length p' \<and> length p' < length p + length old)"
  using assms
proof (induction old s rule: count_occurrences.induct)
  case (1 old s)
  from "1.prems" have "s \<noteq> []" by (auto simp: count_occurrences.simps [of old s])
  then obtain c cs where s: "s = c # cs" by (cases s) auto
  show ?case
  proof (cases "starts_with old s")
    case True
    then obtain q where q: "s = old @ q" by (auto simp: starts_with_iff)
    have none: "count_occurrences old q = 0"
      using "1.prems" by (simp add: count_occurrences_hit q)
    have "replace_occurrences (Some 1) old new s = new @ q"
      using "1.prems"(1) by (simp add: q replace_occurrences_once del: One_nat_def)
    moreover have "length p' < length old" if "s = p' @ old @ q'" for p' q'
    proof (rule ccontr)
      assume "\<not> length p' < length old"
      then have "p' = old @ drop (length old) p'"
        using that q by (metis append_eq_append_conv_if append_take_drop_id leI)
      then have "q = drop (length old) p' @ old @ q'" using that q by (metis append_assoc same_append_eq)
      then show False using none "1.prems"(1) by (auto simp: count_occurrences_0)
    qed
    ultimately show ?thesis using q by (intro exI [of _ "[]"] exI [of _ q]) auto
  next
    case False
    have "count_occurrences old cs = 1"
      using "1.prems" False by (simp add: count_occurrences_skip s)
    then obtain p q where pq: "cs = p @ old @ q" "replace_occurrences (Some 1) old new cs = p @ new @ q"
      "\<forall>p' q'. cs = p' @ old @ q' \<longrightarrow> length p \<le> length p' \<and> length p' < length p + length old"
      using "1.IH"(2) "1.prems" False \<open>s \<noteq> []\<close> s by auto
    have "length (c # p) \<le> length p' \<and> length p' < length (c # p) + length old" if "s = p' @ old @ q'" for p' q'
    proof -
      note occ = that
      have "p' \<noteq> []" using occ False by (auto simp: starts_with_iff)
      then obtain p2 where "p' = c # p2" "cs = p2 @ old @ q'" using occ s by (cases p') auto
      then show ?thesis using pq(3) by auto
    qed
    moreover have "replace_occurrences (Some 1) old new s = (c # p) @ new @ q"
      using False pq(2) by (simp add: replace_occurrences_skip s)
    ultimately show ?thesis using pq(1) s by (intro exI [of _ "c # p"] exI [of _ q]) auto
  qed
qed

text \<open>
  A surgical edit that is not a replace-all either fails without an edit or rewrites one site, the
  leftmost occurrence of the old text, and leaves the rest of the buffer as it was; any further occurrence
  could only overlap that site.
\<close>

theorem surgical_edit_changes_one_site:
  assumes "replace_unique buffer old new False = EditOk r"
  shows "\<exists>p q. buffer = p @ old @ q \<and> r = p @ new @ q \<and>
    (\<forall>p' q'. buffer = p' @ old @ q' \<longrightarrow> p' = p \<or> length p < length p' \<and> length p' < length p + length old)"
proof (cases "old = []")
  case True
  then have "buffer = [] \<and> r = new"
    using assms
    by (auto simp: replace_unique_def str_count_def str_replace_def Let_def replace_empty_once simp del: One_nat_def split: if_splits)
  then show ?thesis using True by auto
next
  case False
  then have "count_occurrences old buffer = 1" and r: "r = replace_occurrences (Some 1) old new buffer"
    using assms by (auto simp: replace_unique_def str_count_def str_replace_def Let_def split: if_splits)
  from replace_first [OF False this(1), of new] r show ?thesis
    by (metis append_eq_append_conv le_neq_implies_less)
qed

lemma surgical_edit_changes_one_site_witness:
  "\<exists>p q. ''assert x;'' = p @ ''x'' @ q \<and> ''assert y;'' = p @ ''y'' @ q"
proof -
  have "replace_unique ''assert x;'' ''x'' ''y'' False = EditOk ''assert y;''"
    by (simp add: replace_unique_def str_count_def str_replace_def starts_with_def count_occurrences.simps
        replace_occurrences.simps)
  from surgical_edit_changes_one_site [OF this] show ?thesis by blast
qed

text \<open>
  The uniqueness check counts occurrences without overlaps, so an old text that matches at two
  overlapping sites is accepted as unique and the first one is edited.
\<close>

theorem overlapping_sites_pass_as_unique:
  assumes "w \<noteq> []"
  shows "replace_unique (w @ w @ w) (w @ w) new False = EditOk (new @ w) \<and> w @ w @ w = w @ (w @ w) @ []"
proof -
  have "\<not> (\<exists>p q. w = p @ (w @ w) @ q)"
  proof
    assume "\<exists>p q. w = p @ (w @ w) @ q"
    then obtain p q where "w = p @ (w @ w) @ q" by blast
    from arg_cong [OF this, of length] assms show False by simp
  qed
  then have "count_occurrences (w @ w) w = 0" by (simp add: count_occurrences_0)
  moreover have "count_occurrences (w @ w) ((w @ w) @ w) = Suc (count_occurrences (w @ w) w)"
    by (rule count_occurrences_hit) (use assms in simp)
  moreover have "replace_occurrences (Some 1) (w @ w) new ((w @ w) @ w) = new @ w"
    by (rule replace_occurrences_once) (use assms in simp)
  ultimately show ?thesis using assms
    by (simp add: replace_unique_def str_count_def str_replace_def)
qed

lemma overlapping_sites_pass_as_unique_witness:
  "replace_unique ''aaa'' ''aa'' ''b'' False = EditOk ''ba''"
  using overlapping_sites_pass_as_unique [of "''a''" "''b''"] by simp

end
