(* ===== verification/Spec_Buffers_Laws.thy ===== *)
theory Spec_Buffers_Laws
  imports Spec_Buffers Authoring_Laws
begin

text \<open>
  What the spec buffers promise: the import closure is what can be reached, a digest changes with every
  buffer in the closure and with no other, the publish gate is exactly the conjunction of current stamps, and
  the publish-time validators accept exactly the buffers that satisfy their contracts.
\<close>

subsection \<open>The buffers map\<close>

definition buffers_ok :: "buffers \<Rightarrow> bool" where
  \<comment> \<open>\<^verbatim>\<open>buffers[nm].name == nm\<close>\<close>
  "buffers_ok bs \<longleftrightarrow> dict_ok bs \<and> (\<forall>(n, b)\<in>set bs. buf_name b = n)"

lemma dget_merge_buffers:
  "dict_ok l \<Longrightarrow> dget (merge_buffers l r) k = (case dget (rev r) k of None \<Rightarrow> dget l k | Some v \<Rightarrow> v) \<and>
   dict_ok (merge_buffers l r)"
  unfolding merge_buffers_def
  by (induction r rule: rev_induct) (auto simp: dget_dset dget_dpop split: option.split)

interpretation buffers_channel: keyed_reducer merge_buffers dict_ok dget "\<lambda>r k. dget (rev r) k"
  by unfold_locales (auto simp: dget_merge_buffers)

lemma buffers_ok_name: "buffers_ok bs \<Longrightarrow> dget bs n = Some b \<Longrightarrow> buf_name b = n"
  by (auto simp: buffers_ok_def dest!: dget_Some_in)

subsection \<open>The import closure\<close>

definition imports_at :: "buffers \<Rightarrow> string \<Rightarrow> string list" where
  "imports_at bs n = (case dget bs n of None \<Rightarrow> [] | Some b \<Rightarrow> imports_of bs b)"

definition is_buffer :: "buffers \<Rightarrow> string \<Rightarrow> bool" where
  "is_buffer bs n \<longleftrightarrow> (\<exists>b. dget bs n = Some b)"

lemma closure_loop_walk:
  "walk (imports_at bs) (is_buffer bs) (set seen, set stack) (set (closure_loop bs seen stack), {})"
proof (induction bs seen stack rule: closure_loop.induct)
  case (1 bs seen stack)
  show ?case
  proof (cases "stack = []")
    case True
    then show ?thesis by (simp add: closure_loop.simps)
  next
    case False
    let ?n = "last stack" and ?rest = "butlast stack"
    let ?step = "walk_step (imports_at bs) (is_buffer bs)"
    have stack: "set stack = insert ?n (set ?rest)"
      using False by (metis append_butlast_last_id list.set(2) rotate1.simps(2) set_rotate1)
    consider "?n \<in> set seen" | "?n \<notin> set seen" "dget bs ?n = None" | b where "?n \<notin> set seen" "dget bs ?n = Some b"
      by (cases "dget bs ?n") auto
    then show ?thesis
    proof cases
      case 1
      then have "?step (set seen, set stack) (set seen, set ?rest)"
        unfolding stack by (intro walk_drop [of ?n]) auto
      then show ?thesis using "1.IH"(1) [OF False refl refl 1] False 1
        by (simp add: closure_loop.simps [of bs seen stack] converse_rtranclp_into_rtranclp)
    next
      case 2
      then have "?step (set seen, set stack) (set seen, set ?rest)"
        unfolding stack by (intro walk_drop [of ?n]) (auto simp: is_buffer_def)
      then show ?thesis using "1.IH"(2) [OF False refl refl 2] False 2
        by (simp add: closure_loop.simps [of bs seen stack] converse_rtranclp_into_rtranclp)
    next
      case 3
      then have "?step (set seen, set stack) (set (?n # seen), set (?rest @ imports_of bs b))"
        unfolding stack by (auto intro!: walk_visit simp: imports_at_def is_buffer_def)
      then show ?thesis using "1.IH"(3) [OF False refl refl 3] False 3
        by (simp add: closure_loop.simps [of bs seen stack] converse_rtranclp_into_rtranclp)
    qed
  qed
qed

interpretation closure: graph_walk "imports_at bs" "is_buffer bs" "closure_loop bs []" "\<lambda>_. True" for bs
  using closure_loop_walk [of bs "[]"] by unfold_locales simp

lemma dget_map_filter:
  "\<forall>n\<in>set ns. dget bs n \<noteq> None \<Longrightarrow> List.map_filter (dget bs) ns = map (\<lambda>n. the (dget bs n)) ns"
  by (induction ns) (auto simp: List.map_filter_simps)

lemma import_closure_eq:
  "import_closure bs name = map (\<lambda>n. the (dget bs n)) (sorted_set (closure_loop bs [] [name]))"
proof -
  have "dget bs n \<noteq> None" if "n \<in> set (closure_loop bs [] [name])" for n
    using that closure.collected_iff [of n bs "[name]"] reach_keep [of n "imports_at bs" "is_buffer bs"] by (auto simp: is_buffer_def)
  then show ?thesis unfolding import_closure_def by (intro dget_map_filter) simp
qed

lemma import_closure_names:
  assumes "buffers_ok bs"
  shows "map buf_name (import_closure bs name) = sorted_set (closure_loop bs [] [name])"
proof -
  have "buf_name (the (dget bs n)) = n" if "n \<in> set (closure_loop bs [] [name])" for n
    using that closure.collected_iff [of n bs "[name]"] reach_keep [of n "imports_at bs" "is_buffer bs"]
      buffers_ok_name [OF assms, of n] by (auto simp: is_buffer_def)
  then show ?thesis by (auto simp: import_closure_eq comp_def intro!: map_idI)
qed

lemma set_import_closure_names:
  "buffers_ok bs \<Longrightarrow> buf_name ` set (import_closure bs name) = reach (imports_at bs) (is_buffer bs) {name}"
  using closure.collected_iff [of _ bs "[name]"] arg_cong [OF import_closure_names, of bs set name] by auto

lemma import_closure_spec:
  assumes "buffers_ok bs"
  shows "sorted (map buf_name (import_closure bs name)) \<and> distinct (map buf_name (import_closure bs name)) \<and>
    set (import_closure bs name) =
      {b. \<exists>n. n \<in> reach (imports_at bs) (is_buffer bs) {name} \<and> dget bs n = Some b}"
proof -
  have "set (import_closure bs name) = (\<lambda>n. the (dget bs n)) ` reach (imports_at bs) (is_buffer bs) {name}"
    using closure.collected_iff [of _ bs "[name]"] by (auto simp: import_closure_eq)
  moreover have "n \<in> reach (imports_at bs) (is_buffer bs) {name} \<Longrightarrow> \<exists>b. dget bs n = Some b" for n
    by (drule reach_keep) (simp add: is_buffer_def)
  ultimately have "set (import_closure bs name) =
      {b. \<exists>n. n \<in> reach (imports_at bs) (is_buffer bs) {name} \<and> dget bs n = Some b}"
    by (force simp: image_iff)
  then show ?thesis by (simp add: import_closure_names [OF assms])
qed

text \<open>
  C20: The import closure of a buffer lists, sorted by name and without repetition, exactly the buffers
  reachable from it through imports that resolve to buffers, itself included, each as the map holds it; cycles
  and dangling imports do no harm.
\<close>

theorem import_closure_is_what_is_reachable:
  assumes "buffers_ok bs"
  shows "sorted (map buf_name (import_closure bs name)) \<and> distinct (map buf_name (import_closure bs name)) \<and>
    set (import_closure bs name) =
      {b. \<exists>n. n \<in> reach (imports_at bs) (is_buffer bs) {name} \<and> dget bs n = Some b}"
  by (rule import_closure_spec [OF assms])

subsection \<open>Editing a buffer's text\<close>

definition edit_buffer :: "buffers \<Rightarrow> string \<Rightarrow> named_buffer \<Rightarrow> string \<Rightarrow> buffers" where
  \<comment> \<open>what an edit tool sends through \<^verbatim>\<open>merge_buffers\<close>: the buffer with a new text\<close>
  "edit_buffer bs m b t = merge_buffers bs [(m, Some (b\<lparr>cvl := t\<rparr>))]"

lemma edit_buffer_eq: "edit_buffer bs m b t = dset m (b\<lparr>cvl := t\<rparr>) bs"
  by (simp add: edit_buffer_def merge_buffers_def)

lemma fold_by_path_cong:
  "dget bs m = Some b \<Longrightarrow> path b' = path b \<Longrightarrow>
   fold (\<lambda>(nm, b). dset (normpath (path b)) nm) (dset m b' bs) d = fold (\<lambda>(nm, b). dset (normpath (path b)) nm) bs d"
  by (induction bs arbitrary: d) auto

lemma by_path_edit: "dget bs m = Some b \<Longrightarrow> by_path (edit_buffer bs m b t) = by_path bs"
  by (simp add: edit_buffer_eq by_path_def fold_by_path_cong)

lemma imports_at_edit:
  "dget bs m = Some b \<Longrightarrow> n \<noteq> m \<Longrightarrow> imports_at (edit_buffer bs m b t) n = imports_at bs n"
  using by_path_edit [of bs m b t]
  by (auto simp: imports_at_def imports_of_def edit_buffer_eq dget_dset split: option.split)

lemma is_buffer_edit: "dget bs m = Some b \<Longrightarrow> is_buffer (edit_buffer bs m b t) n = is_buffer bs n"
  by (auto simp: is_buffer_def edit_buffer_eq dget_dset)

lemma buffers_ok_edit: "buffers_ok bs \<Longrightarrow> dget bs m = Some b \<Longrightarrow> buffers_ok (edit_buffer bs m b t)"
proof -
  assume ok: "buffers_ok bs" and m: "dget bs m = Some b"
  have d: "dict_ok (edit_buffer bs m b t)" using ok by (simp add: buffers_ok_def edit_buffer_eq)
  have "buf_name b' = n" if "(n, b') \<in> set (edit_buffer bs m b t)" for n b'
  proof -
    have "dget (edit_buffer bs m b t) n = Some b'" using that d by (simp add: dget_in_iff)
    then show ?thesis using buffers_ok_name [OF ok] m by (auto simp: edit_buffer_eq dget_dset split: if_splits)
  qed
  with d show ?thesis by (auto simp: buffers_ok_def)
qed

abbreviation closure_of :: "buffers \<Rightarrow> string \<Rightarrow> string set" where
  "closure_of bs name \<equiv> reach (imports_at bs) (is_buffer bs) {name}"

lemma closure_unrelated_edit:
  assumes "dget bs m = Some b" "m \<notin> closure_of bs name"
  shows "closure_of (edit_buffer bs m b t) name = closure_of bs name"
proof (rule reach_cong)
  fix n assume "n \<in> closure_of bs name"
  then have "n \<noteq> m" using assms(2) by blast
  then show "set (imports_at (edit_buffer bs m b t) n) = set (imports_at bs n)"
    by (simp add: imports_at_edit [OF assms(1)])
qed (simp_all add: is_buffer_edit [OF assms(1)])

lemma closure_keeps_edited:
  assumes "dget bs m = Some b" "m \<in> closure_of bs name"
  shows "m \<in> closure_of (edit_buffer bs m b t) name"
proof -
  have "n \<in> closure_of (edit_buffer bs m b t) name \<or> m \<in> closure_of (edit_buffer bs m b t) name"
    if "n \<in> closure_of bs name" for n
    using that
  proof induction
    case (reach_start n)
    then have "is_buffer (edit_buffer bs m b t) n" by (simp add: is_buffer_edit [OF assms(1)])
    with reach_start(1) show ?case by (blast intro: reach.reach_start)
  next
    case (reach_succ k n)
    have "is_buffer (edit_buffer bs m b t) n" using reach_succ(3) by (simp add: is_buffer_edit [OF assms(1)])
    moreover have "n \<in> set (imports_at (edit_buffer bs m b t) k)" if "k \<noteq> m"
      using reach_succ(2) by (simp add: imports_at_edit [OF assms(1) that])
    ultimately show ?case using reach_succ.IH by (blast intro: reach.reach_succ)
  qed
  from this [OF assms(2)] show ?thesis by blast
qed

lemma sorted_set_closure: "sorted_set (closure_loop bs [] [name]) = sorted_list_of_set (closure_of bs name)"
proof (rule sorted_distinct_set_unique)
  have "finite (closure_of bs name)"
    using closure.collected_iff [of _ bs "[name]"] finite_set [of "closure_loop bs [] [name]"]
    by (metis (no_types, lifting) List.finite_set finite_subset list.simps(15) empty_set subsetI)
  then show "set (sorted_set (closure_loop bs [] [name])) = set (sorted_list_of_set (closure_of bs name))"
    using closure.collected_iff [of _ bs "[name]"] by auto
qed simp_all

text \<open>
  Editing a buffer that a buffer does not import, directly or through others, leaves that buffer's
  digest as it was, so nothing unrelated is verified or reviewed again.
\<close>

theorem unrelated_edit_keeps_digest:
  assumes "dget bs m = Some b" "m \<notin> closure_of bs name"
  shows "buffer_digest sha (edit_buffer bs m b t) name extra = buffer_digest sha bs name extra"
proof -
  have same: "dget (edit_buffer bs m b t) n = dget bs n" if "n \<in> closure_of bs name" for n
    using that assms(2) by (auto simp: edit_buffer_eq dget_dset)
  have "set (sorted_set (closure_loop bs [] [name])) = closure_of bs name"
    using closure.collected_iff [of _ bs "[name]"] by auto
  then have "map (\<lambda>n. the (dget (edit_buffer bs m b t) n)) (sorted_set (closure_loop bs [] [name])) =
      map (\<lambda>n. the (dget bs n)) (sorted_set (closure_loop bs [] [name]))"
    using same by (intro map_cong) auto
  then have "import_closure (edit_buffer bs m b t) name = import_closure bs name"
    by (simp add: import_closure_eq sorted_set_closure closure_unrelated_edit [OF assms])
  then show ?thesis by (simp add: buffer_digest_def digest_parts_def)
qed

text \<open>
  No collision among the texts and among the joined parts that are compared. Digests are hexadecimal, so they
  hold neither a colon nor a newline; names are path components and hold no newline.
\<close>

definition no_collision :: "(string \<Rightarrow> string) \<Rightarrow> string set \<Rightarrow> string set \<Rightarrow> bool" where
  "no_collision sha texts joined \<longleftrightarrow> inj_on (hash_text sha) texts \<and> inj_on (\<lambda>t. take 32 (sha t)) joined \<and>
     (\<forall>t\<in>texts. CHR 0x0A \<notin> set (hash_text sha t) \<and> CHR '':'' \<notin> set (hash_text sha t))"

lemma colon_inject:
  assumes "a @ '':'' @ h = a' @ '':'' @ h'" "CHR '':'' \<notin> set h" "CHR '':'' \<notin> set h'"
  shows "a = a' \<and> h = h'"
proof -
  have take: "takeWhile (\<lambda>c. c \<noteq> CHR '':'') (rev (b @ '':'' @ k)) = rev k" if "CHR '':'' \<notin> set k" for b k
    using that by (auto simp: takeWhile_append)
  have "rev h = takeWhile (\<lambda>c. c \<noteq> CHR '':'') (rev (a @ '':'' @ h))" by (simp only: take [OF assms(2)])
  also have "\<dots> = rev h'" by (simp only: assms(1) take [OF assms(3)])
  finally have "rev h = rev h'" .
  then show ?thesis using assms(1) by simp
qed

lemma join_append_same:
  assumes "join sep (xs @ zs) = join sep (ys @ zs)" "xs \<noteq> []" "ys \<noteq> []"
  shows "join sep xs = join sep ys"
  using assms by (cases "zs = []") (simp_all add: join_append)

lemma map_pointwise:
  "map f xs = map f ys \<Longrightarrow> (\<And>x y. x \<in> set xs \<Longrightarrow> y \<in> set ys \<Longrightarrow> f x = f y \<Longrightarrow> g x = g y) \<Longrightarrow> map g xs = map g ys"
proof (induction xs arbitrary: ys)
  case Nil
  then show ?case by simp
next
  case (Cons x xs)
  then obtain y ys' where ys: "ys = y # ys'" "f x = f y" "map f xs = map f ys'" by (cases ys) auto
  have "map g xs = map g ys'" by (rule Cons.IH [OF ys(3)]) (use Cons.prems(2) ys(1) in auto)
  then show ?case using Cons.prems(2) ys(1,2) by simp
qed

definition part_of :: "(string \<Rightarrow> string) \<Rightarrow> named_buffer \<Rightarrow> string" where
  "part_of sha b = buf_name b @ '':'' @ hash_text sha (cvl b)"

lemma digest_identifies_closure:
  assumes coll: "no_collision sha (cvl ` (set C \<union> set C')) {join newline (map (part_of sha) C @ ex), join newline (map (part_of sha) C' @ ex)}"
    and names: "\<forall>b\<in>set C \<union> set C'. CHR 0x0A \<notin> set (buf_name b)"
    and ne: "C \<noteq> []" "C' \<noteq> []"
    and eq: "hash_content_parts sha (map (part_of sha) C @ ex) = hash_content_parts sha (map (part_of sha) C' @ ex)"
  shows "map (\<lambda>b. (buf_name b, cvl b)) C = map (\<lambda>b. (buf_name b, cvl b)) C'"
proof -
  have hashes: "inj_on (hash_text sha) (cvl ` (set C \<union> set C'))"
    "\<And>b. b \<in> set C \<union> set C' \<Longrightarrow> CHR 0x0A \<notin> set (hash_text sha (cvl b)) \<and> CHR '':'' \<notin> set (hash_text sha (cvl b))"
    using coll by (auto simp: no_collision_def)
  have "join newline (map (part_of sha) C @ ex) = join newline (map (part_of sha) C' @ ex)"
  proof (rule inj_onD)
    show "inj_on (\<lambda>t. take 32 (sha t)) {join newline (map (part_of sha) C @ ex), join newline (map (part_of sha) C' @ ex)}"
      using coll by (simp only: no_collision_def)
  qed (use eq in \<open>simp_all add: hash_content_parts_def\<close>)
  then have "join [CHR 0x0A] (map (part_of sha) C) = join [CHR 0x0A] (map (part_of sha) C')"
    using ne join_append_same [of newline "map (part_of sha) C" ex "map (part_of sha) C'"] by (simp add: newline_def)
  then have "map (part_of sha) C = map (part_of sha) C'"
    by (rule join_sep_inject) (use ne names hashes(2) in \<open>auto simp: part_of_def\<close>)
  then show ?thesis
  proof (rule map_pointwise)
    fix b b' assume b: "b \<in> set C" "b' \<in> set C'" and p: "part_of sha b = part_of sha b'"
    have "buf_name b = buf_name b' \<and> hash_text sha (cvl b) = hash_text sha (cvl b')"
      using p b hashes(2) colon_inject [of "buf_name b" "hash_text sha (cvl b)" "buf_name b'" "hash_text sha (cvl b')"]
      by (simp add: part_of_def)
    then show "(buf_name b, cvl b) = (buf_name b', cvl b')"
      using b inj_onD [OF hashes(1), of "cvl b" "cvl b'"] by auto
  qed
qed

definition digest_texts :: "(string \<Rightarrow> string) \<Rightarrow> buffers \<Rightarrow> string \<Rightarrow> string list \<Rightarrow> string set" where
  "digest_texts sha bs name extra = {join newline (digest_parts sha bs name extra)}"

definition closure_cvl :: "buffers \<Rightarrow> string \<Rightarrow> string set" where
  "closure_cvl bs name = cvl ` set (import_closure bs name)"

text \<open>
  C6: Editing the text of a buffer changes the digest of every buffer that has it in its import closure,
  however far away, as long as SHA-256 does not collide on the texts involved and names are one-line: a stamp
  earned before the edit is stale after it.
\<close>

theorem edit_changes_importers_digest:
  assumes "buffers_ok bs" "dget bs m = Some b" "t \<noteq> cvl b" "m \<in> closure_of bs name"
    and "\<forall>n\<in>set (keys bs). CHR 0x0A \<notin> set n"
    and "no_collision sha (closure_cvl bs name \<union> closure_cvl (edit_buffer bs m b t) name)
      (digest_texts sha bs name extra \<union> digest_texts sha (edit_buffer bs m b t) name extra)"
  shows "buffer_digest sha (edit_buffer bs m b t) name extra \<noteq> buffer_digest sha bs name extra"
proof
  let ?bs' = "edit_buffer bs m b t"
  let ?C = "import_closure bs name" and ?C' = "import_closure ?bs' name"
  assume same: "buffer_digest sha ?bs' name extra = buffer_digest sha bs name extra"
  note ok' = buffers_ok_edit [OF assms(1,2), of t]
  have b: "b \<in> set ?C"
    using import_closure_spec [OF assms(1), of name] assms(2,4) by blast
  have b': "b\<lparr>cvl := t\<rparr> \<in> set ?C'"
    using import_closure_spec [OF ok', of name] closure_keeps_edited [OF assms(2,4), of t]
    by (auto simp: edit_buffer_eq dget_dset)
  have "m \<in> set (keys bs)" by (rule dget_in_keys [OF assms(2)])
  then have keys: "keys ?bs' = keys bs" by (simp add: edit_buffer_eq update_keys)
  have name_line: "CHR 0x0A \<notin> set (buf_name x)"
    if "buffers_ok cs" "x \<in> set (import_closure cs name)" "keys cs = keys bs" for cs x
  proof -
    note cs = that
    obtain n where n: "dget cs n = Some x" using cs(1,2) import_closure_spec [OF cs(1), of name] by auto
    then have "n \<in> set (keys bs)" using cs(3) dget_in_keys [OF n] by simp
    then show ?thesis using buffers_ok_name [OF cs(1) n] bspec [OF assms(5), of n] by simp
  qed
  have names: "\<forall>b\<in>set ?C \<union> set ?C'. CHR 0x0A \<notin> set (buf_name b)"
    using name_line [OF assms(1)] name_line [OF ok' _ keys] by blast
  have parts: "digest_parts sha cs name extra = map (part_of sha) (import_closure cs name) @ map (\<lambda>p. ''extra:'' @ p) extra"
    for cs
    by (simp add: digest_parts_def part_of_def [abs_def])
  have coll: "no_collision sha (cvl ` (set ?C \<union> set ?C'))
      {join newline (map (part_of sha) ?C @ map (\<lambda>p. ''extra:'' @ p) extra),
       join newline (map (part_of sha) ?C' @ map (\<lambda>p. ''extra:'' @ p) extra)}"
    using assms(6) unfolding digest_texts_def closure_cvl_def parts image_Un by (simp only: Un_insert_left Un_empty_left)
  have ne: "?C \<noteq> []" "?C' \<noteq> []" using b b' by (metis empty_iff empty_set)+
  have same': "hash_content_parts sha (map (part_of sha) ?C @ map (\<lambda>p. ''extra:'' @ p) extra) =
      hash_content_parts sha (map (part_of sha) ?C' @ map (\<lambda>p. ''extra:'' @ p) extra)"
    using same by (simp only: buffer_digest_def parts)
  have "map (\<lambda>b. (buf_name b, cvl b)) ?C = map (\<lambda>b. (buf_name b, cvl b)) ?C'"
    by (rule digest_identifies_closure [OF coll names ne same'])
  from arg_cong [OF this, of set] have "(\<lambda>b. (buf_name b, cvl b)) ` set ?C = (\<lambda>b. (buf_name b, cvl b)) ` set ?C'"
    by (simp only: set_map)
  then have "(buf_name b, cvl b) \<in> (\<lambda>b. (buf_name b, cvl b)) ` set ?C'" using b by blast
  then obtain b2 where b2: "b2 \<in> set ?C'" "buf_name b2 = buf_name b" "cvl b2 = cvl b" by auto
  have "distinct (map buf_name ?C')" using import_closure_spec [OF ok'] by blast
  then have "b2 = b\<lparr>cvl := t\<rparr>" using b2(1,2) b' by (auto simp: distinct_map inj_on_def)
  then show False using b2(3) assms(3) by simp
qed

subsection \<open>The gate\<close>

lemma foldE_stale:
  assumes "\<And>b key. (b, key) \<in> set xs \<Longrightarrow> \<exists>d. stamp_digest sha md5 bs g key (buf_name b) = Inr d"
  shows "\<exists>stale. foldE (stale_stamp sha md5 bs g) xs s = Inr stale \<and>
    (stale = [] \<longleftrightarrow> s = [] \<and> (\<forall>(b, key)\<in>set xs. \<exists>d. stamp_digest sha md5 bs g key (buf_name b) = Inr d \<and>
       dget (stamps g) (key @ '':'' @ buf_name b) = Some d))"
  using assms
proof (induction xs arbitrary: s)
  case Nil
  then show ?case by simp
next
  case (Cons x xs)
  obtain b key where x: "x = (b, key)" by (cases x)
  obtain d where d: "stamp_digest sha md5 bs g key (buf_name b) = Inr d" using Cons.prems x by auto
  let ?s = "if dget (stamps g) (key @ '':'' @ buf_name b) \<noteq> Some d then s @ [py_repr (buf_name b) @ '' '' @ key] else s"
  have "\<And>b key. (b, key) \<in> set xs \<Longrightarrow> \<exists>d. stamp_digest sha md5 bs g key (buf_name b) = Inr d"
    using Cons.prems by auto
  from Cons.IH [OF this, of ?s] obtain stale where
    "foldE (stale_stamp sha md5 bs g) xs ?s = Inr stale"
    "stale = [] \<longleftrightarrow> ?s = [] \<and> (\<forall>(b, key)\<in>set xs. \<exists>d. stamp_digest sha md5 bs g key (buf_name b) = Inr d \<and>
       dget (stamps g) (key @ '':'' @ buf_name b) = Some d)" by blast
  then show ?case by (auto simp: x stale_stamp_def d)
qed

lemma foldE_stale_start:
  assumes "\<And>b key. (b, key) \<in> set xs \<Longrightarrow> \<exists>d. stamp_digest sha md5 bs g key (buf_name b) = Inr d"
  obtains stale where "foldE (stale_stamp sha md5 bs g) xs [] = Inr stale"
    "stale = [] \<longleftrightarrow> (\<forall>(b, key)\<in>set xs. \<exists>d. stamp_digest sha md5 bs g key (buf_name b) = Inr d \<and>
       dget (stamps g) (key @ '':'' @ buf_name b) = Some d)"
proof -
  obtain stale where "foldE (stale_stamp sha md5 bs g) xs [] = Inr stale"
    "stale = [] \<longleftrightarrow> [] = ([] :: string list) \<and> (\<forall>(b, key)\<in>set xs. \<exists>d. stamp_digest sha md5 bs g key (buf_name b) = Inr d \<and>
       dget (stamps g) (key @ '':'' @ buf_name b) = Some d)"
    using foldE_stale [OF assms, of xs "[]"] by blast
  then show thesis using that by blast
qed

lemma run_targets_iff: "b \<in> set (run_targets bs) \<longleftrightarrow> is_run_target b \<and> b \<in> snd ` set bs"
  by (auto simp: run_targets_def)

lemma run_target_dget: "buffers_ok bs \<Longrightarrow> b \<in> set (run_targets bs) \<Longrightarrow> dget bs (buf_name b) = Some b"
  by (auto simp: run_targets_iff buffers_ok_def dget_in_iff)

lemma stamp_digest_total:
  assumes "buffers_ok bs" "b \<in> set (run_targets bs)"
  shows "\<exists>d. stamp_digest sha md5 bs g key (buf_name b) = Inr d"
  using run_target_dget [OF assms]
  by (simp add: stamp_digest_def buffer_prover_digest_def buffer_state_digest_def Let_def)

lemma buffer_gate:
  assumes "buffers_ok bs"
  shows "(\<exists>r. check_buffer_completion sha md5 bs g = Inr r) \<and>
    (check_buffer_completion sha md5 bs g = Inr None \<longleftrightarrow>
      (\<forall>b\<in>set (run_targets bs). \<forall>key\<in>set (required g). \<exists>d.
         stamp_digest sha md5 bs g key (buf_name b) = Inr d \<and> dget (stamps g) (key @ '':'' @ buf_name b) = Some d) \<and>
      (skip_decls g = [] \<or>
         dget (stamps g) skips_validation_key = Some (skips_review_digest sha bs (skip_decls g) (history g))))"
proof -
  let ?xs = "concat (map (\<lambda>b. map (\<lambda>key. (b, key)) (required g)) (run_targets bs))"
  have "\<And>b key. (b, key) \<in> set ?xs \<Longrightarrow> \<exists>d. stamp_digest sha md5 bs g key (buf_name b) = Inr d"
    using stamp_digest_total [OF assms] by auto
  then obtain stale where stale: "foldE (stale_stamp sha md5 bs g) ?xs [] = Inr stale"
    "stale = [] \<longleftrightarrow> (\<forall>(b, key)\<in>set ?xs. \<exists>d. stamp_digest sha md5 bs g key (buf_name b) = Inr d \<and>
       dget (stamps g) (key @ '':'' @ buf_name b) = Some d)" by (rule foldE_stale_start)
  have "check_buffer_completion sha md5 bs g = Inr None \<longleftrightarrow> stale = [] \<and>
      (skip_decls g = [] \<or> dget (stamps g) skips_validation_key = Some (skips_review_digest sha bs (skip_decls g) (history g)))"
    by (simp add: check_buffer_completion_def stale(1) Let_def)
  moreover have "\<exists>r. check_buffer_completion sha md5 bs g = Inr r"
    by (simp add: check_buffer_completion_def stale(1) Let_def)
  ultimately show ?thesis unfolding stale(2) by auto
qed

text \<open>
  The publish check never raises on a well-formed buffers map, and it accepts exactly when every
  required validation of every run-target buffer carries the digest computed for that buffer as it stands
  and, if anything is skipped, the skip review carries the current review digest.
\<close>

theorem buffer_gate_accepts_iff:
  assumes "buffers_ok bs"
  shows "(\<exists>r. check_buffer_completion sha md5 bs g = Inr r) \<and>
    (check_buffer_completion sha md5 bs g = Inr None \<longleftrightarrow>
      (\<forall>b\<in>set (run_targets bs). \<forall>key\<in>set (required g). \<exists>d.
         stamp_digest sha md5 bs g key (buf_name b) = Inr d \<and> dget (stamps g) (key @ '':'' @ buf_name b) = Some d) \<and>
      (skip_decls g = [] \<or>
         dget (stamps g) skips_validation_key = Some (skips_review_digest sha bs (skip_decls g) (history g))))"
  using assms by (rule buffer_gate)

subsection \<open>The validators\<close>

lemma scan_duplicates_spec:
  "scan_duplicates ps seen dup = (s', d') \<Longrightarrow> set s' = set seen \<union> set ps \<and>
     (d' = [] \<longleftrightarrow> dup = [] \<and> distinct ps \<and> set ps \<inter> set seen = {})"
proof (induction ps arbitrary: seen dup)
  case Nil
  then show ?case by auto
next
  case (Cons p ps)
  show ?case
  proof (cases "p \<in> set seen")
    case True
    then show ?thesis using Cons.IH [of seen "p # dup"] Cons.prems by auto
  next
    case False
    then show ?thesis using Cons.IH [of "p # seen" dup] Cons.prems by auto
  qed
qed

lemma count_concat_distinct:
  "\<forall>xs\<in>set xss. distinct xs \<Longrightarrow> count_list (concat xss) p = length (filter (\<lambda>xs. p \<in> set xs) xss)"
proof (induction xss)
  case (Cons xs xss)
  have "count_list xs p = (if p \<in> set xs then 1 else 0)"
    using Cons.prems by (induction xs) auto
  then show ?case using Cons by simp
qed simp

definition owners :: "(named_buffer \<Rightarrow> string list) \<Rightarrow> buffers \<Rightarrow> string \<Rightarrow> named_buffer list" where
  "owners f bs p = filter (\<lambda>b. p \<in> set (f b)) (run_targets bs)"

lemma distinct_concat_owners:
  assumes "\<forall>b\<in>set (run_targets bs). distinct (f b)"
  shows "distinct (concat (map f (run_targets bs))) \<longleftrightarrow> (\<forall>p. length (owners f bs p) \<le> 1)"
proof -
  have "count_list (concat (map f (run_targets bs))) p = length (owners f bs p)" for p
    using assms by (subst count_concat_distinct) (auto simp: owners_def filter_map comp_def)
  then show ?thesis by (simp add: distinct_count)
qed

lemma owners_empty: "p \<notin> set (concat (map f (run_targets bs))) \<longleftrightarrow> length (owners f bs p) = 0"
  by (auto simp: owners_def filter_empty_conv)

lemma validate_disjoint_rules_iff:
  "validate_disjoint_rules bs = None \<longleftrightarrow> (\<forall>r. length (owners owned_rules bs r) \<le> 1)"
proof -
  obtain s d where sd: "scan_duplicates (concat (map owned_rules (run_targets bs))) [] [] = (s, d)" by fastforce
  show ?thesis
    using scan_duplicates_spec [OF sd] distinct_concat_owners [of bs owned_rules]
    by (simp add: validate_disjoint_rules_def sd owned_rules_def)
qed

text \<open>
  The coverage validator accepts exactly when every property that is not skipped is assigned to exactly
  one run-target buffer, and no other title (unknown or skipped) is assigned to any.
\<close>

theorem coverage_accepted_iff:
  assumes "\<forall>b\<in>set (run_targets bs). dict_ok (property_rules b)"
  shows "validate_coverage bs all_properties skips = None \<longleftrightarrow>
    (\<forall>p. length (owners properties bs p) = (if p \<in> set all_properties \<and> p \<notin> set skips then 1 else 0))"
proof -
  obtain s d where sd: "scan_duplicates (concat (map properties (run_targets bs))) [] [] = (s, d)" by fastforce
  let ?A = "set (concat (map properties (run_targets bs)))"
  have s: "set s = ?A" and d: "d = [] \<longleftrightarrow> (\<forall>p. length (owners properties bs p) \<le> 1)"
    using scan_duplicates_spec [OF sd] distinct_concat_owners [of bs properties] assms
    by (simp_all add: properties_def dict_ok_def)
  have "validate_coverage bs all_properties skips = None \<longleftrightarrow>
      d = [] \<and> set all_properties - set skips \<subseteq> ?A \<and> ?A \<subseteq> set all_properties \<and> ?A \<inter> set skips = {}"
    unfolding s [symmetric]
    by (auto simp: validate_coverage_def sd Let_def set_minus_def inter_set_def filter_empty_conv)
  also have "\<dots> \<longleftrightarrow> d = [] \<and> (\<forall>p. p \<in> ?A \<longleftrightarrow> p \<in> set all_properties \<and> p \<notin> set skips)" by blast
  also have "\<dots> \<longleftrightarrow> (\<forall>p. length (owners properties bs p) = (if p \<in> set all_properties \<and> p \<notin> set skips then 1 else 0))"
    using owners_empty [of _ properties bs] unfolding d
    by (metis le_antisym le_numeral_extra(3,4) less_one linorder_not_le zero_le)
  finally show ?thesis .
qed

text \<open>
  A citation check passes exactly when every invariant a run-target buffer cites with
  \<^verbatim>\<open>requireInvariant\<close> is not expected to fail and, where a run covered the buffer, is declared there.
\<close>

theorem citations_accepted_iff:
  "validate_requireinvariant_proved bs cited_by declared expected_to_fail = None \<longleftrightarrow>
    (\<forall>b\<in>set (run_targets bs). \<forall>i\<in>set (cited_in cited_by (buf_name b)).
      i \<notin> set expected_to_fail \<and> (\<forall>d. declared_in declared (buf_name b) = Some d \<longrightarrow> i \<in> set d))"
proof -
  let ?cited = "\<lambda>b. cited_in cited_by (buf_name b)"
  have "validate_requireinvariant_proved bs cited_by declared expected_to_fail = None \<longleftrightarrow>
      (\<forall>b\<in>set (run_targets bs). inter_set (?cited b) expected_to_fail = []) \<and>
      (\<forall>b\<in>set (run_targets bs). \<forall>d. declared_in declared (buf_name b) = Some d \<longrightarrow> set_minus (?cited b) d = [])"
    unfolding validate_requireinvariant_proved_def Let_def
    by (auto simp: map_filter_Nil_iff split: option.splits if_splits)
  also have "\<dots> \<longleftrightarrow> (\<forall>b\<in>set (run_targets bs). \<forall>i\<in>set (?cited b).
      i \<notin> set expected_to_fail \<and> (\<forall>d. declared_in declared (buf_name b) = Some d \<longrightarrow> i \<in> set d))"
    by (auto simp: set_minus_def inter_set_def filter_empty_conv)
  finally show ?thesis .
qed

lemma prover_digest_cong:
  assumes "buffers_ok bs" "b \<in> set (run_targets bs)" "r \<notin> set (owned_rules b)"
  shows "buffer_prover_digest sha md5 bs (buf_name b) h config (r # marks) =
    buffer_prover_digest sha md5 bs (buf_name b) h config marks"
  using run_target_dget [OF assms(1,2)] assms(3) by (simp add: buffer_prover_digest_def)

text \<open>
  In buffers whose rules are disjoint, marking one more rule as expected to fail can change the prover
  digest of at most one run-target buffer, the one that owns the rule; every other prover stamp survives.
\<close>

theorem marking_touches_one_buffer:
  assumes "buffers_ok bs" "validate_disjoint_rules bs = None"
    and "b1 \<in> set (run_targets bs)" "b2 \<in> set (run_targets bs)"
    and "buffer_prover_digest sha md5 bs (buf_name b1) h config (r # marks) \<noteq> buffer_prover_digest sha md5 bs (buf_name b1) h config marks"
    and "buffer_prover_digest sha md5 bs (buf_name b2) h config (r # marks) \<noteq> buffer_prover_digest sha md5 bs (buf_name b2) h config marks"
  shows "b1 = b2"
proof -
  have "b1 \<in> set (owners owned_rules bs r)" "b2 \<in> set (owners owned_rules bs r)"
    using prover_digest_cong [OF assms(1,3), of r sha md5 h config marks]
      prover_digest_cong [OF assms(1,4), of r sha md5 h config marks] assms(3-6) by (auto simp: owners_def)
  moreover have "length (owners owned_rules bs r) \<le> 1" using assms(2) by (simp add: validate_disjoint_rules_iff)
  ultimately show ?thesis by (cases "owners owned_rules bs r") auto
qed

subsection \<open>Sample buffers\<close>

definition base_buffer :: named_buffer where
  "base_buffer = \<lparr>buf_name = ''base'', cvl = ''g'', path = ''certora/specs/base.spec'', property_rules = [], is_run_target = False\<rparr>"

definition main_buffer :: named_buffer where
  "main_buffer = \<lparr>buf_name = ''main'', cvl = ''import '' @ dquote @ ''base.spec'' @ dquote, path = ''certora/specs/main.spec'',
     property_rules = [(''p'', [''r''])], is_run_target = True\<rparr>"

definition sample_buffers :: buffers where
  "sample_buffers = [(''base'', base_buffer), (''main'', main_buffer)]"

lemma sample_buffers_ok: "buffers_ok sample_buffers"
  by (simp add: buffers_ok_def dict_ok_def sample_buffers_def base_buffer_def main_buffer_def)

lemma sample_imports: "imports_at sample_buffers ''main'' = [''base'']" "imports_at sample_buffers ''base'' = []"
  by code_simp+

lemma sample_closures: "import_closure sample_buffers ''main'' = [base_buffer, main_buffer]"
  "closure_loop sample_buffers [] [''base''] = [''base'']"
  "import_closure (edit_buffer sample_buffers ''base'' base_buffer ''+'') ''main'' = [base_buffer\<lparr>cvl := ''+''\<rparr>, main_buffer]"
  by code_simp+

lemma base_in_closure: "''base'' \<in> closure_of sample_buffers ''main''"
proof -
  have "''main'' \<in> closure_of sample_buffers ''main''"
    by (rule reach_start) (simp_all add: is_buffer_def sample_buffers_def)
  then show ?thesis
    by (rule reach_succ) (simp_all add: is_buffer_def sample_buffers_def sample_imports [unfolded sample_buffers_def])
qed

lemma import_closure_is_what_is_reachable_witness:
  "\<exists>n. n \<in> closure_of sample_buffers ''main'' \<and> dget sample_buffers n = Some base_buffer"
proof -
  have "base_buffer \<in> set (import_closure sample_buffers ''main'')" by (simp add: sample_closures)
  then show ?thesis using import_closure_is_what_is_reachable [OF sample_buffers_ok, of "''main''"] by blast
qed

lemma unrelated_edit_keeps_digest_witness:
  "buffer_digest (\<lambda>t. t) (edit_buffer sample_buffers ''main'' main_buffer ''x'') ''base'' [] =
   buffer_digest (\<lambda>t. t) sample_buffers ''base'' []"
proof (rule unrelated_edit_keeps_digest)
  show "dget sample_buffers ''main'' = Some main_buffer" by (simp add: sample_buffers_def)
  show "''main'' \<notin> closure_of sample_buffers ''base''"
    using closure.collected_iff [of "''main''" sample_buffers "[''base'']"] by (simp add: sample_closures)
qed

definition sample_sha :: "string \<Rightarrow> string" where
  "sample_sha t = (if t = ''g'' then ''1'' else if t = ''+'' then ''2'' else if starts_with ''base:1'' t then ''3''
     else if starts_with ''base:2'' t then ''4'' else ''5'')"

lemma sample_hashes:
  "hash_text sample_sha ''g'' = ''1''" "hash_text sample_sha ''+'' = ''2''" "hash_text sample_sha (cvl main_buffer) = ''5''"
  "take 32 (sample_sha (join newline (digest_parts sample_sha sample_buffers ''main'' []))) = ''3''"
  "take 32 (sample_sha (join newline
     (digest_parts sample_sha (edit_buffer sample_buffers ''base'' base_buffer ''+'') ''main'' []))) = ''4''"
  by code_simp+

lemma sample_no_collision:
  "no_collision sample_sha (closure_cvl sample_buffers ''main'' \<union>
      closure_cvl (edit_buffer sample_buffers ''base'' base_buffer ''+'') ''main'')
     (digest_texts sample_sha sample_buffers ''main'' [] \<union>
      digest_texts sample_sha (edit_buffer sample_buffers ''base'' base_buffer ''+'') ''main'' [])"
proof -
  have texts: "closure_cvl sample_buffers ''main'' \<union>
      closure_cvl (edit_buffer sample_buffers ''base'' base_buffer ''+'') ''main'' = {''g'', ''+'', cvl main_buffer}"
    unfolding closure_cvl_def sample_closures by (auto simp: base_buffer_def)
  show ?thesis
    unfolding texts no_collision_def digest_texts_def by (simp add: inj_on_def sample_hashes)
qed

lemma edit_changes_importers_digest_witness:
  "buffer_digest sample_sha (edit_buffer sample_buffers ''base'' base_buffer ''+'') ''main'' [] \<noteq>
   buffer_digest sample_sha sample_buffers ''main'' []"
  by (rule edit_changes_importers_digest [OF sample_buffers_ok _ _ base_in_closure _ sample_no_collision])
    (simp_all add: sample_buffers_def base_buffer_def)

definition sample_gate :: gate_inputs where
  "sample_gate = \<lparr>stamps = [(''feedback:main'', ''x'')], required = [''feedback''], skip_decls = [], history = [],
     prover_config = None, marked_rules = []\<rparr>"

lemma buffer_gate_accepts_iff_witness:
  "check_buffer_completion (\<lambda>t. ''y'') (\<lambda>t. t) sample_buffers sample_gate \<noteq> Inr None \<and>
   check_buffer_completion (\<lambda>t. ''x'') (\<lambda>t. t) sample_buffers sample_gate = Inr None"
proof -
  have targets: "run_targets sample_buffers = [main_buffer]" by code_simp
  have main: "dget sample_buffers ''main'' = Some main_buffer" by (simp add: sample_buffers_def)
  have "stamp_digest (\<lambda>t. d) (\<lambda>t. t) sample_buffers sample_gate ''feedback'' ''main'' = Inr (take 32 d)" for d
    by (simp add: stamp_digest_def prover_validation_key_def feedback_validation_key_def buffer_state_digest_def
        main Let_def buffer_digest_def hash_content_parts_def)
  then show ?thesis
    using buffer_gate_accepts_iff [OF sample_buffers_ok, of "\<lambda>t. ''y''" "\<lambda>t. t" sample_gate]
      buffer_gate_accepts_iff [OF sample_buffers_ok, of "\<lambda>t. ''x''" "\<lambda>t. t" sample_gate]
    by (simp add: targets sample_gate_def main_buffer_def)
qed

lemma coverage_accepted_iff_witness: "validate_coverage sample_buffers [''p'', ''q''] [''q''] = None"
proof -
  have targets: "run_targets sample_buffers = [main_buffer]" by code_simp
  then have "\<forall>b\<in>set (run_targets sample_buffers). dict_ok (property_rules b)"
    by (simp add: main_buffer_def dict_ok_def)
  then show ?thesis
    by (simp add: coverage_accepted_iff owners_def targets properties_def main_buffer_def)
qed

lemma citations_accepted_iff_witness:
  "validate_requireinvariant_proved sample_buffers [(''main'', [''i''])] [(''main'', Some [''i'', ''r''])] [''r''] = None"
proof -
  have targets: "run_targets sample_buffers = [main_buffer]" by code_simp
  show ?thesis
    by (simp add: citations_accepted_iff targets cited_in_def declared_in_def main_buffer_def)
qed

definition twin_buffers :: buffers where
  "twin_buffers = [(''a'', main_buffer\<lparr>buf_name := ''a'', cvl := []\<rparr>), (''b'', main_buffer\<lparr>buf_name := ''b'', cvl := [], property_rules := []\<rparr>)]"

lemma marking_touches_one_buffer_witness:
  "\<exists>b. b \<in> set (run_targets twin_buffers) \<and>
     buffer_prover_digest (\<lambda>t. t) (\<lambda>t. t) twin_buffers (buf_name b) [] None [''r''] \<noteq>
     buffer_prover_digest (\<lambda>t. t) (\<lambda>t. t) twin_buffers (buf_name b) [] None [] \<and>
     (\<forall>b'\<in>set (run_targets twin_buffers). b' \<noteq> b \<longrightarrow>
       buffer_prover_digest (\<lambda>t. t) (\<lambda>t. t) twin_buffers (buf_name b') [] None [''r''] =
       buffer_prover_digest (\<lambda>t. t) (\<lambda>t. t) twin_buffers (buf_name b') [] None [])"
proof -
  let ?a = "main_buffer\<lparr>buf_name := ''a'', cvl := []\<rparr>"
  have ok: "buffers_ok twin_buffers" by (simp add: buffers_ok_def dict_ok_def twin_buffers_def)
  have disjoint: "validate_disjoint_rules twin_buffers = None" by code_simp
  have a: "?a \<in> set (run_targets twin_buffers)" by (simp add: run_targets_iff twin_buffers_def main_buffer_def)
  have changed: "buffer_prover_digest (\<lambda>t. t) (\<lambda>t. t) twin_buffers (buf_name ?a) [] None [''r''] \<noteq>
     buffer_prover_digest (\<lambda>t. t) (\<lambda>t. t) twin_buffers (buf_name ?a) [] None []"
    by (simp add: buffer_prover_digest_def twin_buffers_def buffer_state_digest_def marked_digest_def marked_text_def
        owned_rules_def main_buffer_def Let_def)
  show ?thesis
    using marking_touches_one_buffer [OF ok disjoint _ a _ changed] a changed by blast
qed

end
