(* ===== verification/Report.thy ===== *)
theory Report
  imports Complex_Main Authoring "HOL-Library.Product_Lexorder"
begin

text \<open>
  The property-keyed report of a run (\<^verbatim>\<open>composer/spec/source/report/\<close>): collecting the results of all
  components (\<^verbatim>\<open>collect.py\<close>), grouping (\<^verbatim>\<open>grouping.py\<close>), coverage validation (\<^verbatim>\<open>coverage.py\<close>) and the
  assembly with its fallback (\<^verbatim>\<open>build.py\<close>), over the data types of \<^verbatim>\<open>schema.py\<close>.

  The backend hook that fetches verdicts is an argument, a function from a delivered result to its verdicts;
  the grouping call to the language model is an argument too, the drafts it returned or the message of the
  exception it raised. A class derived from another is a record that extends the other's. Fields that only a
  later evaluation run fills (\<^verbatim>\<open>coverage\<close> of a property) are left out.
\<close>

subsection \<open>Data\<close>

datatype outcome = Good | Bad | Error | Timeout | Unknown

fun outcome_name :: "outcome \<Rightarrow> string" where
  "outcome_name Good = ''GOOD''"
| "outcome_name Bad = ''BAD''"
| "outcome_name Error = ''ERROR''"
| "outcome_name Timeout = ''TIMEOUT''"
| "outcome_name Unknown = ''UNKNOWN''"

definition parse_outcome :: "string \<Rightarrow> outcome option" where
  "parse_outcome raw = find (\<lambda>o'. outcome_name o' = raw) [Good, Bad, Error, Timeout, Unknown]"

datatype group_status = GroupGood | GroupBad | GroupPartial | GroupUnknown

type_synonym rule_ref = "string \<times> string" \<comment> \<open>spec file, name\<close>
type_synonym property_key = "string \<times> string" \<comment> \<open>component, title\<close>

datatype property_type = AttackVector | SafetyProperty | Invariant

record property_formulation =
  p_sort :: property_type
  p_description :: string
  p_title :: string

record formalized_property = property_formulation +
  fp_component :: string
  rule_refs :: "rule_ref list"

record skipped_claim = property_formulation +
  sc_component :: string
  sc_reason :: string

record gave_up_component =
  gu_component :: string
  gu_properties :: "property_formulation list"

record drafted_property = property_formulation +
  units :: "string list"

record curtailed_skip = property_formulation +
  cs_reason :: string

record curtailed_component =
  cc_component :: string
  artifact :: "string option"
  cc_run_link :: "string option"
  cc_detail :: "string option"
  drafted :: "drafted_property list"
  cc_skipped :: "curtailed_skip list"
  unattempted :: "property_formulation list"

record rule_verdict =
  rv_name :: string
  rv_spec_file :: string
  rv_outcome :: outcome
  rv_line :: "int option"
  rv_duration :: "rat option"
  prover_link :: "string option"
  rv_message :: "string option"

record property_group =
  slug :: string
  group_title :: string
  group_description :: string
  status :: group_status
  members :: "property_key list"

definition fp_key :: "formalized_property \<Rightarrow> property_key" where
  "fp_key p = (fp_component p, p_title p)"

definition rule_ref_of :: "rule_verdict \<Rightarrow> rule_ref" where
  "rule_ref_of r = (rv_spec_file r, rv_name r)"

subsection \<open>Verdicts\<close>

record verdict =
  outcome :: outcome
  v_line :: "int option"
  v_duration :: "rat option"
  v_unit_file :: "string option"
  v_message :: "string option"
  v_link :: "string option"

fun outcome_priority :: "outcome \<Rightarrow> nat" where
  "outcome_priority Bad = 5"
| "outcome_priority Error = 4"
| "outcome_priority Timeout = 3"
| "outcome_priority Unknown = 2"
| "outcome_priority Good = 1"

definition first_some :: "'a option \<Rightarrow> 'a option \<Rightarrow> 'a option" where
  "first_some a b = (case a of None \<Rightarrow> b | Some x \<Rightarrow> Some x)"

definition merge_verdicts :: "verdict \<Rightarrow> verdict option \<Rightarrow> verdict" where
  "merge_verdicts self other =
     (case other of None \<Rightarrow> self
      | Some v \<Rightarrow>
          let (hi, lo) = (if outcome_priority (outcome self) \<ge> outcome_priority (outcome v) then (self, v) else (v, self))
          in \<lparr>outcome = outcome hi, v_line = first_some (v_line hi) (v_line lo),
              v_duration = first_some (v_duration hi) (v_duration lo),
              v_unit_file = str_or (v_unit_file hi) (v_unit_file lo),
              v_message = str_or (v_message hi) (v_message lo), v_link = str_or (v_link hi) (v_link lo)\<rparr>)"

subsection \<open>Collecting\<close>

record formalized =
  result_skipped :: "skipped_property list"
  property_checks :: "(string \<times> string list) list"
  deliverable :: string
  unit_file :: string
  run_link :: "string option"

datatype formalization =
    NotFormalized
  | Delivered formalized
  | Curtailed (partial: "formalized option") (detail: "string option")

record component_input =
  ci_name :: string
  ci_props :: "property_formulation list"
  ci_formalized :: formalization

definition skip_reasons :: "formalized \<Rightarrow> (string, string) dict" where
  "skip_reasons f = dict_of (map (\<lambda>s. (property_title s, reason s)) (result_skipped f))"

definition nonblank :: "string list \<Rightarrow> string list" where
  "nonblank = filter (\<lambda>u. strip u \<noteq> [])"

fun curtailed_component_of :: "string \<Rightarrow> property_formulation list \<Rightarrow> formalized option \<Rightarrow> string option \<Rightarrow> curtailed_component" where
  "curtailed_component_of name props None d =
     \<lparr>cc_component = name, artifact = None, cc_run_link = None, cc_detail = d,
      drafted = [], cc_skipped = [], unattempted = props\<rparr>"
| "curtailed_component_of name props (Some f) d =
     (let reasons = skip_reasons f; mapping = dict_of (property_checks f) in
      \<lparr>cc_component = name, artifact = Some (deliverable f), cc_run_link = run_link f, cc_detail = d,
       drafted = List.map_filter (\<lambda>p. case dget reasons (p_title p) of
           Some r \<Rightarrow> None
         | None \<Rightarrow> map_option (\<lambda>us. property_formulation.extend p (drafted_property.fields (nonblank us)))
                     (dget mapping (p_title p))) props,
       cc_skipped = List.map_filter (\<lambda>p.
         map_option (\<lambda>r. property_formulation.extend p (curtailed_skip.fields r)) (dget reasons (p_title p))) props,
       unattempted = filter (\<lambda>p. dget reasons (p_title p) = None \<and> dget mapping (p_title p) = None) props\<rparr>)"

record collected =
  c_properties :: "formalized_property list"
  c_rules_by_key :: "(rule_ref, rule_verdict) dict"
  c_referenced :: "rule_ref list"
  c_skipped :: "skipped_claim list"
  c_gave_up :: "gave_up_component list"
  c_curtailed :: "curtailed_component list"

definition file_or :: "string option \<Rightarrow> string \<Rightarrow> string" where
  \<comment> \<open>\<^verbatim>\<open>v.unit_file or unit_file\<close>\<close>
  "file_or f d = (case f of None \<Rightarrow> d | Some t \<Rightarrow> if t = [] then d else t)"

definition unit_ref :: "formalized \<Rightarrow> (string, verdict) dict \<Rightarrow> string \<Rightarrow> rule_ref" where
  "unit_ref f verdicts unit_name =
     (case dget verdicts unit_name of None \<Rightarrow> (unit_file f, unit_name)
      | Some v \<Rightarrow> (file_or (v_unit_file v) (unit_file f), unit_name))"

text \<open>A property the component neither skipped nor mapped is left out, with a line in the log.\<close>

definition collect_property :: "string \<Rightarrow> formalized \<Rightarrow> (string, verdict) dict \<Rightarrow> property_formulation \<Rightarrow> collected \<Rightarrow> collected" where
  "collect_property name f verdicts p c =
     (case dget (skip_reasons f) (p_title p) of
        Some r \<Rightarrow> c\<lparr>c_skipped := c_skipped c @ [property_formulation.extend p (skipped_claim.fields name r)]\<rparr>
      | None \<Rightarrow>
          (case dget (dict_of (property_checks f)) (p_title p) of
             Some us \<Rightarrow>
               let refs = map (unit_ref f verdicts) (nonblank us)
               in c\<lparr>c_referenced := c_referenced c @ refs,
                    c_properties := c_properties c @ [property_formulation.extend p (formalized_property.fields name refs)]\<rparr>
           | None \<Rightarrow> c))"

definition register_verdict :: "formalized \<Rightarrow> string \<times> verdict \<Rightarrow> collected \<Rightarrow> collected" where
  "register_verdict f nv c =
     (case nv of (unit_name, v) \<Rightarrow>
        let key = (file_or (v_unit_file v) (unit_file f), unit_name) in
        if dget (c_rules_by_key c) key \<noteq> None then c
        else c\<lparr>c_rules_by_key := dset key
          \<lparr>rv_name = unit_name, rv_spec_file = fst key, rv_outcome = outcome v, rv_line = v_line v,
           rv_duration = v_duration v, prover_link = str_or (v_link v) (run_link f), rv_message = v_message v\<rparr>
          (c_rules_by_key c)\<rparr>)"

definition collect_input :: "(formalized \<Rightarrow> (string, verdict) dict) \<Rightarrow> component_input \<Rightarrow> collected \<Rightarrow> collected" where
  "collect_input fetch inp c =
     (case ci_formalized inp of
        NotFormalized \<Rightarrow>
          c\<lparr>c_gave_up := c_gave_up c @ [\<lparr>gu_component = ci_name inp, gu_properties = ci_props inp\<rparr>]\<rparr>
      | Curtailed part d \<Rightarrow>
          c\<lparr>c_curtailed := c_curtailed c @ [curtailed_component_of (ci_name inp) (ci_props inp) part d]\<rparr>
      | Delivered f \<Rightarrow>
          let verdicts = fetch f in
          fold (register_verdict f) verdicts (fold (collect_property (ci_name inp) f verdicts) (ci_props inp) c))"

definition register_referenced :: "rule_ref \<Rightarrow> (rule_ref, rule_verdict) dict \<Rightarrow> (rule_ref, rule_verdict) dict" where
  "register_referenced ref d =
     (if dget d ref \<noteq> None then d
      else dset ref \<lparr>rv_name = snd ref, rv_spec_file = fst ref, rv_outcome = Unknown, rv_line = None,
             rv_duration = None, prover_link = None, rv_message = None\<rparr> d)"

record collection =
  properties :: "formalized_property list"
  rules :: "rule_verdict list"
  skipped_claims :: "skipped_claim list"
  gave_up :: "gave_up_component list"
  curtailed :: "curtailed_component list"
  dropped_orphans :: nat

definition empty_collected :: collected where
  "empty_collected = \<lparr>c_properties = [], c_rules_by_key = [], c_referenced = [], c_skipped = [], c_gave_up = [],
     c_curtailed = []\<rparr>"

definition collect :: "(formalized \<Rightarrow> (string, verdict) dict) \<Rightarrow> bool \<Rightarrow> component_input list \<Rightarrow> collection" where
  "collect fetch keep_orphans inputs =
     (let c = fold (collect_input fetch) inputs empty_collected;
          by_key = fold register_referenced (c_referenced c) (c_rules_by_key c)
      in \<lparr>properties = c_properties c,
          rules = sort_key rule_ref_of
            (map snd (filter (\<lambda>(key, rv). keep_orphans \<or> key \<in> set (c_referenced c)) by_key)),
          skipped_claims = c_skipped c, gave_up = c_gave_up c, curtailed = c_curtailed c,
          dropped_orphans = (if keep_orphans then 0
            else length (filter (\<lambda>key. key \<notin> set (c_referenced c)) (keys by_key)))\<rparr>)"

subsection \<open>Grouping\<close>

fun aggregate_loop :: "outcome list \<Rightarrow> bool \<Rightarrow> bool \<Rightarrow> group_status" where
  "aggregate_loop [] all_good any_good =
     (if any_good then (if all_good then GroupGood else GroupPartial) else GroupUnknown)"
| "aggregate_loop (o' # os) all_good any_good =
     (if o' = Bad then GroupBad
      else if o' = Good then aggregate_loop os all_good True
      else aggregate_loop os False any_good)"

definition aggregate_status :: "outcome list \<Rightarrow> group_status" where
  "aggregate_status os = aggregate_loop os True False"

record group_draft =
  d_slug :: string
  d_title :: string
  d_description :: string
  d_members :: "property_key list"

definition build_group :: "(property_key, formalized_property) dict \<Rightarrow> (rule_ref, outcome) dict \<Rightarrow> group_draft \<Rightarrow> property_group" where
  "build_group props_by_key rule_outcomes d =
     \<lparr>slug = d_slug d, group_title = d_title d, group_description = d_description d,
      status = aggregate_status
        (map (\<lambda>ref. case dget rule_outcomes ref of None \<Rightarrow> Unknown | Some o' \<Rightarrow> o')
           (concat (map (\<lambda>k. case dget props_by_key k of None \<Rightarrow> [] | Some p \<Rightarrow> rule_refs p) (d_members d)))),
      members = d_members d\<rparr>"

definition build_groups :: "group_draft list \<Rightarrow> (property_key, formalized_property) dict \<Rightarrow> (rule_ref, outcome) dict \<Rightarrow>
    property_group list" where
  "build_groups drafts props_by_key rule_outcomes = map (build_group props_by_key rule_outcomes) drafts"

definition build_fallback_grouping :: "formalized_property list \<Rightarrow> group_draft list" where
  "build_fallback_grouping ps =
     [\<lparr>d_slug = ''general'', d_title = ''General'', d_description = ''All properties.'', d_members = map fp_key ps\<rparr>]"

subsection \<open>Coverage\<close>

datatype report_error = ValidationError string | GroupingFailed string

definition repr_pairs :: "(string \<times> string) list \<Rightarrow> string" where
  "repr_pairs ps = ''['' @ comma_join (map (\<lambda>(a, b). ''('' @ py_repr a @ '', '' @ py_repr b @ '')'') ps) @ '']''"

record coverage_report =
  total_properties :: nat
  deprioritized_count :: nat
  total_rules :: nat
  total_groups :: nat
  properties_per_group_min :: nat
  properties_per_group_max :: nat
  property_coverage_complete :: bool
  properties_in_no_group :: "property_key list"
  rules_spanning_multiple_groups :: "string list"
  skipped_count :: nat
  gave_up_component_count :: nat
  curtailed_component_count :: nat
  dropped_orphan_rules :: nat
  warnings :: "string list"

definition props_by_key :: "formalized_property list \<Rightarrow> (property_key, formalized_property) dict" where
  "props_by_key ps = dict_of (map (\<lambda>p. (fp_key p, p)) ps)"

definition groups_of_rule :: "(property_key, formalized_property) dict \<Rightarrow> property_group list \<Rightarrow> (rule_ref \<times> string) list" where
  "groups_of_rule by_key groups =
     concat (map (\<lambda>g. concat (map (\<lambda>k. case dget by_key k of None \<Rightarrow> []
       | Some p \<Rightarrow> map (\<lambda>ref. (ref, slug g)) (rule_refs p)) (members g))) groups)"

definition spanning_rules :: "(rule_ref \<times> string) list \<Rightarrow> string list" where
  "spanning_rules gr =
     sorted_set (map (\<lambda>(ref, s). snd ref) (filter (\<lambda>(ref, s). \<exists>(ref', s')\<in>set gr. ref' = ref \<and> s' \<noteq> s) gr))"

definition coverage_warnings :: "rule_verdict list \<Rightarrow> nat \<Rightarrow> nat \<Rightarrow> string list" where
  "coverage_warnings rs n_curtailed n_deprioritized =
     (let no_verdict = sort (map rv_name (filter (\<lambda>r. rv_outcome r = Unknown \<and> prover_link r = None) rs)) in
      (if n_curtailed > 0
       then [show_nat n_curtailed @ '' component(s) were cut short by the run budget; their properties '' @
             ''are excluded from the groupings above (see the budget appendix).''] else []) @
      (if no_verdict \<noteq> []
       then [''No run reported a verdict for '' @ show_nat (length no_verdict) @ '' rule(s) a property maps to: '' @
             comma_join no_verdict @ ''.''] else []) @
      (if n_deprioritized > 0
       then [show_nat n_deprioritized @ '' inferred propert(ies) were deprioritized before '' @
             ''formalization; this run pursued a focus, not the whole property set.''] else []))"

definition validate :: "collection \<Rightarrow> property_group list \<Rightarrow> nat \<Rightarrow> report_error + coverage_report" where
  "validate c groups n_deprioritized =
     (let all_keys = map fp_key (properties c);
          appearance = concat (map members groups);
          multi = filter (\<lambda>k. count_list appearance k > 1) (remdups appearance);
          excess = sorted_set (filter (\<lambda>k. k \<notin> set all_keys) appearance);
          missing = sorted_set (filter (\<lambda>k. k \<notin> set appearance) all_keys);
          sizes = map (\<lambda>g. length (members g)) groups
      in if multi \<noteq> [] then Inl (ValidationError (''properties appearing in multiple groups: '' @ repr_pairs (sort multi)))
         else if excess \<noteq> [] then Inl (ValidationError (''groups reference properties that don't exist: '' @ repr_pairs excess))
         else Inr
           \<lparr>total_properties = length (properties c), deprioritized_count = n_deprioritized, total_rules = length (rules c),
            total_groups = length groups,
            properties_per_group_min = (if sizes = [] then 0 else Min (set sizes)),
            properties_per_group_max = (if sizes = [] then 0 else Max (set sizes)),
            property_coverage_complete = (missing = []), properties_in_no_group = missing,
            rules_spanning_multiple_groups = spanning_rules (groups_of_rule (props_by_key (properties c)) groups),
            skipped_count = length (skipped_claims c), gave_up_component_count = length (gave_up c),
            curtailed_component_count = length (curtailed c), dropped_orphan_rules = dropped_orphans c,
            warnings = coverage_warnings (rules c) (length (curtailed c)) n_deprioritized\<rparr>)"

subsection \<open>Assembly\<close>

definition llm_groups :: "collection \<Rightarrow> (rule_ref, outcome) dict \<Rightarrow> string + group_draft list \<Rightarrow> nat \<Rightarrow>
    report_error + property_group list \<times> coverage_report" where
  \<comment> \<open>the \<^verbatim>\<open>try\<close> block: the model's answer, built and validated\<close>
  "llm_groups c outcomes answer n_deprioritized =
     (case answer of
        Inl e \<Rightarrow> Inl (GroupingFailed e)
      | Inr drafts \<Rightarrow>
          let groups = build_groups drafts (props_by_key (properties c)) outcomes in
          bindE (validate c groups n_deprioritized) (\<lambda>cov.
            if concat (map members groups) = []
            then Inl (ValidationError ''grouping produced no high-level properties'')
            else Inr (groups, cov)))"

definition report_groups :: "bool \<Rightarrow> collection \<Rightarrow> string + group_draft list \<Rightarrow> nat \<Rightarrow>
    report_error + property_group list \<times> coverage_report" where
  "report_groups reraise c answer n_deprioritized =
     (let outcomes = dict_of (map (\<lambda>r. (rule_ref_of r, rv_outcome r)) (rules c)) in
      if properties c = [] then bindE (validate c [] n_deprioritized) (\<lambda>cov. Inr ([], cov))
      else case llm_groups c outcomes answer n_deprioritized of
          Inr r \<Rightarrow> Inr r
        | Inl e \<Rightarrow>
            if reraise then Inl e
            else
              let groups = build_groups (build_fallback_grouping (properties c)) (props_by_key (properties c)) outcomes in
              bindE (validate c groups n_deprioritized)
                (\<lambda>cov. Inr (groups, cov\<lparr>warnings := ''FALLBACK GROUPING APPLIED'' # warnings cov\<rparr>)))"

definition prover_links :: "component_input list \<Rightarrow> (string, string) dict" where
  "prover_links inputs =
     dict_of (List.map_filter (\<lambda>i. case ci_formalized i of
        Delivered f \<Rightarrow> (case run_link f of None \<Rightarrow> None | Some l \<Rightarrow> if l = [] then None else Some (ci_name i, l))
      | _ \<Rightarrow> None) inputs)"

record report =
  r_prover_links :: "(string, string) dict"
  r_collection :: collection
  r_groups :: "property_group list"
  r_coverage :: coverage_report

definition build_report :: "bool \<Rightarrow> (formalized \<Rightarrow> (string, verdict) dict) \<Rightarrow> component_input list \<Rightarrow>
    string + group_draft list \<Rightarrow> nat \<Rightarrow> report_error + report" where
  \<comment> \<open>the finding synthesis, whose failure is absorbed, and the pass-through fields are left out\<close>
  "build_report reraise fetch inputs answer n_deprioritized =
     (let c = collect fetch False inputs in
      bindE (report_groups reraise c answer n_deprioritized) (\<lambda>(groups, cov).
        Inr \<lparr>r_prover_links = prover_links inputs, r_collection = c, r_groups = groups, r_coverage = cov\<rparr>))"

end
