(* ===== verification/Report_Laws.thy ===== *)
theory Report_Laws
  imports Complex_Main Report Authoring_Laws "HOL-Library.Multiset"
begin

text \<open>
  What the report promises: no inferred property is lost between the components' inputs and the report, the rule
  table has one entry per referenced rule, the grouping accepted by the validator is a partition, the status of a
  group does not depend on the order of its rules, and the fallback yields a report whenever keys are unique.
\<close>

subsection \<open>Verdicts are merged to the most terminal outcome\<close>

instantiation outcome :: linorder
begin

definition less_eq_outcome :: "outcome \<Rightarrow> outcome \<Rightarrow> bool" where
  "less_eq_outcome a b \<longleftrightarrow> outcome_priority a \<le> outcome_priority b"

definition less_outcome :: "outcome \<Rightarrow> outcome \<Rightarrow> bool" where
  "less_outcome a b \<longleftrightarrow> outcome_priority a < outcome_priority b"

instance
proof
  show "a = b" if "a \<le> b" "b \<le> a" for a b :: outcome
    using that by (cases a; cases b) (simp_all add: less_eq_outcome_def)
qed (auto simp: less_eq_outcome_def less_outcome_def)

end

lemma outcome_merge: "outcome (merge_verdicts a (Some b)) = max (outcome a) (outcome b)"
  by (auto simp: merge_verdicts_def Let_def max_def less_eq_outcome_def antisym)

lemma outcome_merge_all:
  "outcome (fold (\<lambda>v acc. merge_verdicts acc (Some v)) vs v) = Max (set (map outcome (v # vs)))"
proof (induction vs arbitrary: v)
  case (Cons w vs)
  then show ?case by (cases "vs = []") (simp_all add: outcome_merge max.assoc)
qed simp

subsection \<open>Ledgers: a step that books exactly the entries of its input\<close>

locale ledger =
  fixes step :: "'a \<Rightarrow> 's \<Rightarrow> 's" and account :: "'s \<Rightarrow> 'k multiset" and entries :: "'a \<Rightarrow> 'k list"
  assumes books: "account (step x s) = account s + mset (entries x)"
begin

lemma all_booked: "account (fold step xs s) = account s + mset (concat (map entries xs))"
  by (induction xs arbitrary: s) (simp_all add: books ac_simps)

end

subsection \<open>Nothing is lost\<close>

definition input_keys :: "component_input \<Rightarrow> property_key list" where
  "input_keys inp = map (\<lambda>p. (ci_name inp, p_title p)) (ci_props inp)"

definition curtailed_keys :: "curtailed_component \<Rightarrow> property_key list" where
  "curtailed_keys c =
     map (Pair (cc_component c)) (map p_title (drafted c) @ map p_title (cc_skipped c) @ map p_title (unattempted c))"

definition gave_up_keys :: "gave_up_component \<Rightarrow> property_key list" where
  "gave_up_keys g = map (\<lambda>p. (gu_component g, p_title p)) (gu_properties g)"

definition skipped_key :: "skipped_claim \<Rightarrow> property_key" where
  "skipped_key s = (sc_component s, p_title s)"

definition accounted :: "collected \<Rightarrow> property_key multiset" where
  "accounted c =
     mset (map fp_key (c_properties c)) + mset (map skipped_key (c_skipped c)) +
     mset (concat (map gave_up_keys (c_gave_up c))) + mset (concat (map curtailed_keys (c_curtailed c)))"

text \<open>
  A delivered component speaks of a property if it skips its title or maps it to checks; the rest are its
  unclaimed properties, read off the inputs alone.
\<close>

definition speaks_of :: "formalized \<Rightarrow> string \<Rightarrow> bool" where
  "speaks_of f t \<longleftrightarrow> t \<in> property_title ` set (result_skipped f) \<or> t \<in> fst ` set (property_checks f)"

definition unclaimed_keys :: "component_input \<Rightarrow> property_key list" where
  "unclaimed_keys inp =
     (case ci_formalized inp of
        Delivered f \<Rightarrow> map (\<lambda>p. (ci_name inp, p_title p)) (filter (\<lambda>p. \<not> speaks_of f (p_title p)) (ci_props inp))
      | _ \<Rightarrow> [])"

definition claimed_keys :: "component_input \<Rightarrow> property_key list" where
  "claimed_keys inp =
     (case ci_formalized inp of
        Delivered f \<Rightarrow> map (\<lambda>p. (ci_name inp, p_title p)) (filter (\<lambda>p. speaks_of f (p_title p)) (ci_props inp))
      | _ \<Rightarrow> input_keys inp)"

lemma claimed_and_unclaimed: "mset (input_keys inp) = mset (claimed_keys inp) + mset (unclaimed_keys inp)"
proof (cases "ci_formalized inp")
  case (Delivered f)
  have "mset (map h ps) = mset (map h (filter P ps)) + mset (map h (filter (\<lambda>p. \<not> P p) ps))"
    for h :: "property_formulation \<Rightarrow> property_key" and P ps
    by (induction ps) simp_all
  then show ?thesis by (simp only: input_keys_def claimed_keys_def unclaimed_keys_def Delivered formalization.case)
qed (simp_all add: claimed_keys_def unclaimed_keys_def)

lemma speaks_of_iff:
  "speaks_of f t \<longleftrightarrow> dget (skip_reasons f) t \<noteq> None \<or> dget (dict_of (property_checks f)) t \<noteq> None"
  by (simp add: speaks_of_def skip_reasons_def dget_dict_of_None image_image del: not_None_eq)

lemmas extend_simps = property_formulation.defs formalized_property.defs skipped_claim.defs drafted_property.defs
  curtailed_skip.defs

interpretation per_property: ledger "collect_property name f verdicts" accounted
    "\<lambda>p. if speaks_of f (p_title p) then [(name, p_title p)] else []"
  for name f verdicts
  by unfold_locales
    (auto simp: speaks_of_iff collect_property_def accounted_def extend_simps fp_key_def skipped_key_def Let_def split: option.split)

lemma accounted_register: "accounted (register_verdict f nv c) = accounted c"
  by (auto simp: register_verdict_def accounted_def Let_def split: prod.split)

lemma accounted_registers: "accounted (fold (register_verdict f) vs c) = accounted c"
  by (induction vs arbitrary: c) (simp_all add: accounted_register)

lemma curtailed_partition:
  "mset (curtailed_keys (curtailed_component_of name ps part d)) = mset (map (\<lambda>p. (name, p_title p)) ps)"
proof (cases part)
  case None
  then show ?thesis by (simp add: curtailed_keys_def comp_def)
next
  case (Some f)
  show ?thesis unfolding Some
    by (induction ps)
      (auto simp: curtailed_keys_def Let_def List.map_filter_simps extend_simps split: option.split)
qed

interpretation per_component: ledger "collect_input fetch" accounted claimed_keys for fetch
proof unfold_locales
  fix inp c
  show "accounted (collect_input fetch inp c) = accounted c + mset (claimed_keys inp)"
  proof (cases "ci_formalized inp")
    case NotFormalized
    then show ?thesis
      by (simp add: collect_input_def accounted_def gave_up_keys_def claimed_keys_def input_keys_def)
  next
    case (Delivered f)
    have "concat (map (\<lambda>p. if speaks_of f (p_title p) then [(ci_name inp, p_title p)] else []) ps) =
        map (\<lambda>p. (ci_name inp, p_title p)) (filter (\<lambda>p. speaks_of f (p_title p)) ps)" for ps
      by (induction ps) simp_all
    then have "concat (map (\<lambda>p. if speaks_of f (p_title p) then [(ci_name inp, p_title p)] else []) (ci_props inp)) =
        claimed_keys inp" by (simp add: claimed_keys_def Delivered)
    then show ?thesis using Delivered
      by (simp add: collect_input_def Let_def accounted_registers per_property.all_booked)
  next
    case (Curtailed part d)
    then show ?thesis
      by (simp add: collect_input_def accounted_def curtailed_partition claimed_keys_def input_keys_def)
  qed
qed

lemma input_keys_split:
  "mset (concat (map input_keys inputs)) =
     mset (concat (map claimed_keys inputs)) + mset (concat (map unclaimed_keys inputs))"
  by (induction inputs) (simp_all add: claimed_and_unclaimed)

lemma collection_accounted:
  "mset (map fp_key (properties r)) + mset (map skipped_key (skipped_claims r)) +
     mset (concat (map gave_up_keys (gave_up r))) + mset (concat (map curtailed_keys (curtailed r))) +
     mset (concat (map unclaimed_keys inputs)) = mset (concat (map input_keys inputs))"
  if "r = collect fetch keep_orphans inputs"
  using per_component.all_booked [of fetch inputs empty_collected] that
  by (simp add: input_keys_split collect_def Let_def accounted_def empty_collected_def)


subsection \<open>No property is dropped behind an accepted mapping\<close>

lemma registers_keep [simp]:
  "c_properties (fold (register_verdict f) vs c) = c_properties c"
  "c_referenced (fold (register_verdict f) vs c) = c_referenced c"
  by (induction vs arbitrary: c) (auto simp: register_verdict_def Let_def split: prod.split)

text \<open>The completion gate accepted the mapping of a delivered component, whatever the wording and the executed checks.\<close>

definition completion_accepted :: "mapping_vocab \<Rightarrow> (formalized \<Rightarrow> string list option) \<Rightarrow> component_input \<Rightarrow> bool" where
  "completion_accepted vocab executed inp \<longleftrightarrow>
     (case ci_formalized inp of
        Delivered f \<Rightarrow>
          validate_check_mapping (property_checks f) (result_skipped f) (map p_title (ci_props inp)) vocab (executed f) = None
      | _ \<Rightarrow> True)"

lemma accepted_claims_all:
  assumes "completion_accepted vocab executed inp"
  shows "unclaimed_keys inp = []"
proof (cases "ci_formalized inp")
  case (Delivered f)
  with assms have "validate_check_mapping (property_checks f) (result_skipped f) (map p_title (ci_props inp))
      vocab (executed f) = None"
    by (simp add: completion_accepted_def)
  then have "set (map p_title (ci_props inp)) \<subseteq> property_title ` set (result_skipped f) \<union> set (keys (property_checks f))"
    unfolding mapping_accepted by blast
  then show ?thesis
    by (auto simp: unclaimed_keys_def Delivered filter_empty_conv speaks_of_def)
qed (simp_all add: unclaimed_keys_def)

subsection \<open>The rule table\<close>

definition table_ok :: "(rule_ref, rule_verdict) dict \<Rightarrow> bool" where
  "table_ok d \<longleftrightarrow> dict_ok d \<and> (\<forall>k rv. dget d k = Some rv \<longrightarrow> rule_ref_of rv = k)"

lemma table_ok_dset: "table_ok d \<Longrightarrow> rule_ref_of rv = k \<Longrightarrow> table_ok (dset k rv d)"
  by (auto simp: table_ok_def dict_simps)

lemma table_ok_entries:
  assumes "table_ok d"
  shows "map rule_ref_of (map snd (filter (\<lambda>(k, rv). P k) d)) = filter P (keys d)"
proof -
  have "rule_ref_of (snd e) = fst e" if "e \<in> set d" for e
  proof -
    have "dget d (fst e) = Some (snd e)" using that assms by (simp add: table_ok_def dict_ok_def)
    with assms show ?thesis unfolding table_ok_def by blast
  qed
  then show ?thesis by (induction d) (auto simp: case_prod_unfold)
qed

lemma table_ok_register: "table_ok (c_rules_by_key c) \<Longrightarrow> table_ok (c_rules_by_key (register_verdict f nv c))"
  by (auto simp: register_verdict_def Let_def rule_ref_of_def intro!: table_ok_dset split: prod.split)

lemma rules_after_property [simp]: "c_rules_by_key (collect_property name f verdicts p c) = c_rules_by_key c"
  by (auto simp: collect_property_def Let_def split: option.split)

lemma rules_after_properties [simp]: "c_rules_by_key (fold (collect_property name f verdicts) ps c) = c_rules_by_key c"
  by (induction ps arbitrary: c) simp_all

lemma table_ok_registers: "table_ok (c_rules_by_key c) \<Longrightarrow> table_ok (c_rules_by_key (fold (register_verdict f) vs c))"
  by (induction vs arbitrary: c) (simp_all add: table_ok_register)

lemma table_ok_collect: "table_ok (c_rules_by_key c) \<Longrightarrow> table_ok (c_rules_by_key (fold (collect_input fetch) inputs c))"
proof (induction inputs arbitrary: c)
  case (Cons inp inputs)
  then show ?case
    by (cases "ci_formalized inp") (simp_all add: collect_input_def Let_def table_ok_registers)
qed simp

lemma table_ok_register_referenced: "table_ok d \<Longrightarrow> table_ok (register_referenced ref d)"
  by (auto simp: register_referenced_def rule_ref_of_def intro!: table_ok_dset)

lemma table_ok_referenced: "table_ok d \<Longrightarrow> table_ok (fold register_referenced refs d)"
  by (induction refs arbitrary: d) (simp_all add: table_ok_register_referenced)

lemma keys_referenced: "set (keys (fold register_referenced refs d)) = set (keys d) \<union> set refs"
proof (induction refs arbitrary: d)
  case (Cons ref refs)
  have "set (keys (register_referenced ref d)) = insert ref (set (keys d))"
    by (auto simp: register_referenced_def AList.dom_update dest: dget_in_keys)
  then show ?case by (simp only: fold_simps Cons.IH) auto
qed simp

text \<open>The references recorded are those of the formalized properties.\<close>

lemma referenced_property:
  "c_referenced c = concat (map rule_refs (c_properties c)) \<Longrightarrow>
   c_referenced (collect_property name f verdicts p c) =
     concat (map rule_refs (c_properties (collect_property name f verdicts p c)))"
  by (auto simp: collect_property_def Let_def extend_simps split: option.split)

lemma referenced_properties:
  "c_referenced c = concat (map rule_refs (c_properties c)) \<Longrightarrow>
   c_referenced (fold (collect_property name f verdicts) ps c) =
     concat (map rule_refs (c_properties (fold (collect_property name f verdicts) ps c)))"
  by (induction ps arbitrary: c) (simp_all add: referenced_property)

lemma referenced_collect:
  "c_referenced c = concat (map rule_refs (c_properties c)) \<Longrightarrow>
   c_referenced (fold (collect_input fetch) inputs c) =
     concat (map rule_refs (c_properties (fold (collect_input fetch) inputs c)))"
proof (induction inputs arbitrary: c)
  case (Cons inp inputs)
  then show ?case
    by (cases "ci_formalized inp") (simp_all add: collect_input_def Let_def referenced_properties)
qed simp

lemma table_ok_Nil [simp]: "table_ok []"
  by (simp add: table_ok_def)

lemma sorted_map_sort_key: "map f (sort_key f xs) = sort (map f xs)"
  by (rule properties_for_sort [symmetric]) simp_all

lemma rule_refs_of_table:
  fixes fetch inputs
  defines "c \<equiv> fold (collect_input fetch) inputs empty_collected"
  shows "map rule_ref_of (rules (collect fetch keep_orphans inputs)) =
    sort (filter (\<lambda>k. keep_orphans \<or> k \<in> set (c_referenced c))
      (keys (fold register_referenced (c_referenced c) (c_rules_by_key c))))"
proof -
  have "table_ok (fold register_referenced (c_referenced c) (c_rules_by_key c))"
    unfolding c_def by (intro table_ok_referenced table_ok_collect) (simp add: empty_collected_def)
  from table_ok_entries [OF this] show ?thesis
    unfolding collect_def c_def [symmetric] by (simp add: Let_def sorted_map_sort_key del: map_map)
qed

lemma collected_refs:
  "c_referenced (fold (collect_input fetch) inputs empty_collected) =
     concat (map rule_refs (properties (collect fetch keep_orphans inputs)))"
  using referenced_collect [of empty_collected fetch inputs] by (simp add: collect_def Let_def empty_collected_def)

lemma properties_keep_orphans: "properties (collect fetch a inputs) = properties (collect fetch b inputs)"
  by (simp add: collect_def Let_def)

lemma dict_ok_all_rules:
  "dict_ok (fold register_referenced refs (c_rules_by_key (fold (collect_input fetch) inputs empty_collected)))"
  using table_ok_referenced [OF table_ok_collect, of empty_collected refs fetch inputs]
  by (simp add: table_ok_def empty_collected_def)

text \<open>
  The rule table has one entry per rule identity, in order of (file, name): for a formalizing run the identities
  are exactly those the formalized properties refer to; a run that keeps orphans has those and the orphans besides,
  and the orphan count a formalizing run reports is the number of entries it left out.
\<close>

theorem rule_table_is_the_referenced_rules:
  "map rule_ref_of (rules (collect fetch False inputs)) =
     sorted_set (concat (map rule_refs (properties (collect fetch False inputs)))) \<and>
   sorted (map rule_ref_of (rules (collect fetch True inputs))) \<and>
   distinct (map rule_ref_of (rules (collect fetch True inputs))) \<and>
   length (rules (collect fetch True inputs)) =
     length (rules (collect fetch False inputs)) + dropped_orphans (collect fetch False inputs)"
proof (intro conjI)
  define c where "c = fold (collect_input fetch) inputs empty_collected"
  let ?d = "fold register_referenced (c_referenced c) (c_rules_by_key c)"
  have ok: "distinct (keys ?d)" using dict_ok_all_rules [of "c_referenced c" fetch inputs]
    by (simp add: c_def dict_ok_def)
  have refs: "c_referenced c = concat (map rule_refs (properties (collect fetch False inputs)))"
    unfolding c_def by (rule collected_refs)
  have False_rules: "map rule_ref_of (rules (collect fetch False inputs)) =
      sort (filter (\<lambda>k. k \<in> set (c_referenced c)) (keys ?d))"
    by (simp add: rule_refs_of_table c_def)
  have True_rules: "map rule_ref_of (rules (collect fetch True inputs)) = sort (keys ?d)"
    by (simp add: rule_refs_of_table c_def)
  show "map rule_ref_of (rules (collect fetch False inputs)) =
      sorted_set (concat (map rule_refs (properties (collect fetch False inputs))))"
    unfolding False_rules using ok keys_referenced [of "c_referenced c" "c_rules_by_key c"]
    by (intro sorted_distinct_set_unique) (auto simp: refs)
  show "sorted (map rule_ref_of (rules (collect fetch True inputs)))" unfolding True_rules by simp
  show "distinct (map rule_ref_of (rules (collect fetch True inputs)))" unfolding True_rules using ok by simp
  have "length (rules (collect fetch True inputs)) = length (keys ?d)"
    using True_rules by (metis length_map length_sort)
  also have "\<dots> = length (filter (\<lambda>k. k \<in> set (c_referenced c)) (keys ?d)) +
      length (filter (\<lambda>k. k \<notin> set (c_referenced c)) (keys ?d))"
    by (rule sum_length_filter_compl [symmetric])
  also have "length (filter (\<lambda>k. k \<in> set (c_referenced c)) (keys ?d)) = length (rules (collect fetch False inputs))"
    using False_rules by (metis length_map length_sort)
  also have "length (filter (\<lambda>k. k \<notin> set (c_referenced c)) (keys ?d)) = dropped_orphans (collect fetch False inputs)"
    by (simp add: collect_def Let_def c_def)
  finally show "length (rules (collect fetch True inputs)) =
      length (rules (collect fetch False inputs)) + dropped_orphans (collect fetch False inputs)" .
qed

subsection \<open>The first verdict reported for a rule is the one shown\<close>

definition verdict_key :: "formalized \<Rightarrow> string \<times> verdict \<Rightarrow> rule_ref" where
  "verdict_key f nv = (file_or (v_unit_file (snd nv)) (unit_file f), fst nv)"

text \<open>All outcomes the backend reported, component by component, under the identity of the rule.\<close>

definition reported :: "(formalized \<Rightarrow> (string, verdict) dict) \<Rightarrow> component_input list \<Rightarrow> (rule_ref \<times> outcome) list" where
  "reported fetch inputs = concat (map (\<lambda>inp. case ci_formalized inp of
     Delivered f \<Rightarrow> map (\<lambda>nv. (verdict_key f nv, outcome (snd nv))) (fetch f) | _ \<Rightarrow> []) inputs)"

abbreviation shown :: "collected \<Rightarrow> rule_ref \<Rightarrow> outcome option" where
  "shown c k \<equiv> map_option rv_outcome (dget (c_rules_by_key c) k)"

lemma shown_register:
  "shown (register_verdict f nv c) k =
     first_some (shown c k) (if k = verdict_key f nv then Some (outcome (snd nv)) else None)"
  by (cases nv) (auto simp: register_verdict_def verdict_key_def first_some_def Let_def dget_dset split: option.split)

lemma first_some_assoc: "first_some (first_some a b) c = first_some a (first_some b c)"
  by (simp add: first_some_def split: option.split)

lemma first_some_None [simp]: "first_some None b = b" "first_some a None = a"
  by (simp_all add: first_some_def split: option.split)

lemma map_of_append_first: "map_of (xs @ ys) k = first_some (map_of xs k) (map_of ys k)"
  by (simp add: map_add_def first_some_def split: option.split)

lemma map_of_Cons_first: "map_of (x # xs) k = first_some (if k = fst x then Some (snd x) else None) (map_of xs k)"
  by (simp add: first_some_def)

lemma shown_registers:
  "shown (fold (register_verdict f) vs c) k =
     first_some (shown c k) (map_of (map (\<lambda>nv. (verdict_key f nv, outcome (snd nv))) vs) k)"
proof (induction vs arbitrary: c)
  case (Cons nv vs)
  then show ?case by (simp add: shown_register first_some_assoc map_of_Cons_first del: map_of.simps)
qed simp

lemma shown_collect:
  "shown (fold (collect_input fetch) inputs c) k = first_some (shown c k) (map_of (reported fetch inputs) k)"
proof (induction inputs arbitrary: c)
  case Nil
  then show ?case by (simp add: reported_def)
next
  case (Cons inp inputs)
  have "shown (collect_input fetch inp c) k = first_some (shown c k) (map_of (reported fetch [inp]) k)"
    by (cases "ci_formalized inp") (simp_all add: collect_input_def reported_def Let_def shown_registers)
  moreover have "reported fetch (inp # inputs) = reported fetch [inp] @ reported fetch inputs"
    by (simp add: reported_def)
  ultimately show ?case by (simp add: Cons.IH first_some_assoc map_of_append_first del: map_of_append)
qed

lemma shown_referenced:
  "map_option rv_outcome (dget (fold register_referenced refs d) k) =
     first_some (map_option rv_outcome (dget d k)) (if k \<in> set refs then Some Unknown else None)"
proof (induction refs arbitrary: d)
  case (Cons ref refs)
  have "map_option rv_outcome (dget (register_referenced ref d) k) =
      first_some (map_option rv_outcome (dget d k)) (if k = ref then Some Unknown else None)"
    by (auto simp: register_referenced_def first_some_def dget_dset split: option.split)
  then show ?case by (simp add: Cons.IH) (simp add: first_some_def split: option.split)
qed simp

lemma rule_outcome:
  assumes "rv \<in> set (rules (collect fetch keep_orphans inputs))"
  shows "rv_outcome rv = (case map_of (reported fetch inputs) (rule_ref_of rv) of None \<Rightarrow> Unknown | Some o' \<Rightarrow> o')"
proof -
  define c where "c = fold (collect_input fetch) inputs empty_collected"
  let ?d = "fold register_referenced (c_referenced c) (c_rules_by_key c)"
  have "table_ok ?d" unfolding c_def by (intro table_ok_referenced table_ok_collect) (simp add: empty_collected_def)
  from assms obtain k where "(k, rv) \<in> set ?d" by (auto simp: collect_def Let_def c_def)
  with \<open>table_ok ?d\<close> have "dget ?d k = Some rv" by (simp add: table_ok_def dget_in_iff)
  with \<open>table_ok ?d\<close> have k: "k = rule_ref_of rv" unfolding table_ok_def by blast
  have "Some (rv_outcome rv) = first_some (shown c k) (if k \<in> set (c_referenced c) then Some Unknown else None)"
    using shown_referenced [of "c_referenced c" "c_rules_by_key c" k] \<open>dget ?d k = Some rv\<close> by simp
  moreover have "shown c k = map_of (reported fetch inputs) k"
    using shown_collect [of fetch inputs empty_collected k] by (simp add: c_def empty_collected_def)
  ultimately show ?thesis unfolding k by (auto simp: first_some_def split: option.splits if_splits)
qed

text \<open>
  Each rule of the report carries the outcome the backend reported first for it, over the components in input
  order; a rule a property refers to and no run reported is Unknown.
\<close>

theorem first_reported_outcome_is_shown:
  "map rv_outcome (rules (collect fetch keep_orphans inputs)) =
     map (\<lambda>ref. case map_of (reported fetch inputs) ref of None \<Rightarrow> Unknown | Some o' \<Rightarrow> o')
       (map rule_ref_of (rules (collect fetch keep_orphans inputs)))"
  by (simp add: rule_outcome)

subsection \<open>Group status\<close>

lemma aggregate_loop_eq:
  "aggregate_loop os all_good any_good =
     (if Bad \<in> set os then GroupBad
      else if any_good \<or> Good \<in> set os
           then (if all_good \<and> set os \<subseteq> {Good} then GroupGood else GroupPartial)
           else GroupUnknown)"
  by (induction os arbitrary: all_good any_good) auto

text \<open>
  The status of a group is a function of the set of its rules' outcomes: Bad as soon as one is Bad, Good when
  there is one and all are Good, Partial when some but not all are Good, Unknown when none is; so neither the order
  nor the multiplicity of the rules matters.
\<close>

theorem group_status_of_outcome_set:
  "aggregate_status os =
     (if Bad \<in> set os then GroupBad
      else if set os = {Good} then GroupGood
      else if Good \<in> set os then GroupPartial
      else GroupUnknown)"
  by (auto simp: aggregate_status_def aggregate_loop_eq)

subsection \<open>What the validator accepts\<close>

lemma multi_Nil_iff: "filter (\<lambda>k. count_list xs k > 1) (remdups xs) = [] \<longleftrightarrow> distinct xs"
proof
  assume "distinct xs"
  then show "filter (\<lambda>k. count_list xs k > 1) (remdups xs) = []"
    by (auto simp: filter_empty_conv distinct_count_atmost_1 count_mset [symmetric])
next
  assume "filter (\<lambda>k. count_list xs k > 1) (remdups xs) = []"
  then have "count_list xs k \<le> 1" for k
    by (cases "k \<in> set xs") (auto simp: filter_empty_conv not_less count_notin)
  then show "distinct xs"
  proof (induction xs)
    case (Cons x xs)
    have "count_list xs k \<le> 1" for k
      using Cons.prems [of k] by (simp split: if_splits)
    moreover have "count_list xs x = 0" using Cons.prems [of x] by simp
    ultimately show ?case using Cons.IH by (simp add: count_list_0_iff)
  qed simp
qed

definition valid_grouping :: "property_group list \<Rightarrow> formalized_property list \<Rightarrow> bool" where
  "valid_grouping groups ps \<longleftrightarrow>
     distinct (concat (map members groups)) \<and> set (concat (map members groups)) \<subseteq> fp_key ` set ps"

lemma validate_outcome:
  fixes groups
  defines "app \<equiv> concat (map members groups)"
  shows "if distinct app \<and> set app \<subseteq> fp_key ` set (properties c)
    then \<exists>cov. validate c groups n = Inr cov \<and>
      (property_coverage_complete cov \<longleftrightarrow> set app = fp_key ` set (properties c)) \<and>
      set (properties_in_no_group cov) = fp_key ` set (properties c) - set app
    else \<exists>m. validate c groups n = Inl (ValidationError m)"
proof -
  have excess: "filter (\<lambda>k. k \<notin> set (map fp_key (properties c))) app = [] \<longleftrightarrow> set app \<subseteq> fp_key ` set (properties c)"
    by (auto simp: filter_empty_conv)
  have missing: "filter (\<lambda>k. k \<notin> set app) (map fp_key (properties c)) = [] \<longleftrightarrow> fp_key ` set (properties c) \<subseteq> set app"
    by (auto simp: filter_empty_conv)
  show ?thesis
    unfolding validate_def Let_def app_def [symmetric] multi_Nil_iff sorted_set_eq_Nil excess missing
    by auto
qed

lemma validate_Inr:
  "validate c groups n = Inr cov \<Longrightarrow>
     valid_grouping groups (properties c) \<and>
     (property_coverage_complete cov \<longleftrightarrow> set (concat (map members groups)) = fp_key ` set (properties c)) \<and>
     set (properties_in_no_group cov) = fp_key ` set (properties c) - set (concat (map members groups))"
  using validate_outcome [of groups c n] unfolding valid_grouping_def by (auto simp del: set_concat split: if_splits)

lemma validate_Inr_iff: "(\<exists>cov. validate c groups n = Inr cov) \<longleftrightarrow> valid_grouping groups (properties c)"
  using validate_outcome [of groups c n] unfolding valid_grouping_def by (auto simp del: set_concat split: if_splits)

text \<open>
  A grouping is accepted exactly when no property occurs twice in it, in one group or in two, and every member
  is a property of the report; the coverage then says \<^verbatim>\<open>complete\<close> exactly when the groups hold all properties, and
  lists exactly the properties without a group.
\<close>

theorem grouping_accepted_iff_partition:
  "case validate c groups n of
     Inl e \<Rightarrow> \<not> valid_grouping groups (properties c)
   | Inr cov \<Rightarrow> valid_grouping groups (properties c) \<and>
       (property_coverage_complete cov \<longleftrightarrow> set (concat (map members groups)) = set (map fp_key (properties c))) \<and>
       set (properties_in_no_group cov) = set (map fp_key (properties c)) - set (concat (map members groups))"
proof (cases "validate c groups n")
  case (Inl e)
  then show ?thesis using validate_Inr_iff [of c groups n] by simp
next
  case (Inr cov)
  then show ?thesis using validate_Inr [OF Inr] by (simp del: set_concat)
qed

subsection \<open>The fallback\<close>

lemma members_build_groups: "concat (map members (build_groups drafts by_key outcomes)) = concat (map d_members drafts)"
  by (simp add: build_groups_def build_group_def comp_def)

lemma fallback_members: "concat (map d_members (build_fallback_grouping ps)) = map fp_key ps"
  by (simp add: build_fallback_grouping_def)

lemma fallback_valid:
  "valid_grouping (build_groups (build_fallback_grouping ps) by_key outcomes) ps \<longleftrightarrow> distinct (map fp_key ps)"
  unfolding valid_grouping_def members_build_groups fallback_members by simp

text \<open>
  What \<^verbatim>\<open>build.py\<close> promises of the high-level section: valid groups, and at least one property in them when there is a
  property at all.
\<close>

definition good_section :: "collection \<Rightarrow> property_group list \<Rightarrow> bool" where
  "good_section c groups \<longleftrightarrow>
     valid_grouping groups (properties c) \<and> (properties c = [] \<longleftrightarrow> concat (map members groups) = [])"

lemma llm_groups_good:
  "llm_groups c outcomes answer n = Inr (groups, cov) \<Longrightarrow> properties c \<noteq> [] \<Longrightarrow> good_section c groups"
  using validate_Inr [of c _ n]
  by (auto simp: llm_groups_def bindE_Inr_iff Let_def good_section_def simp del: concat_eq_Nil_conv
      split: sum.splits if_splits)

lemma report_groups_good:
  assumes "distinct (map fp_key (properties c))"
  shows "\<exists>groups cov. report_groups False c answer n = Inr (groups, cov) \<and> good_section c groups"
proof (cases "properties c = []")
  case True
  obtain cov where "validate c [] n = Inr cov" using validate_Inr_iff [of c "[]" n] by (auto simp: valid_grouping_def)
  then show ?thesis using True by (simp add: report_groups_def good_section_def valid_grouping_def)
next
  case False
  define outcomes where "outcomes = dict_of (map (\<lambda>r. (rule_ref_of r, rv_outcome r)) (rules c))"
  show ?thesis
  proof (cases "llm_groups c outcomes answer n")
    case (Inr r)
    then show ?thesis using False llm_groups_good [of c outcomes answer n "fst r" "snd r"]
      by (cases r) (simp add: report_groups_def Let_def outcomes_def)
  next
    case (Inl e)
    let ?groups = "build_groups (build_fallback_grouping (properties c)) (props_by_key (properties c)) outcomes"
    have part: "valid_grouping ?groups (properties c)" using assms by (simp only: fallback_valid)
    then obtain cov where "validate c ?groups n = Inr cov" using validate_Inr_iff by blast
    with Inl False have "report_groups False c answer n =
        Inr (?groups, cov\<lparr>warnings := ''FALLBACK GROUPING APPLIED'' # warnings cov\<rparr>)"
      by (simp add: report_groups_def Let_def outcomes_def)
    moreover have "good_section c ?groups"
      using part False unfolding good_section_def members_build_groups fallback_members by simp
    ultimately show ?thesis by blast
  qed
qed

lemma report_keys_distinct:
  assumes "distinct (concat (map input_keys inputs))"
  shows "distinct (map fp_key (properties (collect fetch keep_orphans inputs)))"
proof -
  let ?ks = "map fp_key (properties (collect fetch keep_orphans inputs))"
  have "\<exists>rest. mset (concat (map input_keys inputs)) = mset ?ks + rest"
    using collection_accounted [OF refl, of fetch keep_orphans inputs] by (metis add.assoc)
  then obtain rest where "mset (concat (map input_keys inputs)) = mset (?ks @ rest)"
    by (metis ex_mset mset_append)
  from mset_eq_imp_distinct_iff [OF this] assms show ?thesis by simp
qed

text \<open>
  C25: Whatever the language model answers, an exception, an overlapping grouping, unknown members or an empty one,
  the report is built with a valid grouping that is not empty unless no property was formalized, provided no
  component name and title pair occurs twice among the inputs.
\<close>

theorem report_always_has_valid_groups:
  assumes "distinct (concat (map input_keys inputs))"
  shows "\<exists>r. build_report False fetch inputs answer n = Inr r \<and>
    r_collection r = collect fetch False inputs \<and> good_section (r_collection r) (r_groups r)"
proof -
  obtain groups cov where "report_groups False (collect fetch False inputs) answer n = Inr (groups, cov)"
      "good_section (collect fetch False inputs) groups"
    using report_groups_good [OF report_keys_distinct [OF assms]] by blast
  then show ?thesis by (simp add: build_report_def Let_def)
qed

text \<open>
  The fallback needs unique keys: when the grouping call fails, the report is built if and only if no two
  formalized properties share their component and title. With duplicates the second validation raises, inside the
  handler of the first, and the report is lost.
\<close>

theorem fallback_works_iff_keys_are_unique:
  "(\<exists>r. report_groups False c (Inl e) n = Inr r) \<longleftrightarrow> distinct (map fp_key (properties c))"
proof
  assume "\<exists>r. report_groups False c (Inl e) n = Inr r"
  then obtain r where r: "report_groups False c (Inl e) n = Inr r" by blast
  show "distinct (map fp_key (properties c))"
  proof (cases "properties c = []")
    case False
    with r obtain outcomes cov where
      "validate c (build_groups (build_fallback_grouping (properties c)) (props_by_key (properties c)) outcomes) n = Inr cov"
      by (auto simp: report_groups_def llm_groups_def Let_def bindE_Inr_iff)
    then show ?thesis using validate_Inr_iff fallback_valid by blast
  qed simp
next
  assume "distinct (map fp_key (properties c))"
  then show "\<exists>r. report_groups False c (Inl e) n = Inr r" using report_groups_good by blast
qed

text \<open>
  When the completion gate accepted every delivered component, the report drops no property: each is formalized,
  skipped, or listed with its component as given up or cut short.
\<close>

theorem accepted_batches_drop_no_property:
  assumes "list_all (completion_accepted vocab executed) inputs"
  shows "mset (concat (map input_keys inputs)) = accounted (fold (collect_input fetch) inputs empty_collected)"
proof -
  have "concat (map unclaimed_keys inputs) = []"
    using assms accepted_claims_all [of vocab executed] by (auto simp: list_all_iff)
  then show ?thesis
    using per_component.all_booked [of fetch inputs empty_collected]
    by (simp add: input_keys_split accounted_def empty_collected_def)
qed

subsection \<open>A run with one component of each kind\<close>

definition pf :: "string \<Rightarrow> property_formulation" where
  "pf t = \<lparr>p_sort = Invariant, p_description = ''d'', p_title = t\<rparr>"

definition vault_result :: formalized where
  "vault_result = \<lparr>result_skipped = [\<lparr>property_title = ''solvency'', reason = ''needs ghosts''\<rparr>],
     property_checks = [(''supply'', [''supplyIsSum'', '' ''])], deliverable = ''certora/vault.spec'',
     unit_file = ''vault.spec'', run_link = Some ''https://prover/1''\<rparr>"

definition sample_inputs :: "component_input list" where
  "sample_inputs =
     [\<lparr>ci_name = ''Vault'', ci_props = [pf ''supply'', pf ''solvency''], ci_formalized = Delivered vault_result\<rparr>,
      \<lparr>ci_name = ''Oracle'', ci_props = [pf ''fresh''], ci_formalized = NotFormalized\<rparr>,
      \<lparr>ci_name = ''Router'', ci_props = [pf ''supply''], ci_formalized = Curtailed None (Some ''hard stop'')\<rparr>]"

definition sample_fetch :: "formalized \<Rightarrow> (string, verdict) dict" where
  "sample_fetch f = [(''supplyIsSum'', \<lparr>outcome = Good, v_line = Some 3, v_duration = None, v_unit_file = None,
     v_message = None, v_link = None\<rparr>)]"

lemma report_always_has_valid_groups_witness:
  "\<exists>r. build_report False sample_fetch sample_inputs (Inl ''timed out'') 0 = Inr r \<and>
    r_collection r = collect sample_fetch False sample_inputs \<and> good_section (r_collection r) (r_groups r)"
  by (rule report_always_has_valid_groups) code_simp

lemma accepted_batches_drop_no_property_witness:
  "mset (concat (map input_keys sample_inputs)) =
     accounted (fold (collect_input sample_fetch) sample_inputs empty_collected)"
  by (rule accepted_batches_drop_no_property [of rule_vocab "\<lambda>f. None"]) code_simp

end
