(* ===== verification/Callgraph.thy ===== *)
theory Callgraph
  imports Pystr Walks "HOL-Library.Product_Lexorder"
begin

text \<open>
  The call graph of the summarization detector (\<^verbatim>\<open>summarization_detector/detect/callgraph.py\<close>, with the
  span helpers and \<^verbatim>\<open>Boundary\<close> of \<^verbatim>\<open>detect/model.py\<close>): construction from the solc AST and the prover's external
  call graph, reachability, cone weights, the facts of a function, and the boundary searches.

  A node of the AST, a \<^verbatim>\<open>dict\<close> with the fields solc writes, is a record of the fields the detector reads, a
  missing field None. A Python \<^verbatim>\<open>set\<close> is a list in the order it is iterated in, which the code does not fix. Reading
  the AST dump and the external call graph from disk is left out: the parsed contents are arguments.
\<close>

subsection \<open>Source spans\<close>

type_synonym span = "int \<times> int \<times> int" \<comment> \<open>start, end, file\<close>

definition parse_src :: "string \<Rightarrow> (int \<times> int \<times> int) option" where
  "parse_src s =
     (case map py_int (split_on (CHR '':'') s) of
        [Some offset, Some len, Some file] \<Rightarrow> Some (offset, len, file)
      | _ \<Rightarrow> None)"

definition span3_of :: "string option \<Rightarrow> span option" where
  "span3_of s =
     (case s of None \<Rightarrow> None
      | Some t \<Rightarrow> map_option (\<lambda>(offset, len, file). (offset, offset + len, file)) (parse_src t))"

fun min_span_loop :: "int \<Rightarrow> (int \<times> int \<times> 'a) list \<Rightarrow> (int \<times> int \<times> 'a) option \<Rightarrow> int \<Rightarrow> (int \<times> int \<times> 'a) option" where
  "min_span_loop off [] best best_w = best"
| "min_span_loop off ((s, e, x) # spans) best best_w =
     (if s \<le> off \<and> off < e \<and> (best = None \<or> e - s < best_w)
      then min_span_loop off spans (Some (s, e, x)) (e - s)
      else min_span_loop off spans best best_w)"

definition min_span :: "int \<Rightarrow> (int \<times> int \<times> 'a) list \<Rightarrow> (int \<times> int \<times> 'a) option" where
  "min_span off spans = min_span_loop off spans None 0"

definition enclosing :: "int \<Rightarrow> (int \<times> int \<times> string) list \<Rightarrow> string option" where
  "enclosing off spans = map_option (\<lambda>(s, e, name). name) (min_span off spans)"

subsection \<open>The AST\<close>

datatype type_name =
  TypeName (tn_kind: "string option") (tn_name: "string option") (tn_ref: "int option") (tn_base: "type_name option")

record ast_param =
  type_string :: "string option"
  param_type :: "type_name option"

record ast_node =
  node_type :: "string option"
  node_name :: "string option"
  src :: "string option"
  visibility :: "string option"
  state_mutability :: "string option"
  expression_ref :: "int option" \<comment> \<open>\<^verbatim>\<open>expression.referencedDeclaration\<close>\<close>
  parameters :: "ast_param list"
  return_parameters :: "ast_param list"
  struct_members :: "type_name option list"

type_synonym merged = "(string, ast_node) dict"

text \<open>What the dump holds for one compiled file: per source a map of nodes; None is a value that is not a \<^verbatim>\<open>dict\<close>.\<close>

type_synonym raw_unit = "(string \<times> ast_node option) list option list option"

definition is_contract :: "string \<Rightarrow> ast_node \<Rightarrow> bool" where
  "is_contract target node \<longleftrightarrow> node_type node = Some ''ContractDefinition'' \<and> node_name node = Some target"

definition merge_node :: "string \<Rightarrow> string \<times> ast_node option \<Rightarrow> merged \<times> bool \<Rightarrow> merged \<times> bool" where
  "merge_node target e st =
     (case (e, st) of
        ((nid, Some node), (merged, declares)) \<Rightarrow> (dset nid node merged, declares \<or> is_contract target node)
      | ((nid, None), st') \<Rightarrow> st')"

definition merge_unit :: "string \<Rightarrow> (string \<times> ast_node option) list option list \<Rightarrow> merged \<times> bool" where
  "merge_unit target files =
     fold (\<lambda>f st. case f of None \<Rightarrow> st | Some nodes \<Rightarrow> fold (merge_node target) nodes st) files ([], False)"

fun unit_declaring :: "raw_unit list \<Rightarrow> string \<Rightarrow> merged option" where
  "unit_declaring [] target = None"
| "unit_declaring (None # us) target = unit_declaring us target"
| "unit_declaring (Some files # us) target =
     (case merge_unit target files of (merged, declares) \<Rightarrow> if declares then Some merged else unit_declaring us target)"

definition str_or_empty :: "string option \<Rightarrow> string" where
  "str_or_empty s = (case s of None \<Rightarrow> [] | Some t \<Rightarrow> t)"

definition add_at :: "'k \<Rightarrow> 'a \<Rightarrow> ('k, 'a list) dict \<Rightarrow> ('k, 'a list) dict" where
  \<comment> \<open>\<^verbatim>\<open>d.setdefault(k, set()).add(x)\<close>\<close>
  "add_at k x d = dset k (List.insert x (case dget d k of None \<Rightarrow> [] | Some xs \<Rightarrow> xs)) d"

definition at :: "('k, 'a list) dict \<Rightarrow> 'k \<Rightarrow> 'a list" where
  \<comment> \<open>\<^verbatim>\<open>d.get(k, ())\<close>\<close>
  "at d k = (case dget d k of None \<Rightarrow> [] | Some xs \<Rightarrow> xs)"

type_synonym edges = "(string, string list) dict"

definition contracts_by_fid :: "merged \<Rightarrow> (int, (int \<times> int \<times> string) list) dict" where
  "contracts_by_fid merged =
     fold (\<lambda>node out.
       if node_type node = Some ''ContractDefinition''
       then case span3_of (src node) of None \<Rightarrow> out
            | Some (s, e, fid) \<Rightarrow> append_at fid (s, e, str_or_empty (node_name node)) out
       else out) (vals merged) []"

definition qual_of :: "string \<Rightarrow> string \<Rightarrow> string" where
  "qual_of cname fname = (if cname \<noteq> [] then cname @ ''.'' @ fname else fname)"

definition host_of :: "(int, (int \<times> int \<times> string) list) dict \<Rightarrow> int \<Rightarrow> int \<Rightarrow> string" where
  \<comment> \<open>\<^verbatim>\<open>_enclosing(sp[0], contracts_by_fid.get(sp[2], [])) or ""\<close>\<close>
  "host_of contracts start fid = str_or_empty (enclosing start (at contracts fid))"

record function_scan =
  fndefs_by_fid :: "(int, (int \<times> int \<times> string) list) dict"
  qual_by_id :: "(string, string) dict"
  roots :: "string list"
  by_name :: edges
  sizes :: "(string, int) dict"

definition scan_function :: "merged \<Rightarrow> string \<Rightarrow> string \<times> ast_node \<Rightarrow> function_scan \<Rightarrow> function_scan" where
  "scan_function merged target e a =
     (case e of (nid, node) \<Rightarrow>
        if node_type node \<noteq> Some ''FunctionDefinition'' then a
        else case span3_of (src node) of None \<Rightarrow> a
          | Some (s, t, fid) \<Rightarrow>
              let cname = host_of (contracts_by_fid merged) s fid;
                  fname = str_or_empty (node_name node);
                  qual = qual_of cname fname
              in a\<lparr>fndefs_by_fid := append_at fid (s, t, qual) (fndefs_by_fid a),
                   qual_by_id := dset nid qual (qual_by_id a),
                   sizes := dset qual (max (case dget (sizes a) qual of None \<Rightarrow> 0 | Some n \<Rightarrow> n) (t - s)) (sizes a),
                   by_name := (if fname \<noteq> [] then add_at fname qual (by_name a) else by_name a),
                   roots := (if cname = target \<and> visibility node \<in> {Some ''external'', Some ''public''}
                             then List.insert qual (roots a) else roots a)\<rparr>)"

definition scan_functions :: "merged \<Rightarrow> string \<Rightarrow> function_scan" where
  "scan_functions merged target =
     fold (scan_function merged target) merged
       \<lparr>fndefs_by_fid = [], qual_by_id = [], roots = [], by_name = [], sizes = []\<rparr>"

definition call_edge :: "function_scan \<Rightarrow> ast_node \<Rightarrow> (string \<times> string) option" where
  "call_edge a node =
     (if node_type node \<noteq> Some ''FunctionCall'' then None
      else case expression_ref node of None \<Rightarrow> None
        | Some ref \<Rightarrow>
            (case dget (qual_by_id a) (show_int ref) of None \<Rightarrow> None
             | Some callee \<Rightarrow>
                 (case span3_of (src node) of None \<Rightarrow> None
                  | Some (s, t, fid) \<Rightarrow>
                      (case enclosing s (at (fndefs_by_fid a) fid) of None \<Rightarrow> None
                       | Some caller \<Rightarrow> if caller \<noteq> [] then Some (caller, callee) else None))))"

definition ast_call_graph :: "merged \<Rightarrow> string \<Rightarrow> edges \<times> function_scan" where
  "ast_call_graph merged target =
     (let a = scan_functions merged target
      in (fold (\<lambda>node edges. case call_edge a node of None \<Rightarrow> edges | Some (caller, callee) \<Rightarrow> add_at caller callee edges)
            (vals merged) [], a))"

subsection \<open>Edges of the prover\<close>

record external_call =
  ext_caller :: string
  selectors :: "string option list" \<comment> \<open>their signatures\<close>
  targets :: "string option list" \<comment> \<open>their contracts\<close>

definition before_paren :: "string \<Rightarrow> string" where
  \<comment> \<open>\<^verbatim>\<open>s.split("(", 1)[0]\<close>\<close>
  "before_paren s = takeWhile (\<lambda>c. c \<noteq> CHR ''('') s"

definition selector_names :: "external_call \<Rightarrow> string list" where
  "selector_names e = map (\<lambda>s. before_paren (str_or_empty s)) (filter truthy (selectors e))"

definition external_callees :: "edges \<Rightarrow> external_call \<Rightarrow> string list" where
  "external_callees names e =
     concat (map (\<lambda>t. concat (map (\<lambda>sel.
       if truthy t
       then let callee = str_or_empty t @ ''.'' @ sel in if callee \<in> set (concat (vals names)) then [callee] else []
       else at names sel) (selector_names e))) (targets e))"

definition add_external_edges :: "edges \<Rightarrow> edges \<Rightarrow> (string \<times> external_call list) list \<Rightarrow> edges" where
  "add_external_edges edges names ext =
     fold (\<lambda>(host, calls). fold (\<lambda>e. fold (add_at (host @ ''.'' @ before_paren (ext_caller e))) (external_callees names e)) calls)
       ext edges"

definition build_graph :: "raw_unit list \<Rightarrow> string \<Rightarrow> (string \<times> external_call list) list option \<Rightarrow>
    (edges \<times> string list \<times> (string, int) dict) option" where
  "build_graph units target ext =
     (case unit_declaring units target of None \<Rightarrow> None
      | Some merged \<Rightarrow>
          (case ast_call_graph merged target of (edges, a) \<Rightarrow>
             Some (case ext of None \<Rightarrow> edges | Some x \<Rightarrow> add_external_edges edges (by_name a) x, roots a, sizes a)))"

subsection \<open>Walks\<close>

definition push_new :: "string \<Rightarrow> string list \<times> string list \<Rightarrow> string list \<times> string list" where
  \<comment> \<open>one successor, on the visited set and the stack, its top first\<close>
  "push_new n st = (case st of (seen, stack) \<Rightarrow> if n \<in> set seen then st else (n # seen, n # stack))"

lemma push_new_fold:
  "\<exists>new. fold push_new ns (seen, stack) = (new @ seen, new @ stack) \<and> set new = set ns - set seen"
proof (induction ns arbitrary: seen stack)
  case Nil
  then show ?case by simp
next
  case (Cons n ns)
  show ?case
  proof (cases "n \<in> set seen")
    case True
    then have "fold push_new (n # ns) (seen, stack) = fold push_new ns (seen, stack)" by (simp add: push_new_def)
    moreover have "set (n # ns) - set seen = set ns - set seen" using True by auto
    ultimately show ?thesis using Cons.IH [of seen stack] by presburger
  next
    case False
    from Cons.IH [of "n # seen" "n # stack"] obtain new where
      new: "fold push_new ns (n # seen, n # stack) = (new @ n # seen, new @ n # stack)" "set new = set ns - set (n # seen)"
      by blast
    have "fold push_new (n # ns) (seen, stack) = ((new @ [n]) @ seen, (new @ [n]) @ stack)"
      using False new(1) by (simp add: push_new_def)
    moreover have "set (new @ [n]) = set (n # ns) - set seen" using new(2) False by auto
    ultimately show ?thesis by blast
  qed
qed

lemma card_Diff_less: "finite A \<Longrightarrow> n \<in> A \<Longrightarrow> n \<notin> B \<Longrightarrow> B \<subseteq> C \<Longrightarrow> n \<in> C \<Longrightarrow> card (A - C) < card (A - B)"
  by (rule psubset_card_mono) auto

lemma at_subset: "set (at d k) \<subseteq> set (concat (vals d))"
  by (cases "dget d k") (auto simp: at_def, metis dget_Some_in snd_conv)

function bfs_loop :: "edges \<Rightarrow> string list \<Rightarrow> string list \<Rightarrow> string list" where
  "bfs_loop edges seen [] = seen"
| "bfs_loop edges seen (cur # rest) =
     (let st = fold push_new (at edges cur) (seen, rest) in bfs_loop edges (fst st) (snd st))"
  by pat_completeness auto
termination
proof (relation "measures [\<lambda>(edges, seen, stack). card (set (concat (vals edges)) - set seen),
    \<lambda>(edges, seen, stack). length stack]", goal_cases)
  case (2 edges seen cur rest st)
  from push_new_fold [of "at edges cur" seen rest] obtain new where
    new: "fst st = new @ seen" "snd st = new @ rest" "set new = set (at edges cur) - set seen" unfolding 2 by auto
  show ?case
  proof (cases new)
    case Nil
    with new show ?thesis by (simp add: case_prod_unfold)
  next
    case (Cons n ns)
    then have "n \<in> set (at edges cur)" "n \<notin> set seen" using new(3) by auto
    then have "card (set (concat (vals edges)) - set (fst st)) < card (set (concat (vals edges)) - set seen)"
      using at_subset [of edges cur] unfolding new(1) Cons by (intro card_Diff_less [of _ n]) auto
    then show ?thesis by (simp add: case_prod_unfold)
  qed
qed simp

declare bfs_loop.simps [simp del]

definition bfs :: "edges \<Rightarrow> string list \<Rightarrow> string list" where
  "bfs edges start = bfs_loop edges start start"

definition invert :: "edges \<Rightarrow> edges" where
  "invert edges = fold (\<lambda>(caller, callees). fold (\<lambda>callee. add_at callee caller) callees) edges []"

definition new_consumers :: "edges \<Rightarrow> string list \<Rightarrow> string list \<Rightarrow> string \<Rightarrow> string list" where
  "new_consumers consumers reachable seen c = filter (\<lambda>x. x \<in> set reachable \<and> x \<notin> set seen) (at consumers c)"

function cone_loop :: "edges \<Rightarrow> string list \<Rightarrow> string list \<Rightarrow> string list \<Rightarrow> string list" where
  "cone_loop consumers reachable seen [] = seen"
| "cone_loop consumers reachable seen (c # rest) =
     (if c \<in> set seen then cone_loop consumers reachable seen rest
      else cone_loop consumers reachable (c # seen) (rev (new_consumers consumers reachable (c # seen) c) @ rest))"
  by pat_completeness auto
termination
proof (relation "measures [\<lambda>(consumers, reachable, seen, stack). card ((set stack \<union> set (concat (vals consumers))) - set seen),
    \<lambda>(consumers, reachable, seen, stack). length stack]", goal_cases)
  case (2 consumers reachable seen c rest)
  let ?V = "set (concat (vals consumers))"
  have "(set (c # rest) \<union> ?V) - set seen = (set rest \<union> ?V) - set seen" using 2 by auto
  then show ?case by (simp del: set_concat)
next
  case (3 consumers reachable seen c rest)
  let ?new = "rev (new_consumers consumers reachable (c # seen) c) @ rest" and ?V = "set (concat (vals consumers))"
  have "(set ?new \<union> ?V) - set (c # seen) \<subseteq> (set (c # rest) \<union> ?V) - set (c # seen)"
    using at_subset [of consumers c] by (auto simp: new_consumers_def simp del: set_concat)
  then have "card ((set ?new \<union> ?V) - set (c # seen)) \<le> card ((set (c # rest) \<union> ?V) - set (c # seen))"
    by (intro card_mono) auto
  also have "\<dots> < card ((set (c # rest) \<union> ?V) - set seen)"
    using 3 by (intro card_Diff_less [of _ c]) auto
  finally show ?case by (simp del: set_concat set_append)
qed simp

definition size_of :: "(string, int) dict \<Rightarrow> string \<Rightarrow> int" where
  "size_of szs g = (case dget szs g of None \<Rightarrow> 0 | Some n \<Rightarrow> n)"

definition cone_weight :: "edges \<Rightarrow> string list \<Rightarrow> (string, int) dict \<Rightarrow> string \<Rightarrow> int" where
  "cone_weight consumers reachable szs f =
     sum_list (map (size_of szs)
       (cone_loop consumers reachable [] (rev (filter (\<lambda>c. c \<in> set reachable) (at consumers f)))))"

definition cone_weights_of :: "edges \<Rightarrow> string list \<Rightarrow> (string, int) dict \<Rightarrow> (string, int) dict" where
  "cone_weights_of edges reachable szs =
     fold (\<lambda>f out. dset f (cone_weight (invert edges) reachable szs f) out) reachable []"

definition reachable_from_main :: "raw_unit list \<Rightarrow> string \<Rightarrow> (string \<times> external_call list) list option \<Rightarrow> string list" where
  "reachable_from_main units target ext =
     (case build_graph units target ext of None \<Rightarrow> [] | Some (edges, rs, szs) \<Rightarrow> bfs edges rs)"

definition cone_weights :: "raw_unit list \<Rightarrow> string \<Rightarrow> (string \<times> external_call list) list option \<Rightarrow> (string, int) dict" where
  "cone_weights units target ext =
     (case build_graph units target ext of None \<Rightarrow> []
      | Some (edges, rs, szs) \<Rightarrow> cone_weights_of edges (bfs edges rs) szs)"

subsection \<open>Types of parameters and returns\<close>

definition non_expressible_elem :: "string list" where
  "non_expressible_elem = [''bytes'', ''string'']"

definition param_infos :: "ast_param list \<Rightarrow> (string \<times> type_name option) list" where
  "param_infos ps = map (\<lambda>p. (str_or_empty (type_string p), param_type p)) ps"

definition struct_decl :: "merged \<Rightarrow> type_name \<Rightarrow> (string \<times> type_name option list) option" where
  \<comment> \<open>the struct a type name refers to, with its identifier and the types of its members\<close>
  "struct_decl merged tn =
     (case tn_ref tn of None \<Rightarrow> None
      | Some ref \<Rightarrow> (case dget merged (show_int ref) of None \<Rightarrow> None
          | Some decl \<Rightarrow> if node_type decl = Some ''StructDefinition'' then Some (show_int ref, struct_members decl) else None))"

lemma struct_decl_key: "struct_decl merged tn = Some (sid, ms) \<Longrightarrow> sid \<in> set (keys merged)"
  by (auto simp: struct_decl_def split: option.splits if_splits dest: dget_in_keys simp del: set_map)

function expressible_typename :: "type_name option \<Rightarrow> merged \<Rightarrow> string list \<Rightarrow> bool" where
  "expressible_typename None merged seen = False"
| "expressible_typename (Some tn) merged seen =
     (if tn_kind tn = Some ''ElementaryTypeName'' then str_or_empty (tn_name tn) \<notin> set non_expressible_elem
      else if tn_kind tn = Some ''ArrayTypeName'' then expressible_typename (tn_base tn) merged seen
      else if tn_kind tn = Some ''UserDefinedTypeName''
      then (case struct_decl merged tn of
              None \<Rightarrow> True
            | Some (sid, ms) \<Rightarrow>
                if sid \<in> set seen then True else list_all (\<lambda>m. expressible_typename m merged (sid # seen)) ms)
      else False)"
  by pat_completeness auto
termination
proof (relation "measures [\<lambda>(tn, merged, seen). card (set (keys merged) - set seen), \<lambda>(tn, merged, seen). size_option size tn]",
    goal_cases)
  case (2 tn merged seen)
  then show ?case by (cases tn) (auto simp: less_Suc_eq_le)
next
  case (3 tn merged seen d sid ms m)
  then have "sid \<in> set (keys merged)" using struct_decl_key by fastforce
  then have "card (set (keys merged) - set (sid # seen)) < card (set (keys merged) - set seen)"
    using 3 by (intro card_Diff_less [of _ sid]) auto
  then show ?case by simp
qed simp

declare expressible_typename.simps [simp del]

fun is_reference_typename :: "type_name option \<Rightarrow> merged \<Rightarrow> bool" where
  "is_reference_typename None merged = False"
| "is_reference_typename (Some tn) merged =
     (if tn_kind tn = Some ''ElementaryTypeName'' then str_or_empty (tn_name tn) \<in> set non_expressible_elem
      else if tn_kind tn = Some ''ArrayTypeName'' then True
      else if tn_kind tn = Some ''UserDefinedTypeName'' then struct_decl merged tn \<noteq> None
      else tn_kind tn \<in> {Some ''Mapping'', Some ''FunctionTypeName''})"

subsection \<open>Facts of a function\<close>

record fn_facts =
  signature :: string
  expressible :: bool
  mutating :: bool
  external :: bool
  nondet_ok :: bool

definition default_facts :: "string \<Rightarrow> fn_facts" where
  "default_facts qual = \<lparr>signature = qual, expressible = False, mutating = True, external = False, nondet_ok = False\<rparr>"

definition bare_name :: "string \<Rightarrow> string" where
  \<comment> \<open>\<^verbatim>\<open>qual.rpartition(".")[2]\<close>\<close>
  "bare_name qual = rev (takeWhile (\<lambda>c. c \<noteq> CHR ''.'') (rev qual))"

definition iter_functions :: "merged \<Rightarrow> (string \<times> ast_node) list" where
  "iter_functions merged = List.map_filter (\<lambda>node.
     if node_type node \<noteq> Some ''FunctionDefinition'' then None
     else case span3_of (src node) of None \<Rightarrow> None
       | Some (s, e, fid) \<Rightarrow>
           Some (qual_of (host_of (contracts_by_fid merged) s fid) (str_or_empty (node_name node)), node)) (vals merged)"

definition facts_of :: "merged \<Rightarrow> string \<Rightarrow> ast_node \<Rightarrow> fn_facts" where
  "facts_of merged qual node =
     (let params = param_infos (parameters node); rets = param_infos (return_parameters node)
      in \<lparr>signature = bare_name qual @ ''('' @ comma_join (map fst params) @ '')'' @
             (if rets \<noteq> [] then '' -> '' @ comma_join (map fst rets) else []),
          expressible = (rets \<noteq> [] \<and> list_all (\<lambda>(t, tn). expressible_typename tn merged []) (params @ rets)),
          mutating = (str_or_empty (state_mutability node) \<notin> {''view'', ''pure''}),
          external = (str_or_empty (visibility node) \<in> {''external'', ''public''}),
          nondet_ok = (\<not> list_ex (\<lambda>(t, tn). is_reference_typename tn merged) rets)\<rparr>)"

definition fn_facts_by_qual :: "merged \<Rightarrow> (string, fn_facts) dict" where
  "fn_facts_by_qual merged = dict_of (map (\<lambda>(qual, node). (qual, facts_of merged qual node)) (iter_functions merged))"

definition by_qual_or_bare :: "(string, 'a) dict \<Rightarrow> string \<Rightarrow> 'a option" where
  "by_qual_or_bare mapping qual =
     (case dget mapping qual of Some v \<Rightarrow> Some v
      | None \<Rightarrow> map_option snd (find (\<lambda>(k, v). bare_name k = bare_name qual) mapping))"

subsection \<open>Boundaries\<close>

definition survives :: "string \<Rightarrow> string list \<Rightarrow> string list \<Rightarrow> bool" where
  "survives function surviving bare \<longleftrightarrow>
     function \<in> set surviving \<or> (CHR ''.'' \<notin> set function \<and> function \<in> set bare)"

definition kept :: "string list option \<Rightarrow> string \<Rightarrow> bool" where
  \<comment> \<open>\<^verbatim>\<open>reachable is None or _survives(q, reachable, bare)\<close>\<close>
  "kept reachable q \<longleftrightarrow> (case reachable of None \<Rightarrow> True | Some r \<Rightarrow> survives q r (map bare_name r))"

definition visit_depth :: "string \<Rightarrow> nat \<Rightarrow> string \<Rightarrow> (string, nat) dict \<times> string list \<Rightarrow> (string, nat) dict \<times> string list" where
  "visit_depth start depth c st =
     (case st of (depths, nxt) \<Rightarrow>
        if dget depths c = None \<and> c \<noteq> start then (dset c depth depths, nxt @ [c]) else st)"

function depth_loop :: "edges \<Rightarrow> string \<Rightarrow> nat \<Rightarrow> nat \<Rightarrow> (string, nat) dict \<Rightarrow> string list \<Rightarrow> (string, nat) dict" where
  "depth_loop adj start max_depth depth depths frontier =
     (if frontier \<noteq> [] \<and> depth < max_depth
      then let st = fold (visit_depth start (Suc depth)) (concat (map (at adj) frontier)) (depths, [])
           in depth_loop adj start max_depth (Suc depth) (fst st) (snd st)
      else depths)"
  by pat_completeness auto
termination
  by (relation "measure (\<lambda>(adj, start, max_depth, depth, depths, frontier). max_depth - depth)") auto

declare depth_loop.simps [simp del]

definition bfs_depths :: "edges \<Rightarrow> string \<Rightarrow> nat \<Rightarrow> (string, nat) dict" where
  "bfs_depths adj start max_depth = depth_loop adj start max_depth 0 [] [start]"

record boundary =
  b_function :: string
  b_hops :: nat
  b_signature :: string
  b_mutating :: bool
  b_shared :: nat

definition facts_or_default :: "(string, fn_facts) dict \<Rightarrow> string \<Rightarrow> fn_facts" where
  "facts_or_default facts q = (case dget facts q of None \<Rightarrow> default_facts q | Some f \<Rightarrow> f)"

definition offered :: "(string, fn_facts) dict \<Rightarrow> string list option \<Rightarrow> bool \<Rightarrow> string \<Rightarrow> bool" where
  \<comment> \<open>the tests of the loop body\<close>
  "offered facts reachable nondet q \<longleftrightarrow>
     kept reachable q \<and>
     (let f = facts_or_default facts q in \<not> external f \<and> (if nondet then nondet_ok f else expressible f))"

definition boundary_key :: "boundary \<Rightarrow> bool \<times> nat \<times> string" where
  "boundary_key b = (b_mutating b, b_hops b, b_function b)"

definition caller_boundaries :: "edges \<Rightarrow> (string, fn_facts) dict \<Rightarrow> string \<Rightarrow> string list option \<Rightarrow> nat \<Rightarrow> nat \<Rightarrow> bool \<Rightarrow>
    boundary list" where
  "caller_boundaries edges facts leaf reachable max_hops limit nondet =
     take limit (sort_key boundary_key
       (map (\<lambda>(q, h). \<lparr>b_function = q, b_hops = h, b_signature = signature (facts_or_default facts q),
              b_mutating = mutating (facts_or_default facts q), b_shared = 1\<rparr>)
         (filter (\<lambda>(q, h). offered facts reachable nondet q) (bfs_depths (invert edges) leaf max_hops))))"

definition nonlinear_prims :: "string list" where
  "nonlinear_prims =
     [''mulDiv'', ''mulDivDown'', ''mulDivUp'', ''fullMulDiv'', ''fullMulDivUp'', ''mulDivRoundingUp'',
      ''mulWad'', ''mulWadDown'', ''mulWadUp'', ''divWad'', ''divWadDown'', ''divWadUp'', ''sMulWad'', ''sDivWad'',
      ''rpow'', ''wpow'', ''pow'', ''rmul'', ''rdiv'', ''wmul'', ''wdiv'', ''sqrt'', ''cbrt'', ''exp'', ''expWad'',
      ''ln'', ''lnWad'']"

definition is_nonlinear_prim :: "string \<Rightarrow> bool" where
  "is_nonlinear_prim qual \<longleftrightarrow> bare_name qual \<in> set nonlinear_prims"

definition entrypoint_in_edges :: "edges \<Rightarrow> string \<Rightarrow> string option" where
  "entrypoint_in_edges edges entrypoint =
     (if entrypoint \<in> set (keys edges) then Some entrypoint
      else case filter (\<lambda>k. bare_name k = bare_name entrypoint) (keys edges) of [k] \<Rightarrow> Some k | _ \<Rightarrow> None)"

definition descend_to_prims :: "edges \<Rightarrow> string \<Rightarrow> string list option \<Rightarrow> nat \<Rightarrow> (string, nat) dict" where
  "descend_to_prims edges m reachable max_depth =
     filter (\<lambda>(q, d). is_nonlinear_prim q \<and> kept reachable q) (bfs_depths edges m max_depth)"

definition default_max_depth :: nat where
  "default_max_depth = 4"

record boundary_scan =
  seen_nodes :: "string list"
  next_layer :: "string list"
  at_depth :: "(string \<times> nat) list"

definition sound_boundary :: "(string, fn_facts) dict \<Rightarrow> string \<Rightarrow> bool" where
  "sound_boundary facts callee \<longleftrightarrow>
     (case dget facts callee of None \<Rightarrow> False
      | Some f \<Rightarrow> expressible f \<and> \<not> mutating f \<and> \<not> external f \<and> \<not> is_nonlinear_prim callee)"

definition visit_callee :: "edges \<Rightarrow> (string, fn_facts) dict \<Rightarrow> string \<Rightarrow> boundary_scan \<Rightarrow> boundary_scan" where
  "visit_callee edges facts callee a =
     (if callee \<in> set (seen_nodes a) then a
      else
        let prims = descend_to_prims edges callee None default_max_depth
        in a\<lparr>seen_nodes := callee # seen_nodes a, next_layer := next_layer a @ [callee],
             at_depth := (if sound_boundary facts callee \<and> prims \<noteq> []
                          then at_depth a @ [(callee, length prims)] else at_depth a)\<rparr>)"

function shallow_loop :: "edges \<Rightarrow> (string, fn_facts) dict \<Rightarrow> nat \<Rightarrow> nat \<Rightarrow> string list \<Rightarrow> string list \<Rightarrow> string option" where
  "shallow_loop edges facts max_depth depth seen frontier =
     (if frontier \<noteq> [] \<and> depth < max_depth
      then let a = fold (visit_callee edges facts) (concat (map (at edges) frontier))
                     \<lparr>seen_nodes = seen, next_layer = [], at_depth = []\<rparr>
           in if at_depth a \<noteq> [] then Some (fst (hd (sort_key (\<lambda>(q, n). (- int n, q)) (at_depth a))))
              else shallow_loop edges facts max_depth (Suc depth) (seen_nodes a) (next_layer a)
      else None)"
  by pat_completeness auto
termination
  by (relation "measure (\<lambda>(edges, facts, max_depth, depth, seen, frontier). max_depth - depth)") auto

declare shallow_loop.simps [simp del]

definition shallowest_view_boundary :: "edges \<Rightarrow> (string, fn_facts) dict \<Rightarrow> string \<Rightarrow> nat \<Rightarrow> string option" where
  "shallowest_view_boundary edges facts entrypoint max_depth =
     (case entrypoint_in_edges edges entrypoint of None \<Rightarrow> None
      | Some start \<Rightarrow> shallow_loop edges facts max_depth 0 [start] [start])"

end
