(* ===== verification/Callgraph_Laws.thy ===== *)
theory Callgraph_Laws
  imports Callgraph "HOL-Library.Multiset"
begin

text \<open>
  What the detector's searches over the call graph compute: reachability and the cone of consumers as closures of
  the call relation, hop counts as shortest distances, the innermost span, the type check as the absence of a blob,
  and the two boundary searches as optima among the admissible functions.
\<close>

definition calls :: "edges \<Rightarrow> (string \<times> string) set" where
  "calls edges = {(f, g). g \<in> set (at edges f)}"

lemma calls_iff: "(f, g) \<in> calls edges \<longleftrightarrow> g \<in> set (at edges f)"
  by (simp add: calls_def)

subsection \<open>The innermost span\<close>

abbreviation contains :: "int \<times> int \<times> 'a \<Rightarrow> int \<Rightarrow> bool" where
  "contains sp off \<equiv> fst sp \<le> off \<and> off < fst (snd sp)"

abbreviation width :: "int \<times> int \<times> 'a \<Rightarrow> int" where
  "width sp \<equiv> fst (snd sp) - fst sp"

definition innermost :: "int \<Rightarrow> (int \<times> int \<times> 'a) set \<Rightarrow> (int \<times> int \<times> 'a) option \<Rightarrow> bool" where
  "innermost off spans best \<longleftrightarrow>
     (case best of None \<Rightarrow> \<forall>sp\<in>spans. \<not> contains sp off
      | Some b \<Rightarrow> b \<in> spans \<and> contains b off \<and> (\<forall>sp\<in>spans. contains sp off \<longrightarrow> width b \<le> width sp))"

lemma min_span_loop_innermost:
  assumes "innermost off done best" and "best \<noteq> None \<Longrightarrow> w = width (the best)"
  shows "innermost off (done \<union> set spans) (min_span_loop off spans best w)"
  using assms
proof (induction off spans best w arbitrary: "done" rule: min_span_loop.induct)
  case (1 off best w)
  then show ?case by simp
next
  case (2 off s e x spans best w)
  have eq: "done \<union> set ((s, e, x) # spans) = insert (s, e, x) done \<union> set spans" by simp
  show ?case
  proof (cases "s \<le> off \<and> off < e \<and> (best = None \<or> e - s < w)")
    case True
    then have "innermost off (insert (s, e, x) done) (Some (s, e, x))"
      using 2(3,4) by (cases best) (auto simp: innermost_def)
    from 2(1) [OF True this] show ?thesis using True unfolding eq by simp
  next
    case False
    then have "innermost off (insert (s, e, x) done) best"
      using 2(3,4) by (cases best) (auto simp: innermost_def)
    from 2(2) [OF False this] 2(4)
    have "innermost off (insert (s, e, x) done \<union> set spans) (min_span_loop off spans best w)" by blast
    then show ?thesis unfolding eq by (simp only: min_span_loop.simps(2) False if_False)
  qed
qed

text \<open>
  A position is attributed to the narrowest span that contains it, and to none only when no span contains it.
\<close>

theorem min_span_is_innermost: "innermost off (set spans) (min_span off spans)"
  using min_span_loop_innermost [of off "{}" None 0 spans] by (simp add: min_span_def innermost_def)

subsection \<open>Reachability\<close>

lemma bfs_walk:
  assumes "set seen = P \<union> set stack"
  shows "walk (at edges) (\<lambda>_. True) (P, set stack) (set (bfs_loop edges seen stack), {})"
  using assms
proof (induction edges seen stack arbitrary: P rule: bfs_loop.induct)
  case (1 edges seen)
  then show ?case by (simp add: bfs_loop.simps)
next
  case (2 edges seen cur rest)
  obtain new where new: "fold push_new (at edges cur) (seen, rest) = (new @ seen, new @ rest)"
      "set new = set (at edges cur) - set seen"
    using push_new_fold by blast
  have "walk_step (at edges) (\<lambda>_. True) (P, set (cur # rest)) (insert cur P, set (new @ rest))"
    using new(2) 2(2) by (intro walk_visit) auto
  moreover have "walk (at edges) (\<lambda>_. True) (insert cur P, set (new @ rest))
      (set (bfs_loop edges (new @ seen) (new @ rest)), {})"
    using 2(1) [OF refl, of "insert cur P"] 2(2) new by auto
  ultimately show ?case by (simp add: bfs_loop.simps(2) new(1) converse_rtranclp_into_rtranclp)
qed

interpretation call_walk: graph_walk "at edges" "\<lambda>_. True" "bfs edges" "\<lambda>_. True" for edges
  using bfs_walk [of _ "{}"] by unfold_locales (simp add: bfs_def)

lemma reach_calls: "reach (at edges) (\<lambda>_. True) start = (calls edges)\<^sup>* `` start"
proof
  show "reach (at edges) (\<lambda>_. True) start \<subseteq> (calls edges)\<^sup>* `` start"
  proof
    fix n assume "n \<in> reach (at edges) (\<lambda>_. True) start"
    then show "n \<in> (calls edges)\<^sup>* `` start"
    proof induction
      case (reach_succ m n)
      then obtain r where "r \<in> start" "(r, m) \<in> (calls edges)\<^sup>*" by auto
      moreover have "(m, n) \<in> calls edges" using reach_succ by (simp add: calls_iff)
      ultimately show ?case by (meson ImageI rtrancl.rtrancl_into_rtrancl)
    qed auto
  qed
  have "n \<in> reach (at edges) (\<lambda>_. True) start" if "(m, n) \<in> (calls edges)\<^sup>*" "m \<in> start" for m n
    using that by induction (auto simp: calls_iff intro: reach.intros)
  then show "(calls edges)\<^sup>* `` start \<subseteq> reach (at edges) (\<lambda>_. True) start" by auto
qed

lemma set_bfs: "set (bfs edges start) = (calls edges)\<^sup>* `` set start"
  using call_walk.collected_iff by (auto simp: reach_calls)

text \<open>
  C37: The functions a run is not pruned of are exactly those that the entry points of the contract call, directly or
  through other functions, over the combined call graph; recursion does not keep the search from ending.
\<close>

theorem reachable_is_the_call_closure:
  "set (reachable_from_main units target ext) =
     (case build_graph units target ext of None \<Rightarrow> {} | Some (edges, entries, _) \<Rightarrow> (calls edges)\<^sup>* `` set entries)"
  by (simp add: reachable_from_main_def set_bfs split: option.split)

subsection \<open>Adding edges\<close>

lemma at_add_at: "set (at (add_at k x d) k') = set (at d k') \<union> (if k = k' then {x} else {})"
proof -
  have "at (add_at k x d) k' = (if k = k' then List.insert x (at d k) else at d k')"
    by (simp add: at_def add_at_def dget_dset)
  then show ?thesis by simp
qed

lemma dict_ok_add_at [simp]: "dict_ok d \<Longrightarrow> dict_ok (add_at k x d)"
  by (simp add: add_at_def)

lemma at_fold_add_at: "set (at (fold (add_at k) xs d) k') = set (at d k') \<union> (if k = k' then set xs else {})"
proof (induction xs arbitrary: d)
  case (Cons x xs)
  then show ?case by (cases "k = k'") (simp_all add: at_add_at)
qed simp

lemma dict_ok_fold_add_at [simp]: "dict_ok d \<Longrightarrow> dict_ok (fold (add_at k) xs d)"
  by (induction xs arbitrary: d) simp_all

lemma calls_fold_add_at: "calls (fold (add_at k) xs d) = calls d \<union> {k} \<times> set xs"
  by (auto simp: calls_def at_fold_add_at split: if_splits)

definition prover_calls :: "edges \<Rightarrow> (string \<times> external_call list) list \<Rightarrow> (string \<times> string) set" where
  "prover_calls names ext =
     (\<Union>(host, cs)\<in>set ext. \<Union>e\<in>set cs. {host @ ''.'' @ before_paren (ext_caller e)} \<times> set (external_callees names e))"

lemma calls_add_external: "calls (add_external_edges edges names ext) = calls edges \<union> prover_calls names ext"
proof -
  let ?add = "\<lambda>host e. fold (add_at (host @ ''.'' @ before_paren (ext_caller e))) (external_callees names e)"
  have inner: "calls (fold (?add host) cs d) = calls d \<union>
      (\<Union>e\<in>set cs. {host @ ''.'' @ before_paren (ext_caller e)} \<times> set (external_callees names e))" for host cs d
    by (induction cs arbitrary: d) (simp_all add: calls_fold_add_at Un_assoc)
  show ?thesis unfolding add_external_edges_def prover_calls_def
    by (induction ext arbitrary: edges) (simp_all add: inner Un_assoc case_prod_unfold del: append_Cons append_Nil)
qed

lemma dict_ok_external: "dict_ok edges \<Longrightarrow> dict_ok (add_external_edges edges names ext)"
proof -
  have inner: "dict_ok d \<Longrightarrow> dict_ok (fold (\<lambda>e. fold (add_at (host @ ''.'' @ before_paren (ext_caller e)))
      (external_callees names e)) cs d)" for host cs d
    by (induction cs arbitrary: d) simp_all
  show "dict_ok edges \<Longrightarrow> dict_ok (add_external_edges edges names ext)" unfolding add_external_edges_def
    by (induction ext arbitrary: edges) (simp_all add: inner case_prod_unfold del: append_Cons append_Nil)
qed

lemma build_graph_external:
  "build_graph units target (Some ext) = map_option (\<lambda>(edges, entries, szs).
     (add_external_edges edges (by_name (snd (ast_call_graph (the (unit_declaring units target)) target))) ext, entries, szs))
     (build_graph units target None)"
  by (auto simp: build_graph_def split: option.split prod.split)

text \<open>
  Taking the prover's external call graph into account never prunes more: a function that is reachable over the
  AST's internal calls alone stays reachable, with the targets the prover resolved or dispatches to reachable besides.
\<close>

theorem external_calls_only_add:
  "set (reachable_from_main units target None) \<subseteq> set (reachable_from_main units target (Some ext))"
proof (cases "build_graph units target None")
  case None
  then show ?thesis by (simp add: reachable_from_main_def)
next
  case (Some g)
  then obtain edges entries szs where g: "build_graph units target None = Some (edges, entries, szs)" by (cases g) auto
  define names where "names = by_name (snd (ast_call_graph (the (unit_declaring units target)) target))"
  have "set (reachable_from_main units target None) = (calls edges)\<^sup>* `` set entries"
    using g by (simp add: reachable_from_main_def set_bfs)
  moreover have "set (reachable_from_main units target (Some ext)) =
      (calls edges \<union> prover_calls names ext)\<^sup>* `` set entries"
    using g by (simp add: reachable_from_main_def set_bfs build_graph_external calls_add_external names_def)
  moreover have "(calls edges)\<^sup>* \<subseteq> (calls edges \<union> prover_calls names ext)\<^sup>*" by (rule rtrancl_mono) simp
  ultimately show ?thesis by auto
qed

subsection \<open>Cones of consumers\<close>

lemma at_invert_fold:
  "set (at (fold (\<lambda>(caller, callees). fold (\<lambda>callee. add_at callee caller) callees) es d) g) =
     set (at d g) \<union> {f. \<exists>cs. (f, cs) \<in> set es \<and> g \<in> set cs}"
proof (induction es arbitrary: d)
  case (Cons e es)
  obtain f cs where e: "e = (f, cs)" by fastforce
  have "set (at (fold (\<lambda>callee. add_at callee f) cs d) g) = set (at d g) \<union> (if g \<in> set cs then {f} else {})" for d
    by (induction cs arbitrary: d) (auto simp: at_add_at)
  then show ?case unfolding e by (simp add: Cons.IH) auto
qed simp

lemma at_invert: "dict_ok edges \<Longrightarrow> set (at (invert edges) g) = {f. (f, g) \<in> calls edges}"
  unfolding invert_def at_invert_fold
  by (auto simp: calls_def at_def split: option.splits) (metis dget_in_iff)+

lemma cone_walk:
  assumes "set stack \<subseteq> set live"
  shows "walk (at consumers) (\<lambda>x. x \<in> set live) (set seen, set stack) (set (cone_loop consumers live seen stack), {})"
  using assms
proof (induction consumers live seen stack rule: cone_loop.induct)
  case (1 consumers live seen)
  then show ?case by simp
next
  case (2 consumers live seen c rest)
  let ?new = "rev (new_consumers consumers live (c # seen) c) @ rest"
  show ?case
  proof (cases "c \<in> set seen")
    case True
    have "walk_step (at consumers) (\<lambda>x. x \<in> set live) (set seen, set (c # rest)) (set seen, set rest)"
      using True by (intro walk_drop [of c]) auto
    with 2(1) [OF True] 2(3) True show ?thesis
      by (simp add: converse_rtranclp_into_rtranclp)
  next
    case False
    have "walk_step (at consumers) (\<lambda>x. x \<in> set live) (set seen, set (c # rest)) (insert c (set seen), set ?new)"
      using 2(3) by (intro walk_visit) (auto simp: new_consumers_def)
    moreover have "set ?new \<subseteq> set live" using 2(3) by (auto simp: new_consumers_def)
    note 2(2) [OF False this]
    ultimately show ?thesis
      using False by (simp add: converse_rtranclp_into_rtranclp del: set_append)
  qed
qed

lemma distinct_cone: "distinct seen \<Longrightarrow> distinct (cone_loop consumers live seen stack)"
  by (induction consumers live seen stack rule: cone_loop.induct) simp_all

interpretation cone: graph_walk "at consumers" "\<lambda>x. x \<in> set live" "cone_loop consumers live []" "\<lambda>start. set start \<subseteq> set live"
  for consumers live
  using cone_walk [of _ live consumers "[]"] by unfold_locales simp

definition consumers_of :: "edges \<Rightarrow> string set \<Rightarrow> string \<Rightarrow> string set" where
  "consumers_of edges live f = {g. (g, f) \<in> (calls edges \<inter> live \<times> UNIV)\<^sup>+}"

lemma set_cone:
  assumes "dict_ok edges"
  shows "set (cone_loop (invert edges) live [] (rev (filter (\<lambda>c. c \<in> set live) (at (invert edges) f)))) =
    consumers_of edges (set live) f"
proof -
  let ?start = "set (at (invert edges) f) \<inter> set live" and ?R = "calls edges \<inter> set live \<times> UNIV"
  have start: "?start = {g. (g, f) \<in> ?R}" by (auto simp: at_invert [OF assms])
  have "set (cone_loop (invert edges) live [] (rev (filter (\<lambda>c. c \<in> set live) (at (invert edges) f)))) =
      reach (at (invert edges)) (\<lambda>x. x \<in> set live) ?start"
    using cone.collected_iff [of "rev (filter (\<lambda>c. c \<in> set live) (at (invert edges) f))" live _ "invert edges"]
    by (auto simp: Int_def)
  also have "\<dots> = {g. (g, f) \<in> ?R\<^sup>+}"
  proof
    show "reach (at (invert edges)) (\<lambda>x. x \<in> set live) ?start \<subseteq> {g. (g, f) \<in> ?R\<^sup>+}"
    proof
      fix g assume "g \<in> reach (at (invert edges)) (\<lambda>x. x \<in> set live) ?start"
      then show "g \<in> {g. (g, f) \<in> ?R\<^sup>+}"
      proof induction
        case (reach_start n)
        then show ?case unfolding start by blast
      next
        case (reach_succ m n)
        then have "(n, m) \<in> ?R" by (simp add: at_invert [OF assms])
        moreover have "(m, f) \<in> ?R\<^sup>+" using reach_succ.IH by blast
        ultimately show ?case by (blast intro: trancl_into_trancl2)
      qed
    qed
    have "g \<in> reach (at (invert edges)) (\<lambda>x. x \<in> set live) ?start" if "(g, f) \<in> ?R\<^sup>+" for g
      using that
    proof (induction rule: converse_trancl_induct)
      case (base g)
      then show ?case by (intro reach.reach_start) (auto simp: at_invert [OF assms])
    next
      case (step g h)
      then have "g \<in> set (at (invert edges) h)" "g \<in> set live" by (auto simp: at_invert [OF assms])
      with step.IH show ?case by (rule reach.reach_succ)
    qed
    then show "{g. (g, f) \<in> ?R\<^sup>+} \<subseteq> reach (at (invert edges)) (\<lambda>x. x \<in> set live) ?start" by blast
  qed
  finally show ?thesis by (simp add: consumers_of_def)
qed

lemma cone_weight_sum:
  assumes "dict_ok edges"
  shows "cone_weight (invert edges) live szs f = (\<Sum>g\<in>consumers_of edges (set live) f. size_of szs g)"
  unfolding cone_weight_def set_cone [OF assms, symmetric]
  by (simp add: sum.distinct_set_conv_list distinct_cone)

lemma dict_ok_build_graph:
  assumes "build_graph units target ext = Some (edges, entries, szs)"
  shows "dict_ok edges"
proof -
  have "dict_ok d \<Longrightarrow> dict_ok (fold (\<lambda>node edges. case call_edge a node of None \<Rightarrow> edges
      | Some (caller, callee) \<Rightarrow> add_at caller callee edges) nodes d)" for d a nodes
  proof (induction nodes arbitrary: d)
    case (Cons node nodes)
    then show ?case by (cases "call_edge a node") (auto split: prod.split)
  qed simp
  then have "dict_ok (fst (ast_call_graph merged target))" for merged by (simp add: ast_call_graph_def Let_def)
  then show ?thesis using assms
    by (auto simp: build_graph_def case_prod_unfold dict_ok_external split: option.splits)
qed

lemma dget_cone_weights_of:
  "dget (cone_weights_of edges live szs) f = (if f \<in> set live then Some (cone_weight (invert edges) live szs f) else None)"
proof -
  have "dget (fold (\<lambda>f out. dset f (w f) out) fs d) f = (if f \<in> set fs then Some (w f) else dget d f)" for fs d and w :: "string \<Rightarrow> int"
    by (induction fs arbitrary: d) (auto simp: dget_dset)
  then show ?thesis by (simp add: cone_weights_of_def)
qed

text \<open>
  The weight of a reachable function is the sum of the sizes of the reachable functions that call it, directly or
  through other reachable functions, each counted once; other functions have no weight.
\<close>

theorem weight_is_size_of_consumers:
  "dget (cone_weights units target ext) f =
     (case build_graph units target ext of None \<Rightarrow> None
      | Some (edges, entries, szs) \<Rightarrow>
          let live = (calls edges)\<^sup>* `` set entries in
          if f \<in> live then Some (\<Sum>g\<in>consumers_of edges live f. size_of szs g) else None)"
proof (cases "build_graph units target ext")
  case None
  then show ?thesis by (simp add: cone_weights_def)
next
  case (Some g)
  then obtain edges entries szs where g: "build_graph units target ext = Some (edges, entries, szs)" by (cases g) auto
  show ?thesis unfolding cone_weights_def g
    by (simp add: dget_cone_weights_of cone_weight_sum [OF dict_ok_build_graph [OF g]] set_bfs Let_def)
qed

subsection \<open>Hop counts\<close>

definition hops :: "edges \<Rightarrow> string \<Rightarrow> string \<Rightarrow> nat \<Rightarrow> bool" where
  "hops adj start n k \<longleftrightarrow> (start, n) \<in> calls adj ^^ k \<and> (\<forall>j<k. (start, n) \<notin> calls adj ^^ j)"

lemma hops_unique: "hops adj start n j \<Longrightarrow> hops adj start n k \<Longrightarrow> j = k"
  unfolding hops_def by (meson linorder_neqE_nat)

lemma hops_0 [simp]: "hops adj start n 0 \<longleftrightarrow> n = start"
  by (auto simp: hops_def)

lemma hops_exists: "(start, n) \<in> calls adj ^^ k \<Longrightarrow> \<exists>j\<le>k. hops adj start n j"
proof -
  assume k: "(start, n) \<in> calls adj ^^ k"
  let ?j = "LEAST j. (start, n) \<in> calls adj ^^ j"
  have "hops adj start n ?j" unfolding hops_def using LeastI [of "\<lambda>j. (start, n) \<in> calls adj ^^ j", OF k] not_less_Least by blast
  moreover have "?j \<le> k" by (rule Least_le [of "\<lambda>j. (start, n) \<in> calls adj ^^ j", OF k])
  ultimately show ?thesis by blast
qed

lemma hops_Suc:
  "hops adj start n (Suc d) \<longleftrightarrow>
     (\<exists>m. hops adj start m d \<and> (m, n) \<in> calls adj) \<and> \<not> (\<exists>k\<le>d. hops adj start n k)"
proof (intro iffI conjI)
  assume n: "hops adj start n (Suc d)"
  then obtain m where m: "(start, m) \<in> calls adj ^^ d" "(m, n) \<in> calls adj" by (auto simp: hops_def)
  obtain j where j: "j \<le> d" "hops adj start m j" using hops_exists [OF m(1)] by blast
  have "(start, n) \<in> calls adj ^^ Suc j" using j(2) m(2) by (auto simp: hops_def)
  with n have "\<not> Suc j < Suc d" unfolding hops_def by blast
  with j have "hops adj start m d" by (metis Suc_less_eq le_neq_implies_less)
  with m(2) show "\<exists>m. hops adj start m d \<and> (m, n) \<in> calls adj" by blast
  show "\<not> (\<exists>k\<le>d. hops adj start n k)" using hops_unique [OF n] by fastforce
next
  assume a: "(\<exists>m. hops adj start m d \<and> (m, n) \<in> calls adj) \<and> \<not> (\<exists>k\<le>d. hops adj start n k)"
  then have "(start, n) \<in> calls adj ^^ Suc d" by (auto simp: hops_def)
  then obtain j where "j \<le> Suc d" "hops adj start n j" using hops_exists by blast
  with a show "hops adj start n (Suc d)" by (metis le_SucE)
qed

lemma hops_prefix: "hops adj start n k \<Longrightarrow> j \<le> k \<Longrightarrow> \<exists>m. hops adj start m j"
proof (induction k arbitrary: n)
  case (Suc k)
  then show ?case using hops_Suc by (metis le_SucE)
qed simp

text \<open>The next layer of a search whose frontier is the layer \<open>d\<close> and which knows the layers up to it.\<close>

lemma next_layer_hops:
  assumes "\<And>n. n \<in> set frontier \<longleftrightarrow> hops adj start n d"
  shows "n \<in> set (concat (map (at adj) frontier)) \<and> \<not> (\<exists>k\<le>d. hops adj start n k) \<longleftrightarrow> hops adj start n (Suc d)"
  using assms by (auto simp: hops_Suc calls_iff)

lemma visit_depth_fold:
  "\<exists>new. fst (fold (visit_depth start depth) ns (depths, nxt)) = fold (\<lambda>n. dset n depth) new depths \<and>
     snd (fold (visit_depth start depth) ns (depths, nxt)) = nxt @ new \<and>
     set new = {n \<in> set ns. dget depths n = None \<and> n \<noteq> start}"
proof (induction ns arbitrary: depths nxt)
  case Nil
  then show ?case by simp
next
  case (Cons c ns)
  show ?case
  proof (cases "dget depths c = None \<and> c \<noteq> start")
    case True
    then have step: "fold (visit_depth start depth) (c # ns) (depths, nxt) =
        fold (visit_depth start depth) ns (dset c depth depths, nxt @ [c])"
      by (simp add: visit_depth_def)
    from Cons.IH [of "dset c depth depths" "nxt @ [c]"] obtain new where new:
      "fst (fold (visit_depth start depth) ns (dset c depth depths, nxt @ [c])) =
         fold (\<lambda>n. dset n depth) new (dset c depth depths)"
      "snd (fold (visit_depth start depth) ns (dset c depth depths, nxt @ [c])) = (nxt @ [c]) @ new"
      "set new = {n \<in> set ns. dget (dset c depth depths) n = None \<and> n \<noteq> start}" by blast
    show ?thesis unfolding step using new True by (intro exI [of _ "c # new"]) (auto simp: dget_dset)
  next
    case False
    then have "fold (visit_depth start depth) (c # ns) (depths, nxt) = fold (visit_depth start depth) ns (depths, nxt)"
      by (auto simp: visit_depth_def)
    moreover have "{n \<in> set (c # ns). dget depths n = None \<and> n \<noteq> start} =
        {n \<in> set ns. dget depths n = None \<and> n \<noteq> start}" using False by auto
    ultimately show ?thesis using Cons.IH [of depths nxt] by presburger
  qed
qed

lemma dget_fold_dset_const:
  "dget (fold (\<lambda>n. dset n v) ns d) n = (if n \<in> set ns then Some v else dget d n)"
  by (induction ns arbitrary: d) (auto simp: dget_dset)

lemma depth_loop_stop:
  "\<not> (frontier \<noteq> [] \<and> d < max_depth) \<Longrightarrow> depth_loop adj start max_depth d depths frontier = depths"
  by (subst depth_loop.simps) (rule if_not_P)

lemma depth_loop_step:
  "frontier \<noteq> [] \<and> d < max_depth \<Longrightarrow> depth_loop adj start max_depth d depths frontier =
     (let st = fold (visit_depth start (Suc d)) (concat (map (at adj) frontier)) (depths, [])
      in depth_loop adj start max_depth (Suc d) (fst st) (snd st))"
  by (subst depth_loop.simps) (rule if_P)

lemma depth_loop_hops:
  assumes "\<And>n k. dget depths n = Some k \<longleftrightarrow> n \<noteq> start \<and> k \<le> d \<and> hops adj start n k"
    and "\<And>n. n \<in> set frontier \<longleftrightarrow> hops adj start n d" and "d \<le> max_depth"
  shows "dget (depth_loop adj start max_depth d depths frontier) n = Some k \<longleftrightarrow>
    n \<noteq> start \<and> k \<le> max_depth \<and> hops adj start n k"
  using assms
proof (induction adj start max_depth d depths frontier arbitrary: n k rule: depth_loop.induct)
  case (1 adj start max_depth d depths frontier)
  note known = 1(2) and front = 1(3)
  show ?case
  proof (cases "frontier \<noteq> [] \<and> d < max_depth")
    case False
    note depth_loop_stop [OF False]
    moreover have "k \<le> d" if "hops adj start n k" "k \<le> max_depth" for n k
    proof (cases "frontier = []")
      case True
      then show ?thesis using hops_prefix [OF that(1), of d] front by fastforce
    next
      case f: False
      then show ?thesis using that False by simp
    qed
    ultimately show ?thesis using known 1(4) by auto
  next
    case True
    let ?ns = "concat (map (at adj) frontier)"
    let ?st = "fold (visit_depth start (Suc d)) ?ns (depths, [])"
    obtain new where new: "fst ?st = fold (\<lambda>n. dset n (Suc d)) new depths" "snd ?st = new"
        "set new = {n \<in> set ?ns. dget depths n = None \<and> n \<noteq> start}"
      using visit_depth_fold [of start "Suc d" ?ns depths "[]"] by auto
    have unknown: "dget depths n = None \<and> n \<noteq> start \<longleftrightarrow> \<not> (\<exists>k\<le>d. hops adj start n k)" for n
    proof (cases "n = start")
      case True
      then show ?thesis by (auto intro!: exI [of _ 0])
    next
      case False
      then show ?thesis using known [of n] by (cases "dget depths n") auto
    qed
    have layer: "n \<in> set new \<longleftrightarrow> hops adj start n (Suc d)" for n
      unfolding new(3) mem_Collect_eq unknown next_layer_hops [OF front] ..
    have known': "dget (fst ?st) n = Some k \<longleftrightarrow> n \<noteq> start \<and> k \<le> Suc d \<and> hops adj start n k" for n k
    proof (cases "n \<in> set new")
      case True
      then have "hops adj start n (Suc d)" "n \<noteq> start" using layer new(3) by auto
      then show ?thesis using True hops_unique by (auto simp: new(1) dget_fold_dset_const)
    next
      case False
      then show ?thesis using layer known by (auto simp: new(1) dget_fold_dset_const le_Suc_eq)
    qed
    have "depth_loop adj start max_depth d depths frontier = depth_loop adj start max_depth (Suc d) (fst ?st) (snd ?st)"
      by (simp only: depth_loop_step [OF True] Let_def)
    with 1(1) [OF True refl] known' layer True new(2) show ?thesis by simp
  qed
qed

lemma bfs_depths_hops:
  "dget (bfs_depths adj start max_depth) n = Some k \<longleftrightarrow> n \<noteq> start \<and> k \<le> max_depth \<and> hops adj start n k"
  unfolding bfs_depths_def by (rule depth_loop_hops) (auto simp: hops_def)

text \<open>
  The bounded search records exactly the functions within the bound, other than the start, each with the length
  of a shortest chain of calls that leads to it.
\<close>

theorem depths_are_shortest_distances:
  "dget (bfs_depths adj start max_depth) n =
     (if n \<noteq> start \<and> (\<exists>k\<le>max_depth. hops adj start n k) then Some (LEAST k. (start, n) \<in> calls adj ^^ k) else None)"
proof (cases "n \<noteq> start \<and> (\<exists>k\<le>max_depth. hops adj start n k)")
  case True
  then obtain k where k: "k \<le> max_depth" "hops adj start n k" by blast
  then have "(LEAST k. (start, n) \<in> calls adj ^^ k) = k"
    unfolding hops_def by (intro Least_equality) (auto simp: not_less [symmetric])
  with k True bfs_depths_hops show ?thesis by simp
next
  case False
  then show ?thesis using bfs_depths_hops [of adj start max_depth n] by (cases "dget (bfs_depths adj start max_depth) n") auto
qed

subsection \<open>Boundaries above a function\<close>

lemma dict_ok_bfs_depths: "dict_ok (bfs_depths adj start max_depth)"
proof -
  have folds: "dict_ok d \<Longrightarrow> dict_ok (fold (\<lambda>n. dset n v) ns d)" for ns :: "string list" and v :: nat and d
    by (induction ns arbitrary: d) simp_all
  have "dict_ok depths \<Longrightarrow> dict_ok (depth_loop adj start max_depth d depths frontier)" for d depths frontier
  proof (induction adj start max_depth d depths frontier rule: depth_loop.induct)
    case (1 adj start max_depth d depths frontier)
    let ?st = "fold (visit_depth start (Suc d)) (concat (map (at adj) frontier)) (depths, [])"
    have ok: "dict_ok (fst ?st)"
      using visit_depth_fold [of start "Suc d" "concat (map (at adj) frontier)" depths "[]"] folds [OF 1(2)] by metis
    show ?case
    proof (cases "frontier \<noteq> [] \<and> d < max_depth")
      case True
      with 1(1) [OF True refl ok] show ?thesis by (simp only: depth_loop_step [OF True] Let_def)
    next
      case False
      with 1(2) show ?thesis by (simp only: depth_loop_stop [OF False])
    qed
  qed
  then show ?thesis by (simp add: bfs_depths_def)
qed

lemma calls_invert: "dict_ok edges \<Longrightarrow> calls (invert edges) = (calls edges)\<inverse>"
  by (auto simp: calls_iff at_invert)

lemma relpow_inverse:
  fixes R :: "('a \<times> 'a) set"
  shows "(R\<inverse>) ^^ k = (R ^^ k)\<inverse>"
  by (induction k) (simp, metis converse_relcomp relpow.simps(2) relpow_commute)

definition boundary_at :: "(string, fn_facts) dict \<Rightarrow> string \<Rightarrow> nat \<Rightarrow> boundary" where
  "boundary_at facts q h = \<lparr>b_function = q, b_hops = h, b_signature = signature (facts_or_default facts q),
     b_mutating = mutating (facts_or_default facts q), b_shared = 1\<rparr>"

lemma boundary_at_function [simp]: "b_function (boundary_at facts q h) = q"
  by (simp add: boundary_at_def)

text \<open>
  C23: The caller boundaries are the best \<^verbatim>\<open>limit\<close> ones, state-preserving before mutating, then nearest, then by name, of
  all functions from which a chain of at most \<^verbatim>\<open>max_hops\<close> calls leads to the leaf, that are kept by the reachability
  filter, are no entry points, and can be summarized in the requested way; each is listed once, at its least distance.
\<close>

theorem caller_boundaries_are_the_best:
  assumes "dict_ok edges"
  shows "\<exists>all. caller_boundaries edges facts leaf reachable max_hops limit nondet = take limit all \<and>
    sorted (map boundary_key all) \<and> distinct (map b_function all) \<and>
    set all = {boundary_at facts q h | q h. q \<noteq> leaf \<and> h \<le> max_hops \<and> offered facts reachable nondet q \<and>
      (q, leaf) \<in> calls edges ^^ h \<and> (\<forall>j<h. (q, leaf) \<notin> calls edges ^^ j)}"
proof -
  let ?d = "bfs_depths (invert edges) leaf max_hops"
  define raw where "raw = map (\<lambda>(q, h). boundary_at facts q h) (filter (\<lambda>(q, h). offered facts reachable nondet q) ?d)"
  have hops: "hops (invert edges) leaf q h \<longleftrightarrow> (q, leaf) \<in> calls edges ^^ h \<and> (\<forall>j<h. (q, leaf) \<notin> calls edges ^^ j)" for q h
    unfolding hops_def calls_invert [OF assms] relpow_inverse by simp
  have entries: "(q, h) \<in> set ?d \<longleftrightarrow> q \<noteq> leaf \<and> h \<le> max_hops \<and> hops (invert edges) leaf q h" for q h
    using dget_in_iff [OF dict_ok_bfs_depths, of "invert edges" leaf max_hops q h] bfs_depths_hops by simp
  have "caller_boundaries edges facts leaf reachable max_hops limit nondet = take limit (sort_key boundary_key raw)"
    by (simp add: caller_boundaries_def raw_def boundary_at_def case_prod_unfold)
  moreover have "distinct (map b_function (sort_key boundary_key raw))"
  proof -
    have "map b_function raw = map fst (filter (\<lambda>(q, h). offered facts reachable nondet q) ?d)"
      by (simp add: raw_def case_prod_unfold comp_def)
    then have "distinct (map b_function raw)"
      using dict_ok_bfs_depths [of "invert edges" leaf max_hops] by (simp add: dict_ok_def distinct_map_filter)
    moreover have "mset (map b_function (sort_key boundary_key raw)) = mset (map b_function raw)" by simp
    ultimately show ?thesis by (metis mset_eq_imp_distinct_iff)
  qed
  moreover have "set (sort_key boundary_key raw) = {boundary_at facts q h | q h. q \<noteq> leaf \<and> h \<le> max_hops \<and>
      offered facts reachable nondet q \<and> (q, leaf) \<in> calls edges ^^ h \<and> (\<forall>j<h. (q, leaf) \<notin> calls edges ^^ j)}"
  proof -
    have "set (sort_key boundary_key raw) =
        {boundary_at facts q h | q h. (q, h) \<in> set ?d \<and> offered facts reachable nondet q}"
      unfolding raw_def by (simp only: set_sort set_map set_filter) fastforce
    then show ?thesis unfolding entries hops by (simp only: conj_ac)
  qed
  moreover have "sorted (map boundary_key (sort_key boundary_key raw))" by simp
  ultimately show ?thesis by blast
qed

subsection \<open>The shallowest boundary below an entry point\<close>

abbreviation prims_below :: "edges \<Rightarrow> string \<Rightarrow> (string, nat) dict" where
  "prims_below edges q \<equiv> descend_to_prims edges q None default_max_depth"

definition aggregator :: "edges \<Rightarrow> (string, fn_facts) dict \<Rightarrow> string \<Rightarrow> bool" where
  "aggregator edges facts q \<longleftrightarrow> sound_boundary facts q \<and> prims_below edges q \<noteq> []"

lemma visit_callee_fold:
  "\<exists>new. seen_nodes (fold (visit_callee edges facts) ns a) = rev new @ seen_nodes a \<and>
     next_layer (fold (visit_callee edges facts) ns a) = next_layer a @ new \<and>
     at_depth (fold (visit_callee edges facts) ns a) =
       at_depth a @ map (\<lambda>q. (q, length (prims_below edges q))) (filter (aggregator edges facts) new) \<and>
     set new = set ns - set (seen_nodes a)"
proof (induction ns arbitrary: a)
  case Nil
  then show ?case by simp
next
  case (Cons n ns)
  show ?case
  proof (cases "n \<in> set (seen_nodes a)")
    case True
    then have "fold (visit_callee edges facts) (n # ns) a = fold (visit_callee edges facts) ns a"
      by (simp add: visit_callee_def)
    moreover have "set (n # ns) - set (seen_nodes a) = set ns - set (seen_nodes a)" using True by auto
    ultimately show ?thesis using Cons.IH [of a] by presburger
  next
    case False
    let ?a = "visit_callee edges facts n a"
    have a: "seen_nodes ?a = n # seen_nodes a" "next_layer ?a = next_layer a @ [n]"
      "at_depth ?a = at_depth a @ map (\<lambda>q. (q, length (prims_below edges q))) (filter (aggregator edges facts) [n])"
      using False by (simp_all add: visit_callee_def aggregator_def Let_def)
    obtain new where new: "seen_nodes (fold (visit_callee edges facts) ns ?a) = rev new @ seen_nodes ?a"
      "next_layer (fold (visit_callee edges facts) ns ?a) = next_layer ?a @ new"
      "at_depth (fold (visit_callee edges facts) ns ?a) =
         at_depth ?a @ map (\<lambda>q. (q, length (prims_below edges q))) (filter (aggregator edges facts) new)"
      "set new = set ns - set (seen_nodes ?a)" using Cons.IH [of ?a] by blast
    have "set (n # new) = set (n # ns) - set (seen_nodes a)" using new(4) a(1) False by auto
    moreover have "fold (visit_callee edges facts) (n # ns) a = fold (visit_callee edges facts) ns ?a" by simp
    ultimately show ?thesis using new a by (intro exI [of _ "n # new"]) simp
  qed
qed

text \<open>The best boundary: nearest, then dominating most primitives, then least by name.\<close>

definition best_boundary :: "edges \<Rightarrow> (string, fn_facts) dict \<Rightarrow> string \<Rightarrow> nat \<Rightarrow> string option \<Rightarrow> bool" where
  "best_boundary edges facts start max_depth b \<longleftrightarrow>
     (case b of
        None \<Rightarrow> \<forall>q k. 0 < k \<and> k \<le> max_depth \<and> hops edges start q k \<longrightarrow> \<not> aggregator edges facts q
      | Some q \<Rightarrow> \<exists>k. 0 < k \<and> k \<le> max_depth \<and> hops edges start q k \<and> aggregator edges facts q \<and>
          (\<forall>q' j. 0 < j \<and> hops edges start q' j \<and> aggregator edges facts q' \<longrightarrow>
             (k, - int (length (prims_below edges q)), q) \<le> (j, - int (length (prims_below edges q')), q')))"

lemma shallow_loop_stop:
  "\<not> (frontier \<noteq> [] \<and> d < max_depth) \<Longrightarrow> shallow_loop edges facts max_depth d seen frontier = None"
  by (subst shallow_loop.simps) (rule if_not_P)

lemma shallow_loop_step:
  "frontier \<noteq> [] \<and> d < max_depth \<Longrightarrow> shallow_loop edges facts max_depth d seen frontier =
     (let a = fold (visit_callee edges facts) (concat (map (at edges) frontier))
                \<lparr>seen_nodes = seen, next_layer = [], at_depth = []\<rparr>
      in if at_depth a \<noteq> [] then Some (fst (hd (sort_key (\<lambda>(q, n). (- int n, q)) (at_depth a))))
         else shallow_loop edges facts max_depth (Suc d) (seen_nodes a) (next_layer a))"
  by (subst shallow_loop.simps) (rule if_P)

lemma hd_sort_key:
  fixes f :: "'a \<Rightarrow> 'b::linorder"
  assumes "xs \<noteq> []"
  shows "hd (sort_key f xs) \<in> set xs \<and> (\<forall>x\<in>set xs. f (hd (sort_key f xs)) \<le> f x)"
proof -
  obtain y ys where ys: "sort_key f xs = y # ys" using assms by (metis list.exhaust set_empty set_sort)
  then have "set xs = set (y # ys)" by (metis set_sort)
  moreover have "\<forall>x\<in>set (y # ys). f y \<le> f x" using sorted_sort_key [of f xs] unfolding ys by auto
  ultimately show ?thesis unfolding ys by simp
qed

lemma shallow_loop_best:
  assumes "\<And>n. n \<in> set seen \<longleftrightarrow> (\<exists>k\<le>d. hops edges start n k)"
    and "\<And>n. n \<in> set frontier \<longleftrightarrow> hops edges start n d" and "d \<le> max_depth"
    and "\<And>n k. 0 < k \<Longrightarrow> k \<le> d \<Longrightarrow> hops edges start n k \<Longrightarrow> \<not> aggregator edges facts n"
  shows "best_boundary edges facts start max_depth (shallow_loop edges facts max_depth d seen frontier)"
  using assms
proof (induction edges facts max_depth d seen frontier rule: shallow_loop.induct)
  case (1 edges facts max_depth d seen frontier)
  note seen = 1(2) and front = 1(3) and none = 1(5)
  show ?case
  proof (cases "frontier \<noteq> [] \<and> d < max_depth")
    case False
    have "k \<le> d" if "hops edges start n k" "k \<le> max_depth" for n k
      using that False hops_prefix [OF that(1), of d] front by fastforce
    then show ?thesis using none unfolding shallow_loop_stop [OF False] best_boundary_def by auto
  next
    case True
    let ?ns = "concat (map (at edges) frontier)"
    let ?a = "fold (visit_callee edges facts) ?ns \<lparr>seen_nodes = seen, next_layer = [], at_depth = []\<rparr>"
    obtain new where new: "seen_nodes ?a = rev new @ seen" "next_layer ?a = new"
        "at_depth ?a = map (\<lambda>q. (q, length (prims_below edges q))) (filter (aggregator edges facts) new)"
        "set new = set ?ns - set seen"
      using visit_callee_fold [of edges facts ?ns "\<lparr>seen_nodes = seen, next_layer = [], at_depth = []\<rparr>"] by auto
    have layer: "n \<in> set new \<longleftrightarrow> hops edges start n (Suc d)" for n
      unfolding new(4) Diff_iff seen using next_layer_hops [OF front] by blast
    show ?thesis
    proof (cases "at_depth ?a = []")
      case empty: True
      have "\<not> aggregator edges facts n" if "0 < k" "k \<le> Suc d" "hops edges start n k" for n k
        using that none [of k n] empty layer [of n] by (auto simp: new(3) filter_empty_conv le_Suc_eq)
      moreover have "n \<in> set (seen_nodes ?a) \<longleftrightarrow> (\<exists>k\<le>Suc d. hops edges start n k)" for n
        using layer [of n] seen [of n] by (auto simp: new(1) le_Suc_eq)
      ultimately have "best_boundary edges facts start max_depth
          (shallow_loop edges facts max_depth (Suc d) (seen_nodes ?a) (next_layer ?a))"
        using 1(1) [OF True refl] empty layer True new(2) by simp
      then show ?thesis using empty by (simp only: shallow_loop_step [OF True] Let_def) simp
    next
      case False
      define h where "h = hd (sort_key (\<lambda>(q, n). (- int n, q)) (at_depth ?a))"
      have h: "h \<in> set (at_depth ?a)" "\<forall>x\<in>set (at_depth ?a). (\<lambda>(q, n). (- int n, q)) h \<le> (\<lambda>(q, n). (- int n, q)) x"
        using hd_sort_key [OF False] unfolding h_def by blast+
      obtain q where q: "h = (q, length (prims_below edges q))" "q \<in> set new" "aggregator edges facts q"
        using h(1) unfolding new(3) by auto
      have "(Suc d, - int (length (prims_below edges q)), q) \<le> (j, - int (length (prims_below edges q')), q')"
        if "0 < j" "hops edges start q' j" "aggregator edges facts q'" for q' j
      proof (cases "j = Suc d")
        case True
        then have "(q', length (prims_below edges q')) \<in> set (at_depth ?a)" using that layer new(3) by auto
        then show ?thesis using h(2) True unfolding q(1) by auto
      next
        case False
        then have "Suc d < j" using none [OF that(1) _ that(2)] that(3) by (meson not_less_eq linorder_neqE_nat not_less)
        then show ?thesis by simp
      qed
      moreover have "shallow_loop edges facts max_depth d seen frontier = Some q"
        using False q(1) by (simp add: shallow_loop_step [OF True] Let_def flip: h_def)
      ultimately show ?thesis using layer q True unfolding best_boundary_def by (auto intro!: exI [of _ "Suc d"])
    qed
  qed
qed

lemma aggregator_iff:
  "aggregator edges facts q \<longleftrightarrow> sound_boundary facts q \<and>
     (\<exists>p k. p \<noteq> q \<and> k \<le> default_max_depth \<and> hops edges q p k \<and> is_nonlinear_prim p)"
proof -
  have "prims_below edges q \<noteq> [] \<longleftrightarrow> (\<exists>p k. (p, k) \<in> set (bfs_depths edges q default_max_depth) \<and> is_nonlinear_prim p)"
    by (auto simp: descend_to_prims_def filter_empty_conv kept_def)
  then show ?thesis
    unfolding aggregator_def dget_in_iff [OF dict_ok_bfs_depths, symmetric] bfs_depths_hops by blast
qed

text \<open>
  C10: Below an entry point the search returns a function that is safe to replace by a value and leads within four calls
  to a nonlinear primitive; no such function is nearer, none as near dominates more primitives, and a tie goes to the
  name that sorts first. It returns nothing only when there is no such function within the depth bound.
\<close>

theorem shallowest_boundary_is_best:
  "case entrypoint_in_edges edges entrypoint of
     None \<Rightarrow> shallowest_view_boundary edges facts entrypoint max_depth = None
   | Some start \<Rightarrow>
       best_boundary edges facts start max_depth (shallowest_view_boundary edges facts entrypoint max_depth)"
  unfolding shallowest_view_boundary_def
  by (auto split: option.split intro!: shallow_loop_best)

subsection \<open>Types without a blob\<close>

definition opaque :: "type_name option \<Rightarrow> bool" where
  \<comment> \<open>a type name that can never be a value: byte blobs, mappings, function types, unknown or missing nodes\<close>
  "opaque t \<longleftrightarrow> (case t of None \<Rightarrow> True
     | Some tn \<Rightarrow>
         if tn_kind tn = Some ''ElementaryTypeName'' then str_or_empty (tn_name tn) \<in> {''bytes'', ''string''}
         else tn_kind tn \<notin> {Some ''ArrayTypeName'', Some ''UserDefinedTypeName''})"

inductive part_of :: "merged \<Rightarrow> type_name option \<Rightarrow> type_name option \<Rightarrow> bool" for merged where
  part_refl: "part_of merged t t"
| part_element: "tn_kind tn = Some ''ArrayTypeName'' \<Longrightarrow> part_of merged (tn_base tn) t \<Longrightarrow> part_of merged (Some tn) t"
| part_member: "tn_kind tn = Some ''UserDefinedTypeName'' \<Longrightarrow> struct_decl merged tn = Some (sid, ms) \<Longrightarrow> m \<in> set ms \<Longrightarrow>
    part_of merged m t \<Longrightarrow> part_of merged (Some tn) t"

text \<open>An opaque part that is found without opening the structs of a set.\<close>

inductive blob_in :: "merged \<Rightarrow> string set \<Rightarrow> type_name option \<Rightarrow> bool" for merged opened where
  blob_here: "opaque t \<Longrightarrow> blob_in merged opened t"
| blob_element: "tn_kind tn = Some ''ArrayTypeName'' \<Longrightarrow> blob_in merged opened (tn_base tn) \<Longrightarrow> blob_in merged opened (Some tn)"
| blob_member: "tn_kind tn = Some ''UserDefinedTypeName'' \<Longrightarrow> struct_decl merged tn = Some (sid, ms) \<Longrightarrow> sid \<notin> opened \<Longrightarrow>
    m \<in> set ms \<Longrightarrow> blob_in merged opened m \<Longrightarrow> blob_in merged opened (Some tn)"

inductive_cases blob_in_SomeE: "blob_in merged opened (Some tn)"

lemma struct_decl_same: "struct_decl merged tn = Some (sid, ms) \<Longrightarrow> struct_decl merged tn' = Some (sid, ms') \<Longrightarrow> ms' = ms"
  by (auto simp: struct_decl_def split: option.splits if_splits)

lemma blob_in_mono: "blob_in merged opened' t \<Longrightarrow> opened \<subseteq> opened' \<Longrightarrow> blob_in merged opened t"
  by (induction rule: blob_in.induct) (auto intro: blob_in.intros)

text \<open>A blob found through a struct that is entered twice is found from the second entry on.\<close>

lemma blob_in_once:
  assumes "blob_in merged opened t" and "struct_decl merged tn = Some (sid, ms)"
  shows "blob_in merged (insert sid opened) t \<or> (\<exists>m\<in>set ms. blob_in merged (insert sid opened) m)"
  using assms(1)
proof induction
  case (blob_here t)
  then show ?case by (blast intro: blob_in.blob_here)
next
  case (blob_element tn)
  then show ?case by (blast intro: blob_in.blob_element)
next
  case (blob_member tn' sid' ms' m)
  show ?case
  proof (cases "sid' = sid")
    case True
    then have "m \<in> set ms" using struct_decl_same [OF assms(2)] blob_member by blast
    with blob_member.IH show ?thesis by blast
  next
    case False
    with blob_member show ?thesis by (blast intro: blob_in.blob_member)
  qed
qed

lemma expressible_iff_no_blob: "expressible_typename t merged seen \<longleftrightarrow> \<not> blob_in merged (set seen) t"
proof (induction t merged seen rule: expressible_typename.induct)
  case (1 merged seen)
  have "opaque None" by (simp add: opaque_def)
  then show ?case by (simp add: expressible_typename.simps blob_here)
next
  case (2 tn merged seen)
  consider "tn_kind tn = Some ''ElementaryTypeName''" | (array) "tn_kind tn = Some ''ArrayTypeName''"
    | (user) "tn_kind tn = Some ''UserDefinedTypeName''"
    | (other) "tn_kind tn \<notin> {Some ''ElementaryTypeName'', Some ''ArrayTypeName'', Some ''UserDefinedTypeName''}" by auto
  then show ?case
  proof cases
    case 1
    then show ?thesis
      by (auto simp: expressible_typename.simps non_expressible_elem_def opaque_def elim!: blob_in_SomeE intro: blob_here)
  next
    case array
    then have "blob_in merged (set seen) (Some tn) \<longleftrightarrow> blob_in merged (set seen) (tn_base tn)"
      by (auto simp: opaque_def elim!: blob_in_SomeE intro: blob_element)
    with array 2(1) show ?thesis by (simp add: expressible_typename.simps)
  next
    case user
    show ?thesis
    proof (cases "struct_decl merged tn")
      case None
      with user show ?thesis
        by (auto simp: expressible_typename.simps opaque_def elim!: blob_in_SomeE)
    next
      case (Some d)
      then obtain sid ms where d: "struct_decl merged tn = Some (sid, ms)" by (cases d) auto
      have open_struct: "blob_in merged (set seen) (Some tn) \<longleftrightarrow> sid \<notin> set seen \<and> (\<exists>m\<in>set ms. blob_in merged (set seen) m)"
        using user d by (auto simp: opaque_def elim!: blob_in_SomeE intro: blob_member)
      have "(\<exists>m\<in>set ms. blob_in merged (set seen) m) \<longleftrightarrow> (\<exists>m\<in>set ms. blob_in merged (set (sid # seen)) m)"
        using blob_in_once [OF _ d, of "set seen"] blob_in_mono [of merged "set (sid # seen)" _ "set seen"] by auto
      moreover have "expressible_typename (Some tn) merged seen \<longleftrightarrow>
          sid \<in> set seen \<or> (\<forall>m\<in>set ms. expressible_typename m merged (sid # seen))"
        using user d by (simp add: expressible_typename.simps list_all_iff)
      moreover have "expressible_typename m merged (sid # seen) \<longleftrightarrow> \<not> blob_in merged (set (sid # seen)) m"
        if "m \<in> set ms" "sid \<notin> set seen" for m
        using 2(2) user d that by simp
      ultimately show ?thesis unfolding open_struct by blast
    qed
  next
    case other
    then have "opaque (Some tn)" by (simp add: opaque_def)
    with other show ?thesis by (simp add: expressible_typename.simps blob_here)
  qed
qed

lemma blob_in_part: "blob_in merged {} t \<longleftrightarrow> (\<exists>b. part_of merged t b \<and> opaque b)"
proof
  show "blob_in merged {} t \<Longrightarrow> \<exists>b. part_of merged t b \<and> opaque b"
    by (induction rule: blob_in.induct) (blast intro: part_of.intros)+
  have "part_of merged t b \<Longrightarrow> opaque b \<Longrightarrow> blob_in merged {} t" for b
    by (induction rule: part_of.induct) (auto intro: blob_in.intros)
  then show "\<exists>b. part_of merged t b \<and> opaque b \<Longrightarrow> blob_in merged {} t" by blast
qed

text \<open>
  A type passes as expressible exactly when no part of it, through array elements and struct members at any depth
  and around any recursion of structs, is a byte blob, a mapping, a function type or an unknown node; the check ends
  on every declaration graph.
\<close>

theorem expressible_iff_no_opaque_part:
  "expressible_typename t merged [] \<longleftrightarrow> \<not> (\<exists>b. part_of merged t b \<and> opaque b)"
  using expressible_iff_no_blob [of t merged "[]"] blob_in_part by simp

subsection \<open>A small call graph\<close>

definition vault_calls :: edges where
  "vault_calls = [(''Vault.redeem'', [''Vault._assets'', ''Vault._pay'']), (''Vault._assets'', [''Math.mulDiv'']), (''Vault._pay'', [''Vault._assets''])]"

definition vault_facts :: "(string, fn_facts) dict" where
  "vault_facts =
     [(''Vault._assets'', \<lparr>signature = ''_assets(uint256) -> uint256'', expressible = True, mutating = False, external = False, nondet_ok = True\<rparr>),
      (''Vault._pay'', \<lparr>signature = ''_pay(uint256)'', expressible = False, mutating = True, external = False, nondet_ok = True\<rparr>),
      (''Vault.redeem'', \<lparr>signature = ''redeem(uint256)'', expressible = False, mutating = True, external = True, nondet_ok = True\<rparr>)]"

lemma vault_boundaries:
  "map b_function (caller_boundaries vault_calls vault_facts ''Math.mulDiv'' None 4 4 True) = [''Vault._assets'', ''Vault._pay''] \<and>
   shallowest_view_boundary vault_calls vault_facts ''VaultHarness.redeem'' 6 = Some ''Vault._assets''"
  by code_simp

lemma caller_boundaries_are_the_best_witness:
  "\<exists>all. caller_boundaries vault_calls vault_facts ''Math.mulDiv'' None 4 4 True = take 4 all \<and>
    sorted (map boundary_key all) \<and> distinct (map b_function all) \<and>
    set all = {boundary_at vault_facts q h | q h. q \<noteq> ''Math.mulDiv'' \<and> h \<le> 4 \<and> offered vault_facts None True q \<and>
      (q, ''Math.mulDiv'') \<in> calls vault_calls ^^ h \<and> (\<forall>j<h. (q, ''Math.mulDiv'') \<notin> calls vault_calls ^^ j)}"
  by (rule caller_boundaries_are_the_best) code_simp

end
