(* ===== verification/Harness.thy ===== *)
theory Harness
  imports Pystr "HOL-Library.Product_Lexorder"
begin

text \<open>
  The library harnesser (\<^verbatim>\<open>certora_autosetup/harnesser/\<close>): its data model (\<^verbatim>\<open>model.py\<close>), the decisions
  (\<^verbatim>\<open>plan.py\<close>) with the escape of reserved words (\<^verbatim>\<open>utils/cvl_keywords.py\<close>), and the rendering (\<^verbatim>\<open>render.py\<close>,
  with \<^verbatim>\<open>render_wrapper_contract\<close> of \<^verbatim>\<open>utils/contract_linker.py\<close>).

  A string field that takes one of a few constants stays a string, as in the code. The digest function is an
  argument of what uses it. Looking up a missing key of a \<^verbatim>\<open>dict\<close> raises \<^verbatim>\<open>KeyError\<close>.
\<close>

subsection \<open>Data model\<close>

datatype skip_reason =
    Private | StoragePointerReturn | InternalOnlyType | UnresolvedType | OpaqueHandle | AssemblyTerminator | Constructor

fun skip_reason_value :: "skip_reason \<Rightarrow> string" where
  "skip_reason_value Private = ''private''"
| "skip_reason_value StoragePointerReturn = ''storage_pointer_return''"
| "skip_reason_value InternalOnlyType = ''internal_only_type''"
| "skip_reason_value UnresolvedType = ''unresolved_type''"
| "skip_reason_value OpaqueHandle = ''opaque_handle''"
| "skip_reason_value AssemblyTerminator = ''assembly_terminator''"
| "skip_reason_value Constructor = ''constructor''"

definition loc_storage :: string where "loc_storage = ''storage''"
definition loc_memory :: string where "loc_memory = ''memory''"
definition loc_calldata :: string where "loc_calldata = ''calldata''"

record lib_param =
  p_name :: string
  solidity_type :: string
  location :: string
  desc_kind :: string

definition is_storage :: "lib_param \<Rightarrow> bool" where
  "is_storage p \<longleftrightarrow> location p = loc_storage"

definition is_reference :: "lib_param \<Rightarrow> bool" where
  "is_reference p \<longleftrightarrow> location p \<in> {loc_storage, loc_memory, loc_calldata}"

definition kind_value :: string where "kind_value = ''value''"
definition kind_struct :: string where "kind_struct = ''struct''"
definition kind_mapping :: string where "kind_mapping = ''mapping''"
definition kind_array :: string where "kind_array = ''array''"

datatype member_node =
  MemberNode (m_name: string) (m_type: string) (m_kind: string) (m_key_type: string)
    (m_value: "member_node option") (m_members: "member_node list")

record lib_function =
  f_name :: string
  f_visibility :: string
  f_mutability :: string
  f_params :: "lib_param list"
  f_returns :: "lib_param list"
  source_line :: int

definition storage_params :: "lib_function \<Rightarrow> lib_param list" where
  "storage_params fn = filter is_storage (f_params fn)"

record contract_handle =
  contract_name :: string
  source_file :: string

type_synonym struct_members = "(string, member_node list) dict"

record library_api =
  contract :: contract_handle
  api_functions :: "lib_function list"
  api_structs :: struct_members

record owned_var =
  var_name :: string
  var_type :: string

record wrapper =
  w_name :: string
  library_function :: string
  w_params :: "lib_param list"
  w_returns :: "lib_param list"
  w_mutability :: string
  call_args :: "string list"
  returns_mutated_param :: "string option"

record storage_reader =
  r_name :: string
  r_type :: string
  access_expression :: string
  r_params :: "lib_param list"
  r_location :: string

record skipped =
  s_function :: string
  s_reason :: skip_reason
  s_detail :: string

record harness_plan =
  harness :: contract_handle
  library :: contract_handle
  pragma_line :: string
  import_lines :: "string list"
  owned_vars :: "owned_var list"
  wrappers :: "wrapper list"
  readers :: "storage_reader list"
  plan_skipped :: "skipped list"

definition coverage :: "harness_plan \<Rightarrow> (string, nat) dict" where
  "coverage p =
     [(''total'', length (wrappers p) + length (plan_skipped p)), (''wrapped'', length (wrappers p)),
      (''skipped'', length (plan_skipped p)), (''readers'', length (readers p))]"

datatype harness_error = LibraryHarnessError string | MissingKey string

subsection \<open>Reserved words\<close>

definition cvl_reserved_words :: "string list" where
  "cvl_reserved_words =
     [''ALL'', ''ALWAYS'', ''ASSERT_FALSE'', ''AUTO'', ''CONSTANT'', ''Create'', ''DELETE'', ''DISPATCH'', ''DISPATCHER'',
      ''HAVOC_ALL'', ''HAVOC_ECF'', ''NONDET'', ''PER_CALLEE_CONSTANT'', ''STORAGE'', ''Sload'', ''Sstore'', ''Tload'',
      ''Tstore'', ''UNRESOLVED'', ''assert'', ''assuming'', ''at'', ''axiom'', ''default'', ''definition'', ''else'',
      ''event'', ''expect'', ''fallback'', ''false'', ''filtered'', ''function'', ''ghost'', ''good_description'',
      ''havoc'', ''if'', ''in'', ''indexed'', ''lastReverted'', ''lastStorage'', ''links'', ''mapping'', ''methods'',
      ''new'', ''norevert'', ''persistent'', ''require'', ''requireInvariant'', ''reset_storage'', ''return'',
      ''returns'', ''revert'', ''rule'', ''satisfy'', ''sort'', ''true'', ''void'', ''with'', ''withrevert'', ''xor'']"

definition cvl_usable_keywords :: "string list" where
  "cvl_usable_keywords =
     [''as'', ''builtin'', ''description'', ''exists'', ''forall'', ''hook'', ''import'', ''invariant'',
      ''old'', ''onTransactionBoundary'', ''override'', ''preserved'', ''sig'', ''strong'', ''sum'',
      ''unresolved'', ''use'', ''using'', ''usum'', ''weak'']"

definition is_cvl_keyword :: "string \<Rightarrow> bool" where
  "is_cvl_keyword name \<longleftrightarrow> name \<in> set cvl_reserved_words \<or> name \<in> set cvl_usable_keywords"

definition escape_reserved :: "string \<Rightarrow> string" where
  "escape_reserved name = (if name \<in> set cvl_reserved_words then name @ ''_'' else name)"

subsection \<open>Type expressions\<close>

fun collapse :: "bool \<Rightarrow> string \<Rightarrow> string" where
  \<comment> \<open>one underscore for each maximal run of characters that are not ASCII letters or digits\<close>
  "collapse in_run [] = []"
| "collapse in_run (c # cs) =
     (if is_alnum c then c # collapse False cs
      else (if in_run then [] else ''_'') @ collapse True cs)"

definition strip_char :: "char \<Rightarrow> string \<Rightarrow> string" where
  "strip_char x s = rev (dropWhile (\<lambda>c. c = x) (rev (dropWhile (\<lambda>c. c = x) s)))"

definition sanitize_identifier :: "string \<Rightarrow> string" where
  "sanitize_identifier s = strip_char (CHR ''_'') (collapse False s)"

definition internal_only_markers :: "string list" where
  "internal_only_markers = [''function('', ''mapping('']"

definition is_internal_only :: "string \<Rightarrow> bool" where
  "is_internal_only t \<longleftrightarrow> list_ex (\<lambda>marker. occurs_in marker t) internal_only_markers"

fun node_contains_mapping :: "member_node \<Rightarrow> nat \<Rightarrow> bool" where
  "node_contains_mapping (MemberNode name t kind key v ms) depth =
     (if depth > 8 \<or> kind = kind_mapping then True
      else if kind = kind_struct then list_ex (\<lambda>child. node_contains_mapping child (depth + 1)) ms
      else case v of Some node \<Rightarrow> if kind = kind_array then node_contains_mapping node (depth + 1) else False
           | None \<Rightarrow> False)"

definition contains_mapping :: "string \<Rightarrow> struct_members \<Rightarrow> bool" where
  "contains_mapping t structs =
     (if occurs_in ''mapping('' t then True
      else case dget structs (strip (str_replace None ''[]'' [] t)) of
          None \<Rightarrow> False
        | Some ms \<Rightarrow> list_ex (\<lambda>m. node_contains_mapping m 0) ms)"

subsection \<open>Classification\<close>

definition opaque_handle_reason :: "lib_function \<Rightarrow> string option" where
  "opaque_handle_reason fn =
     map_option (\<lambda>p. ''parameter '' @ squote @ p_name p @ squote @ '' is a library-internal pointer'')
       (find (\<lambda>p. p_name p \<in> {''ptr'', ''pointer''} \<and> solidity_type p = ''bytes32'') (f_params fn))"

definition skip :: "lib_function \<Rightarrow> skip_reason \<Rightarrow> string \<Rightarrow> skipped" where
  "skip fn reason detail = \<lparr>s_function = f_name fn, s_reason = reason, s_detail = detail\<rparr>"

definition function_type_kind :: string where
  "function_type_kind = ''Function''"

definition unresolved_skip :: "lib_function \<Rightarrow> lib_param \<Rightarrow> skipped" where
  "unresolved_skip fn p =
     (if desc_kind p = function_type_kind
      then skip fn InternalOnlyType (squote @ p_name p @ squote @ '' is an internal function type'')
      else skip fn UnresolvedType (''parameter '' @ squote @ p_name p @ squote))"

definition not_abi :: "struct_members \<Rightarrow> string \<Rightarrow> bool" where
  "not_abi structs t \<longleftrightarrow> is_internal_only t \<or> contains_mapping t structs"

definition classify :: "lib_function \<Rightarrow> struct_members \<Rightarrow> skipped option" where
  "classify fn structs =
     (if f_visibility fn = ''private'' then Some (skip fn Private [])
      else case find (\<lambda>p. solidity_type p = []) (f_params fn @ f_returns fn) of
        Some p \<Rightarrow> Some (unresolved_skip fn p)
      | None \<Rightarrow>
      (case find (\<lambda>p. \<not> is_storage p \<and> not_abi structs (solidity_type p)) (f_params fn) of
        Some p \<Rightarrow> Some (skip fn InternalOnlyType (solidity_type p @ '' '' @ p_name p))
      | None \<Rightarrow>
      (case find (\<lambda>r. is_storage r \<or> not_abi structs (solidity_type r)) (f_returns fn) of
        Some r \<Rightarrow>
          Some (if is_storage r then skip fn StoragePointerReturn (''returns '' @ solidity_type r @ '' storage'')
                else skip fn InternalOnlyType (''returns '' @ solidity_type r))
      | None \<Rightarrow> map_option (skip fn OpaqueHandle) (opaque_handle_reason fn))))"

subsection \<open>Wrappers\<close>

definition external_location :: "lib_param \<Rightarrow> string" where
  "external_location p = (if is_reference p then loc_memory else [])"

definition type_location :: "string \<Rightarrow> string" where
  "type_location t = (if t \<in> {''bytes'', ''string''} \<or> ends_in t '']'' then loc_memory else [])"

definition short_type_name :: "string \<Rightarrow> string \<Rightarrow> string" where
  "short_type_name t library_name =
     (let prefix = library_name @ ''.''
      in sanitize_identifier (if starts_with prefix t then drop (length prefix) t else t))"

definition owned_var_name :: "string \<Rightarrow> string \<Rightarrow> string" where
  "owned_var_name t library_name = ''_certoraStore_'' @ short_type_name t library_name"

definition mutated_memory_param :: "lib_function \<Rightarrow> lib_param option" where
  "mutated_memory_param fn =
     (if f_returns fn \<noteq> [] then None
      else case filter (\<lambda>p. location p = loc_memory) (f_params fn) of [p] \<Rightarrow> Some p | _ \<Rightarrow> None)"

definition wrapper_mutability :: "lib_function \<Rightarrow> bool \<Rightarrow> string" where
  "wrapper_mutability fn binds_state = (if binds_state \<and> f_mutability fn = ''pure'' then ''view'' else f_mutability fn)"

definition exposed_param :: "lib_param \<Rightarrow> lib_param" where
  "exposed_param p =
     \<lparr>p_name = p_name p, solidity_type = solidity_type p, location = external_location p, desc_kind = []\<rparr>"

type_synonym owned = "(string, owned_var) dict"

fun bind_params :: "owned \<Rightarrow> lib_param list \<Rightarrow> lib_param list \<Rightarrow> string list \<Rightarrow> bool \<Rightarrow>
    harness_error + lib_param list \<times> string list \<times> bool" where
  \<comment> \<open>the loop of \<^verbatim>\<open>_build_wrapper\<close>: exposed parameters, call arguments, whether state is bound\<close>
  "bind_params owned [] exposed args binds = Inr (exposed, args, binds)"
| "bind_params owned (p # ps) exposed args binds =
     (if is_storage p
      then case dget owned (solidity_type p) of
          None \<Rightarrow> Inl (MissingKey (solidity_type p))
        | Some var \<Rightarrow> bind_params owned ps exposed (args @ [var_name var]) True
      else bind_params owned ps (exposed @ [exposed_param p]) (args @ [p_name p]) binds)"

definition build_wrapper :: "owned \<Rightarrow> lib_function \<Rightarrow> harness_error + wrapper" where
  "build_wrapper owned fn =
     bindE (bind_params owned (f_params fn) [] [] False) (\<lambda>(exposed, args, binds).
       let mutated = mutated_memory_param fn
       in Inr \<lparr>w_name = f_name fn, library_function = f_name fn, w_params = exposed,
            w_returns = (case mutated of None \<Rightarrow> map exposed_param (f_returns fn)
              | Some p \<Rightarrow> [\<lparr>p_name = [], solidity_type = solidity_type p, location = loc_memory, desc_kind = []\<rparr>]),
            w_mutability = wrapper_mutability fn binds, call_args = args,
            returns_mutated_param = map_option p_name mutated\<rparr>)"

subsection \<open>Name collisions\<close>

definition abi_key :: "wrapper \<Rightarrow> string list" where
  "abi_key w = w_name w # map solidity_type (w_params w)"

definition suffixed :: "string \<Rightarrow> string \<Rightarrow> string" where
  "suffixed name suffix = (if ends_in name ''_'' then name @ suffix else name @ ''_'' @ suffix)"

definition mangling_suffix :: "string \<Rightarrow> lib_function \<Rightarrow> nat \<Rightarrow> string" where
  "mangling_suffix library_name fn ordinal =
     (let receivers = storage_params fn
      in if receivers \<noteq> [] then join ''_'' (map (\<lambda>p. short_type_name (solidity_type p) library_name) receivers)
         else show_nat ordinal)"

definition group_by_key :: "wrapper list \<Rightarrow> (string list, nat list) dict" where
  "group_by_key ws = fold (\<lambda>(i, w). append_at (abi_key w) i) (enumerate 0 ws) []"

definition rename_in_group :: "lib_function list \<Rightarrow> string \<Rightarrow> nat list \<Rightarrow> wrapper list \<Rightarrow> wrapper list" where
  "rename_in_group originals library_name indices ws =
     fold (\<lambda>(ordinal, i) ws.
       ws[i := (ws ! i)\<lparr>w_name := suffixed (w_name (ws ! i)) (mangling_suffix library_name (originals ! i) ordinal)\<rparr>])
       (enumerate 0 indices) ws"

fun mangle_rounds :: "nat \<Rightarrow> lib_function list \<Rightarrow> string \<Rightarrow> wrapper list \<Rightarrow> harness_error + wrapper list" where
  "mangle_rounds 0 originals library_name ws =
     Inl (LibraryHarnessError (''could not give every wrapper a unique signature; names still collide after '' @
       ''repeated mangling''))"
| "mangle_rounds (Suc n) originals library_name ws =
     (let colliding = filter (\<lambda>indices. length indices > 1) (vals (group_by_key ws))
      in if colliding = [] then Inr ws
         else mangle_rounds n originals library_name (fold (rename_in_group originals library_name) colliding ws))"

definition mangle_collisions :: "wrapper list \<Rightarrow> lib_function list \<Rightarrow> string \<Rightarrow> harness_error + wrapper list" where
  "mangle_collisions ws originals library_name = mangle_rounds (length ws + 1) originals library_name ws"

subsection \<open>Storage readers\<close>

definition max_reader_depth :: nat where "max_reader_depth = 4"
definition max_readers :: nat where "max_readers = 24"

definition emit_reader :: "member_node \<Rightarrow> string \<Rightarrow> string list \<Rightarrow> lib_param list \<Rightarrow> storage_reader list \<Rightarrow> storage_reader list" where
  "emit_reader node access name_parts params acc =
     (if m_kind node \<noteq> kind_value then acc
      else acc @ [\<lparr>r_name = join ''_'' (map sanitize_identifier (filter (\<lambda>part. part \<noteq> []) name_parts)),
             r_type = m_type node, access_expression = access, r_params = params, r_location = type_location (m_type node)\<rparr>])"

definition key_param :: "string \<Rightarrow> nat \<Rightarrow> lib_param" where
  "key_param key_type n =
     \<lparr>p_name = ''key'' @ show_nat n, solidity_type = key_type, location = type_location key_type, desc_kind = []\<rparr>"

fun walk_member :: "member_node \<Rightarrow> string \<Rightarrow> string list \<Rightarrow> lib_param list \<Rightarrow> storage_reader list \<Rightarrow> nat \<Rightarrow> storage_reader list" where
  "walk_member (MemberNode name t kind key v ms) access name_parts params acc depth =
     (if depth > max_reader_depth \<or> length acc \<ge> max_readers then acc
      else if kind = kind_struct
      then fold (\<lambda>child acc.
             walk_member child (access @ ''.'' @ m_name child) (name_parts @ [m_name child]) params acc (depth + 1)) ms acc
      else case v of
        Some node \<Rightarrow>
          if kind \<in> {kind_mapping, kind_array}
          then let p = key_param (if kind = kind_mapping then key else ''uint256'') (length params)
               in walk_member node (access @ ''['' @ p_name p @ '']'') name_parts (params @ [p]) acc (depth + 1)
          else emit_reader (MemberNode name t kind key v ms) access name_parts params acc
      | None \<Rightarrow> emit_reader (MemberNode name t kind key v ms) access name_parts params acc)"

definition storage_readers :: "owned_var list \<Rightarrow> struct_members \<Rightarrow> string \<Rightarrow> storage_reader list" where
  "storage_readers owned structs library_name =
     fold (\<lambda>var acc.
       fold (\<lambda>member acc.
         walk_member member (var_name var @ ''.'' @ m_name member)
           [short_type_name (var_type var) library_name, m_name member] [] acc 0)
         (case dget structs (var_type var) of None \<Rightarrow> [] | Some ms \<Rightarrow> ms) acc) owned []"

subsection \<open>The plan\<close>

definition add_owned :: "string \<Rightarrow> lib_param \<Rightarrow> owned \<Rightarrow> owned" where
  "add_owned library_name p owned =
     (if dget owned (solidity_type p) \<noteq> None then owned
      else dset (solidity_type p)
        \<lparr>var_name = owned_var_name (solidity_type p) library_name, var_type = solidity_type p\<rparr> owned)"

definition owned_of :: "string \<Rightarrow> lib_function list \<Rightarrow> owned" where
  "owned_of library_name fns = fold (\<lambda>fn. fold (add_owned library_name) (storage_params fn)) fns []"

definition ordered_functions :: "library_api \<Rightarrow> lib_function list" where
  "ordered_functions api = sort_key (\<lambda>f. (source_line f, f_name f)) (api_functions api)"

definition build_plan :: "library_api \<Rightarrow> contract_handle \<Rightarrow> string \<Rightarrow> string list \<Rightarrow> harness_error + harness_plan" where
  "build_plan api hn pragma imports =
     (let library_name = contract_name (contract api);
          ordered = ordered_functions api;
          skips = List.map_filter (\<lambda>fn. classify fn (api_structs api)) ordered;
          wrappable = filter (\<lambda>fn. classify fn (api_structs api) = None) ordered
      in if wrappable = []
         then Inl (LibraryHarnessError (''no function of library '' @ library_name @
                '' can be exposed through a harness ('' @ show_nat (length skips) @
                '' skipped) '' @ em_dash @ '' verifying it would prove nothing''))
         else
           let owned = owned_of library_name wrappable in
           bindE (mapE (build_wrapper owned) wrappable) (\<lambda>ws.
           bindE (mangle_collisions (map (\<lambda>w. w\<lparr>w_name := escape_reserved (w_name w)\<rparr>) ws) wrappable library_name) (\<lambda>ws.
             let owned_vars' = map (\<lambda>k. the (dget owned k)) (sort (keys owned))
             in Inr \<lparr>harness = hn, library = contract api, pragma_line = pragma, import_lines = imports,
                  owned_vars = owned_vars', wrappers = ws,
                  readers = storage_readers owned_vars' (api_structs api) library_name, plan_skipped = skips\<rparr>)))"

end
