(* ===== verification/Harness_Render.thy ===== *)
theory Harness_Render
  imports Harness
begin

text \<open>
  Rendering of a decided plan to Solidity (\<^verbatim>\<open>harnesser/render.py\<close>, \<^verbatim>\<open>render_wrapper_contract\<close> of
  \<^verbatim>\<open>utils/contract_linker.py\<close>). The hex digest of SHA-256 is the argument \<open>sha\<close>, the reader of JSON the argument
  \<open>loads\<close>, None where it raises.
\<close>

subsection \<open>Compact JSON\<close>

fun json_compact :: "json \<Rightarrow> string" where
  \<comment> \<open>\<^verbatim>\<open>json.dumps(v, sort_keys=True, separators=(",", ":"))\<close>\<close>
  "json_compact JNull = ''null''"
| "json_compact (JBool b) = (if b then ''true'' else ''false'')"
| "json_compact (JInt i) = show_int i"
| "json_compact (JFloat t) = t"
| "json_compact (JString s) = json_string s"
| "json_compact (JArray xs) = ''['' @ join '','' (map json_compact xs) @ '']''"
| "json_compact (JObject kvs) =
     ''{'' @ join '','' (map snd (sort_key fst (map (\<lambda>(k, v). (k, json_string k @ '':'' @ json_compact v)) kvs))) @ ''}''"

subsection \<open>Contracts\<close>

datatype linker_error = ValueError string

definition constructor_lines :: "string option \<Rightarrow> (string \<times> string list) option \<Rightarrow> string list" where
  "constructor_lines parent ctor_forward =
     (case ctor_forward of None \<Rightarrow> []
      | Some (params_src, arg_names) \<Rightarrow>
          [''    constructor('' @ params_src @ '') '' @ (case parent of None \<Rightarrow> ''None'' | Some p \<Rightarrow> p) @ ''('' @
           comma_join arg_names @ '') {}''])"

definition contract_lines :: "string \<Rightarrow> string option \<Rightarrow> string \<Rightarrow> string list \<Rightarrow> string list \<Rightarrow> string list \<Rightarrow> string list" where
  "contract_lines hname parent pragma imports body header =
     [''// SPDX-License-Identifier: UNLICENSED''] @ (if pragma \<noteq> [] then [pragma] else []) @ [[]] @ imports @ [[]] @ header @
     [case parent of None \<Rightarrow> ''contract '' @ hname @ '' {'' | Some p \<Rightarrow> ''contract '' @ hname @ '' is '' @ p @ '' {''] @
     body @ [''}'', []]"

definition render_wrapper_contract :: "string \<Rightarrow> string option \<Rightarrow> string \<Rightarrow> string list \<Rightarrow> (string \<times> string list) option \<Rightarrow>
    string list \<Rightarrow> string list \<Rightarrow> linker_error + string" where
  "render_wrapper_contract hname parent pragma imports ctor_forward body header =
     (if ctor_forward \<noteq> None \<and> parent = None then Inl (ValueError ''ctor_forward requires a parent_name to forward to'')
      else Inr (join newline (contract_lines hname parent pragma imports (constructor_lines parent ctor_forward @ body) header)))"

subsection \<open>Wrappers and readers\<close>

definition sentinel_prefix :: string where
  "sentinel_prefix = ''// certora-library-harness:''"

definition stub_function_name :: string where
  "stub_function_name = ''certoraLibraryHarnessPlaceholder''"

definition render_param :: "lib_param \<Rightarrow> bool \<Rightarrow> string" where
  "render_param p include_name =
     join '' '' ([solidity_type p] @ (if location p \<noteq> [] then [location p] else []) @
       (if include_name \<and> p_name p \<noteq> [] then [p_name p] else []))"

definition render_params :: "lib_param list \<Rightarrow> string" where
  "render_params ps = comma_join (map (\<lambda>p. render_param p True) ps)"

definition render_returns :: "lib_param list \<Rightarrow> string" where
  "render_returns rs =
     (if rs = [] then [] else '' returns ('' @ comma_join (map (\<lambda>r. render_param r False) rs) @ '')'')"

definition render_wrapper :: "wrapper \<Rightarrow> string \<Rightarrow> string" where
  "render_wrapper w library_name =
     (let mutability = (if w_mutability w \<in> {''view'', ''pure''} then '' '' @ w_mutability w else []);
          sig = ''    function '' @ w_name w @ ''('' @ render_params (w_params w) @ '') '' @
                ''public'' @ mutability @ render_returns (w_returns w) @ '' {'';
          call = library_name @ ''.'' @ library_function w @ ''('' @ comma_join (call_args w) @ '');'';
          body = (if truthy (returns_mutated_param w)
                  then [''        '' @ call, ''        return '' @ the (returns_mutated_param w) @ '';'']
                  else if w_returns w \<noteq> [] then [''        return '' @ call] else [''        '' @ call])
      in join newline ([sig] @ body @ [''    }'']))"

definition render_reader :: "storage_reader \<Rightarrow> string" where
  "render_reader r =
     (let loc = (if r_location r \<noteq> [] then '' '' @ r_location r else [])
      in join newline
           [''    function '' @ r_name r @ ''('' @ render_params (r_params r) @ '') '' @
            ''public view returns ('' @ r_type r @ loc @ '') {'',
            ''        return '' @ access_expression r @ '';'', ''    }''])"

subsection \<open>Provenance\<close>

definition json_pair :: "lib_param \<Rightarrow> json" where
  "json_pair p = JArray [JString (solidity_type p), JString (location p)]"

definition wrapper_payload :: "wrapper \<Rightarrow> json" where
  "wrapper_payload w =
     JArray [JString (w_name w), JString (library_function w), JArray (map json_pair (w_params w)),
       JArray (map json_pair (w_returns w)), JString (w_mutability w), JArray (map JString (call_args w)),
       (case returns_mutated_param w of None \<Rightarrow> JNull | Some s \<Rightarrow> JString s)]"

definition plan_payload :: "harness_plan \<Rightarrow> json" where
  "plan_payload p =
     JObject
       [(''library'', JString (contract_name (library p))), (''source'', JString (source_file (library p))),
        (''owned'', JArray (map (\<lambda>v. JArray [JString (var_name v), JString (var_type v)]) (owned_vars p))),
        (''wrappers'', JArray (map wrapper_payload (wrappers p))),
        (''readers'', JArray (map (\<lambda>r. JArray [JString (r_name r), JString (r_type r), JString (r_location r),
           JString (access_expression r)]) (readers p)))]"

definition plan_hash :: "(string \<Rightarrow> string) \<Rightarrow> harness_plan \<Rightarrow> string" where
  "plan_hash sha p = sha (json_compact (plan_payload p))"

definition sentinel_record :: "string \<Rightarrow> string \<Rightarrow> string" where
  \<comment> \<open>written without \<^verbatim>\<open>sort_keys\<close>\<close>
  "sentinel_record library_name digest =
     ''{'' @ dquote @ ''v'' @ dquote @ '':1,'' @ dquote @ ''library'' @ dquote @ '':'' @ json_string library_name @ '','' @
     dquote @ ''plan_hash'' @ dquote @ '':'' @ json_string digest @ ''}''"

definition sentinel_line :: "string \<Rightarrow> string \<Rightarrow> string" where
  "sentinel_line library_name digest = sentinel_prefix @ '' '' @ sentinel_record library_name digest"

fun read_sentinel_lines :: "(string \<Rightarrow> json option) \<Rightarrow> string list \<Rightarrow> json option" where
  "read_sentinel_lines loads [] = None"
| "read_sentinel_lines loads (l # ls) =
     (let stripped = strip l in
      if starts_with sentinel_prefix stripped then loads (strip (drop (length sentinel_prefix) stripped))
      else read_sentinel_lines loads ls)"

definition read_sentinel :: "(string \<Rightarrow> json option) \<Rightarrow> string \<Rightarrow> json option" where
  "read_sentinel loads source = read_sentinel_lines loads (splitlines source)"

subsection \<open>The two files\<close>

definition stub_record :: "string \<Rightarrow> string" where
  "stub_record library_name =
     ''{'' @ dquote @ ''v'' @ dquote @ '':1,'' @ dquote @ ''library'' @ dquote @ '':'' @ json_string library_name @ '','' @
     dquote @ ''stub'' @ dquote @ '':true}''"

definition render_stub :: "string \<Rightarrow> string \<Rightarrow> string \<Rightarrow> string list \<Rightarrow> linker_error + string" where
  "render_stub hname library_name pragma imports =
     render_wrapper_contract hname None pragma imports None
       [''    function '' @ stub_function_name @ ''() external pure returns (uint256) {'', ''        return 42;'', ''    }'']
       [sentinel_prefix @ '' '' @ stub_record library_name,
        ''// Placeholder harness for library '' @ library_name @ ''; the probe build reports the'',
        ''// library's API and this file is then regenerated with one wrapper per function.'']"

definition drop_trailing_blank :: "string list \<Rightarrow> string list" where
  "drop_trailing_blank ls = rev (dropWhile (\<lambda>l. l = []) (rev ls))"

definition harness_body :: "harness_plan \<Rightarrow> string list" where
  "harness_body p =
     drop_trailing_blank
       (map (\<lambda>v. ''    '' @ var_type v @ '' internal '' @ var_name v @ '';'') (owned_vars p) @
        (if owned_vars p \<noteq> [] then [[]] else []) @
        concat (map (\<lambda>w. [render_wrapper w (contract_name (library p)), []]) (wrappers p)) @
        (if readers p \<noteq> []
         then [''    // Getters over the harness-owned storage, so a spec can relate the'',
               ''    // library's API to the representation it maintains.''] @
              concat (map (\<lambda>r. [render_reader r, []]) (readers p))
         else []))"

definition harness_header :: "(string \<Rightarrow> string) \<Rightarrow> harness_plan \<Rightarrow> string list" where
  "harness_header sha p =
     [sentinel_line (contract_name (library p)) (plan_hash sha p),
      ''// Generated harness exposing library '' @ contract_name (library p) @ '' as a verifiable contract.'',
      ''// The Prover skips libraries when instantiating parametric rules, so the library's'',
      ''// functions are only reachable through a contract that calls them.''] @
     (if plan_skipped p \<noteq> []
      then [''// '' @ show_nat (length (plan_skipped p)) @ '' library function(s) could not be exposed; see the run report.'']
      else [])"

definition render_harness :: "(string \<Rightarrow> string) \<Rightarrow> harness_plan \<Rightarrow> linker_error + string" where
  "render_harness sha p =
     render_wrapper_contract (contract_name (harness p)) None (pragma_line p) (import_lines p) None
       (harness_body p) (harness_header sha p)"

end
