(* ===== verification/Harness_Laws.thy ===== *)
theory Harness_Laws
  imports Harness_Render "HOL-Library.Multiset"
begin

text \<open>
  What the library harness guarantees: every library function is wrapped or reported, wrappers have distinct
  signatures and cross the ABI boundary, storage arguments are bound to declared variables, the readers are
  bounded, the plan does not depend on the order of the build's function list, and a generated file is recognised
  by its sentinel. Three statements show where the code departs from its documentation.
\<close>

subsection \<open>Mangling\<close>

definition renamed :: "wrapper \<Rightarrow> wrapper \<Rightarrow> bool" where
  "renamed w w' \<longleftrightarrow> (\<exists>s. w' = w\<lparr>w_name := w_name w @ s\<rparr>)"

lemma renamed_refl [intro!]: "renamed w w"
  unfolding renamed_def by (rule exI [of _ "[]"]) simp

lemma renamed_trans: "renamed a b \<Longrightarrow> renamed b c \<Longrightarrow> renamed a c"
  by (auto simp: renamed_def)

lemma renamed_suffixed: "renamed w (w\<lparr>w_name := suffixed (w_name w) s\<rparr>)"
  by (auto simp: renamed_def suffixed_def)

lemma rename_in_group_renamed: "list_all2 renamed ws (rename_in_group originals lib indices ws)"
proof -
  have step: "list_all2 renamed ws xs \<Longrightarrow> list_all2 renamed ws
      (xs[i := (xs ! i)\<lparr>w_name := suffixed (w_name (xs ! i)) s\<rparr>])" for xs i s
    by (cases "i < length xs")
      (auto simp: list_all2_conv_all_nth nth_list_update, metis renamed_trans renamed_suffixed)
  have "list_all2 renamed ws xs \<Longrightarrow> list_all2 renamed ws (fold (\<lambda>(ordinal, i) xs.
      xs[i := (xs ! i)\<lparr>w_name := suffixed (w_name (xs ! i)) (mangling_suffix lib (originals ! i) ordinal)\<rparr>]) js xs)" for js xs
    by (induction js arbitrary: xs) (auto intro: step)
  moreover have "list_all2 renamed ws ws" by (simp add: list_all2_conv_all_nth renamed_refl)
  ultimately show ?thesis by (simp add: rename_in_group_def)
qed

lemma list_all2_renamed_trans: "list_all2 renamed as bs \<Longrightarrow> list_all2 renamed bs cs \<Longrightarrow> list_all2 renamed as cs"
  by (rule list_all2_trans [OF renamed_trans])

lemma rename_groups_renamed: "list_all2 renamed ws (fold (rename_in_group originals lib) groups ws)"
proof -
  have "list_all2 renamed ws xs \<Longrightarrow> list_all2 renamed ws (fold (rename_in_group originals lib) groups xs)" for xs
    by (induction groups arbitrary: xs) (simp, metis fold_simps(2) list_all2_renamed_trans rename_in_group_renamed)
  moreover have "list_all2 renamed ws ws" by (simp add: list_all2_conv_all_nth renamed_refl)
  ultimately show ?thesis by blast
qed

lemma length_renamed [simp]:
  "length (rename_in_group originals lib indices ws) = length ws"
  "length (fold (rename_in_group originals lib) groups ws) = length ws"
  using list_all2_lengthD [OF rename_in_group_renamed] list_all2_lengthD [OF rename_groups_renamed] by metis+

text \<open>The groups: for each key the positions that have it, in order.\<close>

definition positions :: "wrapper list \<Rightarrow> string list \<Rightarrow> nat list" where
  "positions ws k = filter (\<lambda>i. abi_key (ws ! i) = k) [0..<length ws]"

lemma group_by_key_snoc: "group_by_key (ws @ [w]) = append_at (abi_key w) (length ws) (group_by_key ws)"
  by (simp add: group_by_key_def enumerate_append_eq)

lemma positions_snoc: "positions (ws @ [w]) k = positions ws k @ (if abi_key w = k then [length ws] else [])"
  by (auto simp: positions_def nth_append intro!: filter_cong)

lemma dget_group_by_key: "dget (group_by_key ws) k = (if positions ws k = [] then None else Some (positions ws k))"
proof (induction ws rule: rev_induct)
  case Nil
  then show ?case by (simp add: group_by_key_def positions_def)
next
  case (snoc w ws)
  then show ?case by (auto simp: group_by_key_snoc positions_snoc append_at_def dget_dset)
qed

lemma dict_ok_group_by_key: "dict_ok (group_by_key ws)"
  by (induction ws rule: rev_induct) (simp_all add: group_by_key_snoc append_at_def, simp add: group_by_key_def)

lemma group_entry: "(k, is) \<in> set (group_by_key ws) \<longleftrightarrow> is = positions ws k \<and> is \<noteq> []"
  using dget_in_iff [OF dict_ok_group_by_key, of ws k "is"] unfolding dget_group_by_key by (auto split: if_splits)

lemma positions_iff: "i \<in> set (positions ws k) \<longleftrightarrow> i < length ws \<and> abi_key (ws ! i) = k"
  by (auto simp: positions_def)

lemma distinct_positions: "distinct (positions ws k)"
  by (simp add: positions_def)

abbreviation colliding :: "wrapper list \<Rightarrow> nat list list" where
  "colliding ws \<equiv> filter (\<lambda>indices. length indices > 1) (vals (group_by_key ws))"

lemma two_positions: "length (positions ws k) > 1 \<longleftrightarrow>
    (\<exists>i j. i < j \<and> j < length ws \<and> abi_key (ws ! i) = k \<and> abi_key (ws ! j) = k)"
proof
  assume "length (positions ws k) > 1"
  then have "positions ws k ! 0 \<in> set (positions ws k)" "positions ws k ! 1 \<in> set (positions ws k)"
    by (auto intro!: nth_mem)
  moreover have "positions ws k ! 0 < positions ws k ! 1"
    by (rule sorted_wrt_nth_less [of "(<)"])
      (use \<open>length (positions ws k) > 1\<close> in \<open>auto simp: positions_def sorted_wrt_filter\<close>)
  ultimately show "\<exists>i j. i < j \<and> j < length ws \<and> abi_key (ws ! i) = k \<and> abi_key (ws ! j) = k"
    unfolding positions_iff by blast
next
  assume "\<exists>i j. i < j \<and> j < length ws \<and> abi_key (ws ! i) = k \<and> abi_key (ws ! j) = k"
  then obtain i j where ij: "i < j" "{i, j} \<subseteq> set (positions ws k)" unfolding positions_iff [of _ ws k]
    by (metis (no_types, lifting) empty_subsetI insert_subset less_trans positions_iff)
  then have "card {i, j} \<le> card (set (positions ws k))" by (intro card_mono) auto
  with ij(1) show "length (positions ws k) > 1" by (simp add: distinct_card [OF distinct_positions])
qed

lemma colliding_iff: "is \<in> set (colliding ws) \<longleftrightarrow> (\<exists>k. is = positions ws k) \<and> length is > 1"
  using group_entry [of _ "is" ws] by (force simp: image_iff)

lemma no_collision_iff: "colliding ws = [] \<longleftrightarrow> distinct (map abi_key ws)"
proof -
  have "colliding ws = [] \<longleftrightarrow> (\<forall>k. \<not> length (positions ws k) > 1)"
    using colliding_iff [of _ ws] by (metis list.set_intros(1) neq_Nil_conv empty_iff empty_set)
  also have "\<dots> \<longleftrightarrow> (\<forall>i j. i < j \<and> j < length ws \<longrightarrow> abi_key (ws ! i) \<noteq> abi_key (ws ! j))"
    unfolding two_positions by metis
  also have "\<dots> \<longleftrightarrow> distinct (map abi_key ws)"
    by (auto simp: distinct_conv_nth) (metis nat_neq_iff less_trans)+
  finally show ?thesis .
qed

lemma mangle_rounds_ok:
  "mangle_rounds n originals lib ws = Inr ws' \<Longrightarrow> distinct (map abi_key ws') \<and> list_all2 renamed ws ws'"
proof (induction n arbitrary: ws)
  case (Suc n)
  show ?case
  proof (cases "colliding ws = []")
    case True
    with Suc.prems have "ws' = ws" by simp
    then show ?thesis using True no_collision_iff by (auto simp: list_all2_conv_all_nth)
  next
    case False
    with Suc.prems have "mangle_rounds n originals lib (fold (rename_in_group originals lib) (colliding ws) ws) = Inr ws'"
      by (simp add: Let_def)
    from Suc.IH [OF this] show ?thesis using list_all2_renamed_trans [OF rename_groups_renamed] by blast
  qed
qed simp

subsection \<open>Overloads that mangling cannot separate\<close>

lemma rename_steps_other:
  "i \<notin> snd ` set js \<Longrightarrow> fold (\<lambda>(ordinal, i) xs.
     xs[i := (xs ! i)\<lparr>w_name := suffixed (w_name (xs ! i)) (mangling_suffix lib (originals ! i) ordinal)\<rparr>]) js xs ! i = xs ! i"
  by (induction js arbitrary: xs) auto

lemma rename_other: "i \<notin> set indices \<Longrightarrow> rename_in_group originals lib indices xs ! i = xs ! i"
  unfolding rename_in_group_def by (rule rename_steps_other) (metis image_set map_snd_enumerate)

definition receiver_suffix :: "lib_function \<Rightarrow> string \<Rightarrow> string" where
  "receiver_suffix fn lib = join ''_'' (map (\<lambda>p. short_type_name (solidity_type p) lib) (storage_params fn))"

lemma mangling_suffix_receiver: "storage_params fn \<noteq> [] \<Longrightarrow> mangling_suffix lib fn ordinal = receiver_suffix fn lib"
  by (simp add: mangling_suffix_def receiver_suffix_def Let_def)

lemma rename_steps_member:
  assumes "distinct (map snd js)" and "i \<in> snd ` set js" and "i < length xs" and "storage_params (originals ! i) \<noteq> []"
  shows "fold (\<lambda>(ordinal, i) xs.
     xs[i := (xs ! i)\<lparr>w_name := suffixed (w_name (xs ! i)) (mangling_suffix lib (originals ! i) ordinal)\<rparr>]) js xs ! i =
     (xs ! i)\<lparr>w_name := suffixed (w_name (xs ! i)) (receiver_suffix (originals ! i) lib)\<rparr>"
  using assms
proof (induction js arbitrary: xs)
  case (Cons j js)
  obtain ordinal i' where j: "j = (ordinal, i')" by fastforce
  show ?case
  proof (cases "i' = i")
    case True
    then have "i \<notin> snd ` set js" using Cons.prems(1) j by auto
    then show ?thesis using Cons.prems(3,4) True j
      by (simp add: rename_steps_other mangling_suffix_receiver)
  next
    case False
    then have "i \<in> snd ` set js" using Cons.prems(2) j by auto
    then show ?thesis using Cons.IH Cons.prems False j by simp
  qed
qed simp

lemma rename_member:
  assumes "distinct indices" "i \<in> set indices" "i < length xs" "storage_params (originals ! i) \<noteq> []"
  shows "rename_in_group originals lib indices xs ! i =
    (xs ! i)\<lparr>w_name := suffixed (w_name (xs ! i)) (receiver_suffix (originals ! i) lib)\<rparr>"
  unfolding rename_in_group_def
proof (rule rename_steps_member)
  show "i \<in> snd ` set (enumerate 0 indices)" using assms(2) by (metis image_set map_snd_enumerate)
qed (use assms in simp_all)

lemma rename_groups_other:
  "\<forall>g\<in>set gs. i \<notin> set g \<Longrightarrow> fold (rename_in_group originals lib) gs xs ! i = xs ! i"
  by (induction gs arbitrary: xs) (auto simp: rename_other)

lemma rename_groups_member:
  assumes "distinct gs" and "g \<in> set gs" and "i \<in> set g" and "\<And>h. h \<in> set gs \<Longrightarrow> i \<in> set h \<Longrightarrow> h = g"
    and "distinct g" "i < length xs" "storage_params (originals ! i) \<noteq> []"
  shows "fold (rename_in_group originals lib) gs xs ! i =
    (xs ! i)\<lparr>w_name := suffixed (w_name (xs ! i)) (receiver_suffix (originals ! i) lib)\<rparr>"
  using assms
proof (induction gs arbitrary: xs)
  case (Cons h gs)
  show ?case
  proof (cases "h = g")
    case True
    have "\<forall>h\<in>set gs. i \<notin> set h"
    proof (intro ballI notI)
      fix h' assume "h' \<in> set gs" "i \<in> set h'"
      then have "h' = g" using Cons.prems(4) by simp
      with \<open>h' \<in> set gs\<close> True Cons.prems(1) show False by simp
    qed
    then have "fold (rename_in_group originals lib) (h # gs) xs ! i = rename_in_group originals lib g xs ! i"
      using True by (simp add: rename_groups_other)
    then show ?thesis using rename_member [OF Cons.prems(5,3,6,7)] by simp
  next
    case False
    then have "i \<notin> set h" using Cons.prems(4) [of h] by auto
    moreover have "fold (rename_in_group originals lib) gs (rename_in_group originals lib h xs) ! i =
        (rename_in_group originals lib h xs ! i)\<lparr>w_name :=
          suffixed (w_name (rename_in_group originals lib h xs ! i)) (receiver_suffix (originals ! i) lib)\<rparr>"
      using Cons.prems False by (intro Cons.IH) auto
    ultimately show ?thesis by (simp add: rename_other)
  qed
qed simp

lemma distinct_colliding: "distinct (colliding ws)"
proof -
  have "inj_on snd (set (group_by_key ws))"
  proof (rule inj_onI)
    fix e e' assume e: "e \<in> set (group_by_key ws)" "e' \<in> set (group_by_key ws)" "snd e = snd e'"
    then obtain k k' "is" where ks: "e = (k, is)" "e' = (k', is)" by (metis prod.collapse)
    with e obtain i where "i \<in> set (positions ws k)" "positions ws k = positions ws k'"
      by (metis group_entry list.set_sel(1))
    then show "e = e'" using ks unfolding positions_iff by (metis positions_iff)
  qed
  moreover have "distinct (group_by_key ws)" using dict_ok_group_by_key [of ws] distinct_map by (auto simp: dict_ok_def)
  ultimately show ?thesis by (simp add: distinct_map)
qed

lemma round_renames_member:
  assumes "abi_key (ws ! i) = abi_key (ws ! j)" and "i \<noteq> j" "i < length ws" "j < length ws"
    and "storage_params (originals ! i) \<noteq> []"
  shows "fold (rename_in_group originals lib) (colliding ws) ws ! i =
    (ws ! i)\<lparr>w_name := suffixed (w_name (ws ! i)) (receiver_suffix (originals ! i) lib)\<rparr>"
proof (rule rename_groups_member [of _ "positions ws (abi_key (ws ! i))"])
  have "length (positions ws (abi_key (ws ! i))) > 1"
    unfolding two_positions using assms by (metis nat_neq_iff)
  then show "positions ws (abi_key (ws ! i)) \<in> set (colliding ws)" unfolding colliding_iff by blast
  show "h = positions ws (abi_key (ws ! i))" if "h \<in> set (colliding ws)" "i \<in> set h" for h
    using that unfolding colliding_iff by (auto simp: positions_iff)
  show "distinct (colliding ws)" by (rule distinct_colliding)
qed (use assms in \<open>simp_all add: positions_iff distinct_positions\<close>)

definition inseparable :: "lib_function list \<Rightarrow> string \<Rightarrow> wrapper list \<Rightarrow> nat \<Rightarrow> nat \<Rightarrow> bool" where
  "inseparable originals lib ws i j \<longleftrightarrow>
     i < j \<and> j < length ws \<and> abi_key (ws ! i) = abi_key (ws ! j) \<and>
     storage_params (originals ! i) \<noteq> [] \<and> storage_params (originals ! j) \<noteq> [] \<and>
     receiver_suffix (originals ! i) lib = receiver_suffix (originals ! j) lib"

lemma inseparable_round:
  assumes "inseparable originals lib ws i j"
  shows "inseparable originals lib (fold (rename_in_group originals lib) (colliding ws) ws) i j"
proof -
  let ?ws = "fold (rename_in_group originals lib) (colliding ws) ws"
  have i: "?ws ! i = (ws ! i)\<lparr>w_name := suffixed (w_name (ws ! i)) (receiver_suffix (originals ! i) lib)\<rparr>"
    by (rule round_renames_member [of _ _ j]) (use assms in \<open>auto simp: inseparable_def\<close>)
  have j: "?ws ! j = (ws ! j)\<lparr>w_name := suffixed (w_name (ws ! j)) (receiver_suffix (originals ! j) lib)\<rparr>"
    by (rule round_renames_member [of _ _ i]) (use assms in \<open>auto simp: inseparable_def\<close>)
  show ?thesis using assms unfolding inseparable_def i j by (simp add: abi_key_def)
qed

lemma inseparable_never_converge:
  "inseparable originals lib ws i j \<Longrightarrow> \<exists>m. mangle_rounds n originals lib ws = Inl (LibraryHarnessError m)"
proof (induction n arbitrary: ws)
  case (Suc n)
  then have "colliding ws \<noteq> []"
    unfolding no_collision_iff inseparable_def distinct_conv_nth
    by (metis length_map less_trans nat_neq_iff nth_map)
  then show ?case using Suc.IH [OF inseparable_round [OF Suc.prems]] by (simp add: Let_def)
qed simp

text \<open>
  Two wrappers with one signature whose library functions have equal storage receivers are never separated: every
  round of mangling appends the same suffix to both, so the harness is refused after the last round. Overloads that
  differ only in the position of the receiver are of this kind.
\<close>

theorem equal_receivers_are_never_separated:
  assumes "inseparable originals lib ws i j"
  shows "\<exists>m. mangle_collisions ws originals lib = Inl (LibraryHarnessError m)"
  unfolding mangle_collisions_def by (rule inseparable_never_converge [OF assms])

definition mirrored :: "lib_function list" where
  "mirrored =
     (let p = \<lparr>p_name = ''self'', solidity_type = ''Sets.A'', location = loc_storage, desc_kind = []\<rparr>;
          q = \<lparr>p_name = ''x'', solidity_type = ''uint256'', location = [], desc_kind = []\<rparr>
      in map (\<lambda>ps. \<lparr>f_name = ''add'', f_visibility = ''internal'', f_mutability = [], f_params = ps, f_returns = [], source_line = 1\<rparr>)
           [[p, q], [q, p]])"

lemma equal_receivers_are_never_separated_witness:
  "\<exists>m. mangle_collisions (map (\<lambda>fn. \<lparr>w_name = f_name fn, library_function = f_name fn,
       w_params = filter (\<lambda>p. \<not> is_storage p) (f_params fn), w_returns = [], w_mutability = [], call_args = [],
       returns_mutated_param = None\<rparr>) mirrored) mirrored ''Sets'' = Inl (LibraryHarnessError m)"
  by (rule equal_receivers_are_never_separated [of _ _ _ 0 1]) code_simp

subsection \<open>Owned variables and call arguments\<close>

definition storage_types :: "lib_function list \<Rightarrow> string list" where
  "storage_types fns = concat (map (\<lambda>fn. map solidity_type (storage_params fn)) fns)"

definition variable_of :: "string \<Rightarrow> string \<Rightarrow> owned_var" where
  "variable_of lib t = \<lparr>var_name = owned_var_name t lib, var_type = t\<rparr>"

lemma dget_add_owned_fold:
  "\<forall>t v. dget owned t = Some v \<longrightarrow> v = variable_of lib t \<Longrightarrow>
   dget (fold (add_owned lib) ps owned) t =
     (if t \<in> solidity_type ` set ps then Some (variable_of lib t) else dget owned t)"
proof (induction ps arbitrary: owned)
  case (Cons p ps)
  have step: "dget (add_owned lib p owned) t =
      (if t = solidity_type p then Some (variable_of lib t) else dget owned t)" for t
    using Cons.prems by (auto simp: add_owned_def variable_of_def dget_dset)
  show ?case using Cons.prems by (simp add: Cons.IH step)
qed simp

lemma dget_owned_of: "dget (owned_of lib fns) t = (if t \<in> set (storage_types fns) then Some (variable_of lib t) else None)"
proof -
  have "\<forall>t v. dget owned t = Some v \<longrightarrow> v = variable_of lib t \<Longrightarrow>
      dget (fold (\<lambda>fn. fold (add_owned lib) (storage_params fn)) fns owned) t =
        (if t \<in> set (storage_types fns) then Some (variable_of lib t) else dget owned t)" for owned
  proof (induction fns arbitrary: owned)
    case Nil
    then show ?case by (simp add: storage_types_def)
  next
    case (Cons fn fns)
    note step = dget_add_owned_fold [OF Cons.prems]
    have "dget (fold (\<lambda>fn. fold (add_owned lib) (storage_params fn)) fns (fold (add_owned lib) (storage_params fn) owned)) t =
        (if t \<in> set (storage_types fns) then Some (variable_of lib t)
         else dget (fold (add_owned lib) (storage_params fn) owned) t)"
      using Cons.prems by (intro Cons.IH) (simp add: step)
    then show ?case by (auto simp: step storage_types_def)
  qed
  then show ?thesis by (simp add: owned_of_def)
qed

lemma dict_ok_owned_of: "dict_ok (owned_of lib fns)"
proof -
  have "dict_ok owned \<Longrightarrow> dict_ok (fold (add_owned lib) ps owned)" for ps owned
    by (induction ps arbitrary: owned) (simp_all add: add_owned_def)
  then have "dict_ok owned \<Longrightarrow> dict_ok (fold (\<lambda>fn. fold (add_owned lib) (storage_params fn)) fns owned)" for owned
    by (induction fns arbitrary: owned) simp_all
  then show ?thesis by (simp add: owned_of_def)
qed

lemma set_keys_owned_of: "set (keys (owned_of lib fns)) = set (storage_types fns)"
  using dget_owned_of [of lib fns] dget_None_iff [of "owned_of lib fns"] by (metis option.distinct(1) subsetI subset_antisym)

definition argument :: "string \<Rightarrow> lib_param \<Rightarrow> string" where
  "argument lib p = (if is_storage p then owned_var_name (solidity_type p) lib else p_name p)"

lemma bind_params_eq:
  "\<forall>p\<in>set ps. is_storage p \<longrightarrow> dget owned (solidity_type p) = Some (variable_of lib (solidity_type p)) \<Longrightarrow>
   bind_params owned ps exposed args binds =
     Inr (exposed @ map exposed_param (filter (\<lambda>p. \<not> is_storage p) ps), args @ map (argument lib) ps,
          binds \<or> list_ex is_storage ps)"
  by (induction ps arbitrary: exposed args binds) (auto simp: argument_def variable_of_def)

text \<open>What \<^verbatim>\<open>_build_wrapper\<close> makes of a function.\<close>

definition wrapper_of :: "string \<Rightarrow> lib_function \<Rightarrow> wrapper" where
  "wrapper_of lib fn =
     \<lparr>w_name = f_name fn, library_function = f_name fn,
      w_params = map exposed_param (filter (\<lambda>p. \<not> is_storage p) (f_params fn)),
      w_returns = (case mutated_memory_param fn of None \<Rightarrow> map exposed_param (f_returns fn)
        | Some p \<Rightarrow> [\<lparr>p_name = [], solidity_type = solidity_type p, location = loc_memory, desc_kind = []\<rparr>]),
      w_mutability = wrapper_mutability fn (list_ex is_storage (f_params fn)),
      call_args = map (argument lib) (f_params fn),
      returns_mutated_param = map_option p_name (mutated_memory_param fn)\<rparr>"

lemma build_wrapper_eq:
  assumes "fn \<in> set fns"
  shows "build_wrapper (owned_of lib fns) fn = Inr (wrapper_of lib fn)"
proof -
  have "dget (owned_of lib fns) (solidity_type p) = Some (variable_of lib (solidity_type p))"
    if "p \<in> set (f_params fn)" "is_storage p" for p
    using assms that by (auto simp: dget_owned_of storage_types_def storage_params_def)
  then show ?thesis
    by (simp add: build_wrapper_def bind_params_eq [of _ _ lib] wrapper_of_def Let_def)
qed

text \<open>The functions that get a wrapper, and the wrappers before mangling.\<close>

definition wrappable_functions :: "library_api \<Rightarrow> lib_function list" where
  "wrappable_functions api = filter (\<lambda>fn. classify fn (api_structs api) = None) (ordered_functions api)"

definition escaped_wrappers :: "library_api \<Rightarrow> wrapper list" where
  "escaped_wrappers api =
     map (\<lambda>fn. (wrapper_of (contract_name (contract api)) fn)\<lparr>w_name := escape_reserved (f_name fn)\<rparr>) (wrappable_functions api)"

definition declared_variables :: "library_api \<Rightarrow> owned_var list" where
  "declared_variables api =
     map (variable_of (contract_name (contract api))) (sorted_set (storage_types (wrappable_functions api)))"

lemma build_plan_eq:
  fixes api
  defines "lib \<equiv> contract_name (contract api)"
  assumes "wrappable_functions api \<noteq> []"
  shows "build_plan api hn pragma imports =
    bindE (mangle_collisions (escaped_wrappers api) (wrappable_functions api) lib) (\<lambda>ws.
      Inr \<lparr>harness = hn, library = contract api, pragma_line = pragma, import_lines = imports,
           owned_vars = declared_variables api, wrappers = ws,
           readers = storage_readers (declared_variables api) (api_structs api) lib,
           plan_skipped = List.map_filter (\<lambda>fn. classify fn (api_structs api)) (ordered_functions api)\<rparr>)"
proof -
  let ?fns = "wrappable_functions api"
  have ws: "mapE (build_wrapper (owned_of lib ?fns)) ?fns = Inr (map (wrapper_of lib) ?fns)"
    by (rule mapE_pure) (rule build_wrapper_eq)
  have "distinct (keys (owned_of lib ?fns))" using dict_ok_owned_of by (simp add: dict_ok_def)
  then have "sort (keys (owned_of lib ?fns)) = sorted_set (storage_types ?fns)"
    using set_keys_owned_of [of lib ?fns] by (intro sorted_distinct_set_unique) simp_all
  then have vars: "map (\<lambda>k. the (dget (owned_of lib ?fns) k)) (sort (keys (owned_of lib ?fns))) = declared_variables api"
    unfolding declared_variables_def lib_def by (simp add: dget_owned_of)
  have escaped: "map (\<lambda>w. w\<lparr>w_name := escape_reserved (w_name w)\<rparr>) (map (wrapper_of lib) ?fns) = escaped_wrappers api"
    by (simp add: escaped_wrappers_def lib_def wrapper_of_def)
  show ?thesis
    using assms(2) unfolding build_plan_def Let_def lib_def [symmetric] wrappable_functions_def [symmetric]
    by (simp only: if_False ws bindE.simps escaped vars)
qed

lemma build_plan_InrD:
  assumes "build_plan api hn pragma imports = Inr p"
  shows "list_all2 renamed (escaped_wrappers api) (wrappers p)" and "distinct (map abi_key (wrappers p))"
    and "plan_skipped p = List.map_filter (\<lambda>fn. classify fn (api_structs api)) (ordered_functions api)"
    and "owned_vars p = declared_variables api"
    and "readers p = storage_readers (declared_variables api) (api_structs api) (contract_name (contract api))"
proof -
  have ne: "wrappable_functions api \<noteq> []"
    using assms by (auto simp: build_plan_def wrappable_functions_def Let_def split: if_splits)
  obtain ws where m: "mangle_collisions (escaped_wrappers api) (wrappable_functions api) (contract_name (contract api)) = Inr ws"
    and p: "p = \<lparr>harness = hn, library = contract api, pragma_line = pragma, import_lines = imports,
           owned_vars = declared_variables api, wrappers = ws,
           readers = storage_readers (declared_variables api) (api_structs api) (contract_name (contract api)),
           plan_skipped = List.map_filter (\<lambda>fn. classify fn (api_structs api)) (ordered_functions api)\<rparr>"
    using assms unfolding build_plan_eq [OF ne] bindE_Inr_iff by auto
  show "list_all2 renamed (escaped_wrappers api) (wrappers p)" "distinct (map abi_key (wrappers p))"
    using mangle_rounds_ok [OF m [unfolded mangle_collisions_def]] by (simp_all add: p)
  show "plan_skipped p = List.map_filter (\<lambda>fn. classify fn (api_structs api)) (ordered_functions api)"
    "owned_vars p = declared_variables api"
    "readers p = storage_readers (declared_variables api) (api_structs api) (contract_name (contract api))"
    by (simp_all add: p)
qed


lemma list_all2_renamed_in:
  assumes "list_all2 renamed ws ws'" and "w' \<in> set ws'"
  obtains w where "w \<in> set ws" and "renamed w w'"
  using assms by (metis in_set_conv_nth list_all2_conv_all_nth)

lemma map_filter_partition:
  "mset (map f_name (filter (\<lambda>fn. c fn = None) fns)) + mset (map s_function (List.map_filter c fns)) = mset (map f_name fns)"
  if "\<And>fn s. c fn = Some s \<Longrightarrow> s_function s = f_name fn"
  by (induction fns) (auto simp: List.map_filter_simps that split: option.split)

lemma classify_names: "classify fn structs = Some s \<Longrightarrow> s_function s = f_name fn"
  by (auto simp: classify_def skip_def unresolved_skip_def opaque_handle_reason_def split: if_splits option.splits)

lemma renamed_fields:
  "renamed w w' \<Longrightarrow> library_function w' = library_function w \<and> w_params w' = w_params w \<and> w_returns w' = w_returns w \<and>
     w_mutability w' = w_mutability w \<and> call_args w' = call_args w \<and> returns_mutated_param w' = returns_mutated_param w"
  by (auto simp: renamed_def)

lemma list_all2_renamed_functions:
  "list_all2 renamed ws ws' \<Longrightarrow> map library_function ws' = map library_function ws"
  by (induction ws ws' rule: list_all2_induct) (auto simp: renamed_def)

lemma set_ordered [simp]: "set (ordered_functions api) = set (api_functions api)"
  by (simp add: ordered_functions_def)

lemma plan_wrapper:
  assumes "build_plan api hn pragma imports = Inr p" and "w \<in> set (wrappers p)"
  obtains fn where "fn \<in> set (api_functions api)" and "classify fn (api_structs api) = None"
    and "renamed ((wrapper_of (contract_name (contract api)) fn)\<lparr>w_name := escape_reserved (f_name fn)\<rparr>) w"
    and "fn \<in> set (wrappable_functions api)"
proof -
  obtain w0 where w0: "w0 \<in> set (escaped_wrappers api)" "renamed w0 w"
    by (rule list_all2_renamed_in [OF build_plan_InrD(1) [OF assms(1)] assms(2)])
  then obtain fn where fn: "fn \<in> set (wrappable_functions api)"
      and w0_eq: "w0 = (wrapper_of (contract_name (contract api)) fn)\<lparr>w_name := escape_reserved (f_name fn)\<rparr>"
    by (auto simp: escaped_wrappers_def)
  show ?thesis
    by (rule that [OF _ _ w0(2) [unfolded w0_eq] fn]) (use fn in \<open>simp_all add: wrappable_functions_def\<close>)
qed

subsection \<open>A sample library\<close>

definition store_param :: "string \<Rightarrow> lib_param" where
  "store_param t = \<lparr>p_name = ''self'', solidity_type = t, location = loc_storage, desc_kind = ''UserDefinedStruct''\<rparr>"

definition value_param :: "string \<Rightarrow> string \<Rightarrow> lib_param" where
  "value_param n t = \<lparr>p_name = n, solidity_type = t, location = [], desc_kind = ''Primitive''\<rparr>"

definition sample_function :: "string \<Rightarrow> string \<Rightarrow> lib_param list \<Rightarrow> int \<Rightarrow> lib_function" where
  "sample_function n vis ps line =
     \<lparr>f_name = n, f_visibility = vis, f_mutability = ''view'', f_params = ps, f_returns = [value_param [] ''uint256''], source_line = line\<rparr>"

definition sample_handle :: "string \<Rightarrow> contract_handle" where
  "sample_handle n = \<lparr>contract_name = n, source_file = n @ ''.sol''\<rparr>"

definition sample_api :: library_api where
  "sample_api =
     \<lparr>contract = sample_handle ''Sets'',
      api_functions =
        [sample_function ''length'' ''internal'' [store_param ''Sets.A''] 4,
         sample_function ''length'' ''internal'' [store_param ''Sets.B''] 8,
         sample_function ''at'' ''internal'' [store_param ''Sets.A'', value_param ''i'' ''uint256''] 12,
         sample_function ''total'' ''internal'' [store_param ''Sets.A[]''] 16,
         sample_function ''slot'' ''private'' [store_param ''Sets.A''] 20],
      api_structs = [(''Sets.A'', [MemberNode ''index'' ''mapping(bytes32 => uint256)'' kind_mapping ''bytes32''
        (Some (MemberNode [] ''uint256'' kind_value [] None [])) []])]\<rparr>"

definition sample_plan :: harness_plan where
  "sample_plan = projr (build_plan sample_api (sample_handle ''SetsHarness'') ''pragma solidity ^0.8.0;'' [''import Sets;''])"

lemma sample_built:
  "build_plan sample_api (sample_handle ''SetsHarness'') ''pragma solidity ^0.8.0;'' [''import Sets;''] = Inr sample_plan"
proof -
  have "\<not> isl (build_plan sample_api (sample_handle ''SetsHarness'') ''pragma solidity ^0.8.0;'' [''import Sets;''])" by code_simp
  then show ?thesis by (simp add: sample_plan_def)
qed

subsection \<open>What a plan guarantees\<close>

text \<open>
  Every function of the library is either wrapped or reported as skipped, exactly once: the wrapped and the skipped
  names together are the names of the library's functions, and the coverage counts add up to their number.
\<close>

theorem every_function_is_accounted_for:
  assumes "build_plan api hn pragma imports = Inr p"
  shows "mset (map library_function (wrappers p)) + mset (map s_function (plan_skipped p)) =
      mset (map f_name (api_functions api)) \<and>
    dget (coverage p) ''total'' = Some (length (api_functions api))"
proof -
  note D = build_plan_InrD [OF assms]
  have names: "map library_function (wrappers p) = map f_name (wrappable_functions api)"
    unfolding list_all2_renamed_functions [OF D(1)] by (simp add: escaped_wrappers_def wrapper_of_def)
  have accounted: "mset (map library_function (wrappers p)) + mset (map s_function (plan_skipped p)) =
      mset (map f_name (api_functions api))"
    unfolding names D(3) wrappable_functions_def
    by (subst map_filter_partition) (simp_all add: classify_names ordered_functions_def)
  have "length (wrappers p) + length (plan_skipped p) = length (api_functions api)"
    using arg_cong [OF accounted, of size] by simp
  with accounted show ?thesis by (simp add: coverage_def)
qed

lemma every_function_is_accounted_for_witness:
  "dget (coverage sample_plan) ''total'' = Some 5 \<and> map s_function (plan_skipped sample_plan) = [''slot'']"
proof (rule conjI)
  show "dget (coverage sample_plan) ''total'' = Some 5"
    using every_function_is_accounted_for [OF sample_built] by (simp add: sample_api_def)
  show "map s_function (plan_skipped sample_plan) = [''slot'']" by code_simp
qed

text \<open>A wrapper that no other shares its signature with is not touched by a round.\<close>

lemma round_keeps_unshared:
  assumes "\<And>j. j < length ws \<Longrightarrow> j \<noteq> i \<Longrightarrow> abi_key (ws ! j) \<noteq> abi_key (ws ! i)"
  shows "fold (rename_in_group originals lib) (colliding ws) ws ! i = ws ! i"
proof (rule rename_groups_other, intro ballI notI)
  fix g assume "g \<in> set (colliding ws)" "i \<in> set g"
  then have i: "i < length ws" and len: "length (positions ws (abi_key (ws ! i))) > 1"
    unfolding colliding_iff by (auto simp: positions_iff)
  from len obtain a b where "a < b" "b < length ws" "abi_key (ws ! a) = abi_key (ws ! i)" "abi_key (ws ! b) = abi_key (ws ! i)"
    unfolding two_positions by blast
  then show False using assms [of a] assms [of b] by (cases "a = i") auto
qed

lemma mangle_rounds_changes:
  "mangle_rounds n originals lib ws = Inr ws' \<Longrightarrow> i < length ws \<Longrightarrow> ws' ! i \<noteq> ws ! i \<Longrightarrow>
   \<exists>us j. list_all2 renamed ws us \<and> list_all2 renamed us ws' \<and> us ! i = ws ! i \<and> j < length ws \<and> j \<noteq> i \<and>
     abi_key (us ! j) = abi_key (us ! i)"
proof (induction n arbitrary: ws)
  case (Suc n)
  have ne: "colliding ws \<noteq> []" using Suc.prems by auto
  let ?next = "fold (rename_in_group originals lib) (colliding ws) ws"
  have rounds: "mangle_rounds n originals lib ?next = Inr ws'" using Suc.prems(1) ne by (simp add: Let_def)
  show ?case
  proof (cases "\<exists>j<length ws. j \<noteq> i \<and> abi_key (ws ! j) = abi_key (ws ! i)")
    case True
    moreover have "list_all2 renamed ws ws'" using mangle_rounds_ok [OF Suc.prems(1)] by blast
    moreover have "list_all2 renamed ws ws" by (simp add: list_all2_conv_all_nth renamed_refl)
    ultimately show ?thesis by blast
  next
    case False
    then have keep: "?next ! i = ws ! i" by (intro round_keeps_unshared) blast
    have "\<exists>us j. list_all2 renamed ?next us \<and> list_all2 renamed us ws' \<and> us ! i = ?next ! i \<and> j < length ?next \<and> j \<noteq> i \<and>
        abi_key (us ! j) = abi_key (us ! i)"
      by (rule Suc.IH [OF rounds]) (use Suc.prems keep in simp_all)
    then show ?thesis using keep list_all2_renamed_trans [OF rename_groups_renamed]
      by (metis length_renamed(2))
  qed
qed simp

text \<open>
  C15: A plan never declares two wrappers with one ABI signature. Mangling only extends names, and only for a collision: a
  wrapper whose name in the plan is not the escaped name of its function shared its signature, under that escaped
  name, with another wrapper at some stage of the mangling, after the others had been extended some way towards
  their names in the plan. In particular nothing changes when the escaped names are already unambiguous.
\<close>

theorem signatures_are_unique:
  assumes "build_plan api hn pragma imports = Inr p"
  shows "distinct (map abi_key (wrappers p)) \<and> list_all2 renamed (escaped_wrappers api) (wrappers p) \<and>
    (\<forall>i<length (wrappers p). wrappers p ! i \<noteq> escaped_wrappers api ! i \<longrightarrow>
      (\<exists>us j. list_all2 renamed (escaped_wrappers api) us \<and> list_all2 renamed us (wrappers p) \<and>
        us ! i = escaped_wrappers api ! i \<and> j < length us \<and> j \<noteq> i \<and> abi_key (us ! j) = abi_key (us ! i)))"
proof (intro conjI allI impI)
  note D = build_plan_InrD [OF assms]
  show "distinct (map abi_key (wrappers p))" "list_all2 renamed (escaped_wrappers api) (wrappers p)" by (fact D)+
  fix i assume i: "i < length (wrappers p)" "wrappers p ! i \<noteq> escaped_wrappers api ! i"
  have "wrappable_functions api \<noteq> []"
    using assms by (auto simp: build_plan_def wrappable_functions_def Let_def split: if_splits)
  then have "mangle_collisions (escaped_wrappers api) (wrappable_functions api) (contract_name (contract api)) = Inr (wrappers p)"
    using assms by (auto simp: build_plan_eq bindE_Inr_iff)
  from mangle_rounds_changes [OF this [unfolded mangle_collisions_def], of i] i list_all2_lengthD [OF D(1)]
  show "\<exists>us j. list_all2 renamed (escaped_wrappers api) us \<and> list_all2 renamed us (wrappers p) \<and>
      us ! i = escaped_wrappers api ! i \<and> j < length us \<and> j \<noteq> i \<and> abi_key (us ! j) = abi_key (us ! i)"
    by (metis list_all2_lengthD)
qed

lemma signatures_are_unique_witness:
  "distinct (map abi_key (wrappers sample_plan)) \<and>
   map w_name (wrappers sample_plan) = [''length_A'', ''length_B'', ''at_'', ''total'']"
proof (rule conjI)
  show "distinct (map abi_key (wrappers sample_plan))" using signatures_are_unique [OF sample_built] by blast
  show "map w_name (wrappers sample_plan) = [''length_A'', ''length_B'', ''at_'', ''total'']" by code_simp
qed

lemma classify_None:
  assumes "classify fn structs = None"
  shows "f_visibility fn \<noteq> ''private''"
    and "p \<in> set (f_params fn) \<union> set (f_returns fn) \<Longrightarrow> solidity_type p \<noteq> []"
    and "p \<in> set (f_params fn) \<Longrightarrow> \<not> is_storage p \<Longrightarrow> \<not> not_abi structs (solidity_type p)"
    and "r \<in> set (f_returns fn) \<Longrightarrow> \<not> is_storage r \<and> \<not> not_abi structs (solidity_type r)"
  using assms by (auto simp: classify_def find_None_iff split: if_splits option.splits)

lemma mutated_in: "mutated_memory_param fn = Some p \<Longrightarrow> p \<in> set (f_params fn) \<and> location p = loc_memory \<and> f_returns fn = []"
proof -
  assume m: "mutated_memory_param fn = Some p"
  then have "filter (\<lambda>p. location p = loc_memory) (f_params fn) = [p]" "f_returns fn = []"
    by (auto simp: mutated_memory_param_def split: if_splits list.splits)
  then have "p \<in> set (filter (\<lambda>p. location p = loc_memory) (f_params fn))" by simp
  with \<open>f_returns fn = []\<close> show ?thesis by simp
qed

lemma exposed_location: "location (exposed_param p) \<in> {[], loc_memory}"
  by (simp add: exposed_param_def external_location_def)

lemma wrapper_of_abi:
  assumes "classify fn structs = None" and "q \<in> set (w_params (wrapper_of lib fn)) \<union> set (w_returns (wrapper_of lib fn))"
  shows "location q \<in> {[], loc_memory} \<and> solidity_type q \<noteq> [] \<and> \<not> not_abi structs (solidity_type q)"
proof -
  consider (param) p where "p \<in> set (f_params fn)" "\<not> is_storage p" "q = exposed_param p"
    | (result) p where "p \<in> set (f_returns fn)" "q = exposed_param p"
    | (mutated) p where "mutated_memory_param fn = Some p" "solidity_type q = solidity_type p" "location q = loc_memory"
    using assms(2) by (auto simp: wrapper_of_def split: option.splits)
  then show ?thesis
  proof cases
    case param
    then show ?thesis
      using classify_None(2,3) [OF assms(1)] exposed_location [of p] by (auto simp: exposed_param_def)
  next
    case result
    then show ?thesis
      using classify_None(2,4) [OF assms(1)] exposed_location [of p] by (auto simp: exposed_param_def)
  next
    case mutated
    then have "p \<in> set (f_params fn)" "\<not> is_storage p"
      using mutated_in [of fn p] by (auto simp: is_storage_def loc_storage_def loc_memory_def)
    then show ?thesis using mutated classify_None(2,3) [OF assms(1)] by auto
  qed
qed

subsection \<open>Types that stay inside the library\<close>

text \<open>
  The parts of a recorded member: itself, the members of a struct, and the elements of an array; and the dimensions
  of a dynamic array type.
\<close>

inductive part_of :: "member_node \<Rightarrow> member_node \<Rightarrow> bool" where
  part_self: "part_of n n"
| part_member: "part_of n child \<Longrightarrow> child \<in> set ms \<Longrightarrow> part_of n (MemberNode name t kind_struct key v ms)"
| part_element: "part_of n e \<Longrightarrow> part_of n (MemberNode name t kind_array key (Some e) ms)"

definition dimensions :: "nat \<Rightarrow> string" where
  "dimensions k = concat (replicate k ''[]'')"

lemma part_contains_mapping: "part_of n m \<Longrightarrow> m_kind n = kind_mapping \<Longrightarrow> node_contains_mapping m d"
proof (induction arbitrary: d rule: part_of.induct)
  case (part_self n)
  then show ?case by (cases n) simp
next
  case (part_member n child ms name t key v)
  then show ?case by (auto simp: list_ex_iff)
next
  case (part_element n e name t key ms)
  then show ?case by (simp add: kind_array_def kind_struct_def)
qed

lemma drop_dimensions:
  assumes "\<not> occurs_in ''[]'' s"
  shows "str_replace None ''[]'' [] (s @ dimensions k) = s"
  using assms
proof (induction s)
  case Nil
  show ?case
    by (induction k) (simp_all add: str_replace_def dimensions_def replace_occurrences.simps starts_with_def)
next
  case (Cons c s)
  have "\<not> starts_with ''[]'' (c # s @ dimensions k)"
  proof
    assume "starts_with ''[]'' (c # s @ dimensions k)"
    then have c: "c = CHR ''[''" and rest: "starts_with '']'' (s @ dimensions k)" by (auto simp: starts_with_def)
    show False
    proof (cases s)
      case Nil
      then show ?thesis using rest by (cases k) (simp_all add: dimensions_def starts_with_def)
    next
      case (Cons x xs)
      then show ?thesis using rest c Cons.prems by (auto simp: starts_with_def)
    qed
  qed
  moreover have "\<not> occurs_in ''[]'' s" using Cons.prems by simp
  ultimately show ?case using Cons.IH by (simp add: str_replace_def replace_occurrences_skip)
qed



text \<open>
  A wrapper calls its library function with one argument per parameter: its own parameter of that name, or,
  for a storage parameter, a state variable that the harness declares with exactly the parameter's type.
\<close>

theorem storage_arguments_are_declared:
  assumes "build_plan api hn pragma imports = Inr p" and "w \<in> set (wrappers p)"
  shows "\<exists>fn\<in>set (api_functions api). library_function w = f_name fn \<and>
    list_all2 (\<lambda>q a. if is_storage q then \<exists>v\<in>set (owned_vars p). var_type v = solidity_type q \<and> var_name v = a
      else a = p_name q \<and> exposed_param q \<in> set (w_params w)) (f_params fn) (call_args w)"
proof -
  obtain fn where fn: "fn \<in> set (api_functions api)" "fn \<in> set (wrappable_functions api)"
      and w: "renamed ((wrapper_of (contract_name (contract api)) fn)\<lparr>w_name := escape_reserved (f_name fn)\<rparr>) w"
    by (rule plan_wrapper [OF assms])
  have fields: "library_function w = f_name fn" "call_args w = map (argument (contract_name (contract api))) (f_params fn)"
    "w_params w = map exposed_param (filter (\<lambda>p. \<not> is_storage p) (f_params fn))"
    using renamed_fields [OF w] by (simp_all add: wrapper_of_def)
  have declared: "variable_of (contract_name (contract api)) (solidity_type q) \<in> set (owned_vars p)"
    if "q \<in> set (f_params fn)" "is_storage q" for q
  proof -
    have "solidity_type q \<in> set (storage_types (wrappable_functions api))"
      using fn(2) that by (auto simp: storage_types_def storage_params_def)
    then show ?thesis unfolding build_plan_InrD(4) [OF assms(1)] declared_variables_def by simp
  qed
  have "list_all2 (\<lambda>q a. if is_storage q then \<exists>v\<in>set (owned_vars p). var_type v = solidity_type q \<and> var_name v = a
      else a = p_name q \<and> exposed_param q \<in> set (w_params w)) (f_params fn) (call_args w)"
    unfolding fields list_all2_map2
    by (rule list.rel_refl_strong) (auto simp: argument_def variable_of_def dest!: declared intro!: bexI)
  with fn(1) fields(1) show ?thesis by blast
qed

lemma storage_arguments_are_declared_witness:
  "(\<exists>fn\<in>set (api_functions sample_api). library_function (wrappers sample_plan ! 2) = f_name fn) \<and>
   call_args (wrappers sample_plan ! 2) = [''_certoraStore_A'', ''i'']"
proof (rule conjI)
  have "2 < length (wrappers sample_plan)" by code_simp
  from storage_arguments_are_declared [OF sample_built nth_mem [OF this]]
  show "\<exists>fn\<in>set (api_functions sample_api). library_function (wrappers sample_plan ! 2) = f_name fn" by blast
  show "call_args (wrappers sample_plan ! 2) = [''_certoraStore_A'', ''i'']" by code_simp
qed


subsection \<open>Readers\<close>

definition bounded_readers :: "nat \<Rightarrow> storage_reader list \<Rightarrow> bool" where
  "bounded_readers d rs \<longleftrightarrow> length rs \<le> max_readers \<and> list_all (\<lambda>r. length (r_params r) \<le> d) rs"

lemma bounded_emit:
  "bounded_readers d acc \<Longrightarrow> length acc < max_readers \<Longrightarrow> length ps \<le> d \<Longrightarrow>
   bounded_readers d (emit_reader node access parts ps acc)"
  by (simp add: emit_reader_def bounded_readers_def)

lemma bounded_fold: "(\<And>x acc. x \<in> set xs \<Longrightarrow> P acc \<Longrightarrow> P (f x acc)) \<Longrightarrow> P acc \<Longrightarrow> P (fold f xs acc)"
  by (induction xs arbitrary: acc) auto

lemma bounded_walk:
  "bounded_readers max_reader_depth acc \<Longrightarrow> length ps \<le> depth \<Longrightarrow>
   bounded_readers max_reader_depth (walk_member node access parts ps acc depth)"
proof (induction node access parts ps acc depth rule: walk_member.induct)
  case (1 name t kind key v ms access parts ps acc depth)
  show ?case
  proof (cases "depth > max_reader_depth \<or> length acc \<ge> max_readers")
    case True
    then show ?thesis using "1.prems" by simp
  next
    case False
    have emit: "bounded_readers max_reader_depth (emit_reader (MemberNode name t kind key v ms) access parts ps acc)"
      by (rule bounded_emit) (use "1.prems" False in simp_all)
    consider (struct) "kind = kind_struct" | (descend) node where "kind \<noteq> kind_struct" "v = Some node" "kind \<in> {kind_mapping, kind_array}"
      | (leaf) "kind \<noteq> kind_struct" "v = None \<or> kind \<notin> {kind_mapping, kind_array}"
      by (cases v) auto
    then show ?thesis
    proof cases
      case struct
      then show ?thesis
        by (simp only: walk_member.simps False if_False refl if_True)
          (rule bounded_fold [where P = "bounded_readers max_reader_depth"],
            rule "1.IH"(1) [OF False struct], use "1.prems" in simp_all)
    next
      case descend
      then show ?thesis
        using False "1.prems"(2) "1.IH"(2) [OF False descend(1,2,3) refl "1.prems"(1)] by (simp add: Let_def)
    next
      case leaf
      then show ?thesis using emit False by (auto split: option.split)
    qed
  qed
qed

text \<open>
  However the library nests its structs, the harness gets at most 24 readers of at most four key parameters each.
\<close>

theorem readers_are_bounded:
  "length (storage_readers owned structs lib) \<le> 24 \<and>
   list_all (\<lambda>r. length (r_params r) \<le> 4) (storage_readers owned structs lib)"
proof -
  have "bounded_readers max_reader_depth (storage_readers owned structs lib)"
    unfolding storage_readers_def
    by (rule bounded_fold [where P = "bounded_readers max_reader_depth"],
        rule bounded_fold [where P = "bounded_readers max_reader_depth"], rule bounded_walk)
      (simp_all add: bounded_readers_def)
  then show ?thesis by (simp add: bounded_readers_def max_readers_def max_reader_depth_def)
qed

subsection \<open>Stability\<close>

text \<open>
  The order in which the build reports the functions does not matter, so long as no two are declared under one name
  on one source line: the plan is the same.
\<close>

theorem plan_ignores_the_build_order:
  assumes "mset fs = mset (api_functions api)" and "inj_on (\<lambda>f. (source_line f, f_name f)) (set (api_functions api))"
  shows "build_plan (api\<lparr>api_functions := fs\<rparr>) hn pragma imports = build_plan api hn pragma imports"
proof -
  have "sort_key (\<lambda>f. (source_line f, f_name f)) fs = sort_key (\<lambda>f. (source_line f, f_name f)) (api_functions api)"
    by (rule sort_key_eq_sort_key [OF assms(1)]) (simp add: assms(2) mset_eq_setD [OF assms(1)])
  then have "ordered_functions (api\<lparr>api_functions := fs\<rparr>) = ordered_functions api"
    by (simp add: ordered_functions_def)
  moreover have "contract (api\<lparr>api_functions := fs\<rparr>) = contract api" "api_structs (api\<lparr>api_functions := fs\<rparr>) = api_structs api"
    by simp_all
  ultimately show ?thesis unfolding build_plan_def by (simp only:)
qed

lemma plan_ignores_the_build_order_witness:
  "build_plan (sample_api\<lparr>api_functions := rev (api_functions sample_api)\<rparr>) (sample_handle ''SetsHarness'')
     ''pragma solidity ^0.8.0;'' [''import Sets;''] = Inr sample_plan"
proof -
  have "inj_on (\<lambda>f. (source_line f, f_name f)) (set (api_functions sample_api))"
    by (simp add: sample_api_def sample_function_def)
  from plan_ignores_the_build_order [OF _ this, of "rev (api_functions sample_api)"] sample_built show ?thesis by simp
qed

lemma join_nonempty_head: "xs \<noteq> [] \<Longrightarrow> join sep (x # xs) = x @ sep @ join sep xs"
  by (simp add: join_Cons)

lemma contract_text_pragma:
  assumes "join newline (contract_lines n pa p1 i b h) = join newline (contract_lines n pa p2 i b h)"
  shows "p1 = p2"
proof (cases "p1 = [] \<or> p2 = []")
  case True
  then show ?thesis using arg_cong [OF assms, of length] by (auto simp: contract_lines_def join_Cons newline_def split: if_splits)
next
  case False
  then show ?thesis using assms by (simp add: contract_lines_def join_Cons)
qed

text \<open>
  The plan hash does not determine the file, although it is documented as a digest of everything that does: two
  plans that differ in the pragma line have one hash and different sources.
\<close>

theorem plan_hash_misses_the_pragma:
  assumes "pragma \<noteq> pragma_line p"
  shows "plan_hash sha (p\<lparr>pragma_line := pragma\<rparr>) = plan_hash sha p \<and>
    render_harness sha (p\<lparr>pragma_line := pragma\<rparr>) \<noteq> render_harness sha p"
proof -
  let ?p = "p\<lparr>pragma_line := pragma\<rparr>"
  have "plan_payload ?p = plan_payload p" by (simp add: plan_payload_def)
  then have hash: "plan_hash sha ?p = plan_hash sha p" by (simp add: plan_hash_def)
  moreover have "harness_body ?p = harness_body p" "harness_header sha ?p = harness_header sha p"
    using hash by (simp_all add: harness_body_def harness_header_def)
  ultimately show ?thesis
    using assms contract_text_pragma by (auto simp: render_harness_def render_wrapper_contract_def)
qed

lemma plan_hash_misses_the_pragma_witness:
  "plan_hash (\<lambda>s. s) (sample_plan\<lparr>pragma_line := ''pragma solidity ^0.7.0;''\<rparr>) = plan_hash (\<lambda>s. s) sample_plan \<and>
   render_harness (\<lambda>s. s) (sample_plan\<lparr>pragma_line := ''pragma solidity ^0.7.0;''\<rparr>) \<noteq> render_harness (\<lambda>s. s) sample_plan"
proof (rule plan_hash_misses_the_pragma)
  show "''pragma solidity ^0.7.0;'' \<noteq> pragma_line sample_plan" by code_simp
qed

subsection \<open>Types that share a variable name\<close>

lemma collapse_append: "xs \<noteq> [] \<Longrightarrow> collapse r (xs @ ys) = collapse r xs @ collapse (\<not> is_alnum (last xs)) ys"
  by (induction xs arbitrary: r) (auto simp: neq_Nil_conv)

lemma strip_trailing: "strip_char x (s @ [x]) = strip_char x s"
proof (cases "\<forall>c\<in>set s. c = x")
  case True
  then have "dropWhile (\<lambda>c. c = x) (s @ [x]) = []" "dropWhile (\<lambda>c. c = x) s = []"
    unfolding dropWhile_eq_Nil_conv by auto
  then show ?thesis unfolding strip_char_def by (simp only:)
next
  case False
  then show ?thesis by (auto simp: strip_char_def dropWhile_append1)
qed

lemma brackets_not_alnum: "\<not> is_alnum (CHR ''['')" "\<not> is_alnum (CHR '']'')"
  by code_simp+

lemma sanitize_brackets: "sanitize_identifier (t @ ''[]'') = sanitize_identifier t"
proof (cases "t = []")
  case True
  show ?thesis unfolding True by code_simp
next
  case False
  then have "collapse False (t @ ''[]'') = collapse False t @ (if is_alnum (last t) then ''_'' else [])"
    by (simp add: collapse_append brackets_not_alnum)
  then show ?thesis by (simp add: sanitize_identifier_def strip_trailing)
qed

lemma short_type_brackets: "short_type_name (t @ ''[]'') lib = short_type_name t lib"
proof -
  have "starts_with (lib @ ''.'') (t @ ''[]'') \<longleftrightarrow> starts_with (lib @ ''.'') t"
  proof (cases "length t \<le> length lib")
    case True
    have "lib @ ''.'' \<noteq> take (Suc (length lib)) (t @ ''[]'')"
    proof
      assume "lib @ ''.'' = take (Suc (length lib)) (t @ ''[]'')"
      then have *: "take (Suc (length lib)) (t @ ''[]'') ! length lib = CHR ''.''" by (metis nth_append_length)
      have "length (lib @ ''.'') \<le> length (t @ ''[]'')"
        using \<open>lib @ ''.'' = _\<close> by (metis length_take min.cobounded1)
      then have "length lib - length t \<in> {0, 1}" using True by auto
      with * True show False by (auto simp: nth_append)
    qed
    with True show ?thesis by (auto simp: starts_with_def)
  qed (simp add: starts_with_def)
  moreover have "drop (length (lib @ ''.'')) (t @ ''[]'') = drop (length (lib @ ''.'')) t @ ''[]''"
    if "starts_with (lib @ ''.'') t"
    using that by (auto simp: starts_with_iff)
  ultimately show ?thesis by (simp add: short_type_name_def Let_def sanitize_brackets del: append_Cons append_Nil)
qed

text \<open>
  A library with functions on both a storage type and arrays of it gets a harness that declares two state variables
  under one name: the name of the variable is made from the type without its punctuation, and no check follows.
\<close>

theorem element_and_array_share_a_variable_name:
  assumes "build_plan api hn pragma imports = Inr p"
    and "{t, t @ ''[]''} \<subseteq> set (storage_types (wrappable_functions api))"
  shows "\<not> distinct (map var_name (owned_vars p))"
proof
  let ?lib = "contract_name (contract api)"
  assume "distinct (map var_name (owned_vars p))"
  then have inj: "inj_on var_name (set (owned_vars p))" by (simp add: distinct_map)
  have "variable_of ?lib t \<in> set (owned_vars p)" "variable_of ?lib (t @ ''[]'') \<in> set (owned_vars p)"
    using assms(2) unfolding build_plan_InrD(4) [OF assms(1)] declared_variables_def by simp_all
  moreover have "var_name (variable_of ?lib t) = var_name (variable_of ?lib (t @ ''[]''))"
    by (simp add: variable_of_def owned_var_name_def short_type_brackets)
  ultimately have "variable_of ?lib t = variable_of ?lib (t @ ''[]'')" using inj by (simp add: inj_on_def)
  then show False by (simp add: variable_of_def)
qed

lemma element_and_array_share_a_variable_name_witness: "\<not> distinct (map var_name (owned_vars sample_plan))"
proof (rule element_and_array_share_a_variable_name [OF sample_built])
  show "{''Sets.A'', ''Sets.A'' @ ''[]''} \<subseteq> set (storage_types (wrappable_functions sample_api))" by code_simp
qed


subsection \<open>The sentinel\<close>

definition one_line :: "string \<Rightarrow> bool" where
  "one_line s \<longleftrightarrow> list_all (\<lambda>c. \<not> is_line_break c) s"

lemma splitlines_from_line:
  "one_line w \<Longrightarrow> splitlines_from cur (w @ newline @ s) = (cur @ w) # splitlines_from [] s"
  by (induction w arbitrary: cur) (simp_all add: one_line_def newline_def is_line_break_def)

lemma splitlines_line: "one_line w \<Longrightarrow> splitlines (w @ newline @ s) = w # splitlines s"
  by (simp add: splitlines_def splitlines_from_line)

lemma splitlines_lines:
  "list_all one_line ws \<Longrightarrow> ys \<noteq> [] \<Longrightarrow> splitlines (join newline (ws @ ys)) = ws @ splitlines (join newline ys)"
  by (induction ws) (simp_all add: join_Cons splitlines_line)

lemma json_char_one_line: "one_line (json_char c)"
proof -
  have "list_all (\<lambda>c. list_all (\<lambda>c. \<not> is_line_break c) (json_char c)) Enum.enum" by code_simp
  then show ?thesis by (simp add: one_line_def list_all_iff enum_UNIV)
qed

lemma one_line_append [simp]: "one_line (a @ b) \<longleftrightarrow> one_line a \<and> one_line b"
  by (simp add: one_line_def)

lemma json_string_one_line: "one_line (json_string s)"
proof -
  have "one_line (concat (map json_char s))"
    by (induction s) (simp_all add: json_char_one_line, simp add: one_line_def)
  moreover have "one_line dquote" by code_simp
  ultimately show ?thesis by (simp add: json_string_def)
qed

lemma sentinel_one_line: "one_line (sentinel_line l d)"
proof -
  have "one_line (''{'' @ dquote @ ''v'' @ dquote @ '':1,'' @ dquote @ ''library'' @ dquote @ '':'')"
    "one_line ('','' @ dquote @ ''plan_hash'' @ dquote @ '':'')" "one_line ''}''" "one_line (sentinel_prefix @ '' '')" by code_simp+
  then show ?thesis
    unfolding sentinel_line_def sentinel_record_def by (simp only: one_line_append json_string_one_line simp_thms)
qed

lemma strip_id: "s \<noteq> [] \<Longrightarrow> \<not> is_blank (hd s) \<Longrightarrow> \<not> is_blank (last s) \<Longrightarrow> strip s = s"
proof -
  assume s: "s \<noteq> []" "\<not> is_blank (hd s)" "\<not> is_blank (last s)"
  then have "dropWhile is_blank s = s" "dropWhile is_blank (rev s) = rev s" by (simp_all add: dropWhile_eq_self_iff hd_rev)
  then show "strip s = s" by (simp add: strip_def lstrip_def rstrip_def)
qed

lemma sentinel_record_shape: "\<exists>m. sentinel_record l d = ''{'' @ m @ ''}''"
  unfolding sentinel_record_def by (metis append_assoc)

lemma strip_sentinel_record: "strip (sentinel_record l d) = sentinel_record l d"
  using sentinel_record_shape [of l d] by (elim exE, intro strip_id) (auto simp: is_blank_def)

lemma strip_blank: "strip ('' '' @ s) = strip s"
  by (simp add: strip_def lstrip_def is_blank_def)

lemma strip_sentinel_line: "strip (sentinel_line l d) = sentinel_line l d"
proof -
  obtain m where m: "sentinel_record l d = ''{'' @ m @ ''}''" using sentinel_record_shape by blast
  show ?thesis unfolding sentinel_line_def m
    by (rule strip_id) (simp_all add: sentinel_prefix_def is_blank_def)
qed

lemma starts_with_append: "starts_with a (a @ b)"
  by (simp add: starts_with_def)

lemma read_sentinel_here: "read_sentinel_lines loads (sentinel_line l d # ls) = loads (sentinel_record l d)"
  by (simp add: Let_def strip_sentinel_line)
    (simp add: sentinel_line_def starts_with_append strip_blank strip_sentinel_record
      del: append_Cons)

lemma read_sentinel_skip:
  "\<forall>w\<in>set ws. \<not> starts_with sentinel_prefix (strip w) \<Longrightarrow> read_sentinel_lines loads (ws @ ls) = read_sentinel_lines loads ls"
  by (induction ws) (simp_all add: Let_def)

definition plain_line :: "string \<Rightarrow> bool" where
  "plain_line s \<longleftrightarrow> one_line s \<and> \<not> starts_with sentinel_prefix (strip s)"

lemma plain_fixed: "plain_line ''// SPDX-License-Identifier: UNLICENSED''" "plain_line []"
  by code_simp+

definition before_header :: "string \<Rightarrow> string list \<Rightarrow> string list" where
  "before_header pragma imports =
     [''// SPDX-License-Identifier: UNLICENSED''] @ (if pragma \<noteq> [] then [pragma] else []) @ [[]] @ imports @ [[]]"

lemma contract_lines_header:
  obtains rest where "rest \<noteq> []" and "contract_lines n pa pragma imports b (l # ls) = (before_header pragma imports @ [l]) @ rest"
  by (rule that [of "ls @ [case pa of None \<Rightarrow> ''contract '' @ n @ '' {'' | Some p \<Rightarrow> ''contract '' @ n @ '' is '' @ p @ '' {''] @ b @ [''}'', []]"])
    (simp_all add: contract_lines_def before_header_def)

lemma sentinel_reads_back:
  assumes "render_harness sha p = Inr source" and "plain_line (pragma_line p)" and "list_all plain_line (import_lines p)"
  shows "read_sentinel loads source = loads (sentinel_record (contract_name (library p)) (plan_hash sha p))"
proof -
  let ?before = "before_header (pragma_line p) (import_lines p)"
  let ?line = "sentinel_line (contract_name (library p)) (plan_hash sha p)"
  have plain: "list_all plain_line ?before" using assms(2,3) plain_fixed by (simp add: before_header_def)
  obtain ls where header: "harness_header sha p = ?line # ls" by (simp add: harness_header_def)
  obtain rest where rest: "rest \<noteq> []"
      and lines: "contract_lines (contract_name (harness p)) None (pragma_line p) (import_lines p) (constructor_lines None None @ harness_body p)
        (?line # ls) = (?before @ [?line]) @ rest"
    by (rule contract_lines_header)
  have source: "source = join newline ((?before @ [?line]) @ rest)"
    using assms(1) unfolding render_harness_def render_wrapper_contract_def header lines by simp
  have "list_all one_line (?before @ [?line])"
    using plain sentinel_one_line by (auto simp: list_all_iff plain_line_def)
  from splitlines_lines [OF this rest] have "splitlines source = ?before @ ?line # splitlines (join newline rest)"
    unfolding source by simp
  moreover have "\<forall>w\<in>set ?before. \<not> starts_with sentinel_prefix (strip w)"
    using plain unfolding list_all_iff plain_line_def by blast
  ultimately show ?thesis unfolding read_sentinel_def by (simp only: read_sentinel_skip read_sentinel_here)
qed

text \<open>
  Provenance round trip: reading the sentinel of a generated harness gives the record that was written, with the
  library's name and the plan's digest, whatever follows it in the file. The pragma and the import lines
  before it must be single lines that are not sentinels themselves.
\<close>

theorem sentinel_round_trip:
  assumes "render_harness sha p = Inr source" and "plain_line (pragma_line p)" and "list_all plain_line (import_lines p)"
  shows "read_sentinel loads source = loads (sentinel_record (contract_name (library p)) (plan_hash sha p))"
  using assms by (rule sentinel_reads_back)

lemma sentinel_round_trip_witness:
  "read_sentinel (\<lambda>s. Some (JString s)) (projr (render_harness (\<lambda>s. ''ab'') sample_plan)) =
     Some (JString (sentinel_record ''Sets'' ''ab''))"
proof -
  have rendered: "render_harness (\<lambda>s. ''ab'') sample_plan = Inr (projr (render_harness (\<lambda>s. ''ab'') sample_plan))"
    by (simp add: render_harness_def render_wrapper_contract_def)
  have plain: "plain_line (pragma_line sample_plan)" "list_all plain_line (import_lines sample_plan)" by code_simp+
  have "contract_name (library sample_plan) = ''Sets''" by code_simp
  then show ?thesis using sentinel_round_trip [OF rendered plain] by (simp add: plan_hash_def)
qed

end
