(* ===== verification/Prover_Results.thy ===== *)
theory Prover_Results
  imports Pystr "HOL-Library.Monad_Syntax"
begin

text \<open>
  From the files of a finished prover run to per-rule verdicts: \<^verbatim>\<open>composer/prover/ptypes.py\<close>,
  \<^verbatim>\<open>composer/prover/results.py\<close>, and the outcome tables of \<^verbatim>\<open>composer/prover/core.py\<close>.

  The directory is its file names and the text of each file; the reader of JSON is the argument \<open>loads\<close>, None
  where it raises. Exceptions are values. Generators are run to their end, as their only consumers do.
  A Python set of messages is kept in insertion order; its order in Python is unspecified.
\<close>

subsection \<open>Verdicts (ptypes)\<close>

datatype status_code = VERIFIED | VIOLATED | TIMEOUT | ERROR | SANITY_FAILED | SKIPPED

datatype 'a update = Missing | Update 'a

fun default_or :: "'a \<Rightarrow> 'a update \<Rightarrow> 'a" where
  "default_or old Missing = old"
| "default_or old (Update x) = x"

record rule_path =
  rp_rule :: string
  rp_contract :: "string option"
  rp_method :: "string option"
  rp_sanity :: bool

definition rule_path_of :: "string \<Rightarrow> rule_path" where
  "rule_path_of rule = \<lparr>rp_rule = rule, rp_contract = None, rp_method = None, rp_sanity = False\<rparr>"

definition path_copy :: "rule_path \<Rightarrow> string update \<Rightarrow> string option update \<Rightarrow> string option update \<Rightarrow> bool update \<Rightarrow> rule_path" where
  "path_copy p rule con meth sanity =
     \<lparr>rp_rule = default_or (rp_rule p) rule, rp_contract = default_or (rp_contract p) con,
      rp_method = default_or (rp_method p) meth, rp_sanity = default_or (rp_sanity p) sanity\<rparr>"

definition path_pprint :: "rule_path \<Rightarrow> string" where
  "path_pprint p =
     (case (rp_contract p, rp_method p) of
        (Some c, None) \<Rightarrow> rp_rule p @ '' in contract '' @ c
      | (_, Some m) \<Rightarrow> rp_rule p @ '' for '' @ m
      | (None, None) \<Rightarrow> rp_rule p)"

text \<open>The pattern \<^verbatim>\<open>int(line)\<close> also matches a JSON Boolean, which is then printed as such.\<close>

datatype int_value = IntValue int | BoolValue bool

fun show_int_value :: "int_value \<Rightarrow> string" where
  "show_int_value (IntValue i) = show_int i"
| "show_int_value (BoolValue b) = (if b then ''True'' else ''False'')"

record source_span =
  span_file :: string
  span_line :: int_value

definition span_pprint :: "source_span \<Rightarrow> string" where
  "span_pprint s = span_file s @ '':'' @ show_int_value (span_line s)"

datatype generated_kind =
    LoopUnwinding | CannotOverflow | UnresolvedCpi | Panic | HashingBound | RecursionLimit | StackSizeLimit
  | UnresolvedJump | ContractCreationBound | MemcpyOverlap | UnsupportedHostFunction

definition generated_kinds :: "(string \<times> generated_kind) list" where
  "generated_kinds =
     [(''loopUnwinding'', LoopUnwinding), (''cannotOverflow'', CannotOverflow), (''unresolvedCpi'', UnresolvedCpi),
      (''panic'', Panic), (''hashingBound'', HashingBound), (''recursionLimit'', RecursionLimit),
      (''stackSizeLimit'', StackSizeLimit), (''unresolvedJump'', UnresolvedJump),
      (''contractCreationBound'', ContractCreationBound), (''memcpyOverlap'', MemcpyOverlap),
      (''unsupportedHostFunction'', UnsupportedHostFunction)]"

datatype assertion_kind = KnownKind generated_kind | UnknownKind string

datatype assert_origin = UserAssertion | GeneratedAssertion assertion_kind | UnclassifiedAssertion

record counterexample =
  cex_trace :: string
  cex_origin :: assert_origin
  cex_assertion :: "string option"
  cex_source :: "source_span option"

definition cex_render :: "counterexample \<Rightarrow> string" where
  "cex_render c =
     ''<counterexample>'' @
     (if truthy (cex_assertion c) then ''<assert>'' @ the (cex_assertion c) @ ''</assert>'' else []) @
     (case cex_source c of None \<Rightarrow> [] | Some s \<Rightarrow> ''<source>'' @ span_pprint s @ ''</source>'') @
     cex_trace c @ ''</counterexample>''"

datatype violation_class = PropertyViolation | IncompleteCheck assertion_kind "string option"

definition program_checks :: "assertion_kind set" where
  "program_checks = {KnownKind Panic, KnownKind MemcpyOverlap}"

definition classify_violation :: "counterexample \<Rightarrow> violation_class" where
  "classify_violation cex =
     (case cex_origin cex of
        GeneratedAssertion kind \<Rightarrow> if kind \<notin> program_checks then IncompleteCheck kind (cex_assertion cex) else PropertyViolation
      | _ \<Rightarrow> PropertyViolation)"

record rule_result =
  res_path :: rule_path
  res_cex :: "counterexample option"
  res_status :: status_code
  error_messages :: "string list"
  live_check_info :: "string option"

definition plain_result :: "rule_path \<Rightarrow> status_code \<Rightarrow> rule_result" where
  "plain_result p s = \<lparr>res_path = p, res_cex = None, res_status = s, error_messages = [], live_check_info = None\<rparr>"

definition res_name :: "rule_result \<Rightarrow> string" where
  "res_name r = path_pprint (res_path r)"

definition cex_dump :: "rule_result \<Rightarrow> string option" where
  "cex_dump r = map_option cex_render (res_cex r)"

subsection \<open>The parsed files\<close>

datatype prover_error =
    AssertionError | IndexError | ValidationError | JSONDecodeError | FileNotFoundError
  | NoTreeViewResultError | MalformedTreeView

record notification =
  nt_severity :: string
  nt_message :: string

datatype rule_node =
  RuleNode (rn_name: string) (rn_output: "string list") (rn_children: "rule_node list") (rn_status: "string option")
    (rn_type: string) (rn_errors: "notification list") (rn_live: "string option")

definition json_field :: "string \<Rightarrow> json \<Rightarrow> json option" where
  "json_field k j = (case j of JObject kvs \<Rightarrow> dget kvs k | _ \<Rightarrow> None)"

fun as_str :: "json \<Rightarrow> string option" where
  "as_str (JString s) = Some s"
| "as_str _ = None"

fun as_array :: "json \<Rightarrow> json list option" where
  "as_array (JArray xs) = Some xs"
| "as_array _ = None"

fun nullable_str :: "json \<Rightarrow> string option option" where
  "nullable_str JNull = Some None"
| "nullable_str j = map_option Some (as_str j)"

definition str_field :: "string \<Rightarrow> json \<Rightarrow> string option" where
  "str_field k j = Option.bind (json_field k j) as_str"

definition array_field :: "string \<Rightarrow> json \<Rightarrow> json list option" where
  "array_field k j = Option.bind (json_field k j) as_array"

definition parse_notification :: "json \<Rightarrow> notification option" where
  "parse_notification j = do {
     sev \<leftarrow> str_field ''severity'' j;
     msg \<leftarrow> str_field ''message'' j;
     Some \<lparr>nt_severity = sev, nt_message = msg\<rparr> }"

lemma json_size_array: "x \<in> set xs \<Longrightarrow> size x < size (JArray xs)"
  by (induction xs) auto

lemma json_size_object: "dget kvs k = Some v \<Longrightarrow> size v < size (JObject kvs)"
  by (induction kvs) (auto split: if_splits)

lemma array_field_size: "array_field k j = Some xs \<Longrightarrow> x \<in> set xs \<Longrightarrow> size x < size j"
proof -
  assume a: "array_field k j = Some xs" and x: "x \<in> set xs"
  then obtain kvs where "j = JObject kvs" "dget kvs k = Some (JArray xs)"
    unfolding array_field_def json_field_def
    by (auto simp: Option.bind_eq_Some_conv elim: as_array.elims split: json.splits)
  then show "size x < size j" using json_size_array [OF x] json_size_object [of kvs k "JArray xs"] by simp
qed

function parse_rule_node :: "json \<Rightarrow> rule_node option" where
  "parse_rule_node j = do {
     name \<leftarrow> str_field ''name'' j;
     output \<leftarrow> Option.bind (array_field ''output'' j) (\<lambda>xs. those (map as_str xs));
     children \<leftarrow> array_field ''children'' j;
     kids \<leftarrow> those (map parse_rule_node children);
     status \<leftarrow> Option.bind (json_field ''status'' j) nullable_str;
     kind \<leftarrow> str_field ''nodeType'' j;
     errors \<leftarrow> Option.bind (array_field ''errors'' j) (\<lambda>xs. those (map parse_notification xs));
     live \<leftarrow> (case json_field ''LiveCheckInfo'' j of None \<Rightarrow> Some None | Some v \<Rightarrow> nullable_str v);
     Some (RuleNode name output kids status kind errors live) }"
  by pat_completeness auto
termination
  by (relation "measure size") (auto dest: array_field_size)

declare parse_rule_node.simps [simp del]

definition parse_tree_view :: "json \<Rightarrow> rule_node list option" where
  "parse_tree_view j = Option.bind (array_field ''rules'' j) (\<lambda>xs. those (map parse_rule_node xs))"

record message_model =
  mm_text :: string
  mm_arguments :: "string list"

datatype call_trace = CallTrace (ct_message: message_model) (ct_children: "call_trace list")

definition parse_message :: "json \<Rightarrow> message_model option" where
  "parse_message j = do {
     t \<leftarrow> str_field ''text'' j;
     args \<leftarrow> Option.bind (array_field ''arguments'' j) (\<lambda>xs. those (map (str_field ''value'') xs));
     Some \<lparr>mm_text = t, mm_arguments = args\<rparr> }"

function parse_call_trace :: "json \<Rightarrow> call_trace option" where
  "parse_call_trace j = do {
     msg \<leftarrow> Option.bind (json_field ''message'' j) parse_message;
     children \<leftarrow> array_field ''childrenList'' j;
     kids \<leftarrow> those (map parse_call_trace children);
     Some (CallTrace msg kids) }"
  by pat_completeness auto
termination
  by (relation "measure size") (auto dest: array_field_size)

declare parse_call_trace.simps [simp del]


subsection \<open>Message templates\<close>

text \<open>The pattern of a placeholder: a quoted number in braces, at the start of a text. A text as its literal
  characters and placeholders, as \<^verbatim>\<open>re.sub\<close> finds them.\<close>

definition nat_of_digits :: "string \<Rightarrow> nat" where
  "nat_of_digits s = fold (\<lambda>c n. 10 * n + (code c - 48)) s 0"

definition placeholder_at :: "string \<Rightarrow> (nat \<times> string) option" where
  "placeholder_at s =
     (let ds = takeWhile is_digit (drop 2 s); rest = drop (2 + length ds) s in
      if starts_with (squote @ ''{'') s \<and> ds \<noteq> [] \<and> starts_with (''}'' @ squote) rest
      then Some (nat_of_digits ds, drop 2 rest) else None)"

lemma placeholder_shorter: "placeholder_at s = Some (n, r) \<Longrightarrow> length r < length s"
  by (cases s) (auto simp: placeholder_at_def Let_def starts_with_def split: if_splits)

function template :: "string \<Rightarrow> (char + nat) list" where
  "template s =
     (case placeholder_at s of
        Some (n, r) \<Rightarrow> Inr n # template r
      | None \<Rightarrow> (case s of [] \<Rightarrow> [] | c # cs \<Rightarrow> Inl c # template cs))"
  by pat_completeness auto
termination
  by (relation "measure length") (auto dest: placeholder_shorter)

declare template.simps [simp del]

definition frame :: "message_model \<Rightarrow> string" where
  "frame m = concat (map (\<lambda>p. case p of Inl c \<Rightarrow> [c] | Inr _ \<Rightarrow> ''{}'') (template (mm_text m)))"

definition render_piece :: "string list \<Rightarrow> char + nat \<Rightarrow> prover_error + string" where
  "render_piece args p =
     (case p of Inl c \<Rightarrow> Inr [c]
      | Inr n \<Rightarrow> if n < length args then Inr (squote @ args ! n @ squote) else Inl IndexError)"

definition render_message :: "message_model \<Rightarrow> prover_error + string" where
  "render_message m = concatE (render_piece (mm_arguments m)) (template (mm_text m))"

subsection \<open>Call traces\<close>

record trace_shape =
  dropped :: "string set"
  elided :: "string set"

datatype prover_app = Evm | Solana | Soroban

definition generic_noise :: "string set" where
  "generic_noise = {''Setup'', ''Global State''}"

definition generic_trace :: trace_shape where
  "generic_trace = \<lparr>dropped = generic_noise, elided = {}\<rparr>"

definition evm_trace :: trace_shape where
  "evm_trace = \<lparr>dropped = generic_noise \<union> {''Evaluate branch condition'', ''unknown loop source code''}, elided = {}\<rparr>"

definition solana_trace :: trace_shape where
  "solana_trace =
     \<lparr>dropped = generic_noise \<union> {''__rust_alloc: {}'', ''CVT_alloc_slice: {}''},
      elided = {''cvlr_solana::layout::cvlr_deserialize_nondet_accounts(...)''}\<rparr>"

fun trace_shape_of :: "prover_app \<Rightarrow> trace_shape" where
  "trace_shape_of Evm = evm_trace"
| "trace_shape_of Solana = solana_trace"
| "trace_shape_of Soroban = generic_trace"

fun descendants :: "call_trace \<Rightarrow> nat" where
  "descendants (CallTrace m cs) = sum_list (map (\<lambda>c. 1 + descendants c) cs)"

definition message_xml :: "message_model \<Rightarrow> prover_error + string" where
  "message_xml m = bindE (render_message m) (\<lambda>t. Inr (''<message>'' @ t @ ''</message>''))"

fun calltrace_to_xml :: "trace_shape \<Rightarrow> call_trace \<Rightarrow> prover_error + string" where
  "calltrace_to_xml shape (CallTrace m cs) =
     bindE (message_xml m) (\<lambda>head.
     bindE (concatE (\<lambda>c.
         if frame (ct_message c) \<in> dropped shape then Inr []
         else if frame (ct_message c) \<in> elided shape
         then bindE (message_xml (ct_message c)) (\<lambda>t.
                Inr (''<child>'' @ t @ ''<elided>'' @ show_nat (descendants c) @ '' frames of setup</elided></child>''))
         else bindE (calltrace_to_xml shape c) (\<lambda>x. Inr (''<child>'' @ x @ ''</child>''))) cs) (\<lambda>parts.
       Inr (head @ parts)))"

subsection \<open>Counterexamples\<close>

definition assert_origin_of :: "json option \<Rightarrow> assert_origin" where
  "assert_origin_of reported =
     (case reported of
        Some (JString s) \<Rightarrow>
          if s = ''user'' then UserAssertion
          else (case dget generated_kinds s of Some k \<Rightarrow> GeneratedAssertion (KnownKind k)
                | None \<Rightarrow> GeneratedAssertion (UnknownKind s))
      | _ \<Rightarrow> UnclassifiedAssertion)"

fun as_int_value :: "json \<Rightarrow> int_value option" where
  "as_int_value (JInt i) = Some (IntValue i)"
| "as_int_value (JBool b) = Some (BoolValue b)"
| "as_int_value _ = None"

definition jump_span :: "json \<Rightarrow> source_span option" where
  "jump_span j = do {
     f \<leftarrow> str_field ''file'' j;
     start \<leftarrow> json_field ''start'' j;
     line \<leftarrow> Option.bind (json_field ''line'' start) as_int_value;
     Some \<lparr>span_file = f, span_line = line\<rparr> }"

definition counterexample_of :: "trace_shape \<Rightarrow> (string, json) dict \<Rightarrow> prover_error + counterexample option" where
  "counterexample_of shape dump =
     (case dget dump ''callTrace'' of
        None \<Rightarrow> Inr None
      | Some j \<Rightarrow>
          (case parse_call_trace j of
             None \<Rightarrow> Inl ValidationError
           | Some trace \<Rightarrow>
               bindE (calltrace_to_xml shape trace) (\<lambda>xml.
                 Inr (Some \<lparr>cex_trace = xml, cex_origin = assert_origin_of (dget dump ''assertOrigin''),
                   cex_assertion = (case dget dump ''assertMessage'' of Some (JString s) \<Rightarrow> if s \<noteq> [] then Some s else None | _ \<Rightarrow> None),
                   cex_source = Option.bind (dget dump ''jumpToDefinition'') jump_span\<rparr>))))"

subsection \<open>Flattening the tree view\<close>

fun to_status_string :: "string option \<Rightarrow> status_code" where
  "to_status_string None = ERROR"
| "to_status_string (Some s) =
     (if s = ''VIOLATED'' then VIOLATED else if s = ''VERIFIED'' then VERIFIED else if s = ''TIMEOUT'' then TIMEOUT
      else if s = ''SANITY_FAILED'' then SANITY_FAILED else if s = ''SKIPPED'' then SKIPPED else ERROR)"

abbreviation node_status :: "rule_node \<Rightarrow> status_code" where
  "node_status r \<equiv> to_status_string (rn_status r)"

definition set_add :: "'a \<Rightarrow> 'a list \<Rightarrow> 'a list" where
  "set_add x xs = (if x \<in> set xs then xs else xs @ [x])"

definition own_messages :: "(string \<Rightarrow> bool) \<Rightarrow> notification list \<Rightarrow> string list" where
  "own_messages sev_filter es = map nt_message (filter (\<lambda>e. sev_filter (nt_severity e)) es)"

fun collect_child_errors :: "(string \<Rightarrow> bool) \<Rightarrow> rule_node \<Rightarrow> string list \<Rightarrow> string list" where
  "collect_child_errors sev_filter (RuleNode n out cs st ty es live) acc =
     (if to_status_string st \<noteq> ERROR then acc
      else fold (collect_child_errors sev_filter) cs (fold set_add (own_messages sev_filter es) acc))"

definition timed_out :: "string \<Rightarrow> bool" where
  "timed_out err \<longleftrightarrow> occurs_in ''timed-out'' err \<or> occurs_in ''did not run: BlockingCoroutine was cancelled'' err"

definition before_dot :: "string \<Rightarrow> string" where
  "before_dot s = takeWhile (\<lambda>c. c \<noteq> CHR ''.'') s"

definition effective_path :: "rule_node \<Rightarrow> rule_path \<Rightarrow> string option \<Rightarrow> rule_path" where
  "effective_path r p parent_type =
     (if rn_type r = ''METHOD_INSTANTIATION'' then path_copy p Missing Missing (Update (Some (rn_name r))) Missing
      else if rn_type r = ''CONTRACT'' then path_copy p Missing (Update (Some (rn_name r))) Missing Missing
      else if rn_type r = ''INVARIANT_SUBCHECK''
      then if occurs_in ''constructor'' (rn_name r) then path_copy p Missing Missing (Update (Some ''constructor'')) Missing else p
      else if rn_type r = ''INDUCTION_STEPS'' \<and> parent_type = Some ''CUSTOM_INDUCTION_STEP''
      then if CHR ''.'' \<in> set (rn_name r)
           then path_copy p Missing (Update (Some (before_dot (rn_name r)))) (Update (Some (rn_name r))) Missing
           else path_copy p Missing Missing (Update (Some (rn_name r))) Missing
      else p)"

definition violated_result :: "(string \<Rightarrow> prover_error + json) \<Rightarrow> trace_shape \<Rightarrow> rule_node \<Rightarrow> rule_path \<Rightarrow> status_code \<Rightarrow>
    prover_error + rule_result list" where
  \<comment> \<open>the branch of a node with a violated assertion; \<open>load\<close> reads and parses a file of the tree view's directory\<close>
  "violated_result load shape r p stat =
     (if stat \<noteq> VIOLATED then Inl AssertionError
      else case rn_output r of
        [] \<Rightarrow> Inl AssertionError
      | output_file # _ \<Rightarrow>
          bindE (load output_file) (\<lambda>j.
            case j of
              JObject dump \<Rightarrow> bindE (counterexample_of shape dump) (\<lambda>cex. Inr [(plain_result p stat)\<lparr>res_cex := cex\<rparr>])
            | _ \<Rightarrow> Inl AssertionError))"

fun flatten_tree_view :: "(string \<Rightarrow> prover_error + json) \<Rightarrow> trace_shape \<Rightarrow> rule_node \<Rightarrow> rule_path \<Rightarrow> string option \<Rightarrow>
    prover_error + rule_result list" where
  "flatten_tree_view load shape (RuleNode n out cs st ty es live) path parent_type =
     (let r = RuleNode n out cs st ty es live;
          p = effective_path r path parent_type;
          messages = collect_child_errors (\<lambda>sev. sev = ''error'') r [];
          stat = (if to_status_string st = ERROR \<and> list_all timed_out messages then TIMEOUT else to_status_string st)
      in if stat = ERROR then Inr [(plain_result p stat)\<lparr>error_messages := messages\<rparr>]
         else if stat = SKIPPED
         then Inr [(plain_result p stat)\<lparr>error_messages := own_messages (\<lambda>sev. sev = ''error'' \<or> sev = ''warning'') es\<rparr>]
         else if stat = VERIFIED
         then if list_ex (\<lambda>c. rn_type c \<noteq> ''SANITY'') cs
              then concatE (\<lambda>c. flatten_tree_view load shape c p (Some ty)) cs
              else Inr [plain_result p stat]
         else if stat = TIMEOUT \<and> list_all (\<lambda>c. rn_type c = ''SANITY'') cs
         then Inr [(plain_result p stat)\<lparr>live_check_info := live\<rparr>]
         else if list_ex (\<lambda>c. rn_type c = ''VIOLATED_ASSERT'') cs then violated_result load shape r p stat
         else if ty = ''SANITY'' then if stat = SANITY_FAILED then Inr [plain_result p stat] else Inl AssertionError
         else concatE (\<lambda>c. flatten_tree_view load shape c p (Some ty)) cs)"

definition flatten_tree_view_root :: "(string \<Rightarrow> prover_error + json) \<Rightarrow> trace_shape \<Rightarrow> rule_node \<Rightarrow> prover_error + rule_result list" where
  "flatten_tree_view_root load shape r =
     (if rn_type r \<noteq> ''ROOT'' then Inl AssertionError
      else flatten_tree_view load shape r (rule_path_of (rn_name r)) None)"

subsection \<open>Reading a results directory\<close>

record results_dir =
  rd_root :: posix_path
  tree_names :: "string list"
  file_text :: "posix_path \<Rightarrow> string option"

definition tree_view_dir :: "results_dir \<Rightarrow> posix_path" where
  "tree_view_dir d = path_join (path_join (rd_root d) ''Reports'') ''treeView''"

definition load_json :: "(string \<Rightarrow> json option) \<Rightarrow> results_dir \<Rightarrow> string \<Rightarrow> prover_error + json" where
  \<comment> \<open>\<^verbatim>\<open>json.loads((context / name).read_text())\<close>\<close>
  "load_json loads d name =
     (case file_text d (path_join (tree_view_dir d) name) of
        None \<Rightarrow> Inl FileNotFoundError
      | Some t \<Rightarrow> (case loads t of None \<Rightarrow> Inl JSONDecodeError | Some j \<Rightarrow> Inr j))"

definition globbed :: "string \<Rightarrow> bool" where
  "globbed name \<longleftrightarrow> starts_with ''treeViewStatus_'' name \<and> ends_in (drop (length ''treeViewStatus_'') name) ''.json''"

definition status_index :: "string \<Rightarrow> nat option" where
  \<comment> \<open>the match of \<^verbatim>\<open>treeViewStatus_(\d+).json\<close> at the start of a name; the dot of the pattern is any character\<close>
  "status_index name =
     (let rest = drop (length ''treeViewStatus_'') name; ds = takeWhile is_digit rest in
      if starts_with ''treeViewStatus_'' name
      then map_option (\<lambda>k. nat_of_digits (take k rest))
             (find (\<lambda>k. k < length rest \<and> rest ! k \<noteq> CHR 0x0A \<and> starts_with ''json'' (drop (k + 1) rest)) (rev [1..<length ds + 1]))
      else None)"

definition newest_index :: "string list \<Rightarrow> int" where
  "newest_index names =
     fold (\<lambda>name best. case status_index name of None \<Rightarrow> best | Some i \<Rightarrow> if int i < best then best else int i)
       (filter globbed names) (- 1)"

definition get_final_treeview :: "(string \<Rightarrow> json option) \<Rightarrow> results_dir \<Rightarrow> prover_error + rule_node list" where
  "get_final_treeview loads d =
     (let n = newest_index (tree_names d) in
      if n = - 1 then Inl NoTreeViewResultError
      else bindE (load_json loads d (''treeViewStatus_'' @ show_int n @ ''.json'')) (\<lambda>j.
        case parse_tree_view j of None \<Rightarrow> Inl MalformedTreeView | Some rules \<Rightarrow> Inr rules))"

definition flatten_all :: "(string \<Rightarrow> prover_error + json) \<Rightarrow> trace_shape \<Rightarrow> rule_node list \<Rightarrow> prover_error + rule_result list" where
  "flatten_all load shape = concatE (flatten_tree_view_root load shape)"

definition read_and_format_run_result :: "(string \<Rightarrow> json option) \<Rightarrow> results_dir \<Rightarrow> prover_app \<Rightarrow>
    prover_error + (string + (string, rule_result) dict)" where
  "read_and_format_run_result loads d app =
     (case get_final_treeview loads d of
        Inl NoTreeViewResultError \<Rightarrow> Inr (Inl ''Certora prover returned no results: this is likely a bug'')
      | Inl MalformedTreeView \<Rightarrow> Inr (Inl ''Certora prover returned malformed tree view data: this is likely a bug'')
      | Inl e \<Rightarrow> Inl e
      | Inr rules \<Rightarrow>
          bindE (flatten_all (load_json loads d) (trace_shape_of app) rules) (\<lambda>rs.
            Inr (Inr (dict_of (map (\<lambda>r. (res_name r, r)) rs)))))"

subsection \<open>Alerts\<close>

datatype alert_report = AlertReport "string list" | UnreadableAlertReport

definition parse_alert_report :: "(string \<Rightarrow> json option) \<Rightarrow> string \<Rightarrow> alert_report" where
  "parse_alert_report loads t =
     (case loads t of
        Some (JArray alerts) \<Rightarrow> AlertReport (List.map_filter (str_field ''message'') alerts)
      | _ \<Rightarrow> UnreadableAlertReport)"

datatype file_read = FileText string | FileMissing | FileFailed

definition read_alert_report :: "(string \<Rightarrow> json option) \<Rightarrow> file_read \<Rightarrow> alert_report" where
  "read_alert_report loads f =
     (case f of FileText t \<Rightarrow> parse_alert_report loads t | FileMissing \<Rightarrow> AlertReport [] | FileFailed \<Rightarrow> UnreadableAlertReport)"

end
