(* ===== verification/Prover_Core.thy ===== *)
theory Prover_Core
  imports Prover_Results
begin

text \<open>
  \<^verbatim>\<open>composer/prover/core.py\<close>: the options of a run, what \<^verbatim>\<open>run_prover\<close> makes of the subprocess's outcome and
  the parsed results, and the outcome tables of a \<^verbatim>\<open>ProverReport\<close>. The subprocess, the retrieval of cloud results and the renderers of the report text
  are arguments; the progress callbacks are left out.
\<close>

subsection \<open>Options\<close>

definition default_global_timeout :: int where
  "default_global_timeout = 1500"

record prover_options =
  po_app :: prover_app
  po_server :: "string option"
  po_global_timeout :: "int option"

definition cloud :: "prover_options \<Rightarrow> bool" where
  "cloud opts \<longleftrightarrow> po_server opts \<noteq> None"

definition runtime_bound :: "prover_options \<Rightarrow> int" where
  "runtime_bound opts = (case po_global_timeout opts of None \<Rightarrow> default_global_timeout | Some t \<Rightarrow> t)"

definition cli_args :: "prover_options \<Rightarrow> string list" where
  "cli_args opts =
     (case po_global_timeout opts of None \<Rightarrow> [] | Some t \<Rightarrow> [''--global_timeout'', show_int t]) @
     (case po_server opts of None \<Rightarrow> [] | Some s \<Rightarrow> [''--server'', s])"

definition resolved_global_prover_timeout :: "string option \<Rightarrow> int" where
  \<comment> \<open>the argument is the value of the environment variable\<close>
  "resolved_global_prover_timeout raw =
     (case raw of None \<Rightarrow> default_global_timeout
      | Some s \<Rightarrow> (case py_int s of None \<Rightarrow> default_global_timeout | Some t \<Rightarrow> t))"

definition make_prover_options :: "string \<Rightarrow> string option \<Rightarrow> bool \<Rightarrow> prover_app \<Rightarrow> prover_options" where
  \<comment> \<open>the first two arguments are the server of the deployment and the environment variable\<close>
  "make_prover_options server raw is_cloud app =
     (if \<not> is_cloud then \<lparr>po_app = app, po_server = None, po_global_timeout = None\<rparr>
      else \<lparr>po_app = app, po_server = Some server, po_global_timeout = Some (resolved_global_prover_timeout raw)\<rparr>)"

subsection \<open>The report\<close>

record prover_report =
  raw_rule_status :: "(rule_path, status_code) dict"
  result_str :: string
  link :: string
  certora_run_stdout :: string
  alerts :: alert_report
  incomplete :: "(rule_path, violation_class) dict"

definition note_outcome :: "rule_path \<times> status_code \<Rightarrow> (string, status_code) dict \<Rightarrow> (string, status_code) dict" where
  "note_outcome pc found =
     (case pc of (p, st) \<Rightarrow>
        case dget found (rp_rule p) of
          Some s \<Rightarrow> if s \<noteq> VERIFIED then found else dset (rp_rule p) st found
        | None \<Rightarrow> dset (rp_rule p) st found)"

definition rule_outcomes :: "prover_report \<Rightarrow> (string, status_code) dict" where
  "rule_outcomes rep = fold note_outcome (raw_rule_status rep) []"

definition rule_status :: "prover_report \<Rightarrow> (string, bool) dict" where
  "rule_status rep = map (\<lambda>(name, st). (name, st = VERIFIED)) (rule_outcomes rep)"

definition all_verified :: "prover_report \<Rightarrow> bool" where
  "all_verified rep \<longleftrightarrow> list_all id (vals (rule_status rep))"

definition zip_results :: "(rule_result \<Rightarrow> 'a option) \<Rightarrow> rule_result list \<Rightarrow> (rule_result \<times> 'a option) list" where
  "zip_results m l = map (\<lambda>r. (r, if res_status r = VIOLATED then m r else None)) l"

definition group_failing :: "rule_result list \<Rightarrow> (string \<times> rule_result list) list" where
  \<comment> \<open>a \<^verbatim>\<open>FailingRule\<close> is the pair of its name and its instances\<close>
  "group_failing rs =
     fold (\<lambda>r d. if res_status r \<noteq> VIOLATED then d else append_at (rp_rule (res_path r)) r d) rs []"

definition note_incomplete :: "rule_result \<Rightarrow> (rule_path, violation_class) dict \<Rightarrow> (rule_path, violation_class) dict" where
  "note_incomplete r found =
     (case res_cex r of
        None \<Rightarrow> found
      | Some cex \<Rightarrow>
          if res_status r \<noteq> VIOLATED then found
          else (case classify_violation cex of
              IncompleteCheck k a \<Rightarrow> dset (res_path r) (IncompleteCheck k a) found
            | PropertyViolation \<Rightarrow> found))"

definition incomplete_of :: "(string, rule_result) dict \<Rightarrow> (rule_path, violation_class) dict" where
  "incomplete_of results = fold note_incomplete (vals results) []"

subsection \<open>A run\<close>

datatype run_result =
    RunText string
  | RunNothing
  | RunSuccess "string option" bool
  | RunFailure string

record fetched_results =
  fr_dir :: results_dir
  fr_alerts :: alert_report

datatype fetch_outcome = Fetched fetched_results | CloudJobError string

definition effective_args :: "string list \<Rightarrow> prover_options \<Rightarrow> string list" where
  "effective_args args opts =
     (let ea = args @ cli_args opts in
      if cloud opts \<and> ''--wait_for_results'' \<notin> set ea then ea @ [''--wait_for_results'', ''none''] else ea)"

definition subprocess_timeout :: "prover_options \<Rightarrow> int" where
  "subprocess_timeout opts = runtime_bound opts + 5 * 60"

definition timeout_text :: "prover_options \<Rightarrow> string" where
  "timeout_text opts =
     ''The prover did not finish within '' @ show_int (subprocess_timeout opts) @ ''s and was '' @
     ''terminated. This is an infrastructure failure, not a problem with '' @
     ''the specification: the local build or type-check phase stopped '' @
     ''responding. Retrying may succeed.''"

definition report_of :: "(rule_result list \<Rightarrow> string) \<Rightarrow> (rule_result list \<Rightarrow> string) \<Rightarrow> (string, rule_result) dict \<Rightarrow>
    alert_report \<Rightarrow> string \<Rightarrow> string \<Rightarrow> prover_report" where
  \<comment> \<open>\<open>analyze\<close> is the counterexample handler, \<open>feedback\<close> the template for runs without a violation\<close>
  "report_of analyze feedback parsed als lnk out =
     (let all_results = vals parsed in
      \<lparr>raw_rule_status = dict_of (map (\<lambda>r. (res_path r, res_status r)) all_results),
       result_str = (if list_ex (\<lambda>r. res_status r = VIOLATED) all_results then analyze all_results else feedback all_results),
       link = lnk, certora_run_stdout = out, alerts = als, incomplete = incomplete_of parsed\<rparr>)"

definition run_prover :: "(string \<Rightarrow> json option) \<Rightarrow> (rule_result list \<Rightarrow> string) \<Rightarrow> (rule_result list \<Rightarrow> string) \<Rightarrow>
    (string \<Rightarrow> fetch_outcome) \<Rightarrow> prover_options \<Rightarrow> (run_result \<times> string) option \<Rightarrow> prover_error + (string + prover_report)" where
  \<comment> \<open>the last argument is the outcome of the subprocess and its standard output, None when it was killed; \<open>fetch\<close>
      retrieves the results of a link; the text answer is Inl, the report Inr\<close>
  "run_prover loads analyze feedback fetch opts outcome =
     (case outcome of
        None \<Rightarrow> Inr (Inl (timeout_text opts))
      | Some (run, out) \<Rightarrow>
          (case run of
             RunText t \<Rightarrow> Inr (Inl t)
           | RunNothing \<Rightarrow> Inr (Inl (''Prover did not produce results.'' @ newline @ ''stdout:'' @ newline @ out))
           | RunFailure e \<Rightarrow> Inr (Inl (''Certora prover raised exception: '' @ e @ newline @ ''stdout:'' @ newline @ out))
           | RunSuccess None is_local \<Rightarrow> Inr (Inl (''Prover did not produce results.'' @ newline @ ''stdout:'' @ newline @ out))
           | RunSuccess (Some lnk) is_local \<Rightarrow>
               if \<not> cloud opts \<and> \<not> is_local
               then Inr (Inl (''Prover did not produce local results.'' @ newline @ ''stdout:'' @ newline @ out))
               else (case fetch lnk of
                   CloudJobError status \<Rightarrow> Inr (Inl (''Prover cloud job did not produce results (status '' @ status @ '').''))
                 | Fetched fr \<Rightarrow>
                     bindE (read_and_format_run_result loads (fr_dir fr) (po_app opts)) (\<lambda>parsed.
                       Inr (case parsed of
                           Inl t \<Rightarrow> Inl (''Failed to parse prover results: '' @ t)
                         | Inr rs \<Rightarrow> Inr (report_of analyze feedback rs (fr_alerts fr) lnk out))))))"

end
