(* ===== verification/Prover_Laws.thy ===== *)
theory Prover_Laws
  imports Prover_Core
begin

text \<open>
  What the reading of a prover run guarantees. The visit relation walks the tree view as the flattening does; the
  flattened results are exactly the verdicts of the visited nodes that are not opened, and a verdict is the
  status the Prover gave. The rest follows the verdicts through the table keyed by name, the trace rendering, the
  classification of violations and the outcome per rule.
\<close>

subsection \<open>The walk\<close>

abbreviation error_list :: "rule_node \<Rightarrow> string list" where
  "error_list r \<equiv> collect_child_errors (\<lambda>sev. sev = ''error'') r []"

definition final_status :: "rule_node \<Rightarrow> status_code" where
  "final_status r = (if node_status r = ERROR \<and> list_all timed_out (error_list r) then TIMEOUT else node_status r)"

definition opens :: "rule_node \<Rightarrow> bool" where
  "opens r \<longleftrightarrow>
     (final_status r = VERIFIED \<and> list_ex (\<lambda>c. rn_type c \<noteq> ''SANITY'') (rn_children r)) \<or>
     (final_status r \<in> {TIMEOUT, VIOLATED, SANITY_FAILED} \<and>
      \<not> (final_status r = TIMEOUT \<and> list_all (\<lambda>c. rn_type c = ''SANITY'') (rn_children r)) \<and>
      \<not> list_ex (\<lambda>c. rn_type c = ''VIOLATED_ASSERT'') (rn_children r) \<and> rn_type r \<noteq> ''SANITY'')"

definition verdict :: "(string \<Rightarrow> prover_error + json) \<Rightarrow> trace_shape \<Rightarrow> rule_node \<Rightarrow> rule_path \<Rightarrow> prover_error + rule_result list" where
  "verdict load shape r p =
     (if final_status r = ERROR then Inr [(plain_result p ERROR)\<lparr>error_messages := error_list r\<rparr>]
      else if final_status r = SKIPPED
      then Inr [(plain_result p SKIPPED)\<lparr>error_messages := own_messages (\<lambda>sev. sev = ''error'' \<or> sev = ''warning'') (rn_errors r)\<rparr>]
      else if final_status r = VERIFIED then Inr [plain_result p VERIFIED]
      else if final_status r = TIMEOUT \<and> list_all (\<lambda>c. rn_type c = ''SANITY'') (rn_children r)
      then Inr [(plain_result p TIMEOUT)\<lparr>live_check_info := rn_live r\<rparr>]
      else if list_ex (\<lambda>c. rn_type c = ''VIOLATED_ASSERT'') (rn_children r)
      then violated_result load shape r p (final_status r)
      else if final_status r = SANITY_FAILED then Inr [plain_result p SANITY_FAILED] else Inl AssertionError)"

inductive visit :: "rule_node \<Rightarrow> rule_path \<Rightarrow> string option \<Rightarrow> rule_node \<Rightarrow> rule_path \<Rightarrow> bool" where
  here: "visit r q parent r (effective_path r q parent)"
| below: "opens r \<Longrightarrow> c \<in> set (rn_children r) \<Longrightarrow> visit c (effective_path r q parent) (Some (rn_type r)) n p \<Longrightarrow>
    visit r q parent n p"

lemma flatten_eq:
  "flatten_tree_view load shape r q parent =
     (if opens r
      then concatE (\<lambda>c. flatten_tree_view load shape c (effective_path r q parent) (Some (rn_type r))) (rn_children r)
      else verdict load shape r (effective_path r q parent))"
proof (cases r)
  case (RuleNode n out cs st ty es live)
  have fields: "rn_type r = ty" "rn_children r = cs" "rn_live r = live" "rn_errors r = es" by (simp_all add: RuleNode)
  have status: "(if to_status_string st = ERROR \<and> list_all timed_out (error_list r) then TIMEOUT else to_status_string st) = final_status r"
    by (simp add: final_status_def RuleNode)
  have "flatten_tree_view load shape r q parent = flatten_tree_view load shape (RuleNode n out cs st ty es live) q parent"
    by (simp only: RuleNode)
  note unrolled = this [unfolded flatten_tree_view.simps Let_def, unfolded RuleNode [symmetric], unfolded status]
  show ?thesis
    unfolding unrolled by (cases "final_status r") (simp_all add: opens_def verdict_def fields)
qed

lemma concatE_Inr: "concatE f xs = Inr zs \<Longrightarrow> set zs = {z. \<exists>x\<in>set xs. \<exists>ys. f x = Inr ys \<and> z \<in> set ys}"
  by (induction xs arbitrary: zs) (auto simp: bindE_Inr_iff)

lemma concatE_Inr_all: "concatE f xs = Inr zs \<Longrightarrow> x \<in> set xs \<Longrightarrow> \<exists>ys. f x = Inr ys"
  by (induction xs arbitrary: zs) (auto simp: bindE_Inr_iff)

lemma concatE_Inl: "concatE f xs = Inl e \<Longrightarrow> \<exists>x\<in>set xs. f x = Inl e"
  by (induction xs) (auto simp: bindE_Inl_iff)

lemma child_smaller: "c \<in> set (rn_children r) \<Longrightarrow> size c < size r"
proof (cases r)
  case (RuleNode n out cs st ty es live)
  have "c \<in> set cs \<Longrightarrow> size c < Suc (size_list size cs)" by (induction cs) auto
  then show "c \<in> set (rn_children r) \<Longrightarrow> size c < size r" by (simp add: RuleNode)
qed

lemma visit_iff:
  "visit r q parent n p \<longleftrightarrow> (n = r \<and> p = effective_path r q parent) \<or>
     (opens r \<and> (\<exists>c\<in>set (rn_children r). visit c (effective_path r q parent) (Some (rn_type r)) n p))"
  by (subst visit.simps) auto

lemma flatten_visits:
  "(case flatten_tree_view load shape r q parent of
      Inr rs \<Rightarrow> set rs = {x. \<exists>n p ys. visit r q parent n p \<and> \<not> opens n \<and> verdict load shape n p = Inr ys \<and> x \<in> set ys}
    | Inl e \<Rightarrow> \<exists>n p. visit r q parent n p \<and> \<not> opens n \<and> verdict load shape n p = Inl e)"
proof (induction r arbitrary: q parent rule: measure_induct_rule [of size])
  case (less r)
  let ?p = "effective_path r q parent"
  let ?f = "\<lambda>c. flatten_tree_view load shape c ?p (Some (rn_type r))"
  show ?case
  proof (cases "opens r")
    case False
    then have "visit r q parent n p \<longleftrightarrow> n = r \<and> p = ?p" for n p by (simp add: visit_iff [where r = r])
    with False show ?thesis by (auto simp: flatten_eq [where r = r] split: sum.split)
  next
    case True
    note IH = less.IH [OF child_smaller, of _ ?p "Some (rn_type r)"]
    have step: "visit r q parent n p \<and> \<not> opens n \<longleftrightarrow>
        \<not> opens n \<and> (\<exists>c\<in>set (rn_children r). visit c ?p (Some (rn_type r)) n p)" for n p
      using True by (auto simp: visit_iff [where r = r])
    have unfolded: "flatten_tree_view load shape r q parent = concatE ?f (rn_children r)"
      using True by (simp add: flatten_eq [where r = r])
    show ?thesis
    proof (cases "concatE ?f (rn_children r)")
      case (Inr rs)
      have "{z. \<exists>x\<in>set (rn_children r). \<exists>ys. ?f x = Inr ys \<and> z \<in> set ys} =
          {x. \<exists>n p ys. visit r q parent n p \<and> \<not> opens n \<and> verdict load shape n p = Inr ys \<and> x \<in> set ys}" (is "?L = ?R")
      proof (intro set_eqI iffI)
        fix z assume "z \<in> ?L"
        then obtain x ys where x: "x \<in> set (rn_children r)" "?f x = Inr ys" "z \<in> set ys" by blast
        with IH [OF x(1)] obtain n p ws where "visit x ?p (Some (rn_type r)) n p" "\<not> opens n" "verdict load shape n p = Inr ws" "z \<in> set ws"
          by auto
        then show "z \<in> ?R" using below [OF True x(1)] by blast
      next
        fix z assume "z \<in> ?R"
        then obtain n p ys c where *: "\<not> opens n" "verdict load shape n p = Inr ys" "z \<in> set ys"
            and c: "c \<in> set (rn_children r)" "visit c ?p (Some (rn_type r)) n p" using step by blast
        obtain ws where ws: "?f c = Inr ws" using concatE_Inr_all [OF Inr c(1)] by blast
        with IH [OF c(1)] * c(2) have "z \<in> set ws" by auto
        with c(1) ws show "z \<in> ?L" by blast
      qed
      then show ?thesis unfolding unfolded Inr sum.case concatE_Inr [OF Inr] .
    next
      case (Inl e)
      from concatE_Inl [OF Inl] obtain x where x: "x \<in> set (rn_children r)" "?f x = Inl e" by (elim bexE)
      from IH [OF x(1), unfolded x(2) sum.case] obtain n p
        where "visit x ?p (Some (rn_type r)) n p" "\<not> opens n" "verdict load shape n p = Inl e" by blast
      then have "\<exists>n p. visit r q parent n p \<and> \<not> opens n \<and> verdict load shape n p = Inl e"
        using below [OF True x(1)] by blast
      then show ?thesis unfolding unfolded Inl sum.case .
    qed
  qed
qed


subsection \<open>Verdicts are the Prover's\<close>

lemma own_messages_set: "m \<in> set (own_messages f es) \<longleftrightarrow> (\<exists>e\<in>set es. f (nt_severity e) \<and> nt_message e = m)"
  by (auto simp: own_messages_def)

lemma violated_resultD:
  assumes "violated_result load shape r p stat = Inr ys"
  obtains f out dump cex where "stat = VIOLATED" and "rn_output r = f # out" and "load f = Inr (JObject dump)"
    and "counterexample_of shape dump = Inr cex" and "ys = [(plain_result p VIOLATED)\<lparr>res_cex := cex\<rparr>]"
proof -
  have stat: "stat = VIOLATED" using assms by (auto simp: violated_result_def split: if_splits)
  then obtain f out where out: "rn_output r = f # out" using assms by (cases "rn_output r") (auto simp: violated_result_def)
  then obtain j where j: "load f = Inr j" using assms stat by (cases "load f") (auto simp: violated_result_def)
  then obtain dump where "j = JObject dump" using assms stat out by (cases j) (auto simp: violated_result_def)
  then show ?thesis using that assms stat out j by (auto simp: violated_result_def bindE_Inr_iff)
qed

lemma verdict_status:
  assumes "verdict load shape n p = Inr ys" and "x \<in> set ys"
  shows "res_path x = p \<and> res_status x = final_status n"
proof (cases "list_ex (\<lambda>c. rn_type c = ''VIOLATED_ASSERT'') (rn_children n)")
  case True
  then show ?thesis
    using assms by (auto simp: verdict_def plain_result_def elim!: violated_resultD split: if_splits)
next
  case False
  then show ?thesis using assms by (auto simp: verdict_def plain_result_def split: if_splits)
qed

lemma verdict_cases:
  assumes "verdict load shape n p = Inr ys" and "x \<in> set ys" and "\<not> opens n"
  shows "res_status x = VERIFIED \<Longrightarrow> node_status n = VERIFIED \<and> list_all (\<lambda>c. rn_type c = ''SANITY'') (rn_children n)"
    and "res_status x = VIOLATED \<Longrightarrow> node_status n = VIOLATED \<and> list_ex (\<lambda>c. rn_type c = ''VIOLATED_ASSERT'') (rn_children n)"
    and "res_status x = ERROR \<Longrightarrow> node_status n = ERROR \<and> (\<exists>m\<in>set (error_messages x). \<not> timed_out m)"
    and "res_status x = SKIPPED \<Longrightarrow> node_status n = SKIPPED"
    and "res_status x = SANITY_FAILED \<Longrightarrow> node_status n = SANITY_FAILED \<and> rn_type n = ''SANITY''"
    and "res_status x = TIMEOUT \<Longrightarrow> node_status n = TIMEOUT \<or> node_status n = ERROR \<and> list_all timed_out (error_list n)"
proof -
  have s: "final_status n = res_status x" using verdict_status [OF assms(1,2)] by simp
  show "node_status n = VERIFIED \<and> list_all (\<lambda>c. rn_type c = ''SANITY'') (rn_children n)" if "res_status x = VERIFIED"
    using assms(3) that s by (auto simp: opens_def final_status_def list_ex_iff list_all_iff split: if_splits)
  show "node_status n = ERROR \<and> (\<exists>m\<in>set (error_messages x). \<not> timed_out m)" if "res_status x = ERROR"
    using assms(1,2) that s
    by (auto simp: verdict_def plain_result_def final_status_def list_all_iff split: if_splits)
  show "node_status n = SKIPPED" if "res_status x = SKIPPED"
    using that s by (auto simp: final_status_def split: if_splits)
  show "node_status n = SANITY_FAILED \<and> rn_type n = ''SANITY''" if "res_status x = SANITY_FAILED"
    using assms that s by (auto simp: verdict_def opens_def violated_result_def final_status_def split: if_splits)
  show "node_status n = TIMEOUT \<or> node_status n = ERROR \<and> list_all timed_out (error_list n)" if "res_status x = TIMEOUT"
    using that s by (auto simp: final_status_def split: if_splits)
  show "node_status n = VIOLATED \<and> list_ex (\<lambda>c. rn_type c = ''VIOLATED_ASSERT'') (rn_children n)" if "res_status x = VIOLATED"
    using assms that s by (auto simp: verdict_def opens_def final_status_def split: if_splits)
qed

lemma flatten_in:
  assumes "flatten_tree_view load shape r q parent = Inr rs" and "x \<in> set rs"
  obtains n p ys where "visit r q parent n p" and "\<not> opens n" and "verdict load shape n p = Inr ys" and "x \<in> set ys"
  using flatten_visits [where load = load and shape = shape and r = r and q = q and parent = parent] assms by auto

text \<open>
  C5: Every reported verdict is one the Prover gave to a node of the tree: verified only at a verified node with at most
  sanity checks below it, violated only at a violated node with a violated assertion, and an error always carries a
  message that is not a time-out. The only status that is changed is that of errors, to a time-out, when every error
  message below the node is one.
\<close>

theorem verdicts_are_the_provers:
  assumes "flatten_tree_view load shape r q parent = Inr rs" and "x \<in> set rs"
  shows "\<exists>n. visit r q parent n (res_path x) \<and>
    (case res_status x of
       VERIFIED \<Rightarrow> node_status n = VERIFIED \<and> list_all (\<lambda>c. rn_type c = ''SANITY'') (rn_children n)
     | VIOLATED \<Rightarrow> node_status n = VIOLATED \<and> list_ex (\<lambda>c. rn_type c = ''VIOLATED_ASSERT'') (rn_children n)
     | ERROR \<Rightarrow> node_status n = ERROR \<and> (\<exists>m\<in>set (error_messages x). \<not> timed_out m)
     | SKIPPED \<Rightarrow> node_status n = SKIPPED
     | SANITY_FAILED \<Rightarrow> node_status n = SANITY_FAILED \<and> rn_type n = ''SANITY''
     | TIMEOUT \<Rightarrow> node_status n = TIMEOUT \<or> node_status n = ERROR \<and> list_all timed_out (error_list n))"
proof -
  obtain n p ys where n: "visit r q parent n p" "\<not> opens n" and v: "verdict load shape n p = Inr ys" "x \<in> set ys"
    by (rule flatten_in [OF assms])
  have "res_path x = p" using verdict_status [OF v] by simp
  with n(1) verdict_cases [OF v n(2)] show ?thesis by (intro exI [of _ n]) (simp split: status_code.split)
qed


text \<open>
  An error node without a message of severity error, for instance one with a status this version does not know, is
  reported as a time-out when nothing but sanity checks is below it: the test that all messages are time-outs holds of none.
\<close>

theorem silent_errors_become_timeouts:
  assumes "node_status r = ERROR" and "error_list r = []" and "list_all (\<lambda>c. rn_type c = ''SANITY'') (rn_children r)"
  shows "flatten_tree_view load shape r q parent =
    Inr [(plain_result (effective_path r q parent) TIMEOUT)\<lparr>live_check_info := rn_live r\<rparr>]"
proof -
  have "final_status r = TIMEOUT" using assms(1,2) by (simp add: final_status_def)
  with assms(3) have "\<not> opens r"
    "verdict load shape r p = Inr [(plain_result p TIMEOUT)\<lparr>live_check_info := rn_live r\<rparr>]" for p
    by (simp_all add: opens_def verdict_def)
  then show ?thesis by (simp add: flatten_eq [where r = r])
qed

lemma silent_errors_become_timeouts_witness:
  "flatten_tree_view (\<lambda>_. Inl FileNotFoundError) evm_trace (RuleNode ''r'' [] [] (Some ''UNKNOWN'') ''ROOT'' [] None) (rule_path_of ''r'') None =
     Inr [plain_result (rule_path_of ''r'') TIMEOUT]"
proof -
  let ?r = "RuleNode ''r'' [] [] (Some ''UNKNOWN'') ''ROOT'' [] None"
  have "node_status ?r = ERROR" "error_list ?r = []" "list_all (\<lambda>c. rn_type c = ''SANITY'') (rn_children ?r)"
    "(plain_result (effective_path ?r (rule_path_of ''r'') None) TIMEOUT)\<lparr>live_check_info := rn_live ?r\<rparr> = plain_result (rule_path_of ''r'') TIMEOUT"
    by code_simp+
  then show ?thesis using silent_errors_become_timeouts [of ?r] by simp
qed

subsection \<open>Outcomes per rule\<close>

definition codes_of :: "(rule_path \<times> status_code) list \<Rightarrow> string \<Rightarrow> status_code list" where
  "codes_of raw rule = map snd (filter (\<lambda>pc. rp_rule (fst pc) = rule) raw)"

definition first_failure :: "status_code list \<Rightarrow> status_code" where
  "first_failure cs = (case find (\<lambda>c. c \<noteq> VERIFIED) cs of None \<Rightarrow> VERIFIED | Some c \<Rightarrow> c)"

lemma dget_note_outcome:
  "dget (note_outcome (p, c) found) rule =
     (if rp_rule p = rule
      then (case dget found rule of Some s \<Rightarrow> if s \<noteq> VERIFIED then Some s else Some c | None \<Rightarrow> Some c)
      else dget found rule)"
  by (auto simp: note_outcome_def dget_dset split: option.split)

lemma dget_outcomes:
  "dget (fold note_outcome raw []) rule = (if codes_of raw rule = [] then None else Some (first_failure (codes_of raw rule)))"
proof (induction raw rule: rev_induct)
  case Nil
  then show ?case by (simp add: codes_of_def)
next
  case (snoc pc raw)
  obtain p c where pc: "pc = (p, c)" by fastforce
  have codes: "codes_of (raw @ [(p, c)]) rule = codes_of raw rule @ (if rp_rule p = rule then [c] else [])"
    by (simp add: codes_of_def)
  show ?case
    unfolding pc codes fold_append fold_simps comp_def id_def dget_note_outcome snoc
    by (auto simp: first_failure_def find_append dest: find_SomeD split: option.split)
qed

lemma dict_ok_outcomes: "dict_ok (fold note_outcome raw [])"
proof -
  have "dict_ok d \<Longrightarrow> dict_ok (note_outcome pc d)" for pc d
    by (auto simp: note_outcome_def split: prod.split option.split)
  then have "dict_ok d \<Longrightarrow> dict_ok (fold note_outcome raw d)" for d by (induction raw arbitrary: d) auto
  then show ?thesis by simp
qed

lemma first_failure_verified: "first_failure cs = VERIFIED \<longleftrightarrow> (\<forall>c\<in>set cs. c = VERIFIED)"
  by (auto simp: first_failure_def find_None_iff dest: find_SomeD split: option.split)

lemma all_verified_iff: "all_verified rep \<longleftrightarrow> (\<forall>(p, c)\<in>set (raw_rule_status rep). c = VERIFIED)"
proof -
  have "all_verified rep \<longleftrightarrow> (\<forall>(rule, c)\<in>set (rule_outcomes rep). c = VERIFIED)"
    by (auto simp: all_verified_def rule_status_def list_all_iff)
  also have "\<dots> \<longleftrightarrow> (\<forall>rule c. dget (rule_outcomes rep) rule = Some c \<longrightarrow> c = VERIFIED)"
    using dget_in_iff [OF dict_ok_outcomes] unfolding rule_outcomes_def by auto
  also have "\<dots> \<longleftrightarrow> (\<forall>rule. \<forall>c\<in>set (codes_of (raw_rule_status rep) rule). c = VERIFIED)"
    unfolding rule_outcomes_def dget_outcomes by (metis first_failure_verified empty_iff empty_set option.distinct(1) option.inject)
  also have "\<dots> \<longleftrightarrow> (\<forall>(p, c)\<in>set (raw_rule_status rep). c = VERIFIED)"
    by (force simp: codes_of_def)
  finally show ?thesis .
qed

text \<open>
  The outcome of a rule is the first failure among its instances, in their order, and verified only when every
  instance is; a rule without instances has none.
\<close>

theorem rule_outcome_is_the_first_failure:
  "dget (rule_outcomes rep) rule =
     (let cs = map snd (filter (\<lambda>pc. rp_rule (fst pc) = rule) (raw_rule_status rep)) in
      if cs = [] then None
      else Some (case find (\<lambda>c. c \<noteq> VERIFIED) cs of None \<Rightarrow> VERIFIED | Some c \<Rightarrow> c))"
  unfolding rule_outcomes_def dget_outcomes by (simp add: codes_of_def first_failure_def)

lemma read_tableD:
  assumes "read_and_format_run_result loads d app = Inr (Inr table)"
  obtains rules rs where "get_final_treeview loads d = Inr rules"
    and "flatten_all (load_json loads d) (trace_shape_of app) rules = Inr rs"
    and "table = dict_of (map (\<lambda>r. (res_name r, r)) rs)"
  using assms by (auto simp: read_and_format_run_result_def bindE_Inr_iff split: sum.splits prover_error.splits)

lemma run_prover_reportD:
  assumes "run_prover loads analyze feedback fetch opts (Some (RunSuccess (Some lnk) is_local, out)) = Inr (Inr rep)"
    and "fetch lnk = Fetched fr"
  obtains table where "read_and_format_run_result loads (fr_dir fr) (po_app opts) = Inr (Inr table)"
    and "rep = report_of analyze feedback table (fr_alerts fr) lnk out"
proof (cases "read_and_format_run_result loads (fr_dir fr) (po_app opts)")
  case (Inl e)
  with assms show ?thesis by (auto simp: run_prover_def split: if_splits)
next
  case (Inr parsed)
  with assms that show ?thesis by (cases parsed) (auto simp: run_prover_def split: if_splits)
qed

lemma dict_of_distinct: "distinct (map fst xs) \<Longrightarrow> dict_of xs = xs"
proof -
  have "distinct (map fst (d @ xs)) \<Longrightarrow> fold (\<lambda>(k, v). dset k v) xs d = d @ xs" for d
  proof (induction xs arbitrary: d)
    case (Cons x xs)
    obtain k v where x: "x = (k, v)" by fastforce
    with Cons.prems have "k \<notin> fst ` set d" by auto
    then have "dset k v d = d @ [(k, v)]" by (induction d) auto
    with Cons x show ?case by simp
  qed simp
  then show "distinct (map fst xs) \<Longrightarrow> dict_of xs = xs" by (simp add: dict_of_def)
qed

lemma table_distinct:
  assumes "distinct (map res_name rs)"
  shows "vals (dict_of (map (\<lambda>r. (res_name r, r)) rs)) = rs"
    and "dict_of (map (\<lambda>r. (res_path r, res_status r)) rs) = map (\<lambda>r. (res_path r, res_status r)) rs"
proof -
  show "vals (dict_of (map (\<lambda>r. (res_name r, r)) rs)) = rs"
    using assms by (subst dict_of_distinct) (simp_all add: comp_def)
  have "distinct (map res_path rs)"
    using assms by (auto simp: distinct_map res_name_def inj_on_def)
  then show "dict_of (map (\<lambda>r. (res_path r, res_status r)) rs) = map (\<lambda>r. (res_path r, res_status r)) rs"
    by (intro dict_of_distinct) (simp add: comp_def)
qed

text \<open>
  C31: When no two instances of a run have one display name, its report says that everything is verified exactly when the
  Prover verified every instance in the tree view.
\<close>

theorem all_verified_means_every_instance:
  assumes "run_prover loads analyze feedback fetch opts (Some (RunSuccess (Some lnk) is_local, out)) = Inr (Inr rep)"
    and "fetch lnk = Fetched fr" and "get_final_treeview loads (fr_dir fr) = Inr rules"
    and "flatten_all (load_json loads (fr_dir fr)) (trace_shape_of (po_app opts)) rules = Inr rs"
    and "distinct (map res_name rs)"
  shows "all_verified rep \<longleftrightarrow> (\<forall>x\<in>set rs. res_status x = VERIFIED)"
proof -
  obtain table where table: "read_and_format_run_result loads (fr_dir fr) (po_app opts) = Inr (Inr table)"
      and rep: "rep = report_of analyze feedback table (fr_alerts fr) lnk out"
    by (rule run_prover_reportD [OF assms(1,2)])
  from table assms(3,4) have "table = dict_of (map (\<lambda>r. (res_name r, r)) rs)"
    by (elim read_tableD) simp
  then have "raw_rule_status rep = map (\<lambda>r. (res_path r, res_status r)) rs"
    by (simp add: rep report_of_def Let_def table_distinct [OF assms(5)])
  then show ?thesis by (auto simp: all_verified_iff)
qed


subsection \<open>A run that hides a violation\<close>

definition node_json :: "string \<Rightarrow> string \<Rightarrow> string \<Rightarrow> string list \<Rightarrow> json list \<Rightarrow> json" where
  "node_json name kind status out cs =
     JObject [(''name'', JString name), (''output'', JArray (map JString out)), (''children'', JArray cs),
       (''status'', JString status), (''nodeType'', JString kind), (''errors'', JArray [])]"

definition hiding_rule :: json where
  "hiding_rule =
     node_json ''solvency'' ''ROOT'' ''VIOLATED'' []
       [node_json ''Bank'' ''CONTRACT'' ''VIOLATED'' []
          [node_json ''deposit(uint256)'' ''METHOD_INSTANTIATION'' ''VIOLATED'' [''rule_output_1.json'']
             [node_json ''assert'' ''VIOLATED_ASSERT'' ''VIOLATED'' [] []]],
        node_json ''Vault'' ''CONTRACT'' ''VERIFIED'' []
          [node_json ''deposit(uint256)'' ''METHOD_INSTANTIATION'' ''VERIFIED'' [] []]]"

definition single_rule :: json where
  "single_rule = node_json ''solvency'' ''ROOT'' ''VIOLATED'' [''rule_output_1.json''] [node_json ''assert'' ''VIOLATED_ASSERT'' ''VIOLATED'' [] []]"

definition sample_loads :: "json \<Rightarrow> string \<Rightarrow> json option" where
  "sample_loads rule t = (if t = ''tree'' then Some (JObject [(''rules'', JArray [rule])]) else Some (JObject []))"

definition sample_dir :: results_dir where
  "sample_dir =
     \<lparr>rd_root = pure_path ''/run'', tree_names = [''treeViewStatus_1.json'', ''treeViewStatus_0.json''],
      file_text = (\<lambda>p. if last (path_parts p) = ''treeViewStatus_1.json'' then Some ''tree'' else Some ''output'')\<rparr>"

definition sample_opts :: prover_options where
  "sample_opts = make_prover_options ''prod'' None True Evm"

definition sample_run :: "json \<Rightarrow> prover_error + (string + prover_report)" where
  "sample_run rule =
     run_prover (sample_loads rule) (\<lambda>_. []) (\<lambda>_. []) (\<lambda>_. Fetched \<lparr>fr_dir = sample_dir, fr_alerts = AlertReport []\<rparr>) sample_opts
       (Some (RunSuccess (Some ''link'') False, []))"

definition sample_results :: "json \<Rightarrow> prover_error + rule_result list" where
  "sample_results rule =
     bindE (get_final_treeview (sample_loads rule) sample_dir) (flatten_all (load_json (sample_loads rule) sample_dir) evm_trace)"

text \<open>
  A violated instance can vanish: when a parametric rule is instantiated with a method of the same name in two
  contracts, both instances have one display name, the later one replaces the earlier in the table, and a run with a
  violated instance is reported as all verified.
\<close>

theorem a_violation_can_be_hidden:
  "\<exists>rep rs. sample_run hiding_rule = Inr (Inr rep) \<and> all_verified rep \<and> sample_results hiding_rule = Inr rs \<and>
     (\<exists>x\<in>set rs. res_status x = VIOLATED)"
proof -
  have "\<not> isl (sample_run hiding_rule) \<and> \<not> isl (projr (sample_run hiding_rule))" by code_simp
  then have rep: "sample_run hiding_rule = Inr (Inr (projr (projr (sample_run hiding_rule))))" by (simp add: sum.expand)
  have "\<not> isl (sample_results hiding_rule)" by code_simp
  then have rs: "sample_results hiding_rule = Inr (projr (sample_results hiding_rule))" by simp
  have verified: "all_verified (projr (projr (sample_run hiding_rule)))" by code_simp
  have "list_ex (\<lambda>x. res_status x = VIOLATED) (projr (sample_results hiding_rule))" by code_simp
  then have "\<exists>x\<in>set (projr (sample_results hiding_rule)). res_status x = VIOLATED" by (simp only: list_ex_iff)
  with rep verified rs show ?thesis by (intro exI conjI)
qed


lemma all_verified_means_every_instance_witness:
  "\<not> all_verified (projr (projr (sample_run single_rule)))"
proof -
  let ?rules = "projr (get_final_treeview (sample_loads single_rule) sample_dir)"
  let ?rs = "projr (flatten_all (load_json (sample_loads single_rule) sample_dir) evm_trace ?rules)"
  have "\<not> isl (sample_run single_rule) \<and> \<not> isl (projr (sample_run single_rule))" by code_simp
  then have rep: "sample_run single_rule = Inr (Inr (projr (projr (sample_run single_rule))))" by (simp add: sum.expand)
  have "\<not> isl (get_final_treeview (sample_loads single_rule) sample_dir)" by code_simp
  then have rules: "get_final_treeview (sample_loads single_rule) sample_dir = Inr ?rules" by simp
  have "\<not> isl (flatten_all (load_json (sample_loads single_rule) sample_dir) evm_trace ?rules)" by code_simp
  then have rs: "flatten_all (load_json (sample_loads single_rule) sample_dir) (trace_shape_of (po_app sample_opts)) ?rules = Inr ?rs"
    by (simp add: sample_opts_def make_prover_options_def)
  have "distinct (map res_name ?rs)" and "\<not> list_all (\<lambda>x. res_status x = VERIFIED) ?rs" by code_simp+
  then show ?thesis
    using all_verified_means_every_instance [OF rep [unfolded sample_run_def], of "\<lparr>fr_dir = sample_dir, fr_alerts = AlertReport []\<rparr>"]
      rules rs by (simp add: list_all_iff sample_run_def)
qed

subsection \<open>The newest report\<close>

lemma newest_snoc:
  "newest_index (names @ [name]) =
     (if globbed name then case status_index name of None \<Rightarrow> newest_index names
        | Some i \<Rightarrow> max (int i) (newest_index names)
      else newest_index names)"
  by (auto simp: newest_index_def max_def split: option.split)

text \<open>
  The tree view that is read has the highest index of all status files, in whatever order the directory lists them;
  there is none exactly when no file name carries an index.
\<close>

theorem newest_index_is_highest:
  "newest_index names = fold max [int i. name \<leftarrow> names, globbed name, Some i \<leftarrow> [status_index name]] (- 1) \<and>
   (newest_index names = - 1 \<longleftrightarrow> (\<forall>name\<in>set names. globbed name \<longrightarrow> status_index name = None))"
proof (induction names rule: rev_induct)
  case Nil
  then show ?case by (simp add: newest_index_def)
next
  case (snoc name names)
  then show ?case by (auto simp: newest_snoc max_def split: option.split)
qed


subsection \<open>Traces\<close>

text \<open>What is shown of a trace: its frames without the dropped ones, an elided frame with the number of frames below it.\<close>

datatype shown = Shown message_model "shown list" | Elided message_model nat

fun prune :: "trace_shape \<Rightarrow> call_trace \<Rightarrow> shown" where
  "prune shape (CallTrace m cs) =
     Shown m (map (\<lambda>c. if frame (ct_message c) \<in> elided shape then Elided (ct_message c) (descendants c) else prune shape c)
       (filter (\<lambda>c. frame (ct_message c) \<notin> dropped shape) cs))"

fun shown_xml :: "shown \<Rightarrow> prover_error + string" where
  "shown_xml (Shown m ss) =
     bindE (message_xml m) (\<lambda>head.
     bindE (concatE (\<lambda>s. bindE (shown_xml s) (\<lambda>x. Inr (''<child>'' @ x @ ''</child>''))) ss) (\<lambda>parts. Inr (head @ parts)))"
| "shown_xml (Elided m n) =
     bindE (message_xml m) (\<lambda>t. Inr (t @ ''<elided>'' @ show_nat n @ '' frames of setup</elided>''))"

fun shown_frames :: "shown \<Rightarrow> nat" where
  "shown_frames (Shown m ss) = 1 + sum_list (map shown_frames ss)"
| "shown_frames (Elided m n) = 1 + n"

fun frames :: "call_trace \<Rightarrow> nat" where
  "frames (CallTrace m cs) = 1 + sum_list (map frames cs)"

fun dropped_frames :: "trace_shape \<Rightarrow> call_trace \<Rightarrow> nat" where
  "dropped_frames shape (CallTrace m cs) =
     sum_list (map (\<lambda>c. if frame (ct_message c) \<in> dropped shape then frames c
       else if frame (ct_message c) \<in> elided shape then 0 else dropped_frames shape c) cs)"

fun shown_messages :: "shown \<Rightarrow> message_model set" where
  "shown_messages (Shown m ss) = insert m (\<Union>s\<in>set ss. shown_messages s)"
| "shown_messages (Elided m n) = {m}"

lemma frames_descendants: "frames t = 1 + descendants t"
proof (induction t)
  case (CallTrace m cs)
  then have "map frames cs = map (\<lambda>c. 1 + descendants c) cs" by simp
  then show ?case by (simp only: frames.simps descendants.simps)
qed

lemma concatE_filter: "concatE (\<lambda>x. if P x then Inr [] else f x) xs = concatE f (filter (\<lambda>x. \<not> P x) xs)"
  by (induction xs) (auto, metis (no_types, lifting) bindE.simps append_Nil sum.exhaust)

lemma concatE_map: "concatE f (map g xs) = concatE (\<lambda>x. f (g x)) xs"
  by (induction xs) auto

lemma bindE_assoc: "bindE (bindE m f) g = bindE m (\<lambda>x. bindE (f x) g)"
  by (cases m) auto

lemma trace_xml: "calltrace_to_xml shape t = shown_xml (prune shape t)"
proof (induction t)
  case (CallTrace m cs)
  let ?g = "\<lambda>c. if frame (ct_message c) \<in> elided shape then Elided (ct_message c) (descendants c) else prune shape c"
  let ?f = "\<lambda>c. if frame (ct_message c) \<in> elided shape
     then bindE (message_xml (ct_message c)) (\<lambda>t. Inr (''<child>'' @ t @ ''<elided>'' @ show_nat (descendants c) @ '' frames of setup</elided></child>''))
     else bindE (calltrace_to_xml shape c) (\<lambda>x. Inr (''<child>'' @ x @ ''</child>''))"
  have "?f c = bindE (shown_xml (?g c)) (\<lambda>x. Inr (''<child>'' @ x @ ''</child>''))" if "c \<in> set cs" for c
    using CallTrace.IH [OF that] by (simp add: bindE_assoc)
  then have "concatE ?f (filter (\<lambda>c. frame (ct_message c) \<notin> dropped shape) cs) =
      concatE (\<lambda>s. bindE (shown_xml s) (\<lambda>x. Inr (''<child>'' @ x @ ''</child>''))) (map ?g (filter (\<lambda>c. frame (ct_message c) \<notin> dropped shape) cs))"
    unfolding concatE_map by (intro concatE_cong) auto
  then show ?case by (simp only: calltrace_to_xml.simps prune.simps shown_xml.simps concatE_filter)
qed

lemma trace_frames: "frames t = shown_frames (prune shape t) + dropped_frames shape t"
proof (induction t)
  case (CallTrace m cs)
  have "sum_list (map frames cs) =
      sum_list (map shown_frames (map (\<lambda>c. if frame (ct_message c) \<in> elided shape then Elided (ct_message c) (descendants c) else prune shape c)
        (filter (\<lambda>c. frame (ct_message c) \<notin> dropped shape) cs))) +
      sum_list (map (\<lambda>c. if frame (ct_message c) \<in> dropped shape then frames c
       else if frame (ct_message c) \<in> elided shape then 0 else dropped_frames shape c) cs)"
    using CallTrace.IH by (induction cs) (auto simp: frames_descendants)
  then show ?case by simp
qed

text \<open>
  A counterexample is rendered from its call trace with the frames of the chain's shape left out, and no frame is lost
  silently except below a dropped one: the frames shown, the frames counted in elisions, and the frames at or
  below a dropped frame add up to the frames of the trace.
\<close>

theorem trace_frames_are_accounted_for:
  "calltrace_to_xml shape t = shown_xml (prune shape t) \<and>
   frames t = shown_frames (prune shape t) + dropped_frames shape t"
  using trace_xml trace_frames by blast

lemma concatE_ok: "(\<exists>zs. concatE f xs = Inr zs) \<longleftrightarrow> (\<forall>x\<in>set xs. \<exists>ys. f x = Inr ys)"
  by (induction xs) (auto simp: bindE_Inr_iff)

lemma render_ok: "(\<exists>t. render_message m = Inr t) \<longleftrightarrow> (\<forall>n. Inr n \<in> set (template (mm_text m)) \<longrightarrow> n < length (mm_arguments m))"
  unfolding render_message_def concatE_ok render_piece_def by (auto split: sum.splits)

lemma bindE_ok: "(\<exists>y. bindE m f = Inr y) \<longleftrightarrow> (\<exists>x. m = Inr x \<and> (\<exists>y. f x = Inr y))"
  by (cases m) auto

lemma shown_ok: "(\<exists>x. shown_xml s = Inr x) \<longleftrightarrow> (\<forall>m\<in>shown_messages s. \<exists>t. render_message m = Inr t)"
proof (induction s)
  case (Shown m ss)
  have "(\<exists>x. shown_xml (Shown m ss) = Inr x) \<longleftrightarrow> (\<exists>t. render_message m = Inr t) \<and> (\<forall>s\<in>set ss. \<exists>x. shown_xml s = Inr x)"
    by (simp add: bindE_ok message_xml_def concatE_ok)
  then show ?case using Shown.IH by auto
next
  case (Elided m n)
  then show ?case by (simp add: bindE_ok message_xml_def)
qed

text \<open>
  Rendering a trace raises exactly when some frame that is shown refers to an argument its message does not
  have; a malformed message in a dropped or elided subtree does no harm.
\<close>

theorem trace_renders_iff_placeholders_are_filled:
  "(\<exists>xml. calltrace_to_xml shape t = Inr xml) \<longleftrightarrow>
   (\<forall>m\<in>shown_messages (prune shape t). \<forall>n. Inr n \<in> set (template (mm_text m)) \<longrightarrow> n < length (mm_arguments m))"
  unfolding trace_xml shown_ok render_ok ..

subsection \<open>Classification\<close>

lemma counterexample_origin:
  "counterexample_of shape dump = Inr (Some cex) \<Longrightarrow> cex_origin cex = assert_origin_of (dget dump ''assertOrigin'')"
  by (auto simp: counterexample_of_def bindE_Inr_iff split: option.splits)

text \<open>
  A violation is set aside as an incomplete check exactly when the Prover names an origin of the assertion that is neither
  the rule itself nor one of the two checks of the program: output without an origin, or with one that is not a
  string, is always a finding.
\<close>

theorem only_a_named_origin_sets_a_violation_aside:
  assumes "counterexample_of shape dump = Inr (Some cex)"
  shows "classify_violation cex \<noteq> PropertyViolation \<longleftrightarrow>
    (\<exists>s. dget dump ''assertOrigin'' = Some (JString s) \<and> s \<notin> {''user'', ''panic'', ''memcpyOverlap''})"
proof -
  have known: "dget generated_kinds s = Some k \<Longrightarrow> (KnownKind k \<in> program_checks) = (s \<in> {''panic'', ''memcpyOverlap''})" for s k
    by (auto simp: generated_kinds_def program_checks_def split: if_splits)
  show ?thesis
  proof (cases "dget dump ''assertOrigin''")
    case None
    then show ?thesis using counterexample_origin [OF assms] by (simp add: classify_violation_def assert_origin_of_def)
  next
    case (Some j)
    show ?thesis
    proof (cases j)
      case (JString s)
      show ?thesis
      proof (cases "dget generated_kinds s")
        case None
        then have "s \<notin> {''panic'', ''memcpyOverlap''}" by (auto simp: generated_kinds_def)
        then show ?thesis using None counterexample_origin [OF assms] Some JString
          by (auto simp: classify_violation_def assert_origin_of_def program_checks_def)
      next
        case (Some k)
        then have "s \<noteq> ''user''" by (auto simp: generated_kinds_def)
        then show ?thesis using known [OF Some] Some counterexample_origin [OF assms] \<open>dget dump _ = _\<close> JString
          by (auto simp: classify_violation_def assert_origin_of_def)
      qed
    qed (use Some counterexample_origin [OF assms] in \<open>simp_all add: classify_violation_def assert_origin_of_def\<close>)
  qed
qed

lemma only_a_named_origin_sets_a_violation_aside_witness:
  "classify_violation (the (projr (counterexample_of evm_trace
     [(''callTrace'', JObject [(''message'', JObject [(''text'', JString ''f''), (''arguments'', JArray [])]), (''childrenList'', JArray [])])])))
     = PropertyViolation"
proof -
  let ?dump = "[(''callTrace'', JObject [(''message'', JObject [(''text'', JString ''f''), (''arguments'', JArray [])]), (''childrenList'', JArray [])])]"
  have "\<not> isl (counterexample_of evm_trace ?dump) \<and> projr (counterexample_of evm_trace ?dump) \<noteq> None" by code_simp
  then have "counterexample_of evm_trace ?dump = Inr (Some (the (projr (counterexample_of evm_trace ?dump))))" by (simp add: sum.expand)
  from only_a_named_origin_sets_a_violation_aside [OF this] show ?thesis by simp
qed

lemma verdicts_are_the_provers_witness:
  "\<exists>n. visit (RuleNode ''r'' [] [] (Some ''VERIFIED'') ''ROOT'' [] None) (rule_path_of ''r'') None n (rule_path_of ''r'') \<and> node_status n = VERIFIED"
proof -
  let ?r = "RuleNode ''r'' [] [] (Some ''VERIFIED'') ''ROOT'' [] None"
  have "flatten_tree_view (\<lambda>_. Inl FileNotFoundError) evm_trace ?r (rule_path_of ''r'') None = Inr [plain_result (rule_path_of ''r'') VERIFIED]"
    by code_simp
  from verdicts_are_the_provers [OF this, of "plain_result (rule_path_of ''r'') VERIFIED"] show ?thesis
    by (auto simp: plain_result_def)
qed

end
