(* ===== verification/Run_Summary.thy ===== *)
theory Run_Summary
  imports Pystr Complex_Main
begin

text \<open>
  The accounts of a run (\<^verbatim>\<open>composer/diagnostics/timing.py\<close>): tokens, prover calls and prover time, per run, per
  task in flight, per finished phase and per origin of a call. Durations are rationals; the clock readings are arguments
  of what uses them. The active task of the context variable is the argument \<open>cur\<close>.
\<close>

subsection \<open>Tokens\<close>

datatype token_totals = TokenTotals (tk_input: int) (tk_output: int) (tk_cache_read: int) (tk_cache_write: int)

fun token_add :: "token_totals \<Rightarrow> token_totals \<Rightarrow> token_totals" where
  "token_add (TokenTotals a b c d) (TokenTotals a' b' c' d') = TokenTotals (a + a') (b + b') (c + c') (d + d')"

definition no_tokens :: token_totals where
  "no_tokens = TokenTotals 0 0 0 0"

instantiation token_totals :: comm_monoid_add
begin

definition zero_token_totals :: token_totals where
  "zero_token_totals = no_tokens"

definition plus_token_totals :: "token_totals \<Rightarrow> token_totals \<Rightarrow> token_totals" where
  "plus_token_totals = token_add"

instance
proof
  fix a b c :: token_totals
  show "a + b + c = a + (b + c)" by (cases a; cases b; cases c) (simp add: plus_token_totals_def)
  show "a + b = b + a" by (cases a; cases b) (simp add: plus_token_totals_def)
  show "0 + a = a" by (cases a) (simp add: plus_token_totals_def zero_token_totals_def no_tokens_def)
qed

end

definition token_bool :: "token_totals \<Rightarrow> bool" where
  "token_bool t \<longleftrightarrow> tk_input t > 0 \<or> tk_output t > 0 \<or> tk_cache_read t > 0 \<or> tk_cache_write t > 0"

record normalized_usage =
  u_model_name :: "string option"
  u_total_input :: int
  u_output :: int
  u_cache_read :: int
  u_cache_write :: int

definition from_normalized :: "normalized_usage \<Rightarrow> token_totals" where
  "from_normalized u =
     TokenTotals (max 0 (u_total_input u - u_cache_read u - u_cache_write u)) (u_output u) (u_cache_read u) (u_cache_write u)"

definition token_dict :: "token_totals \<Rightarrow> (string, json) dict" where
  "token_dict t =
     [(''input'', JInt (tk_input t)), (''output'', JInt (tk_output t)), (''cache_read'', JInt (tk_cache_read t)),
      (''cache_write'', JInt (tk_cache_write t))]"

subsection \<open>Origins and phases\<close>

datatype call_origin = CallOrigin (co_thread: "string option") (co_node: "string option")

definition in_graph :: "call_origin \<Rightarrow> bool" where
  "in_graph orig \<longleftrightarrow> co_thread orig \<noteq> None"

definition json_opt :: "string option \<Rightarrow> json" where
  "json_opt s = (case s of None \<Rightarrow> JNull | Some t \<Rightarrow> JString t)"

definition origin_dict :: "call_origin \<Rightarrow> (string, json) dict" where
  "origin_dict orig = [(''thread_id'', json_opt (co_thread orig)), (''node'', json_opt (co_node orig))]"

definition max_origins :: nat where
  "max_origins = 2000"

definition origin_overflow :: call_origin where
  "origin_overflow = CallOrigin (Some ''(origin-overflow)'') None"

type_synonym model_tokens = "(string, token_totals) dict"
type_synonym origin_key = "call_origin \<times> string option"

record phase_record =
  ph_task_id :: string
  ph_label :: string
  ph_phase :: string
  wall_s :: rat
  queue_wait_s :: rat
  ph_error :: "string option"
  prover_s :: rat
  prover_calls :: int
  prover_reported_ms :: int
  final_link :: "string option"
  ph_tokens :: model_tokens

record run_summary =
  phases :: "phase_record list"
  prover_total_s :: rat
  prover_total_calls :: int
  active_prover :: "(string, rat \<times> int) dict"
  reported_ms_total :: int
  active_reported :: "(string, int) dict"
  run_id :: string
  latest_link :: "(string, string) dict"
  tokens_by_model :: model_tokens
  active_tokens :: "(string, model_tokens) dict"
  tokens_by_origin :: "(origin_key, token_totals) dict"
  calls_by_origin :: "(origin_key, int) dict"

definition run_id_generator :: "string option \<Rightarrow> string \<Rightarrow> string" where
  \<comment> \<open>the environment variable and a fresh identifier\<close>
  "run_id_generator env fresh = (if truthy env then the env else fresh)"

definition new_summary :: "string \<Rightarrow> run_summary" where
  "new_summary rid =
     \<lparr>phases = [], prover_total_s = 0, prover_total_calls = 0, active_prover = [], reported_ms_total = 0, active_reported = [],
      run_id = rid, latest_link = [], tokens_by_model = [], active_tokens = [], tokens_by_origin = [], calls_by_origin = []\<rparr>"

subsection \<open>Recording\<close>

definition get_or :: "'v \<Rightarrow> ('k, 'v) dict \<Rightarrow> 'k \<Rightarrow> 'v" where
  \<comment> \<open>\<^verbatim>\<open>d.get(k, default)\<close>\<close>
  "get_or v d k = (case dget d k of None \<Rightarrow> v | Some x \<Rightarrow> x)"

definition bump :: "'k \<Rightarrow> 'v::monoid_add \<Rightarrow> ('k, 'v) dict \<Rightarrow> ('k, 'v) dict" where
  \<comment> \<open>\<^verbatim>\<open>d[k] = d.get(k, zero) + x\<close>\<close>
  "bump k x d = dset k (get_or 0 d k + x) d"

definition record_phase :: "string \<Rightarrow> string \<Rightarrow> string \<Rightarrow> rat \<Rightarrow> rat \<Rightarrow> string option \<Rightarrow> run_summary \<Rightarrow> run_summary" where
  "record_phase t lbl ph wall queue err s =
     s\<lparr>active_prover := dpop t (active_prover s), active_reported := dpop t (active_reported s),
       latest_link := dpop t (latest_link s), active_tokens := dpop t (active_tokens s),
       phases := phases s @
         [\<lparr>ph_task_id = t, ph_label = lbl, ph_phase = ph, wall_s = wall, queue_wait_s = queue, ph_error = err,
           prover_s = fst (get_or (0, 0) (active_prover s) t), prover_calls = snd (get_or (0, 0) (active_prover s) t),
           prover_reported_ms = get_or 0 (active_reported s) t, final_link = dget (latest_link s) t,
           ph_tokens = get_or [] (active_tokens s) t\<rparr>]\<rparr>"

definition add_prover_call :: "string option \<Rightarrow> rat \<Rightarrow> string option \<Rightarrow> run_summary \<Rightarrow> run_summary" where
  "add_prover_call cur duration task s =
     (let s = s\<lparr>prover_total_s := prover_total_s s + duration, prover_total_calls := prover_total_calls s + 1\<rparr> in
      case str_or task cur of
        None \<Rightarrow> s
      | Some t \<Rightarrow>
          let prev = get_or (0, 0) (active_prover s) t
          in s\<lparr>active_prover := dset t (fst prev + duration, snd prev + 1) (active_prover s)\<rparr>)"

definition record_prover_runtime :: "string option \<Rightarrow> int \<Rightarrow> string option \<Rightarrow> run_summary \<Rightarrow> run_summary" where
  "record_prover_runtime cur ms task s =
     (let s = s\<lparr>reported_ms_total := reported_ms_total s + ms\<rparr> in
      case str_or task cur of
        None \<Rightarrow> s
      | Some t \<Rightarrow> s\<lparr>active_reported := dset t (get_or 0 (active_reported s) t + ms) (active_reported s)\<rparr>)"

definition usage_model :: "normalized_usage \<Rightarrow> string" where
  "usage_model u = (if truthy (u_model_name u) then the (u_model_name u) else ''unknown'')"

definition origin_key :: "(origin_key, token_totals) dict \<Rightarrow> call_origin option \<Rightarrow> string option \<Rightarrow> origin_key" where
  "origin_key d origin task =
     (let key = (case origin of None \<Rightarrow> CallOrigin None None | Some orig \<Rightarrow> orig, task)
      in if dget d key = None \<and> length d \<ge> max_origins then (origin_overflow, task) else key)"

definition record_token_usage :: "string option \<Rightarrow> normalized_usage \<Rightarrow> string option \<Rightarrow> call_origin option \<Rightarrow> run_summary \<Rightarrow> run_summary" where
  "record_token_usage cur usage task origin s =
     (let model = usage_model usage; update = from_normalized usage; task_id = str_or task cur;
          s1 = s\<lparr>tokens_by_model := bump model update (tokens_by_model s)\<rparr>;
          s2 = (case task_id of None \<Rightarrow> s1
            | Some t \<Rightarrow> s1\<lparr>active_tokens := dset t (bump model update (get_or [] (active_tokens s1) t)) (active_tokens s1)\<rparr>);
          key = origin_key (tokens_by_origin s2) origin task_id
      in s2\<lparr>tokens_by_origin := bump key update (tokens_by_origin s2), calls_by_origin := bump key 1 (calls_by_origin s2)\<rparr>)"

definition record_prover_link :: "string option \<Rightarrow> string \<Rightarrow> string option \<Rightarrow> run_summary \<Rightarrow> run_summary" where
  "record_prover_link cur link task s =
     (case str_or task cur of None \<Rightarrow> s | Some t \<Rightarrow> s\<lparr>latest_link := dset t link (latest_link s)\<rparr>)"

subsection \<open>A task\<close>

datatype task_outcome = Completed | Failed string | Cancelled

definition task_logger :: "string \<Rightarrow> string \<Rightarrow> string \<Rightarrow> rat \<Rightarrow> rat option \<Rightarrow> rat \<Rightarrow>
    (string option \<Rightarrow> run_summary \<Rightarrow> task_outcome \<times> run_summary) \<Rightarrow> run_summary \<Rightarrow> task_outcome \<times> run_summary" where
  \<comment> \<open>the clock at the request, when the task started to run and at the end; \<open>body\<close> runs with the task as the active one;
      an exception that is not an \<^verbatim>\<open>Exception\<close>, such as a cancellation, passes both handlers\<close>
  "task_logger t lbl ph requested running ended body s =
     (case body (Some t) s of
        (Failed e, s') \<Rightarrow>
          (Failed e, record_phase t lbl ph (ended - requested)
             (case running of None \<Rightarrow> ended - requested | Some r \<Rightarrow> r - requested) (Some e) s')
      | (Completed, s') \<Rightarrow>
          (Completed, record_phase t lbl ph (ended - requested)
             (case running of None \<Rightarrow> 0 | Some r \<Rightarrow> r - requested) None s')
      | (Cancelled, s') \<Rightarrow> (Cancelled, s'))"

subsection \<open>Summaries\<close>

definition total_tokens :: "run_summary \<Rightarrow> token_totals" where
  "total_tokens s = sum_list (vals (tokens_by_model s))"

definition origin_weight :: "origin_key \<times> token_totals \<Rightarrow> int" where
  "origin_weight kv = - (tk_cache_write (snd kv) + tk_cache_read (snd kv) + tk_output (snd kv))"

definition token_usage_summary :: "run_summary \<Rightarrow> json" where
  "token_usage_summary s =
     JObject
       [(''totals'', JObject (token_dict (total_tokens s))),
        (''by_model'', JObject (map (\<lambda>(m, t). (m, JObject (token_dict t))) (tokens_by_model s))),
        (''by_phase'', JArray (map (\<lambda>p. JObject ([(''task_id'', JString (ph_task_id p)), (''phase'', JString (ph_phase p))] @
            token_dict (sum_list (vals (ph_tokens p))))) (filter (\<lambda>p. ph_tokens p \<noteq> []) (phases s)))),
        (''by_origin'', JArray (map (\<lambda>((orig, t), tot). JObject (origin_dict orig @ [(''task_id'', json_opt t),
            (''calls'', JInt (get_or 0 (calls_by_origin s) (orig, t)))] @ token_dict tot))
          (sort_key origin_weight (tokens_by_origin s))))]"

definition prover_usage_summary :: "run_summary \<Rightarrow> json" where
  "prover_usage_summary s =
     JObject
       [(''total_ms'', JInt (reported_ms_total s)),
        (''by_phase'', JArray (map (\<lambda>p. JObject [(''task_id'', JString (ph_task_id p)), (''phase'', JString (ph_phase p)),
            (''ms'', JInt (prover_reported_ms p))]) (filter (\<lambda>p. prover_reported_ms p \<noteq> 0) (phases s))))]"

end
