(* ===== verification/Run_Summary_Laws.thy ===== *)
theory Run_Summary_Laws
  imports Run_Summary
begin

text \<open>
  The accounts of a run agree: what the models are charged is what the origins are charged, and what a task is charged
  is what its finished phases and its open bucket hold. The cap on origins bounds the origins but not the keys.
\<close>

subsection \<open>Histories\<close>

inductive recorded :: "run_summary \<Rightarrow> run_summary \<Rightarrow> bool" where
  phase_ended: "recorded s (record_phase t lbl ph wall queue err s)"
| prover_called: "recorded s (add_prover_call cur duration task s)"
| prover_ran: "recorded s (record_prover_runtime cur ms task s)"
| tokens_used: "recorded s (record_token_usage cur usage task origin s)"
| link_known: "recorded s (record_prover_link cur lnk task s)"

abbreviation history :: "string \<Rightarrow> run_summary \<Rightarrow> bool" where
  "history rid s \<equiv> recorded\<^sup>*\<^sup>* (new_summary rid) s"

lemma history_induct [consumes 1, case_names start step]:
  assumes "history rid s" and "P (new_summary rid)" and "\<And>s s'. history rid s \<Longrightarrow> P s \<Longrightarrow> recorded s s' \<Longrightarrow> P s'"
  shows "P s"
  using assms(1) by (induction rule: rtranclp_induct) (auto intro: assms(2,3))

subsection \<open>Sums over dictionaries\<close>

definition sum_where :: "('k \<Rightarrow> bool) \<Rightarrow> ('k, 'v::comm_monoid_add) dict \<Rightarrow> 'v" where
  "sum_where P d = sum_list (map snd (filter (\<lambda>kv. P (fst kv)) d))"

lemma sum_where_bump: "sum_where P (bump k x d) = sum_where P d + (if P k then x else 0)"
proof (induction d)
  case Nil
  then show ?case by (simp add: sum_where_def bump_def get_or_def)
next
  case (Cons kv d)
  then show ?case
    by (cases kv) (auto simp: sum_where_def bump_def get_or_def add.assoc add.commute add.left_commute)
qed

lemma sum_where_True: "sum_where (\<lambda>_. True) d = sum_list (vals d)"
  by (simp add: sum_where_def)

lemma sum_vals_bump: "sum_list (vals (bump k x d)) = sum_list (vals d) + (x :: 'v::comm_monoid_add)"
  using sum_where_bump [of "\<lambda>_. True" k x d] by (simp add: sum_where_True)

lemma keys_bump: "keys (bump k x d) = (if k \<in> set (keys d) then keys d else keys d @ [k])"
  by (simp add: bump_def update_keys)

lemma get_or_dset: "get_or v (dset k x d) k' = (if k' = k then x else get_or v d k')"
  by (simp add: get_or_def dget_dset)

lemma get_or_dpop: "get_or v (dpop k d) k' = (if k' = k then v else get_or v d k')"
  by (simp add: get_or_def dget_dpop)

subsection \<open>The token accounts\<close>

definition phase_tokens :: "string \<Rightarrow> phase_record \<Rightarrow> token_totals" where
  "phase_tokens t p = (if ph_task_id p = t then sum_list (vals (ph_tokens p)) else 0)"

definition task_tokens :: "run_summary \<Rightarrow> string \<Rightarrow> token_totals" where
  "task_tokens s t = sum_list (map (phase_tokens t) (phases s)) + sum_list (vals (get_or [] (active_tokens s) t))"

definition origin_tokens :: "run_summary \<Rightarrow> string \<Rightarrow> token_totals" where
  "origin_tokens s t = sum_where (\<lambda>k. snd k = Some t) (tokens_by_origin s)"

definition accounts_agree :: "run_summary \<Rightarrow> bool" where
  "accounts_agree s \<longleftrightarrow>
     total_tokens s = sum_list (vals (tokens_by_origin s)) \<and> (\<forall>t. task_tokens s t = origin_tokens s t) \<and>
     keys (calls_by_origin s) = keys (tokens_by_origin s)"

lemma snd_origin_key: "snd (origin_key d origin task) = task"
  by (simp add: origin_key_def Let_def)

lemma agree_phase: "accounts_agree s \<Longrightarrow> accounts_agree (record_phase t lbl ph wall queue err s)"
  unfolding accounts_agree_def
  by (auto simp: record_phase_def total_tokens_def task_tokens_def origin_tokens_def phase_tokens_def get_or_dpop)

lemma agree_usage: "accounts_agree s \<Longrightarrow> accounts_agree (record_token_usage cur usage task origin s)"
proof -
  assume agree: "accounts_agree s"
  let ?s = "record_token_usage cur usage task origin s"
  let ?t = "str_or task cur" and ?x = "from_normalized usage"
  let ?k = "origin_key (tokens_by_origin s) origin ?t"
  have fields: "tokens_by_model ?s = bump (usage_model usage) ?x (tokens_by_model s)"
    "tokens_by_origin ?s = bump ?k ?x (tokens_by_origin s)" "calls_by_origin ?s = bump ?k 1 (calls_by_origin s)"
    "phases ?s = phases s"
    by (auto simp: record_token_usage_def Let_def split: option.split)
  have active: "get_or [] (active_tokens ?s) t =
      (if ?t = Some t then bump (usage_model usage) ?x (get_or [] (active_tokens s) t) else get_or [] (active_tokens s) t)" for t
    by (auto simp: record_token_usage_def Let_def get_or_dset split: option.split)
  have "task_tokens ?s t = task_tokens s t + (if ?t = Some t then ?x else 0)" for t
    by (simp add: task_tokens_def fields active sum_vals_bump add.assoc)
  moreover have "origin_tokens ?s t = origin_tokens s t + (if ?t = Some t then ?x else 0)" for t
    by (simp add: origin_tokens_def fields sum_where_bump snd_origin_key)
  ultimately show "accounts_agree ?s"
    using agree by (simp add: accounts_agree_def total_tokens_def fields sum_vals_bump keys_bump)
qed

lemma agree_step: "accounts_agree s \<Longrightarrow> recorded s s' \<Longrightarrow> accounts_agree s'"
proof (erule recorded.cases)
qed (auto simp: agree_phase agree_usage, (auto simp: accounts_agree_def total_tokens_def task_tokens_def origin_tokens_def
      add_prover_call_def record_prover_runtime_def record_prover_link_def Let_def split: option.split)+)

text \<open>
  C36: The token accounts of a run agree after any history of records: the total over the models is the total over the origins, and
  what a task has been charged, in its finished phases and its open bucket together, is what the calls attributed to
  it were; every origin with tokens has a count of calls.
\<close>

theorem token_accounts_agree:
  assumes "history rid s"
  shows "total_tokens s = sum_list (vals (tokens_by_origin s)) \<and>
    sum_list (map (\<lambda>p. if ph_task_id p = t then sum_list (vals (ph_tokens p)) else 0) (phases s)) +
      sum_list (vals (get_or [] (active_tokens s) t)) =
      sum_list (map snd (filter (\<lambda>(k, v). snd k = Some t) (tokens_by_origin s))) \<and>
    keys (calls_by_origin s) = keys (tokens_by_origin s)"
proof -
  have "accounts_agree s"
    using assms
  proof (induction rule: history_induct)
    case start
    show ?case
      by (simp add: accounts_agree_def new_summary_def total_tokens_def task_tokens_def origin_tokens_def sum_where_def get_or_def)
  qed (blast intro: agree_step)
  then show ?thesis
    by (simp add: accounts_agree_def task_tokens_def origin_tokens_def sum_where_def phase_tokens_def [abs_def] case_prod_beta')
qed

definition sample_usage :: normalized_usage where
  "sample_usage = \<lparr>u_model_name = Some ''m'', u_total_input = 10, u_output = 3, u_cache_read = 2, u_cache_write = 1\<rparr>"

lemma token_accounts_agree_witness:
  "sum_list (vals (ph_tokens (hd (phases
     (record_phase ''t'' ''l'' ''p'' 1 0 None (record_token_usage (Some ''t'') sample_usage None None (new_summary ''r''))))))) =
   TokenTotals 7 3 2 1"
proof -
  define s where "s = record_phase ''t'' ''l'' ''p'' 1 0 None (record_token_usage (Some ''t'') sample_usage None None (new_summary ''r''))"
  have "history ''r'' s"
    unfolding s_def by (meson phase_ended tokens_used rtranclp.rtrancl_into_rtrancl rtranclp.rtrancl_refl)
  note agree = token_accounts_agree [OF this, of "''t''"]
  have facts: "tokens_by_origin s = [((CallOrigin None None, Some ''t''), TokenTotals 7 3 2 1)]"
    "length (phases s) = 1" "ph_task_id (hd (phases s)) = ''t''" "get_or [] (active_tokens s) ''t'' = []"
    unfolding s_def by code_simp+
  then obtain p where "phases s = [p]" by (cases "phases s") auto
  with facts agree have "sum_list (vals (ph_tokens (hd (phases s)))) = TokenTotals 7 3 2 1" by simp
  then show ?thesis unfolding s_def .
qed

subsection \<open>The cap on origins\<close>

definition capped :: "run_summary \<Rightarrow> bool" where
  "capped s \<longleftrightarrow> length (filter (\<lambda>k. fst k \<noteq> origin_overflow) (keys (tokens_by_origin s))) \<le> max_origins"

lemma filter_le: "length (filter P xs) \<le> length xs"
  by (rule length_filter_le)

lemma capped_usage: "capped s \<Longrightarrow> capped (record_token_usage cur usage task origin s)"
proof -
  assume s: "capped s"
  let ?d = "tokens_by_origin s"
  let ?k = "origin_key ?d origin (str_or task cur)"
  have d': "tokens_by_origin (record_token_usage cur usage task origin s) = bump ?k (from_normalized usage) ?d"
    by (auto simp: record_token_usage_def Let_def split: option.split)
  consider (old) "?k \<in> set (keys ?d)" | (overflow) "fst ?k = origin_overflow" | (room) "length ?d < max_origins"
  proof (cases "dget ?d ?k")
    case (Some v)
    then show ?thesis using that(1) dget_in_keys by metis
  next
    case None
    then show ?thesis using that(2,3) by (auto simp: origin_key_def Let_def split: if_splits)
  qed
  then show ?thesis
  proof cases
    case room
    then show ?thesis
      using le_less_trans [OF filter_le [of "\<lambda>k. fst k \<noteq> origin_overflow" "keys ?d"], of max_origins]
      by (auto simp: capped_def d' keys_bump)
  qed (use s in \<open>auto simp: capped_def d' keys_bump\<close>)
qed

lemma capped_step: "capped s \<Longrightarrow> recorded s s' \<Longrightarrow> capped s'"
proof (erule recorded.cases)
qed (auto simp: capped_usage, (auto simp: capped_def record_phase_def
      add_prover_call_def record_prover_runtime_def record_prover_link_def Let_def split: option.split)+)

lemma capped_history: "history rid s \<Longrightarrow> capped s"
proof (induction rule: history_induct)
  case start
  show ?case by (simp add: capped_def new_summary_def)
qed (blast intro: capped_step)

text \<open>One call each of many tasks.\<close>

definition many_tasks :: "string \<Rightarrow> nat \<Rightarrow> run_summary" where
  "many_tasks rid n = fold (\<lambda>i. record_token_usage None sample_usage (Some (replicate (Suc i) (CHR ''x''))) None) [0..<n] (new_summary rid)"

lemma many_tasks_keys:
  "history rid (many_tasks rid n) \<and> length (tokens_by_origin (many_tasks rid n)) = n \<and>
   snd ` set (keys (tokens_by_origin (many_tasks rid n))) = (\<lambda>i. Some (replicate (Suc i) (CHR ''x''))) ` {0..<n}"
proof (induction n)
  case 0
  then show ?case by (simp add: many_tasks_def new_summary_def)
next
  case (Suc n)
  let ?s = "many_tasks rid n" and ?t = "Some (replicate (Suc n) (CHR ''x''))"
  let ?k = "origin_key (tokens_by_origin ?s) None ?t"
  have extended: "many_tasks rid (Suc n) = record_token_usage None sample_usage ?t None ?s" by (simp add: many_tasks_def)
  have d': "tokens_by_origin (many_tasks rid (Suc n)) = bump ?k (from_normalized sample_usage) (tokens_by_origin ?s)"
    by (simp add: extended record_token_usage_def Let_def str_or_def)
  have "?t \<notin> snd ` set (keys (tokens_by_origin ?s))" using Suc.IH by (auto dest: arg_cong [of _ _ length])
  then have "?k \<notin> set (keys (tokens_by_origin ?s))" by (metis imageI snd_origin_key)
  then have "keys (tokens_by_origin (many_tasks rid (Suc n))) = keys (tokens_by_origin ?s) @ [?k]" by (simp add: d' keys_bump)
  then have "length (tokens_by_origin (many_tasks rid (Suc n))) = Suc n"
    "snd ` set (keys (tokens_by_origin (many_tasks rid (Suc n)))) = insert ?t (snd ` set (keys (tokens_by_origin ?s)))"
    using Suc.IH by (metis length_append_singleton length_map, simp add: snd_origin_key)
  moreover have "history rid (many_tasks rid (Suc n))" using Suc.IH tokens_used unfolding extended by (metis rtranclp.rtrancl_into_rtrancl)
  ultimately show ?case using Suc.IH by (simp add: atLeast0_lessThan_Suc)
qed

text \<open>
  The cap on origins does not bound the summary: in every history at most 2000 origins besides the overflow have entries of their
  own, but the overflow has one entry per task, so that a run with enough tasks exceeds any size.
\<close>

theorem origin_cap_leaves_tasks_uncapped:
  assumes "history rid s"
  shows "length (filter (\<lambda>k. fst k \<noteq> origin_overflow) (keys (tokens_by_origin s))) \<le> 2000 \<and>
    (\<forall>n. \<exists>s'. history rid s' \<and> n \<le> length (tokens_by_origin s'))"
proof
  show "length (filter (\<lambda>k. fst k \<noteq> origin_overflow) (keys (tokens_by_origin s))) \<le> 2000"
    using capped_history [OF assms] by (simp add: capped_def max_origins_def)
  show "\<forall>n. \<exists>s'. history rid s' \<and> n \<le> length (tokens_by_origin s')"
    using many_tasks_keys by (metis order_refl)
qed

lemma origin_cap_leaves_tasks_uncapped_witness:
  "\<exists>s. history ''r'' s \<and> 5000 \<le> length (tokens_by_origin s)"
proof -
  have "history ''r'' (new_summary ''r'')" by simp
  from origin_cap_leaves_tasks_uncapped [OF this] show ?thesis by blast
qed

end
