(* ===== verification/Remappings.thy ===== *)
theory Remappings
  imports Pystr
begin

text \<open>
  The packages list of a Foundry project (\<^verbatim>\<open>certora_autosetup/utils/remappings.py\<close>): the entries of the four
  remapping sources of a project, in their order of priority, and those of every other project under the run root,
  scoped to the files of that project.

  The file system, the parsed configuration files and the answer of \<^verbatim>\<open>forge remappings\<close> are the fields of a
  \<open>world\<close>. What the code threads through its calls (the two dictionaries and the log) is a state. A configuration value
  of an unexpected type makes Python raise, which is the left value of the result.
\<close>

subsection \<open>Paths of os.path\<close>

fun os_join :: "string \<Rightarrow> string list \<Rightarrow> string" where
  \<comment> \<open>\<^verbatim>\<open>os.path.join(path, *parts)\<close>\<close>
  "os_join path [] = path"
| "os_join path (b # bs) =
     os_join (if starts_with ''/'' b then b
              else if path = [] \<or> ends_in path ''/'' then path @ b else path @ ''/'' @ b) bs"

definition os_dirname :: "string \<Rightarrow> string" where
  "os_dirname p =
     (let head = rev (dropWhile (\<lambda>c. c \<noteq> CHR ''/'') (rev p))
      in if list_all (\<lambda>c. c = CHR ''/'') head then head else rev (dropWhile (\<lambda>c. c = CHR ''/'') (rev head)))"

definition os_abspath :: "string \<Rightarrow> string \<Rightarrow> string" where
  "os_abspath cwd p = normpath (if starts_with ''/'' p then p else os_join cwd [p])"

definition path_components :: "string \<Rightarrow> string list" where
  \<comment> \<open>the components of an absolute normal path\<close>
  "path_components p = (let t = dropWhile (\<lambda>c. c = CHR ''/'') p in if t = [] then [] else split_on (CHR ''/'') t)"

fun common_prefix :: "'a list \<Rightarrow> 'a list \<Rightarrow> 'a list" where
  "common_prefix (x # xs) (y # ys) = (if x = y then x # common_prefix xs ys else [])"
| "common_prefix xs ys = []"

definition os_relpath :: "string \<Rightarrow> string \<Rightarrow> string \<Rightarrow> string" where
  "os_relpath cwd p start =
     (let start_list = path_components (os_abspath cwd start);
          path_list = path_components (os_abspath cwd p);
          i = length (common_prefix start_list path_list);
          rel_list = replicate (length start_list - i) ''..'' @ drop i path_list
      in if rel_list = [] then ''.'' else join ''/'' rel_list)"

subsection \<open>What lies outside\<close>

datatype dir_tree = Dir (dir_files: "string list") (dir_subdirs: "(string \<times> dir_tree) list")

datatype forge_run =
    NotRun string
  | Exited int string

record project_sources =
  foundry_toml :: "(string + json) option"
  remappings_txt :: "string option"
  package_json :: "(string + json) option"

record world =
  cwd :: string
  is_dir :: "posix_path \<Rightarrow> bool"
  exists :: "posix_path \<Rightarrow> bool"
  forge_remappings :: "string \<Rightarrow> string \<Rightarrow> forge_run"
  sources_of :: "posix_path \<Rightarrow> project_sources"
  run_tree :: "posix_path \<Rightarrow> dir_tree option"

subsection \<open>Hoisted packages\<close>

definition source_suffixes :: "string list" where
  "source_suffixes = [''.sol'', ''.vy'', ''.yul'']"

definition node_modules :: string where
  "node_modules = ''node_modules''"

datatype resolution_kind = Local | Hoisted | SubpathMissing | Unresolved

record package_resolution =
  res_path :: string
  res_kind :: resolution_kind
  package_dir :: "string option"
  searched :: "string list"

definition package_length :: "string list \<Rightarrow> nat" where
  \<comment> \<open>two segments for a scoped package, one otherwise\<close>
  "package_length rest = (if starts_with ''@'' (hd rest) then 2 else 1)"

definition split_node_modules_target :: "string \<Rightarrow> (string \<times> string) option" where
  "split_node_modules_target target =
     (let normalized = str_replace None [backslash] ''/'' target;
          segments = filter (\<lambda>s. s \<noteq> [] \<and> s \<noteq> ''.'') (split_on (CHR ''/'') normalized)
      in if segments = [] \<or> hd segments \<noteq> node_modules then None
         else let rest = tl segments
              in if rest = [] \<or> length rest < package_length rest then None
                 else Some (join ''/'' (take (package_length rest) rest), join ''/'' (drop (package_length rest) rest)))"

fun last_index :: "'a \<Rightarrow> 'a list \<Rightarrow> nat option" where
  "last_index x [] = None"
| "last_index x (y # ys) =
     (case last_index x ys of Some i \<Rightarrow> Some (Suc i) | None \<Rightarrow> if x = y then Some 0 else None)"

definition node_modules_package_root :: "string \<Rightarrow> string option" where
  "node_modules_package_root target =
     (let segments = filter (\<lambda>s. s \<noteq> ''.'') (split_on (CHR ''/'') (str_replace None [backslash] ''/'' target))
      in case last_index node_modules segments of
        None \<Rightarrow> None
      | Some i \<Rightarrow>
          (let rest = drop (i + 1) segments
           in if rest = [] \<or> length rest < package_length rest then None
              else Some (join ''/'' (take (i + 1 + package_length rest) segments))))"

lemma length_dropWhile_rev: "length (rev (dropWhile P (rev xs))) \<le> length xs"
  using length_dropWhile_le [of P "rev xs"] by simp

lemma rev_dropWhile_rev_eq:
  "rev (dropWhile P (rev xs)) = xs \<or> length (rev (dropWhile P (rev xs))) < length xs"
proof (cases "xs = [] \<or> \<not> P (last xs)")
  case True
  then show ?thesis by (cases xs rule: rev_cases) auto
next
  case False
  then obtain ys x where "xs = ys @ [x]" "P x" by (cases xs rule: rev_cases) auto
  then show ?thesis using length_dropWhile_rev [of P ys] by simp
qed

lemma os_dirname_shorter: "os_dirname p = p \<or> length (os_dirname p) < length p"
proof -
  define head where "head = rev (dropWhile (\<lambda>c. c \<noteq> CHR ''/'') (rev p))"
  have "head = p \<or> length head < length p" unfolding head_def by (rule rev_dropWhile_rev_eq)
  moreover have "os_dirname p = head \<or> length (os_dirname p) < length head \<or> os_dirname p = head"
    using rev_dropWhile_rev_eq [of "\<lambda>c. c = CHR ''/''" head] by (auto simp: os_dirname_def Let_def head_def [symmetric])
  ultimately show ?thesis by auto
qed

function walk_up :: "string \<Rightarrow> string \<Rightarrow> string list" where
  \<comment> \<open>the loop of \<^verbatim>\<open>_ancestor_roots\<close>: the candidates after this one\<close>
  "walk_up root candidate =
     (if candidate = root \<or> os_dirname candidate = candidate then []
      else os_dirname candidate # walk_up root (os_dirname candidate))"
  by pat_completeness auto
termination
proof (relation "measure (\<lambda>(root, candidate). length candidate)")
  show "((root, os_dirname candidate), root, candidate) \<in> measure (\<lambda>(root, candidate). length candidate)"
    if "\<not> (candidate = root \<or> os_dirname candidate = candidate)" for root candidate :: string
    using that os_dirname_shorter [of candidate] by auto
qed simp

declare walk_up.simps [simp del]

definition ancestor_roots :: "posix_path \<Rightarrow> posix_path option \<Rightarrow> string list" where
  "ancestor_roots base_dir run_root =
     (case run_root of
        None \<Rightarrow> [path_str base_dir]
      | Some r \<Rightarrow>
          let root = normpath (path_str r); candidate = normpath (path_str base_dir)
          in if candidate \<noteq> root \<and> \<not> starts_with (rstrip_char (CHR ''/'') root @ ''/'') candidate
             then [path_str base_dir]
             else candidate # walk_up root candidate)"

definition target_in :: "string \<Rightarrow> string \<Rightarrow> string" where
  \<comment> \<open>the full target for a package directory and the remapped subpath\<close>
  "target_in pkg_dir subpath = (if subpath \<noteq> [] then os_join pkg_dir (split_on (CHR ''/'') subpath) else pkg_dir)"

fun search_roots :: "world \<Rightarrow> string \<Rightarrow> string \<Rightarrow> nat \<Rightarrow> string list \<Rightarrow> string list \<Rightarrow> string option \<Rightarrow>
    package_resolution + string list \<times> string option" where
  \<comment> \<open>the loop of \<^verbatim>\<open>resolve_node_modules_target\<close>: an early return on the left, \<^verbatim>\<open>searched\<close> and
    \<^verbatim>\<open>nearest_package_dir\<close> on the right\<close>
  "search_roots w package subpath index [] found nearest = Inr (found, nearest)"
| "search_roots w package subpath index (root # roots) found nearest =
     (let pkg_dir = os_join root [node_modules, package];
          full_target = target_in pkg_dir subpath;
          found = found @ [full_target]
      in if \<not> is_dir w (pure_path pkg_dir) then search_roots w package subpath (index + 1) roots found nearest
         else if exists w (pure_path full_target)
         then Inl \<lparr>res_path = full_target, res_kind = (if index = 0 then Local else Hoisted),
                package_dir = Some pkg_dir, searched = found\<rparr>
         else search_roots w package subpath (index + 1) roots found
                (case nearest of None \<Rightarrow> Some pkg_dir | Some d \<Rightarrow> Some d))"

definition resolve_node_modules_target :: "world \<Rightarrow> string \<Rightarrow> posix_path \<Rightarrow> posix_path option \<Rightarrow> package_resolution" where
  "resolve_node_modules_target w target base_dir run_root =
     (case split_node_modules_target target of
        None \<Rightarrow> \<lparr>res_path = path_str (path_join base_dir target), res_kind = Local, package_dir = None, searched = []\<rparr>
      | Some (package, subpath) \<Rightarrow>
          (case search_roots w package subpath 0 (ancestor_roots base_dir run_root) [] None of
             Inl r \<Rightarrow> r
           | Inr (found, Some nearest) \<Rightarrow>
               \<lparr>res_path = target_in nearest subpath, res_kind = SubpathMissing, package_dir = Some nearest, searched = found\<rparr>
           | Inr (found, None) \<Rightarrow>
               \<lparr>res_path = path_str (path_join base_dir target), res_kind = Unresolved, package_dir = None, searched = found\<rparr>))"

subsection \<open>Recording entries\<close>

record remaps =
  key_to_path :: "(string, string) dict"
  key_to_source :: "(string, string) dict"
  remap_log :: "(string \<times> string) list"

definition empty_remaps :: remaps where
  "empty_remaps = \<lparr>key_to_path = [], key_to_source = [], remap_log = []\<rparr>"

definition log_line :: "string \<Rightarrow> string \<Rightarrow> remaps \<Rightarrow> remaps" where
  "log_line message level st = st\<lparr>remap_log := remap_log st @ [(message, level)]\<rparr>"

definition info :: string where "info = ''INFO''"
definition warning :: string where "warning = ''WARNING''"

definition quote :: "string \<Rightarrow> string" where
  "quote s = squote @ s @ squote"

definition record_entry :: "string \<Rightarrow> string \<Rightarrow> string \<Rightarrow> bool \<Rightarrow> remaps \<Rightarrow> remaps" where
  "record_entry key path source_name warn_on_mismatch st =
     (case dget (key_to_path st) key of
        Some old \<Rightarrow>
          if warn_on_mismatch \<and> old \<noteq> path
          then let earlier = the (dget (key_to_source st) key)
               in log_line (''Package '' @ quote key @ '' has different paths in '' @ earlier @ '' ('' @ quote old @
                    '') and '' @ source_name @ '' ('' @ quote path @ '') '' @ em_dash @ '' using '' @ earlier) warning st
          else st
      | None \<Rightarrow> st\<lparr>key_to_path := dset key path (key_to_path st), key_to_source := dset key source_name (key_to_source st)\<rparr>)"

definition rebase_context :: "world \<Rightarrow> string \<Rightarrow> posix_path \<Rightarrow> posix_path option \<Rightarrow> remaps \<Rightarrow> string \<times> remaps" where
  "rebase_context w context base_dir run_root st =
     (case run_root of
        None \<Rightarrow> (context, st)
      | Some r \<Rightarrow>
          if context = [] then (context, st)
          else
            let resolved = path_join base_dir context in
            if \<not> is_dir w resolved then (context, st)
            else
              let rebased = os_relpath (cwd w) (path_str resolved) (path_str r) in
              if rebased = ''.'' then (context, st)
              else if starts_with ''..'' rebased
              then (context, log_line (''Remapping context '' @ quote context @ '' resolves outside the run root '' @
                      path_str r @ '' '' @ em_dash @ '' leaving it as is'') warning st)
              else (if ends_in context ''/'' then rebased @ ''/'' else rebased, st))"

definition with_slash :: "string \<Rightarrow> string" where
  \<comment> \<open>the boundary slash of a directory half\<close>
  "with_slash s = (if s \<noteq> [] \<and> \<not> ends_in s ''/'' then s @ ''/'' else s)"

definition names_source_file :: "string \<Rightarrow> bool" where
  "names_source_file key \<longleftrightarrow> list_ex (ends_in (lower key)) source_suffixes"

definition log_resolution :: "string \<Rightarrow> string \<Rightarrow> posix_path \<Rightarrow> package_resolution \<Rightarrow> remaps \<Rightarrow> remaps" where
  "log_resolution key path base_dir res st =
     (case res_kind res of
        Local \<Rightarrow> st
      | Hoisted \<Rightarrow>
          log_line (''Package '' @ quote key @ '' is not installed under '' @ path_str base_dir @ ''; resolving '' @
            quote path @ '' to the hoisted install at '' @ res_path res) info st
      | SubpathMissing \<Rightarrow>
          log_line (''Package '' @ quote key @ '': '' @ (case package_dir res of None \<Rightarrow> ''None'' | Some d \<Rightarrow> d) @
            '' exists but the remapped subdirectory is missing (looked for '' @ res_path res @ '') '' @ em_dash @
            '' the remapping target may be wrong or the package is not built'') warning st
      | Unresolved \<Rightarrow>
          log_line (''Package '' @ quote key @ '' target '' @ res_path res @ '' does not exist (searched: '' @
            comma_join (searched res) @ '') '' @ em_dash @ '' the dependency is not installed under the project or any '' @
            ''ancestor up to the run root; keeping the entry so solc reports the exact missing source'') warning st)"

definition rebased_key :: "world \<Rightarrow> string \<Rightarrow> posix_path \<Rightarrow> posix_path option \<Rightarrow> remaps \<Rightarrow> string \<times> remaps" where
  "rebased_key w key base_dir run_root st =
     (if CHR '':'' \<in> set key
      then let (context, prefix) = split_once (CHR '':'') key;
               (context, st) = rebase_context w context base_dir run_root st
           in (context @ '':'' @ prefix, st)
      else (key, st))"

definition resolved_target ::
  "world \<Rightarrow> string \<Rightarrow> string \<Rightarrow> posix_path \<Rightarrow> posix_path option \<Rightarrow> remaps \<Rightarrow> string \<times> remaps" where
  "resolved_target w key path base_dir run_root st =
     (if path_root (pure_path path) = 0
      then let res = resolve_node_modules_target w path base_dir run_root
           in (res_path res, log_resolution key path base_dir res st)
      else (path, st))"

definition with_boundary :: "string \<times> string \<Rightarrow> string \<times> string" where
  "with_boundary e = (case e of (key, path) \<Rightarrow>
     if names_source_file key then (key, path) else (with_slash key, with_slash path))"

definition merge_remapping_entry ::
  "world \<Rightarrow> string \<Rightarrow> string \<Rightarrow> bool \<Rightarrow> posix_path \<Rightarrow> posix_path option \<Rightarrow> remaps \<Rightarrow> remaps" where
  "merge_remapping_entry w entry source_name warn_on_mismatch base_dir run_root st =
     (let (raw_key, raw_path) = split_once (CHR ''='') entry;
          (key, st) = rebased_key w (strip raw_key) base_dir run_root st;
          (path, st) = resolved_target w key (strip raw_path) base_dir run_root st;
          (key, path) = with_boundary (key, path)
      in record_entry key path source_name warn_on_mismatch st)"

subsection \<open>The sources of one project\<close>

definition remapping_lines :: "string \<Rightarrow> string list" where
  \<comment> \<open>the entries among the lines of a text: stripped, no comments, with an equals sign\<close>
  "remapping_lines text =
     filter (\<lambda>line. line \<noteq> [] \<and> \<not> starts_with ''#'' line \<and> CHR ''='' \<in> set line) (map strip (splitlines text))"

definition forge_entries :: "forge_run \<Rightarrow> remaps \<Rightarrow> string list \<times> remaps" where
  "forge_entries run st =
     (case run of
        NotRun e \<Rightarrow>
          ([], log_line (''Could not run `forge remappings` ('' @ e @ ''); falling back to local files'') info st)
      | Exited returncode stdout \<Rightarrow>
          if returncode = 0 then (remapping_lines stdout, st)
          else ([], log_line (''`forge remappings` exited with code '' @ show_int returncode @ ''; falling back to local files'')
                      warning st))"

definition strip_json :: "json \<Rightarrow> py_error + string" where
  "strip_json v = (case v of JString s \<Rightarrow> Inr (strip s) | _ \<Rightarrow> Inl AttributeError)"

definition get_remappings :: "json \<Rightarrow> py_error + json list" where
  \<comment> \<open>the elements of \<^verbatim>\<open>d.get("remappings", []) or []\<close>\<close>
  "get_remappings d =
     bindE (json_get d ''remappings'' (JArray [])) (\<lambda>v. if json_truthy v then json_iter v else Inr [])"

definition foundry_remappings :: "string \<Rightarrow> json \<Rightarrow> py_error + json list" where
  "foundry_remappings profile data =
     bindE (json_get data ''profile'' (JObject [])) (\<lambda>profiles.
     bindE (json_get profiles profile (JObject [])) (\<lambda>section.
     bindE (get_remappings section) (\<lambda>scoped.
     bindE (get_remappings data) (\<lambda>top. Inr (scoped @ top)))))"

definition parsed_or_empty :: "string \<Rightarrow> string + json \<Rightarrow> remaps \<Rightarrow> json \<times> remaps" where
  "parsed_or_empty name parsed st =
     (case parsed of
        Inl e \<Rightarrow> (JObject [], log_line (''Failed to parse '' @ name @ '': '' @ e) warning st)
      | Inr data \<Rightarrow> (data, st))"

definition foundry_values :: "string \<Rightarrow> json \<Rightarrow> py_error + string list" where
  "foundry_values profile data =
     bindE (foundry_remappings profile data) (\<lambda>vs.
     bindE (mapE strip_json vs) (\<lambda>entries.
       Inr (filter (\<lambda>entry. entry \<noteq> [] \<and> CHR ''='' \<in> set entry) entries)))"

definition foundry_entries :: "string \<Rightarrow> (string + json) option \<Rightarrow> remaps \<Rightarrow> py_error + string list \<times> remaps" where
  "foundry_entries profile toml st =
     (case toml of
        None \<Rightarrow> Inr ([], st)
      | Some parsed \<Rightarrow>
          let (data, st) = parsed_or_empty ''foundry.toml'' parsed st in
          bindE (foundry_values profile data) (\<lambda>entries. Inr (entries, st)))"

definition package_sections :: "string list" where
  "package_sections = [''dependencies'', ''devDependencies'', ''resolutions'']"

definition package_values :: "json \<Rightarrow> py_error + string list" where
  "package_values data =
     bindE (concatE (\<lambda>sec. bindE (json_get data sec (JObject [])) json_iter) package_sections) (\<lambda>ks.
       Inr (map (\<lambda>k. json_str k @ ''=node_modules/'' @ json_str k) ks))"

definition package_entries :: "(string + json) option \<Rightarrow> remaps \<Rightarrow> py_error + string list \<times> remaps" where
  "package_entries package st =
     (case package of
        None \<Rightarrow> Inr ([], st)
      | Some parsed \<Rightarrow>
          let (data, st) = parsed_or_empty ''package.json'' parsed st in
          bindE (package_values data) (\<lambda>entries. Inr (entries, st)))"

definition merge_all ::
  "world \<Rightarrow> string list \<Rightarrow> string \<Rightarrow> bool \<Rightarrow> posix_path \<Rightarrow> posix_path option \<Rightarrow> remaps \<Rightarrow> remaps" where
  "merge_all w entries source_name warn_on_mismatch base_dir run_root st =
     fold (\<lambda>entry. merge_remapping_entry w entry source_name warn_on_mismatch base_dir run_root) entries st"

definition collect_remapping_entries ::
  "world \<Rightarrow> posix_path \<Rightarrow> string \<Rightarrow> posix_path option \<Rightarrow> py_error + remaps" where
  "collect_remapping_entries w base_dir profile run_root =
     (let src = sources_of w base_dir;
          (forge, st) = forge_entries (forge_remappings w (path_str base_dir) profile) empty_remaps;
          st = merge_all w forge ''`forge remappings`'' False base_dir run_root st
      in bindE (foundry_entries profile (foundry_toml src) st) (\<lambda>(foundry, st).
         let st = merge_all w foundry ''foundry.toml'' False base_dir run_root st;
             st = (case remappings_txt src of
                 None \<Rightarrow> st
               | Some text \<Rightarrow> merge_all w (remapping_lines text) ''remappings.txt'' True base_dir run_root st)
         in bindE (package_entries (package_json src) st) (\<lambda>(packages, st).
            Inr (merge_all w packages ''package.json'' True base_dir run_root st))))"

subsection \<open>The other projects\<close>

definition build_config_filenames :: "string list" where
  "build_config_filenames =
     [''foundry.toml'', ''hardhat.config.js'', ''hardhat.config.ts'', ''truffle-config.js'', ''truffle.js'']"

definition dependencies :: "string list" where
  "dependencies = [''node_modules'', ''lib'', ''forge-std'', ''dependencies'', ''.git'']"

definition visited_name :: "string \<Rightarrow> bool" where
  "visited_name d \<longleftrightarrow> \<not> starts_with ''.'' d \<and> d \<notin> set dependencies"

fun walk_dirs :: "string \<Rightarrow> dir_tree \<Rightarrow> (string \<times> string list) list" where
  \<comment> \<open>\<^verbatim>\<open>os.walk\<close>, top down, with the pruning: directories and the files in them\<close>
  "walk_dirs path (Dir fs ds) =
     (path, fs) # concat (map (\<lambda>(d, t). if visited_name d then walk_dirs (os_join path [d]) t else []) ds)"

definition projects_under :: "world \<Rightarrow> posix_path \<Rightarrow> posix_path option \<Rightarrow> posix_path list" where
  "projects_under w base_dir run_root =
     (case run_root of
        None \<Rightarrow> []
      | Some r \<Rightarrow>
          let excluded = map normpath (ancestor_roots base_dir run_root);
              found = filter (\<lambda>(path, fs). normpath path \<notin> set excluded \<and> list_ex (\<lambda>config. config \<in> set fs) build_config_filenames)
                (case run_tree w r of None \<Rightarrow> [] | Some t \<Rightarrow> walk_dirs (path_str r) t)
          in sort_key (\<lambda>p. os_relpath (cwd w) (path_str p) (path_str r)) (map (pure_path \<circ> fst) found))"

definition scoped_key :: "string \<Rightarrow> string \<Rightarrow> string \<times> string" where
  \<comment> \<open>the scoped key and the prefix it maps\<close>
  "scoped_key rel key =
     (if CHR '':'' \<in> set key
      then let (context, prefix) = split_once (CHR '':'') key;
               normalized = normpath context
           in (if normalized = rel \<or> starts_with (rel @ ''/'') normalized then key
               else os_join rel [dropWhile (\<lambda>c. c = CHR ''/'') context] @ '':'' @ prefix, prefix)
      else (rel @ ''/:'' @ key, key))"

definition scope_entry :: "world \<Rightarrow> string \<Rightarrow> string \<times> string \<Rightarrow> remaps \<Rightarrow> remaps" where
  "scope_entry w rel entry st =
     (let (key, path) = entry; (skey, prefix) = scoped_key rel key in
      if dget (key_to_path st) prefix = Some path then st
      else if \<not> exists w (pure_path path)
      then let keeps = (case dget (key_to_path st) prefix of
                 Some governing \<Rightarrow> if governing \<noteq> [] then squote @ prefix @ ''='' @ governing @ squote @ '' keeps governing it''
                                   else ''the prefix stays unmapped''
               | None \<Rightarrow> ''the prefix stays unmapped'')
           in log_line (''Project '' @ quote rel @ '' maps '' @ quote prefix @ '' to '' @ path @ '', which does not exist; '' @ keeps)
                warning st
      else record_entry skey path (rel @ '' remapping sources'') False st)"

definition scope_project :: "world \<Rightarrow> posix_path option \<Rightarrow> posix_path \<Rightarrow> string \<Rightarrow> remaps \<Rightarrow> py_error + remaps" where
  "scope_project w run_root project rel st =
     bindE (collect_remapping_entries w project ''default'' run_root) (\<lambda>own.
       Inr (fold (scope_entry w rel) (key_to_path own)
         (st\<lparr>remap_log := remap_log st @ map (\<lambda>(message, level). (''['' @ rel @ ''] '' @ message, level)) (remap_log own)\<rparr>)))"

definition scope_other_projects :: "world \<Rightarrow> posix_path \<Rightarrow> posix_path option \<Rightarrow> remaps \<Rightarrow> py_error + remaps" where
  "scope_other_projects w base_dir run_root st =
     (case run_root of
        None \<Rightarrow> Inr st
      | Some r \<Rightarrow>
          foldE (\<lambda>project. scope_project w run_root project (os_relpath (cwd w) (path_str project) (path_str r)))
            (projects_under w base_dir run_root) st)"

definition build_packages_from_remapping_sources ::
  "world \<Rightarrow> posix_path \<Rightarrow> string \<Rightarrow> posix_path option \<Rightarrow> py_error + string list \<times> (string \<times> string) list" where
  "build_packages_from_remapping_sources w base_dir profile run_root =
     bindE (collect_remapping_entries w base_dir profile run_root) (\<lambda>st.
     bindE (scope_other_projects w base_dir run_root st) (\<lambda>st.
       Inr (map (\<lambda>(key, path). key @ ''='' @ path) (key_to_path st), remap_log st)))"

end
