(* ===== verification/Remappings_Laws.thy ===== *)
theory Remappings_Laws
  imports Remappings
begin

text \<open>
  What the packages list of a project contains: the first source that maps a key wins, keys keep their boundary, the
  entries of other projects are added below the entries of the anchor and only for their own files, and a target in
  \<^verbatim>\<open>node_modules\<close> is the nearest usable one up to the run root.
\<close>

subsection \<open>The first binding of a key\<close>

definition insert_absent :: "'k \<times> 'v \<Rightarrow> ('k, 'v) dict \<Rightarrow> ('k, 'v) dict" where
  "insert_absent e d = (if fst e \<in> set (keys d) then d else d @ [e])"

definition first_bindings :: "('k \<times> 'v) list \<Rightarrow> ('k, 'v) dict" where
  "first_bindings es = fold insert_absent es []"

lemma dset_absent [dict_simps]: "dget d k = None \<Longrightarrow> dset k v d = d @ [(k, v)]"
  by (induction d) (auto split: if_splits)

lemma insert_absent_if: "insert_absent (k, v) d = (if dget d k = None then d @ [(k, v)] else d)"
  by (simp add: insert_absent_def dget_None_iff)

lemma dget_insert_absent: "dget (insert_absent (k, v) d) = (\<lambda>x. if x = k \<and> dget d k = None then Some v else dget d x)"
  by (auto simp: insert_absent_if fun_eq_iff map_add_def split: option.split)

lemma keys_insert_absent: "keys (insert_absent e d) = (if fst e \<in> set (keys d) then keys d else keys d @ [fst e])"
  by (simp add: insert_absent_def)

lemma dget_fold_insert_absent:
  "dget (fold insert_absent es d) k = (case dget d k of None \<Rightarrow> dget es k | Some v \<Rightarrow> Some v)"
proof (induction es arbitrary: d)
  case Nil
  then show ?case by (simp split: option.split)
next
  case (Cons e es)
  obtain k' v where e: "e = (k', v)" by (cases e)
  show ?case by (simp add: Cons.IH e dget_insert_absent split: option.split)
qed

lemma dget_first_bindings: "dget (first_bindings es) = dget es"
  by (simp add: first_bindings_def dget_fold_insert_absent fun_eq_iff)

lemma keys_fold_insert_absent:
  "keys (fold insert_absent es d) = keys d @ filter (\<lambda>k. k \<notin> set (keys d)) (rev (remdups (rev (keys es))))"
proof (induction es arbitrary: d rule: rev_induct)
  case Nil
  then show ?case by simp
next
  case (snoc e es)
  have "set (keys (fold insert_absent es d)) = set (keys d) \<union> set (keys es)"
    by (subst snoc.IH) auto
  then show ?case by (simp add: keys_insert_absent snoc.IH del: set_map)
qed

lemma keys_first_bindings: "keys (first_bindings es) = rev (remdups (rev (keys es)))"
  using keys_fold_insert_absent [of es "[]"] by (simp add: first_bindings_def)

lemma dict_ok_fold_insert_absent: "dict_ok d \<Longrightarrow> dict_ok (fold insert_absent es d)"
  by (simp add: dict_ok_def keys_fold_insert_absent) auto

lemma fold_insert_absent_extends: "\<exists>extra. fold insert_absent es d = d @ extra \<and> set extra \<subseteq> set es"
proof (induction es arbitrary: d)
  case Nil
  then show ?case by simp
next
  case (Cons e es)
  from Cons.IH [of "insert_absent e d"] show ?case by (auto simp: insert_absent_def split: if_splits)
qed

subsection \<open>What an entry is recorded as\<close>

definition canonical_entry :: "world \<Rightarrow> posix_path \<Rightarrow> posix_path option \<Rightarrow> string \<Rightarrow> string \<times> string" where
  \<comment> \<open>the key and the path an authored entry stands for, whatever was recorded before\<close>
  "canonical_entry w base_dir run_root entry =
     (let (raw_key, raw_path) = split_once (CHR ''='') entry
      in with_boundary (fst (rebased_key w (strip raw_key) base_dir run_root empty_remaps),
           fst (resolved_target w [] (strip raw_path) base_dir run_root empty_remaps)))"

lemma empty_remaps_paths [simp]: "key_to_path empty_remaps = []" "key_to_source empty_remaps = []"
  by (simp_all add: empty_remaps_def)

lemma log_line_paths [simp]:
  "key_to_path (log_line m l st) = key_to_path st" "key_to_source (log_line m l st) = key_to_source st"
  by (simp_all add: log_line_def)

lemma log_resolution_paths [simp]:
  "key_to_path (log_resolution key path base res st) = key_to_path st"
  "key_to_source (log_resolution key path base res st) = key_to_source st"
  by (simp_all add: log_resolution_def split: resolution_kind.split)

lemma rebase_context_state:
  "fst (rebase_context w context base_dir run_root st) = fst (rebase_context w context base_dir run_root empty_remaps)"
  "key_to_path (snd (rebase_context w context base_dir run_root st)) = key_to_path st"
  "key_to_source (snd (rebase_context w context base_dir run_root st)) = key_to_source st"
  by (simp_all add: rebase_context_def Let_def split: option.split)

lemma rebased_key_state:
  "fst (rebased_key w key base_dir run_root st) = fst (rebased_key w key base_dir run_root empty_remaps)"
  "key_to_path (snd (rebased_key w key base_dir run_root st)) = key_to_path st"
  "key_to_source (snd (rebased_key w key base_dir run_root st)) = key_to_source st"
  using rebase_context_state [of w "fst (split_once (CHR '':'') key)" base_dir run_root st]
  by (simp_all add: rebased_key_def Let_def split_beta)

lemma resolved_target_state:
  "fst (resolved_target w key path base_dir run_root st) = fst (resolved_target w [] path base_dir run_root empty_remaps)"
  "key_to_path (snd (resolved_target w key path base_dir run_root st)) = key_to_path st"
  "key_to_source (snd (resolved_target w key path base_dir run_root st)) = key_to_source st"
  by (simp_all add: resolved_target_def Let_def)

lemma record_entry_paths:
  "key_to_path (record_entry key path source warn st) = insert_absent (key, path) (key_to_path st)"
  by (simp add: record_entry_def insert_absent_if Let_def dset_absent split: option.split)

lemma record_entry_sources:
  assumes "keys (key_to_source st) = keys (key_to_path st)"
  shows "key_to_source (record_entry key path source warn st) = insert_absent (key, source) (key_to_source st)"
proof -
  from assms have "dget (key_to_source st) key = None \<longleftrightarrow> dget (key_to_path st) key = None"
    by (simp add: dget_None_iff del: set_map)
  then show ?thesis
    by (simp add: record_entry_def insert_absent_if Let_def dset_absent split: option.split)
qed

lemma record_entry_keys:
  "keys (key_to_source st) = keys (key_to_path st) \<Longrightarrow>
   keys (key_to_source (record_entry key path source warn st)) = keys (key_to_path (record_entry key path source warn st))"
  by (simp add: record_entry_paths record_entry_sources keys_insert_absent)

text \<open>One entry: the dictionary gains the canonical binding when the key is new, and nothing else changes in it.\<close>

lemma merge_remapping_entry_record:
  "\<exists>st'. merge_remapping_entry w entry source warn base_dir run_root st =
      record_entry (fst (canonical_entry w base_dir run_root entry)) (snd (canonical_entry w base_dir run_root entry)) source warn st' \<and>
    key_to_path st' = key_to_path st \<and> key_to_source st' = key_to_source st"
proof -
  obtain rk rp where e: "split_once (CHR ''='') entry = (rk, rp)" by (cases "split_once (CHR ''='') entry")
  obtain key st1 where k: "rebased_key w (strip rk) base_dir run_root st = (key, st1)"
    by (cases "rebased_key w (strip rk) base_dir run_root st")
  obtain path st2 where t: "resolved_target w key (strip rp) base_dir run_root st1 = (path, st2)"
    by (cases "resolved_target w key (strip rp) base_dir run_root st1")
  obtain k' p' where b: "with_boundary (key, path) = (k', p')" by (cases "with_boundary (key, path)")
  have "canonical_entry w base_dir run_root entry = (k', p')"
    by (metis (no_types, lifting) b canonical_entry_def case_prod_conv e fst_conv k rebased_key_state(1)
        resolved_target_state(1) t)
  moreover have "key_to_path st2 = key_to_path st" "key_to_source st2 = key_to_source st"
    using rebased_key_state(2,3) [of w "strip rk" base_dir run_root st]
      resolved_target_state(2,3) [of w key "strip rp" base_dir run_root st1] by (simp_all add: k t)
  moreover have "merge_remapping_entry w entry source warn base_dir run_root st = record_entry k' p' source warn st2"
    by (simp add: merge_remapping_entry_def e k t b)
  ultimately show ?thesis by auto
qed

lemma merge_remapping_entry_paths:
  "key_to_path (merge_remapping_entry w entry source warn base_dir run_root st) =
     insert_absent (canonical_entry w base_dir run_root entry) (key_to_path st)"
  using merge_remapping_entry_record [of w entry source warn base_dir run_root st] by (auto simp: record_entry_paths)

lemma merge_remapping_entry_sources:
  "keys (key_to_source st) = keys (key_to_path st) \<Longrightarrow>
   key_to_source (merge_remapping_entry w entry source warn base_dir run_root st) =
     insert_absent (fst (canonical_entry w base_dir run_root entry), source) (key_to_source st)"
  using merge_remapping_entry_record [of w entry source warn base_dir run_root st] by (auto simp: record_entry_sources)

lemma merge_all_paths:
  "key_to_path (merge_all w entries source warn base_dir run_root st) =
     fold insert_absent (map (canonical_entry w base_dir run_root) entries) (key_to_path st)"
  unfolding merge_all_def by (induction entries arbitrary: st) (simp_all add: merge_remapping_entry_paths)

lemma merge_all_sources:
  "keys (key_to_source st) = keys (key_to_path st) \<Longrightarrow>
   key_to_source (merge_all w entries source warn base_dir run_root st) =
     fold insert_absent (map (\<lambda>e. (fst (canonical_entry w base_dir run_root e), source)) entries) (key_to_source st)"
  unfolding merge_all_def
  by (induction entries arbitrary: st)
    (simp_all add: merge_remapping_entry_sources merge_remapping_entry_paths keys_insert_absent del: set_map)

subsection \<open>The sources of a project, in order of priority\<close>

definition authored_entries :: "world \<Rightarrow> posix_path \<Rightarrow> string \<Rightarrow> py_error + (string \<times> string) list" where
  \<comment> \<open>every entry with the name of its source, highest priority first\<close>
  "authored_entries w base_dir profile =
     (let src = sources_of w base_dir in
      bindE (foundry_entries profile (foundry_toml src) empty_remaps) (\<lambda>(foundry, _).
      bindE (package_entries (package_json src) empty_remaps) (\<lambda>(packages, _).
        Inr (map (Pair ''`forge remappings`'') (fst (forge_entries (forge_remappings w (path_str base_dir) profile) empty_remaps)) @
             map (Pair ''foundry.toml'') foundry @
             map (Pair ''remappings.txt'') (case remappings_txt src of None \<Rightarrow> [] | Some text \<Rightarrow> remapping_lines text) @
             map (Pair ''package.json'') packages))))"

lemma parsed_or_empty_state:
  "fst (parsed_or_empty name parsed st) = fst (parsed_or_empty name parsed empty_remaps)"
  "key_to_path (snd (parsed_or_empty name parsed st)) = key_to_path st"
  "key_to_source (snd (parsed_or_empty name parsed st)) = key_to_source st"
  by (simp_all add: parsed_or_empty_def split: sum.split)

lemma forge_entries_state:
  "fst (forge_entries run st) = fst (forge_entries run empty_remaps)"
  "key_to_path (snd (forge_entries run st)) = key_to_path st"
  "key_to_source (snd (forge_entries run st)) = key_to_source st"
  by (simp_all add: forge_entries_def split: forge_run.split)

lemma foundry_entries_state:
  "foundry_entries profile toml st =
     bindE (foundry_entries profile toml empty_remaps) (\<lambda>(es, _). Inr (es, snd (parsed_or_empty ''foundry.toml''
       (case toml of None \<Rightarrow> Inr JNull | Some parsed \<Rightarrow> parsed) st)))"
proof (cases toml)
  case None
  then show ?thesis by (simp add: foundry_entries_def parsed_or_empty_def)
next
  case (Some x)
  then show ?thesis
    by (cases "foundry_values profile (fst (parsed_or_empty ''foundry.toml'' x empty_remaps))")
      (simp_all add: foundry_entries_def split_beta parsed_or_empty_state(1) [of _ _ st])
qed

lemma package_entries_state:
  "package_entries package st =
     bindE (package_entries package empty_remaps) (\<lambda>(es, _). Inr (es, snd (parsed_or_empty ''package.json''
       (case package of None \<Rightarrow> Inr JNull | Some parsed \<Rightarrow> parsed) st)))"
proof (cases package)
  case None
  then show ?thesis by (simp add: package_entries_def parsed_or_empty_def)
next
  case (Some x)
  then show ?thesis
    by (cases "package_values (fst (parsed_or_empty ''package.json'' x empty_remaps))")
      (simp_all add: package_entries_def split_beta parsed_or_empty_state(1) [of _ _ st])
qed

text \<open>All sources of a project together are one merge of its authored entries.\<close>

lemma collect_remapping_entries_paths:
  assumes "collect_remapping_entries w base_dir profile run_root = Inr st"
  obtains es where "authored_entries w base_dir profile = Inr es"
    and "key_to_path st = first_bindings (map (canonical_entry w base_dir run_root \<circ> snd) es)"
    and "key_to_source st = first_bindings (map (\<lambda>(source, e). (fst (canonical_entry w base_dir run_root e), source)) es)"
proof -
  let ?src = "sources_of w base_dir" and ?run = "forge_remappings w (path_str base_dir) profile"
  let ?txt = "case remappings_txt ?src of None \<Rightarrow> [] | Some text \<Rightarrow> remapping_lines text"
  obtain forge st1 where f: "forge_entries ?run empty_remaps = (forge, st1)" by (cases "forge_entries ?run empty_remaps")
  let ?st2 = "merge_all w forge ''`forge remappings`'' False base_dir run_root st1"
  from assms obtain foundry st3 where t: "foundry_entries profile (foundry_toml ?src) ?st2 = Inr (foundry, st3)"
    by (auto simp: collect_remapping_entries_def f bindE_Inr_iff Let_def)
  let ?st4 = "merge_all w foundry ''foundry.toml'' False base_dir run_root st3"
  let ?st5 = "merge_all w ?txt ''remappings.txt'' True base_dir run_root ?st4"
  have five: "(case remappings_txt ?src of None \<Rightarrow> ?st4
      | Some text \<Rightarrow> merge_all w (remapping_lines text) ''remappings.txt'' True base_dir run_root ?st4) = ?st5"
    by (simp add: merge_all_def split: option.split)
  from assms t obtain packages st6 where p: "package_entries (package_json ?src) ?st5 = Inr (packages, st6)"
    and st: "st = merge_all w packages ''package.json'' True base_dir run_root st6"
    by (auto simp: collect_remapping_entries_def f bindE_Inr_iff Let_def five)
  from t foundry_entries_state [of profile "foundry_toml ?src" ?st2]
  have t': "\<exists>s. foundry_entries profile (foundry_toml ?src) empty_remaps = Inr (foundry, s)"
    and s3: "key_to_path st3 = key_to_path ?st2" "key_to_source st3 = key_to_source ?st2"
    by (auto simp: bindE_Inr_iff parsed_or_empty_state)
  from p package_entries_state [of "package_json ?src" ?st5]
  have p': "\<exists>s. package_entries (package_json ?src) empty_remaps = Inr (packages, s)"
    and s6: "key_to_path st6 = key_to_path ?st5" "key_to_source st6 = key_to_source ?st5"
    by (auto simp: bindE_Inr_iff parsed_or_empty_state)
  have s1: "key_to_path st1 = []" "key_to_source st1 = []"
    using forge_entries_state(2,3) [of ?run empty_remaps] by (simp_all add: f)
  let ?es = "map (Pair ''`forge remappings`'') forge @ map (Pair ''foundry.toml'') foundry @
    map (Pair ''remappings.txt'') ?txt @ map (Pair ''package.json'') packages"
  have "authored_entries w base_dir profile = Inr ?es"
    using t' p' by (auto simp: authored_entries_def f)
  moreover have "key_to_path st = first_bindings (map (canonical_entry w base_dir run_root \<circ> snd) ?es)"
    by (simp add: st merge_all_paths s6 s3 s1 first_bindings_def comp_def)
  moreover have "key_to_source st = first_bindings (map (\<lambda>(source, e). (fst (canonical_entry w base_dir run_root e), source)) ?es)"
  proof -
    have k: "keys (key_to_source s) = keys (key_to_path s) \<Longrightarrow>
        keys (key_to_source (merge_all w es x b base_dir run_root s)) = keys (key_to_path (merge_all w es x b base_dir run_root s))" for s es x b
      unfolding merge_all_def
      by (induction es arbitrary: s)
        (simp_all add: merge_remapping_entry_sources merge_remapping_entry_paths keys_insert_absent del: set_map)
    have "keys (key_to_source st1) = keys (key_to_path st1)" by (simp add: s1)
    then show ?thesis
      using k by (simp add: st merge_all_sources s6 s3 s1 first_bindings_def comp_def)
  qed
  ultimately show thesis by (rule that)
qed

lemma collect_remapping_entries_error:
  "collect_remapping_entries w base_dir profile run_root = Inl e \<longleftrightarrow> authored_entries w base_dir profile = Inl e"
proof -
  let ?src = "sources_of w base_dir"
  obtain forge st1 where f: "forge_entries (forge_remappings w (path_str base_dir) profile) empty_remaps = (forge, st1)"
    by (cases "forge_entries (forge_remappings w (path_str base_dir) profile) empty_remaps")
  show ?thesis
  proof (cases "foundry_entries profile (foundry_toml ?src) empty_remaps")
    case (Inl e')
    then show ?thesis
      by (simp add: collect_remapping_entries_def authored_entries_def f Let_def
          foundry_entries_state [of profile _ "merge_all _ _ _ _ _ _ _"])
  next
    case foundry: (Inr r)
    obtain es s where r: "r = (es, s)" by (cases r)
    show ?thesis
      by (cases "package_entries (package_json ?src) empty_remaps")
        (simp_all add: collect_remapping_entries_def authored_entries_def f Let_def foundry r
          foundry_entries_state [of profile _ "merge_all _ _ _ _ _ _ _"] package_entries_state [of _ "case _ of None \<Rightarrow> _ | Some t \<Rightarrow> _ t"] split_beta)
  qed
qed

definition recorded_dicts :: "remaps \<Rightarrow> (string, string) dict \<times> (string, string) dict" where
  "recorded_dicts st = (key_to_path st, key_to_source st)"

definition specified_dicts :: "world \<Rightarrow> posix_path \<Rightarrow> posix_path option \<Rightarrow> (string \<times> string) list \<Rightarrow>
    (string, string) dict \<times> (string, string) dict" where
  \<comment> \<open>the first authored entry for each canonical key: its target, and the name of its source\<close>
  "specified_dicts w base_dir run_root es =
     (first_bindings (map (\<lambda>(source, e). canonical_entry w base_dir run_root e) es),
      first_bindings (map (\<lambda>(source, e). (fst (canonical_entry w base_dir run_root e), source)) es))"

text \<open>
  C16: reading a project is choosing, for each key, its first authored entry in the order \<^verbatim>\<open>forge remappings\<close>,
  \<^verbatim>\<open>foundry.toml\<close>, \<^verbatim>\<open>remappings.txt\<close>, \<^verbatim>\<open>package.json\<close>: the dictionary of paths and that of sources are the first
  bindings of the authored entries, a canonical entry depending on nothing that was recorded before; and reading
  fails exactly when a configuration value has the wrong type.
\<close>

theorem first_source_wins:
  "map_sum id recorded_dicts (collect_remapping_entries w base_dir profile run_root) =
     map_sum id (specified_dicts w base_dir run_root) (authored_entries w base_dir profile)"
proof (cases "collect_remapping_entries w base_dir profile run_root")
  case (Inl e)
  then show ?thesis using collect_remapping_entries_error [of w base_dir profile run_root e] by simp
next
  case (Inr st)
  then show ?thesis
    by (rule collect_remapping_entries_paths) (simp add: Inr recorded_dicts_def specified_dicts_def comp_def case_prod_unfold)
qed

lemma first_bindings_order:
  "dget (first_bindings es) k = dget es k" "keys (first_bindings es) = rev (remdups (rev (keys es)))"
  "dict_ok (first_bindings es)"
  by (simp_all add: dget_first_bindings keys_first_bindings dict_ok_def)

subsection \<open>Boundaries of keys\<close>

definition marks_boundary :: "string \<Rightarrow> bool" where
  \<comment> \<open>the key ends where a path component ends, or names a source file, or has an empty prefix\<close>
  "marks_boundary key \<longleftrightarrow> key = [] \<or> last key = CHR ''/'' \<or> last key = CHR '':'' \<or> names_source_file key"

lemma ends_in_append: "ends_in s suffix \<Longrightarrow> ends_in (x @ s) suffix"
  by (auto simp: ends_in_def starts_with_iff)

lemma ends_in_char: "ends_in s [c] \<longleftrightarrow> s \<noteq> [] \<and> last s = c"
  by (cases s rule: rev_cases) (auto simp: ends_in_def starts_with_def)

lemma ends_in_after:
  assumes "ends_in (x @ c # s) suffix" and "c \<notin> set suffix"
  shows "ends_in s suffix"
proof -
  from assms(1) obtain r where r: "rev s @ c # rev x = rev suffix @ r" by (auto simp: ends_in_def starts_with_iff)
  then have "length (rev suffix) \<le> length (rev s)"
  proof (rule_tac ccontr)
    assume "\<not> length (rev suffix) \<le> length (rev s)"
    then have "(rev suffix @ r) ! length s = rev suffix ! length s" by (simp add: nth_append)
    moreover have "(rev s @ c # rev x) ! length s = c" by (simp add: nth_append)
    ultimately have "c = rev suffix ! length s" using r by simp
    with \<open>\<not> length (rev suffix) \<le> length (rev s)\<close> have "c \<in> set (rev suffix)"
      by (metis length_rev not_le nth_mem)
    with assms(2) show False by simp
  qed
  with r have "\<exists>t. rev s = rev suffix @ t" by (metis append_eq_append_conv_if append_take_drop_id)
  then show ?thesis by (auto simp: ends_in_def starts_with_iff)
qed

lemma names_source_file_append: "names_source_file s \<Longrightarrow> names_source_file (x @ s)"
  by (auto simp: names_source_file_def list_ex_iff lower_def dest: ends_in_append)

lemma lower_char_colon [simp]: "lower_char (CHR '':'') = CHR '':''"
  by (simp add: lower_char_def Let_def)

lemma names_source_file_prefix:
  "names_source_file (context @ CHR '':'' # prefix) \<Longrightarrow> names_source_file prefix"
  by (auto simp: names_source_file_def lower_def source_suffixes_def dest: ends_in_after)

lemma marks_boundary_append: "marks_boundary key \<Longrightarrow> key \<noteq> [] \<Longrightarrow> marks_boundary (x @ key)"
  by (auto simp: marks_boundary_def names_source_file_append)

lemma marks_boundary_context: "marks_boundary key \<Longrightarrow> marks_boundary (context @ CHR '':'' # key)"
  by (cases "key = []") (auto simp: marks_boundary_def dest: names_source_file_append [of key "context @ '':''"])

lemma marks_boundary_prefix: "marks_boundary (context @ CHR '':'' # prefix) \<Longrightarrow> marks_boundary prefix"
  by (cases "prefix = []") (auto simp: marks_boundary_def dest: names_source_file_prefix)

lemma with_boundary_marks: "marks_boundary (fst (with_boundary e))"
  by (cases e) (auto simp: with_boundary_def with_slash_def marks_boundary_def ends_in_char)

lemma canonical_entry_marks: "marks_boundary (fst (canonical_entry w base_dir run_root entry))"
  by (simp add: canonical_entry_def split_beta with_boundary_marks)

lemma split_once_join: "c \<in> set s \<Longrightarrow> fst (split_once c s) @ c # snd (split_once c s) = s"
  unfolding split_once_def
  by (metis (mono_tags, lifting) dropWhile_eq_Nil_conv fst_conv hd_dropWhile list.collapse snd_conv takeWhile_dropWhile_id)

lemma scoped_key_marks: "marks_boundary key \<Longrightarrow> marks_boundary (fst (scoped_key rel key))"
proof (cases "CHR '':'' \<in> set key")
  case True
  assume "marks_boundary key"
  with split_once_join [OF True] have "marks_boundary (snd (split_once (CHR '':'') key))"
    by (metis marks_boundary_prefix)
  with \<open>marks_boundary key\<close> show ?thesis
    by (simp add: scoped_key_def True split_beta Let_def marks_boundary_context del: os_join.simps)
next
  case False
  assume "marks_boundary key"
  then show ?thesis using marks_boundary_context [of key "rel @ ''/''"] by (simp add: scoped_key_def False)
qed

text \<open>A key that ends with a slash maps whole components: \<^verbatim>\<open>@oz/contracts/\<close> says nothing of \<^verbatim>\<open>@oz/contracts-up/x\<close>.\<close>

lemma slash_key_maps_components:
  assumes "starts_with (key @ ''/'') import_path"
  shows "split_on (CHR ''/'') import_path =
    split_on (CHR ''/'') key @ split_on (CHR ''/'') (drop (length key + 1) import_path)"
proof -
  have "split_on c (s @ c # t) = split_on c s @ split_on c t" for c and s t :: string
    by (induction s) (auto split: list.split)
  with assms show ?thesis by (auto simp: starts_with_iff)
qed

subsection \<open>Entries of the other projects\<close>

lemma scope_entry_paths:
  "key_to_path (scope_entry w rel (key, path) st) =
     (if dget (key_to_path st) (snd (scoped_key rel key)) = Some path \<or> \<not> exists w (pure_path path) then key_to_path st
      else insert_absent (fst (scoped_key rel key), path) (key_to_path st))"
  by (simp add: scope_entry_def split_beta Let_def record_entry_paths)

definition scoped_under :: "string \<Rightarrow> string \<Rightarrow> bool" where
  \<comment> \<open>the context of the key lies in the project: textually, or when its parent steps are resolved\<close>
  "scoped_under rel key \<longleftrightarrow>
     starts_with (with_slash rel) key \<or>
     CHR '':'' \<in> set key \<and>
       (let n = normpath (fst (split_once (CHR '':'') key)) in n = rel \<or> starts_with (rel @ ''/'') n)"

lemma scoped_key_under: "scoped_under rel (fst (scoped_key rel key))"
proof (cases "CHR '':'' \<in> set key")
  case True
  let ?b = "dropWhile (\<lambda>c. c = CHR ''/'') (fst (split_once (CHR '':'') key))"
  have "\<not> starts_with ''/'' (dropWhile (\<lambda>c. c = CHR ''/'') s)" for s
    by (induction s) (simp_all add: starts_with_def)
  then have "os_join rel [?b] = with_slash rel @ ?b" by (simp add: with_slash_def)
  then have "starts_with (with_slash rel) (os_join rel [?b] @ x)" for x by (auto simp: starts_with_iff)
  then show ?thesis
    using True by (auto simp: scoped_key_def scoped_under_def split_beta Let_def simp del: os_join.simps)
next
  case False
  have "starts_with (with_slash rel) (rel @ ''/:'' @ key)" by (auto simp: with_slash_def starts_with_iff)
  with False show ?thesis by (simp add: scoped_key_def scoped_under_def)
qed

definition scoped_entries_ok :: "world \<Rightarrow> posix_path \<Rightarrow> posix_path list \<Rightarrow> (string \<times> string) list \<Rightarrow> bool" where
  \<comment> \<open>every entry names an existing target, keeps its boundary and lies in one of the projects\<close>
  "scoped_entries_ok w r projects es \<longleftrightarrow>
     list_all (\<lambda>(key, path). exists w (pure_path path) \<and> marks_boundary key \<and>
       list_ex (\<lambda>project. scoped_under (os_relpath (cwd w) (path_str project) (path_str r)) key) projects) es"

lemma scope_entries_extend:
  assumes "list_all (\<lambda>(key, path). marks_boundary key) es" and "project \<in> set projects"
    and rel: "rel = os_relpath (cwd w) (path_str project) (path_str r)"
  shows "\<exists>extra. key_to_path (fold (scope_entry w rel) es st) = key_to_path st @ extra \<and> scoped_entries_ok w r projects extra"
  using assms(1)
proof (induction es arbitrary: st)
  case Nil
  then show ?case by (simp add: scoped_entries_ok_def)
next
  case (Cons e es)
  obtain key path where e: "e = (key, path)" by (cases e)
  have "\<exists>extra. key_to_path (scope_entry w rel e st) = key_to_path st @ extra \<and> scoped_entries_ok w r projects extra"
    using Cons.prems scoped_key_marks [of key rel] scoped_key_under [of rel key] \<open>project \<in> set projects\<close>
    by (auto simp: e scope_entry_paths insert_absent_def scoped_entries_ok_def list_ex_iff rel)
  moreover from Cons.IH [of "scope_entry w rel e st"] Cons.prems
  obtain extra where "key_to_path (fold (scope_entry w rel) es (scope_entry w rel e st)) = key_to_path (scope_entry w rel e st) @ extra"
    "scoped_entries_ok w r projects extra" by auto
  ultimately show ?case by (auto simp: scoped_entries_ok_def)
qed

lemma collected_keys_mark:
  assumes "collect_remapping_entries w base_dir profile run_root = Inr st"
  shows "dict_ok (key_to_path st) \<and> list_all (\<lambda>(key, path). marks_boundary key) (key_to_path st)"
proof (rule collect_remapping_entries_paths [OF assms])
  fix es
  assume es: "key_to_path st = first_bindings (map (canonical_entry w base_dir run_root \<circ> snd) es)"
  have "set (first_bindings xs) \<subseteq> set xs" for xs :: "(string \<times> string) list"
    using fold_insert_absent_extends [of xs "[]"] by (auto simp: first_bindings_def)
  then have "set (key_to_path st) \<subseteq> canonical_entry w base_dir run_root ` snd ` set es" by (force simp: es)
  then have "list_all (\<lambda>(key, path). marks_boundary key) (key_to_path st)"
    using canonical_entry_marks [of w base_dir run_root]
    by (metis (mono_tags, lifting) case_prod_beta imageE list_all_iff subsetD)
  then show ?thesis by (simp add: es first_bindings_order)
qed

definition extends_scoped :: "world \<Rightarrow> posix_path \<Rightarrow> posix_path list \<Rightarrow> remaps \<Rightarrow> remaps \<Rightarrow> bool" where
  "extends_scoped w r projects st st' \<longleftrightarrow>
     (\<exists>extra. key_to_path st' = key_to_path st @ extra \<and> scoped_entries_ok w r projects extra)"

lemma extends_scoped_refl: "extends_scoped w r projects st st"
  by (simp add: extends_scoped_def scoped_entries_ok_def)

lemma extends_scoped_trans:
  "extends_scoped w r projects st1 st2 \<Longrightarrow> extends_scoped w r projects st2 st3 \<Longrightarrow> extends_scoped w r projects st1 st3"
  by (auto simp: extends_scoped_def scoped_entries_ok_def)

lemma scope_project_extends:
  assumes "scope_project w (Some r) project (os_relpath (cwd w) (path_str project) (path_str r)) st = Inr st'"
    and "project \<in> set projects"
  shows "extends_scoped w r projects st st'"
proof -
  from assms(1) obtain own where own: "collect_remapping_entries w project ''default'' (Some r) = Inr own"
    and st': "st' = fold (scope_entry w (os_relpath (cwd w) (path_str project) (path_str r))) (key_to_path own)
      (st\<lparr>remap_log := remap_log st @ map (\<lambda>(message, level).
        (''['' @ os_relpath (cwd w) (path_str project) (path_str r) @ ''] '' @ message, level)) (remap_log own)\<rparr>)"
    by (auto simp: scope_project_def bindE_Inr_iff)
  from collected_keys_mark [OF own] have "list_all (\<lambda>(key, path). marks_boundary key) (key_to_path own)" ..
  from scope_entries_extend [OF this assms(2) refl] show ?thesis
    unfolding extends_scoped_def st' by (metis (no_types, lifting) remaps.select_convs(1) remaps.surjective remaps.update_convs(3))
qed

lemma scope_projects_extend:
  "foldE (\<lambda>project. scope_project w (Some r) project (os_relpath (cwd w) (path_str project) (path_str r))) ps st = Inr st' \<Longrightarrow>
   set ps \<subseteq> set projects \<Longrightarrow> extends_scoped w r projects st st'"
proof (induction ps arbitrary: st)
  case Nil
  then show ?case by (simp add: extends_scoped_refl)
next
  case (Cons p ps)
  from Cons.prems(1) obtain st1
    where "scope_project w (Some r) p (os_relpath (cwd w) (path_str p) (path_str r)) st = Inr st1"
      "foldE (\<lambda>project. scope_project w (Some r) project (os_relpath (cwd w) (path_str project) (path_str r))) ps st1 = Inr st'"
    by (auto simp: bindE_Inr_iff)
  then show ?case
    using Cons.IH Cons.prems(2) scope_project_extends by (metis extends_scoped_trans list.set_intros(1) set_subset_Cons subset_eq)
qed

lemma scope_other_projects_extends:
  "scope_other_projects w base_dir (Some r) st = Inr st' \<Longrightarrow>
   extends_scoped w r (projects_under w base_dir (Some r)) st st'"
  unfolding scope_other_projects_def by (auto intro: scope_projects_extend)

definition added_entries :: "remaps \<Rightarrow> remaps \<Rightarrow> (string \<times> string) list" where
  "added_entries st st' = drop (length (key_to_path st)) (key_to_path st')"


definition shown_entry :: "string \<times> string \<Rightarrow> string" where
  "shown_entry = (\<lambda>(key, path). key @ ''='' @ path)"

lemma record_entry_dict_ok: "dict_ok (key_to_path st) \<Longrightarrow> dict_ok (key_to_path (scope_entry w rel e st))"
  by (cases e) (auto simp: scope_entry_paths insert_absent_def dict_ok_def)

lemma scope_entries_dict_ok: "dict_ok (key_to_path st) \<Longrightarrow> dict_ok (key_to_path (fold (scope_entry w rel) es st))"
  by (induction es arbitrary: st) (simp_all add: record_entry_dict_ok)

lemma scope_other_projects_dict_ok:
  assumes "scope_other_projects w base_dir run_root st = Inr st'" and "dict_ok (key_to_path st)"
  shows "dict_ok (key_to_path st')"
proof -
  have "foldE (\<lambda>project. scope_project w run_root project (rel project)) ps s = Inr s' \<Longrightarrow>
      dict_ok (key_to_path s) \<Longrightarrow> dict_ok (key_to_path s')" for ps s s' rel
  proof (induction ps arbitrary: s)
    case (Cons p ps)
    then show ?case by (auto simp: bindE_Inr_iff scope_project_def scope_entries_dict_ok)
  qed simp
  with assms show ?thesis by (auto simp: scope_other_projects_def split: option.splits)
qed

text \<open>
  in the packages list no key is mapped twice, and every key keeps its boundary: it ends with a slash, names a
  source file, or has an empty prefix. So the entry of one package never captures the imports of another package whose
  name only begins alike (\<open>slash_key_maps_components\<close>).
\<close>

theorem package_keys_keep_their_boundary:
  assumes "build_packages_from_remapping_sources w base_dir profile run_root = Inr (packages, messages)"
  shows "\<exists>d. packages = map shown_entry d \<and> dict_ok d \<and> list_all marks_boundary (keys d)"
proof -
  from assms obtain st st' where st: "collect_remapping_entries w base_dir profile run_root = Inr st"
    and st': "scope_other_projects w base_dir run_root st = Inr st'" and p: "packages = map shown_entry (key_to_path st')"
    by (auto simp: build_packages_from_remapping_sources_def bindE_Inr_iff shown_entry_def)
  from collected_keys_mark [OF st] have ok: "dict_ok (key_to_path st)" "list_all (\<lambda>(key, path). marks_boundary key) (key_to_path st)"
    by auto
  from scope_other_projects_dict_ok [OF st' ok(1)] have d: "dict_ok (key_to_path st')" .
  have "list_all marks_boundary (keys (key_to_path st'))"
  proof (cases run_root)
    case None
    with st' ok(2) show ?thesis by (auto simp: scope_other_projects_def list_all_iff)
  next
    case (Some r)
    from scope_other_projects_extends [OF st' [unfolded Some]] ok(2) show ?thesis
      by (fastforce simp: extends_scoped_def scoped_entries_ok_def list_all_iff)
  qed
  with p d show ?thesis by blast
qed

end
