(* ===== verification/Remappings_Paths.thy ===== *)
theory Remappings_Paths
  imports Remappings_Laws
begin

text \<open>
  Paths in the packages list: absolute normal paths as lists of components, the ancestors searched for a hoisted
  package, the outcome of that search, relative paths and rebased contexts; and a small repository on which the
  theorems on the packages list are evaluated.
\<close>

subsection \<open>Absolute paths as lists of components\<close>

definition slash_path :: "string list \<Rightarrow> string" where
  "slash_path ps = ''/'' @ join ''/'' ps"

definition segment :: "string \<Rightarrow> bool" where
  "segment c \<longleftrightarrow> c \<noteq> [] \<and> CHR ''/'' \<notin> set c"

definition plain :: "string \<Rightarrow> bool" where
  \<comment> \<open>a component that is neither a dot nor a parent step\<close>
  "plain c \<longleftrightarrow> segment c \<and> c \<noteq> ''.'' \<and> c \<noteq> ''..''"

lemma plain_segment: "plain c \<Longrightarrow> segment c"
  by (simp add: plain_def)

lemma list_all_plain_segment: "list_all plain cs \<Longrightarrow> list_all segment cs"
  by (auto simp: list_all_iff plain_segment)

lemma split_on_join_segments: "cs \<noteq> [] \<Longrightarrow> list_all segment cs \<Longrightarrow> split_on (CHR ''/'') (join ''/'' cs) = cs"
  by (rule split_on_join) (auto simp: list_all_iff segment_def)

lemma split_on_slash_path: "cs \<noteq> [] \<Longrightarrow> list_all segment cs \<Longrightarrow> split_on (CHR ''/'') (slash_path cs) = [] # cs"
  by (simp add: slash_path_def split_on_join_segments)

lemma join_segments_hd: "cs \<noteq> [] \<Longrightarrow> list_all segment cs \<Longrightarrow> \<exists>x s. join ''/'' cs = x # s \<and> x \<noteq> CHR ''/''"
  by (cases cs; cases "hd cs") (auto simp: join_Cons segment_def)

lemma join_segments_last: "cs \<noteq> [] \<Longrightarrow> list_all segment cs \<Longrightarrow> join ''/'' cs \<noteq> [] \<and> last (join ''/'' cs) \<noteq> CHR ''/''"
proof (induction cs)
  case (Cons c cs)
  then show ?case by (cases "cs = []") (auto simp: join_Cons segment_def, metis last_in_set)
qed simp

lemma root_of_slash_path: "list_all segment cs \<Longrightarrow> root_of (slash_path cs) = 1"
proof (cases "cs = []")
  case False
  assume "list_all segment cs"
  from join_segments_hd [OF False this] show ?thesis by (auto simp: root_of_def slash_path_def)
qed (simp add: root_of_def slash_path_def)

lemma path_str_slash_path: "path_str (PosixPath 1 cs) = slash_path cs"
  by (simp add: path_str_def slash_path_def)

lemma pure_path_slash_path: "list_all plain cs \<Longrightarrow> pure_path (slash_path cs) = PosixPath 1 cs"
proof (cases "cs = []")
  case False
  assume cs: "list_all plain cs"
  then have "filter (\<lambda>c. c \<noteq> [] \<and> c \<noteq> ''.'') cs = cs"
    by (auto simp: filter_id_conv list_all_iff plain_def segment_def)
  then show ?thesis
    using False cs by (simp add: pure_path_def root_of_slash_path split_on_slash_path list_all_plain_segment)
qed (simp add: pure_path_def root_of_def slash_path_def)

lemma norm_parts_plain: "list_all plain xs \<Longrightarrow> norm_parts rooted (xs @ ys) acc = norm_parts rooted ys (rev xs @ acc)"
  by (induction xs arbitrary: acc) (auto simp: plain_def segment_def)

lemma norm_parts_parents:
  "list_all plain acc \<Longrightarrow> k \<le> length acc \<Longrightarrow> norm_parts True (replicate k ''..'' @ ys) acc = norm_parts True ys (drop k acc)"
proof (induction k arbitrary: acc)
  case (Suc k)
  then obtain a as where "acc = a # as" by (cases acc) auto
  with Suc show ?case by (simp add: plain_def)
qed simp

lemma normpath_slash_path: "list_all segment cs \<Longrightarrow> normpath (slash_path cs) = slash_path (norm_parts True cs [])"
proof (cases "cs = []")
  case False
  assume cs: "list_all segment cs"
  then show ?thesis
    using False root_of_slash_path [OF cs] split_on_slash_path [OF False cs]
    by (simp add: normpath_def Let_def) (simp add: slash_path_def)
qed (simp add: normpath_def root_of_def slash_path_def)

lemma normpath_plain: "list_all plain cs \<Longrightarrow> normpath (slash_path cs) = slash_path cs"
  using norm_parts_plain [of cs True "[]" "[]"] by (simp add: normpath_slash_path list_all_plain_segment)

lemma os_abspath_plain: "list_all plain cs \<Longrightarrow> os_abspath here (slash_path cs) = slash_path cs"
  by (simp add: os_abspath_def normpath_plain) (simp add: slash_path_def starts_with_def)

lemma path_components_slash_path: "list_all segment cs \<Longrightarrow> path_components (slash_path cs) = cs"
proof (cases "cs = []")
  case False
  assume cs: "list_all segment cs"
  from join_segments_hd [OF False cs] obtain x s where j: "join ''/'' cs = x # s" "x \<noteq> CHR ''/''" by auto
  then have "dropWhile (\<lambda>c. c = CHR ''/'') (slash_path cs) = join ''/'' cs" by (simp add: slash_path_def)
  then show ?thesis
    using split_on_join_segments [OF False cs] by (simp add: path_components_def Let_def j)
qed (simp add: path_components_def slash_path_def)

lemma os_dirname_slash_path:
  assumes "list_all segment (cs @ [c])"
  shows "os_dirname (slash_path (cs @ [c])) = slash_path cs"
proof -
  let ?head = "if cs = [] then ''/'' else slash_path cs @ ''/''"
  have d: "dropWhile (\<lambda>x. x \<noteq> CHR ''/'') (rev c @ t) = dropWhile (\<lambda>x. x \<noteq> CHR ''/'') t" for t
    by (rule dropWhile_append2) (use assms in \<open>auto simp: segment_def\<close>)
  have "slash_path (cs @ [c]) = ?head @ c" by (auto simp: slash_path_def join_append)
  then have head: "rev (dropWhile (\<lambda>x. x \<noteq> CHR ''/'') (rev (slash_path (cs @ [c])))) = ?head"
    by (simp add: d)
  show ?thesis
  proof (cases "cs = []")
    case True
    then show ?thesis using head by (simp add: os_dirname_def slash_path_def Let_def d)
  next
    case False
    with assms join_segments_last [of cs] have l: "join ''/'' cs \<noteq> []" "last (join ''/'' cs) \<noteq> CHR ''/''" by auto
    then obtain js j where j: "join ''/'' cs = js @ [j]" "j \<noteq> CHR ''/''" by (cases "join ''/'' cs" rule: rev_cases) auto
    have "slash_path cs = CHR ''/'' # js @ [j]" by (simp add: slash_path_def j)
    with False j show ?thesis unfolding os_dirname_def head Let_def by simp
  qed
qed

lemma slash_path_inject: "list_all segment xs \<Longrightarrow> list_all segment ys \<Longrightarrow> slash_path xs = slash_path ys \<Longrightarrow> xs = ys"
  by (metis path_components_slash_path)

subsection \<open>The ancestors of a project\<close>

lemma walk_up_slash_path:
  "list_all plain (rs @ ps) \<Longrightarrow>
   walk_up (slash_path rs) (slash_path (rs @ ps)) = map (\<lambda>k. slash_path (rs @ take k ps)) (rev [0..<length ps])"
proof (induction ps rule: rev_induct)
  case Nil
  then show ?case by (simp add: walk_up.simps)
next
  case (snoc p ps)
  have seg: "list_all segment rs" "list_all segment ((rs @ ps) @ [p])" "list_all segment (rs @ ps)"
    using list_all_plain_segment [OF snoc.prems] by auto
  have up: "os_dirname (slash_path (rs @ ps @ [p])) = slash_path (rs @ ps)"
    using os_dirname_slash_path [OF seg(2)] by simp
  have "slash_path (rs @ ps @ [p]) \<noteq> slash_path rs" "slash_path (rs @ ps @ [p]) \<noteq> slash_path (rs @ ps)"
    using slash_path_inject seg by fastforce+
  then have "walk_up (slash_path rs) (slash_path (rs @ ps @ [p])) =
      slash_path (rs @ ps) # walk_up (slash_path rs) (slash_path (rs @ ps))"
    by (simp add: walk_up.simps [of _ "slash_path (rs @ ps @ [p])"] up)
  with snoc show ?case by simp
qed

text \<open>
  for a project inside the run root the directories searched for a hoisted package are the project and its
  ancestors up to and including the run root, nearest first: every one of them lies in the tree that is uploaded, and
  none is missing. A project elsewhere is searched alone.
\<close>

theorem searched_roots_are_the_ancestors:
  assumes "list_all plain (rs @ ps)"
  shows "ancestor_roots (PosixPath 1 (rs @ ps)) (Some (PosixPath 1 rs)) =
    map (\<lambda>k. slash_path (rs @ take k ps)) (rev [0..<Suc (length ps)])"
proof -
  have norm: "normpath (slash_path rs) = slash_path rs" "normpath (slash_path (rs @ ps)) = slash_path (rs @ ps)"
    using assms by (simp_all add: normpath_plain)
  have inside: "slash_path (rs @ ps) = slash_path rs \<or>
    starts_with (rstrip_char (CHR ''/'') (slash_path rs) @ ''/'') (slash_path (rs @ ps))"
  proof (cases "ps = [] \<or> rs = []")
    case True
    then show ?thesis by (auto simp: slash_path_def rstrip_char_def starts_with_def)
  next
    case False
    have "list_all segment rs" using assms list_all_plain_segment by auto
    with False join_segments_last [of rs] obtain js j where j: "join ''/'' rs = js @ [j]" "j \<noteq> CHR ''/''"
      by (cases "join ''/'' rs" rule: rev_cases) auto
    then have "rstrip_char (CHR ''/'') (slash_path rs) = slash_path rs" by (simp add: rstrip_char_def slash_path_def)
    with False show ?thesis by (auto simp: slash_path_def join_append starts_with_iff)
  qed
  have "ancestor_roots (PosixPath 1 (rs @ ps)) (Some (PosixPath 1 rs)) =
      slash_path (rs @ ps) # walk_up (slash_path rs) (slash_path (rs @ ps))"
    using inside unfolding ancestor_roots_def path_str_slash_path option.case norm Let_def by auto
  then show ?thesis by (simp add: walk_up_slash_path [OF assms])
qed

theorem searched_roots_are_the_ancestors_witness:
  "ancestor_roots (PosixPath 1 [''repo'', ''chains'', ''eth'']) (Some (PosixPath 1 [''repo''])) =
     [''/repo/chains/eth'', ''/repo/chains'', ''/repo'']"
proof -
  have "list_all plain ([''repo''] @ [''chains'', ''eth''])" by (simp add: plain_def segment_def)
  from searched_roots_are_the_ancestors [OF this] show ?thesis by (simp add: slash_path_def upt_rec)
qed

subsection \<open>Resolution of a target\<close>

definition package_in :: "string \<Rightarrow> string \<Rightarrow> string" where
  "package_in package root = os_join root [node_modules, package]"

definition usable :: "world \<Rightarrow> string \<Rightarrow> string \<Rightarrow> string \<Rightarrow> bool" where
  \<comment> \<open>the package is installed here and has the whole target\<close>
  "usable w package subpath root \<longleftrightarrow>
     is_dir w (pure_path (package_in package root)) \<and> exists w (pure_path (target_in (package_in package root) subpath))"

definition nearest_usable :: "world \<Rightarrow> string \<Rightarrow> posix_path \<Rightarrow> string list \<Rightarrow> string \<Rightarrow> string \<Rightarrow> package_resolution" where
  \<comment> \<open>what resolution promises, in terms of the list of roots\<close>
  "nearest_usable w target base_dir roots package subpath =
     (let full = (\<lambda>root. target_in (package_in package root) subpath) in
      case find (usable w package subpath \<circ> snd) (enumerate 0 roots) of
        Some (i, root) \<Rightarrow>
          \<lparr>res_path = full root, res_kind = (if i = 0 then Local else Hoisted), package_dir = Some (package_in package root),
           searched = map full (take (Suc i) roots)\<rparr>
      | None \<Rightarrow>
          (case find (\<lambda>root. is_dir w (pure_path (package_in package root))) roots of
             Some root \<Rightarrow>
               \<lparr>res_path = full root, res_kind = SubpathMissing, package_dir = Some (package_in package root),
                searched = map full roots\<rparr>
           | None \<Rightarrow>
               \<lparr>res_path = path_str (path_join base_dir target), res_kind = Unresolved, package_dir = None,
                searched = map full roots\<rparr>))"

lemma search_roots_spec:
  "search_roots w package subpath n roots found nearest =
     (let full = (\<lambda>root. target_in (package_in package root) subpath) in
      case find (usable w package subpath \<circ> snd) (enumerate n roots) of
        Some (i, root) \<Rightarrow>
          Inl \<lparr>res_path = full root, res_kind = (if i = 0 then Local else Hoisted), package_dir = Some (package_in package root),
               searched = found @ map full (take (Suc (i - n)) roots)\<rparr>
      | None \<Rightarrow>
          Inr (found @ map full roots, case nearest of Some d \<Rightarrow> Some d
            | None \<Rightarrow> map_option (package_in package) (find (\<lambda>root. is_dir w (pure_path (package_in package root))) roots)))"
proof (induction roots arbitrary: n found nearest)
  case Nil
  then show ?case by (simp split: option.split)
next
  case (Cons root roots)
  have later: "find P (enumerate (Suc n) roots) = Some (i, r) \<Longrightarrow> Suc n \<le> i" for P i r
    by (auto dest!: find_SomeD simp: in_set_enumerate_eq)
  let ?pkg = "package_in package root"
  let ?nearest = "if is_dir w (pure_path ?pkg) then (case nearest of None \<Rightarrow> Some ?pkg | Some d \<Rightarrow> Some d) else nearest"
  show ?case
  proof (cases "usable w package subpath root")
    case True
    then show ?thesis by (simp add: usable_def Let_def package_in_def [symmetric] del: os_join.simps)
  next
    case False
    then have step: "search_roots w package subpath n (root # roots) found nearest =
        search_roots w package subpath (Suc n) roots (found @ [target_in ?pkg subpath]) ?nearest"
      by (simp add: usable_def Let_def package_in_def [symmetric] del: os_join.simps)
    show ?thesis
    proof (cases "find (usable w package subpath \<circ> snd) (enumerate (Suc n) roots)")
      case None
      then show ?thesis by (simp only: step Cons.IH Let_def) (simp add: False split: option.split)
    next
      case (Some h)
      obtain i r where h: "h = (i, r)" by (cases h)
      from later Some h have "Suc n \<le> i" by blast
      then have "Suc (i - n) = Suc (Suc (i - Suc n))" by simp
      then show ?thesis using Some h by (simp only: step Cons.IH Let_def) (simp add: False)
    qed
  qed
qed

text \<open>
  C33: the search for a hoisted package, with its early return and its memory of the nearest package, is the
  choice of the nearest root that has the whole target; failing that, of the nearest that has the package at all;
  failing that the target as authored. An entry that resolves in the project is never moved.
\<close>

theorem resolution_is_the_nearest_usable:
  "resolve_node_modules_target w target base_dir run_root =
     (case split_node_modules_target target of
        None \<Rightarrow> \<lparr>res_path = path_str (path_join base_dir target), res_kind = Local, package_dir = None, searched = []\<rparr>
      | Some (package, subpath) \<Rightarrow> nearest_usable w target base_dir (ancestor_roots base_dir run_root) package subpath)"
  by (auto simp: resolve_node_modules_target_def nearest_usable_def search_roots_spec Let_def split: option.split)


subsection \<open>Relative paths\<close>

lemma common_prefix_take:
  "common_prefix xs ys = take (length (common_prefix xs ys)) xs" "common_prefix xs ys = take (length (common_prefix xs ys)) ys"
  "length (common_prefix xs ys) \<le> length xs" "length (common_prefix xs ys) \<le> length ys"
  by (induction xs ys rule: common_prefix.induct) auto

lemma common_prefix_append: "common_prefix xs (xs @ ys) = xs"
  by (induction xs) auto

lemma os_join_segments:
  assumes "list_all segment xs" "ys \<noteq> []" "list_all segment ys"
  shows "os_join (slash_path xs) [join ''/'' ys] = slash_path (xs @ ys)"
proof -
  from join_segments_hd [OF assms(2,3)] have hd: "\<not> starts_with ''/'' (join ''/'' ys)" by (auto simp: starts_with_def)
  show ?thesis
  proof (cases "xs = []")
    case True
    then show ?thesis by (simp add: hd) (simp add: slash_path_def ends_in_char)
  next
    case False
    from join_segments_last [OF False assms(1)] have "\<not> ends_in (slash_path xs) ''/''"
      by (simp add: ends_in_char slash_path_def)
    moreover have "slash_path xs \<noteq> []" by (simp add: slash_path_def)
    ultimately show ?thesis using False assms(2) by (simp add: hd slash_path_def join_append)
  qed
qed

definition relative_components :: "string list \<Rightarrow> string list \<Rightarrow> string list" where
  "relative_components start path =
     (let i = length (common_prefix start path) in replicate (length start - i) ''..'' @ drop i path)"

lemma relative_components_Nil: "relative_components start path = [] \<longleftrightarrow> path = start"
proof
  assume "relative_components start path = []"
  then have "length start \<le> length (common_prefix start path)" "length path \<le> length (common_prefix start path)"
    by (simp_all add: relative_components_def Let_def)
  then show "path = start"
    using trans [OF common_prefix_take(1) take_all] trans [OF common_prefix_take(2) take_all] by metis
next
  assume "path = start"
  then show "relative_components start path = []"
    using common_prefix_append [of start "[]"] by (simp add: relative_components_def)
qed

lemma os_relpath_slash_path:
  assumes "list_all plain ps" "list_all plain ss"
  shows "os_relpath here (slash_path ps) (slash_path ss) =
    (if ps = ss then ''.'' else join ''/'' (relative_components ss ps))"
proof -
  have "path_components (os_abspath here (slash_path cs)) = cs" if "list_all plain cs" for cs
    using that by (simp add: os_abspath_plain path_components_slash_path list_all_plain_segment)
  then show ?thesis
    using relative_components_Nil [of ss ps] assms
    by (simp only: os_relpath_def Let_def relative_components_def [unfolded Let_def, symmetric])
qed

lemma segment_relative: "list_all plain ps \<Longrightarrow> list_all segment (relative_components ss ps)"
  using set_drop_subset [of "length (common_prefix ss ps)" ps]
  by (auto simp: relative_components_def Let_def list_all_iff plain_segment) (simp add: segment_def)

text \<open>
  \<^verbatim>\<open>os.path.relpath\<close> and \<^verbatim>\<open>os.path.join\<close> are inverse on absolute normal paths: following the relative path from
  the start reaches the path again, through parent steps where it lies elsewhere.
\<close>

theorem relative_path_leads_back:
  assumes "list_all plain ps" "list_all plain ss"
  shows "normpath (os_join (slash_path ss) [os_relpath here (slash_path ps) (slash_path ss)]) = slash_path ps"
proof (cases "ps = ss")
  case True
  have dot: "list_all segment [''.'']" by (simp add: segment_def)
  have "os_join (slash_path ss) [join ''/'' [''.'']] = slash_path (ss @ [''.''])"
    by (rule os_join_segments) (use assms list_all_plain_segment dot in auto)
  moreover have "norm_parts True (ss @ [''.'']) [] = ss"
    using norm_parts_plain [OF assms(2), of True "[''.'']" "[]"] by simp
  moreover have "list_all segment (ss @ [''.''])" using assms(2) dot list_all_plain_segment by simp
  ultimately show ?thesis by (simp add: os_relpath_slash_path assms True normpath_slash_path)
next
  case False
  let ?i = "length (common_prefix ss ps)" and ?rel = "relative_components ss ps"
  have ne: "?rel \<noteq> []" using False by (simp add: relative_components_Nil)
  have "norm_parts True (ss @ ?rel) [] = norm_parts True (drop ?i ps) (drop (length ss - ?i) (rev ss))"
    using assms(2) norm_parts_plain [of ss] norm_parts_parents [of "rev ss" "length ss - ?i"]
    by (simp add: relative_components_def Let_def)
  also have "drop (length ss - ?i) (rev ss) = rev (take ?i ps)"
  proof -
    have "take ?i ss = take ?i ps" using common_prefix_take(1,2) [of ss ps] by simp
    then show ?thesis using common_prefix_take(3) [of ss ps] by (simp add: drop_rev)
  qed
  also have "norm_parts True (drop ?i ps) (rev (take ?i ps)) = ps"
  proof -
    have "list_all plain (drop ?i ps)" using assms(1) by (auto simp: list_all_iff dest: in_set_dropD)
    from norm_parts_plain [OF this, of True "[]" "rev (take ?i ps)"] show ?thesis by simp
  qed
  finally have eq: "norm_parts True (ss @ ?rel) [] = ps" .
  have seg: "list_all segment ss" "list_all segment ?rel"
    using assms list_all_plain_segment segment_relative by blast+
  then have "list_all segment (ss @ ?rel)" by simp
  from normpath_slash_path [OF this] show ?thesis
    using os_relpath_slash_path [OF assms] os_join_segments [OF seg(1) ne seg(2)] False by (simp only: eq if_False)
qed

theorem relative_path_leads_back_witness:
  "normpath (os_join ''/repo/a/b'' [os_relpath ''/'' ''/repo/c'' ''/repo/a/b'']) = ''/repo/c'' \<and>
   os_relpath ''/'' ''/repo/c'' ''/repo/a/b'' = ''../../c''"
proof -
  have p: "list_all plain [''repo'', ''c'']" "list_all plain [''repo'', ''a'', ''b'']" by (simp_all add: plain_def segment_def)
  have "slash_path [''repo'', ''c''] = ''/repo/c''" "slash_path [''repo'', ''a'', ''b''] = ''/repo/a/b''"
    by (simp_all add: slash_path_def)
  with relative_path_leads_back [OF p, of "''/''"] os_relpath_slash_path [OF p, of "''/''"]
  show ?thesis by (simp add: relative_components_def del: os_join.simps)
qed

subsection \<open>Contexts\<close>

lemma starts_with_before:
  fixes p :: string
  assumes "starts_with p (d @ c # r)" and "c \<notin> set p"
  shows "starts_with p d"
  using ends_in_after [of "rev r" c "rev d" "rev p"] assms by (simp add: ends_in_def)

lemma pure_path_context:
  assumes "cs \<noteq> []" "list_all plain cs" and that: "t \<in> {[], ''/''}"
  shows "pure_path (join ''/'' cs @ t) = PosixPath 0 cs"
proof -
  from assms have seg: "list_all segment cs" by (simp add: list_all_plain_segment)
  from join_segments_hd [OF assms(1) seg] have "root_of (join ''/'' cs @ t) = 0" by (auto simp: root_of_def)
  moreover have "split_on c (s @ [c]) = split_on c s @ [[]]" for c and s :: string
    by (induction s) (auto split: list.split)
  ultimately show ?thesis
    using that assms split_on_join_segments [OF assms(1) seg]
    by (auto simp: pure_path_def filter_id_conv list_all_iff plain_def segment_def)
qed

text \<open>
  a context that names a directory of the project below the run root is rebased to the path by which the run
  root names that directory, its trailing slash kept; so it is a prefix of the name of every source below it. The
  directory must not have a name that begins with two dots.
\<close>

theorem rebased_context_names_the_directory:
  assumes plain: "list_all plain (bs @ cs)" "cs \<noteq> []" and t: "t \<in> {[], ''/''}"
    and below: "bs @ cs = rs @ ds" "ds \<noteq> []" "\<not> starts_with ''..'' (hd ds)"
    and dir: "is_dir w (PosixPath 1 (bs @ cs))" and leaf: "list_all plain [x]"
  shows "rebase_context w (join ''/'' cs @ t) (PosixPath 1 bs) (Some (PosixPath 1 rs)) st = (join ''/'' ds @ t, st) \<and>
    path_join (PosixPath 1 rs) (join ''/'' ds @ t) = path_join (PosixPath 1 bs) (join ''/'' cs @ t) \<and>
    starts_with (join ''/'' ds @ t) (os_relpath (cwd w) (slash_path (bs @ cs @ [x])) (slash_path rs))"
proof -
  have "list_all plain (rs @ ds)" using plain(1) unfolding below(1) .
  with plain(1) have p: "list_all plain (rs @ ds)" "list_all plain cs" "list_all plain ds" "list_all plain rs"
    by simp_all
  have ctx: "join ''/'' cs @ t \<noteq> []"
    using join_segments_last [OF plain(2) list_all_plain_segment [OF p(2)]] by simp
  have pc: "pure_path (join ''/'' cs @ t) = PosixPath 0 cs" "pure_path (join ''/'' ds @ t) = PosixPath 0 ds"
    by (rule pure_path_context [OF plain(2) p(2) t], rule pure_path_context [OF below(2) p(3) t])
  have join: "path_join (PosixPath 1 bs) (join ''/'' cs @ t) = PosixPath 1 (bs @ cs)"
    "path_join (PosixPath 1 rs) (join ''/'' ds @ t) = PosixPath 1 (rs @ ds)"
    unfolding path_join_def pc by simp_all
  have rel: "os_relpath (cwd w) (slash_path (rs @ ds @ xs)) (slash_path rs) = join ''/'' (ds @ xs)" if "list_all plain xs" for xs
    using os_relpath_slash_path [of "rs @ ds @ xs" rs "cwd w"] p that below(2)
    by (simp add: relative_components_def common_prefix_append)
  have "join ''/'' ds \<noteq> ''.''"
    using split_on_join_segments [OF below(2)] p(3) list_all_plain_segment [OF p(3)] by (auto simp: plain_def)
  moreover have "\<not> starts_with ''..'' (join ''/'' ds)"
    using below(2,3) by (cases ds) (auto simp: join_Cons dest: starts_with_before split: if_splits)
  ultimately
  have "rebase_context w (join ''/'' cs @ t) (PosixPath 1 bs) (Some (PosixPath 1 rs)) st = (join ''/'' ds @ t, st)"
    using t dir ctx rel [of "[]"] join_segments_last [OF plain(2)] list_all_plain_segment [OF p(2)]
    unfolding rebase_context_def option.case join Let_def path_str_slash_path below(1)
    by (auto simp: ends_in_char below(1))
  moreover have "starts_with (join ''/'' ds @ t) (join ''/'' (ds @ [x]))"
    using t below(2) by (auto simp: join_append starts_with_iff)
  ultimately show ?thesis
    using rel [of "[x]"] leaf join below(1) by (simp flip: append_assoc)
qed

subsection \<open>A repository with two projects\<close>

definition sample_sources :: "string option \<Rightarrow> project_sources" where
  "sample_sources txt = \<lparr>foundry_toml = None, remappings_txt = txt, package_json = None\<rparr>"

definition sample_world :: world where
  "sample_world =
     \<lparr>cwd = ''/r'', is_dir = (\<lambda>p. p \<in> {PosixPath 1 [''r'', ''a'', ''s''], PosixPath 1 [''r'', ''..x'', ''s'']}),
      exists = (\<lambda>p. p = PosixPath 1 [''r'', ''b'', ''l'']), forge_remappings = (\<lambda>dir profile. Exited 0 []),
      sources_of = (\<lambda>p. sample_sources (if p \<in> {PosixPath 1 [''r'', ''a''], PosixPath 1 [''r'', ''b'']} then Some ''k=l'' else None)),
      run_tree = (\<lambda>p. Some (Dir [''foundry.toml''] [(''a'', Dir [''foundry.toml''] []), (''b'', Dir [''truffle.js''] []),
        (''lib'', Dir [] [(''c'', Dir [''foundry.toml''] [])])]))\<rparr>"

theorem rebased_context_names_the_directory_witness:
  "rebase_context sample_world ''s/'' (PosixPath 1 [''r'', ''a'']) (Some (PosixPath 1 [''r''])) empty_remaps = (''a/s/'', empty_remaps)"
  using rebased_context_names_the_directory
    [of "[''r'', ''a'']" "[''s'']" "''/''" "[''r'']" "[''a'', ''s'']" sample_world "''f.sol''" empty_remaps]
  by (simp add: plain_def segment_def sample_world_def starts_with_def)

text \<open>
  The code means a parent step when the relative path begins with two dots; a directory whose name begins with two
  dots is taken for one outside the run root, and its context stays relative to the project.
\<close>

lemma dotted_directory_counts_as_outside:
  "map_prod id remap_log (rebase_context sample_world ''s/'' (PosixPath 1 [''r'', ''..x'']) (Some (PosixPath 1 [''r''])) empty_remaps) =
     (''s/'', [(''Remapping context '' @ quote ''s/'' @ '' resolves outside the run root /r '' @ em_dash @
        '' leaving it as is'', warning)])"
  by code_simp

text \<open>
  The run root itself is meant never to be one of the other projects. It is one when the anchor lies outside it, and
  its entries are then scoped under a dot, with which no source unit name begins.
\<close>

lemma run_root_can_be_another_project:
  "projects_under sample_world (PosixPath 1 [''o'']) (Some (PosixPath 1 [''r''])) =
     [PosixPath 1 [''r''], PosixPath 1 [''r'', ''a''], PosixPath 1 [''r'', ''b'']]"
  "os_relpath ''/r'' ''/r'' ''/r'' = ''.''" "fst (scoped_key ''.'' ''k/'') = ''./:k/''"
  by code_simp+

lemma sample_scoped:
  "map_sum id key_to_path (collect_remapping_entries sample_world (PosixPath 1 [''r'', ''a'']) ''default'' (Some (PosixPath 1 [''r'']))) =
     Inr [(''k/'', ''/r/a/l/'')]"
  "map_sum id fst (build_packages_from_remapping_sources sample_world (PosixPath 1 [''r'', ''a'']) ''default'' (Some (PosixPath 1 [''r'']))) =
     Inr [''k/=/r/a/l/'', ''b/:k/=/r/b/l/'']"
  "map_sum id key_to_path (scope_other_projects sample_world (PosixPath 1 [''r'', ''a'']) (Some (PosixPath 1 [''r'']))
     (empty_remaps\<lparr>key_to_path := [(''k/'', ''/r/a/l/'')]\<rparr>)) = Inr [(''k/'', ''/r/a/l/''), (''b/:k/'', ''/r/b/l/'')]"
  by code_simp+

theorem package_keys_keep_their_boundary_witness:
  "\<exists>d. [''k/=/r/a/l/'', ''b/:k/=/r/b/l/''] = map shown_entry d \<and> dict_ok d \<and> list_all marks_boundary (keys d)"
proof -
  from sample_scoped(2) obtain messages where
    "build_packages_from_remapping_sources sample_world (PosixPath 1 [''r'', ''a'']) ''default'' (Some (PosixPath 1 [''r''])) =
       Inr ([''k/=/r/a/l/'', ''b/:k/=/r/b/l/''], messages)"
    by (auto simp: map_sum_def split: sum.splits)
  from package_keys_keep_their_boundary [OF this] show ?thesis .
qed


end
