(* ===== verification/Handles.thy ===== *)
theory Handles
  imports Harness
begin

text \<open>
  Contract handles: their spelling in a configuration (\<^verbatim>\<open>ContractHandle\<close> of \<^verbatim>\<open>certora_autosetup/utils/types.py\<close>) and the
  operations on lists of handles of \<^verbatim>\<open>utils/contract_utils.py\<close>. Whether a file exists and what the build artifacts
  say are arguments; the messages logged are part of the result.
\<close>

definition from_filepath :: "string \<Rightarrow> contract_handle" where
  "from_filepath file_path = \<lparr>contract_name = path_stem file_path, source_file = file_path\<rparr>"

definition to_config_str :: "contract_handle \<Rightarrow> string" where
  "to_config_str h =
     (if path_stem (source_file h) = contract_name h then source_file h
      else source_file h @ '':'' @ contract_name h)"

definition split_contract_spec :: "string \<Rightarrow> string \<times> string" where
  "split_contract_spec spec = (if CHR '':'' \<in> set spec then split_once (CHR '':'') spec else (spec, path_stem spec))"

definition handle_of_spec :: "string \<Rightarrow> contract_handle" where
  "handle_of_spec spec =
     (let (path, name) = split_contract_spec spec in \<lparr>contract_name = name, source_file = path\<rparr>)"

subsection \<open>Specifications on the command line\<close>

datatype spec_error = SpecError string

fun parse_specs :: "(posix_path \<Rightarrow> bool) \<Rightarrow> posix_path option \<Rightarrow> bool \<Rightarrow> string list \<Rightarrow> spec_error + contract_handle list" where
  \<comment> \<open>the loop of \<^verbatim>\<open>parse_contract_files\<close>\<close>
  "parse_specs exists_file project_root strict [] = Inr []"
| "parse_specs exists_file project_root strict (spec # specs) =
     (let (file_path, name) = split_contract_spec spec;
          path = (case project_root of
              None \<Rightarrow> pure_path file_path
            | Some root \<Rightarrow> if path_root (pure_path file_path) = 0 then path_join root file_path else pure_path file_path)
      in if \<not> ends_in file_path ''.sol''
         then if strict then Inl (SpecError (''Error: '' @ file_path @ '' is not a .sol file''))
              else parse_specs exists_file project_root strict specs
         else if \<not> exists_file path
         then if strict then Inl (SpecError (''Error: File '' @ path_str path @ '' does not exist''))
              else parse_specs exists_file project_root strict specs
         else bindE (parse_specs exists_file project_root strict specs) (\<lambda>hs.
                Inr (\<lparr>contract_name = name, source_file = path_str path\<rparr> # hs)))"

definition parse_contract_files ::
  "(posix_path \<Rightarrow> bool) \<Rightarrow> string list \<Rightarrow> posix_path option \<Rightarrow> bool \<Rightarrow> spec_error + contract_handle list" where
  "parse_contract_files exists_file specs project_root strict =
     (if strict \<and> specs = [] then Inl (SpecError ''Must provide at least one .sol file'')
      else parse_specs exists_file project_root strict specs)"

subsection \<open>Lists of handles\<close>

definition by_contract_name :: "contract_handle list \<Rightarrow> (string, contract_handle list) dict" where
  "by_contract_name handles = fold (\<lambda>h. append_at (contract_name h) h) handles []"

definition shortest_first :: "contract_handle list \<Rightarrow> contract_handle list" where
  "shortest_first hs = (if length hs > 1 then sort_key (\<lambda>h. length (source_file h)) hs else hs)"

definition dedup_message :: "string \<Rightarrow> contract_handle list \<Rightarrow> string" where
  "dedup_message name hs =
     ''Deduplicated contract '' @ squote @ name @ squote @ '': keeping '' @ squote @ source_file (hd hs) @ squote @
     '' (shortest of '' @ show_nat (length hs) @ '' paths: '' @ comma_join (map source_file hs) @ '')''"

definition deduplicate_contract_handles :: "contract_handle list \<Rightarrow> contract_handle list \<times> string list" where
  "deduplicate_contract_handles handles =
     (let groups = map (\<lambda>(name, hs). (name, shortest_first hs)) (by_contract_name handles)
      in (map (\<lambda>(name, hs). hd hs) groups,
          map (\<lambda>(name, hs). dedup_message name hs) (filter (\<lambda>(name, hs). length hs > 1) groups)))"

definition with_contract_handle :: "contract_handle list \<Rightarrow> contract_handle \<Rightarrow> contract_handle list" where
  "with_contract_handle handles to_add =
     (if to_add \<in> set handles then handles
      else filter (\<lambda>h. contract_name h \<noteq> contract_name to_add) handles @ [to_add])"

text \<open>The artifacts' record of a source file: its path and the names of its contracts.\<close>

type_synonym source_map = "(string \<times> string list) list"

definition names_in_file :: "source_map \<Rightarrow> string \<Rightarrow> string list option" where
  "names_in_file entries lookup =
     map_option snd (find (\<lambda>(src, names). path_str (pure_path src) = path_str (pure_path lookup)) entries)"

definition resolved_handle :: "source_map \<Rightarrow> (string \<Rightarrow> string) \<Rightarrow> contract_handle \<Rightarrow> contract_handle option \<times> string list" where
  \<comment> \<open>the handle kept, if any, and what is logged\<close>
  "resolved_handle entries rebased h =
     (let inferred = path_stem (source_file h) in
      if contract_name h \<noteq> inferred then (Some h, [])
      else case names_in_file entries (rebased (source_file h)) of
          None \<Rightarrow> (Some h, [])
        | Some [actual] \<Rightarrow>
            (Some (h\<lparr>contract_name := actual\<rparr>),
             if actual \<noteq> contract_name h
             then [''Resolved contract name for '' @ source_file h @ '': '' @ squote @ contract_name h @ squote @ '' -> '' @
                   squote @ actual @ squote @ '' (from build artifacts)'']
             else [])
        | Some names \<Rightarrow>
            if inferred \<in> set names then (Some h, [])
            else (None, [''Dropping '' @ source_file h @ '': multiple contracts '' @ repr_list names @
                         '' and none matches filename '' @ squote @ inferred @ squote]))"

definition resolve_contract_handles ::
  "bool \<Rightarrow> source_map option \<Rightarrow> (string \<Rightarrow> string) \<Rightarrow> contract_handle list \<Rightarrow> contract_handle list \<times> string list" where
  \<comment> \<open>the build system is Foundry; the artifacts, or None when reading them raised; the re-basing of a path\<close>
  "resolve_contract_handles foundry artifacts rebased handles =
     (case artifacts of
        None \<Rightarrow> (handles, [])
      | Some entries \<Rightarrow>
          if \<not> foundry \<or> entries = [] then (handles, [])
          else let rs = map (resolved_handle entries rebased) handles
               in (List.map_filter fst rs, concat (map snd rs)))"

end
