(* ===== verification/Build_Reader.thy ===== *)
theory Build_Reader
  imports Harness_Render Handles
begin

text \<open>
  Reading a library's API out of the build output (\<^verbatim>\<open>harnesser/read_build.py\<close>), with the type descriptors of
  \<^verbatim>\<open>utils/types.py\<close>, the records of \<^verbatim>\<open>utils/build_json.py\<close> and \<^verbatim>\<open>same_source_file\<close> of \<^verbatim>\<open>utils/paths.py\<close>.

  The build output is JSON of unknown shape. What Python raises on a value of the wrong type is an error value. A name
  or a location that is not a string is refused as such an error, where Python would carry it along.
\<close>

subsection \<open>Fields\<close>

fun fields_of :: "json \<Rightarrow> (string \<times> json) list" where
  "fields_of (JObject kvs) = kvs"
| "fields_of v = []"

definition field :: "json \<Rightarrow> string \<Rightarrow> json" where
  \<comment> \<open>\<^verbatim>\<open>d.get(k, {})\<close> of a dictionary\<close>
  "field v k = (case map_of (fields_of v) k of None \<Rightarrow> JObject [] | Some x \<Rightarrow> x)"

definition field_or :: "json \<Rightarrow> string \<Rightarrow> string \<Rightarrow> json" where
  \<comment> \<open>\<^verbatim>\<open>d.get(a) or d.get(b, {})\<close>\<close>
  "field_or v a b =
     (case map_of (fields_of v) a of Some x \<Rightarrow> if json_truthy x then x else field v b | None \<Rightarrow> field v b)"

definition field_or_empty :: "json \<Rightarrow> string \<Rightarrow> string \<Rightarrow> json" where
  \<comment> \<open>\<^verbatim>\<open>d.get(a) or d.get(b) or {}\<close>\<close>
  "field_or_empty v a b = (let x = field_or v a b in if json_truthy x then x else JObject [])"

definition text_field :: "json \<Rightarrow> string \<Rightarrow> string \<Rightarrow> py_error + string" where
  \<comment> \<open>\<^verbatim>\<open>d.get(k, default)\<close> where a string is needed\<close>
  "text_field v k dflt =
     (case map_of (fields_of v) k of None \<Rightarrow> Inr dflt | Some (JString s) \<Rightarrow> Inr s | Some _ \<Rightarrow> Inl TypeError)"

definition text_or :: "json \<Rightarrow> string \<Rightarrow> string \<Rightarrow> py_error + string" where
  \<comment> \<open>\<^verbatim>\<open>d.get(k, "") or default\<close>\<close>
  "text_or v k dflt =
     (case map_of (fields_of v) k of
        None \<Rightarrow> Inr dflt
      | Some x \<Rightarrow> if \<not> json_truthy x then Inr dflt else (case x of JString s \<Rightarrow> Inr s | _ \<Rightarrow> Inl TypeError))"

definition list_field :: "json \<Rightarrow> string \<Rightarrow> py_error + json list" where
  \<comment> \<open>the elements of \<^verbatim>\<open>d.get(k, [])\<close>\<close>
  "list_field v k = (case map_of (fields_of v) k of None \<Rightarrow> Inr [] | Some x \<Rightarrow> json_iter x)"

fun is_object :: "json \<Rightarrow> bool" where
  "is_object (JObject kvs) = True"
| "is_object v = False"

subsection \<open>Type descriptors\<close>

datatype type_desc_kind =
    Primitive | StringType | PackedBytes | ContractType | UserDefinedStruct | UserDefinedValueType | UserDefinedEnum
  | ArrayType | StaticArray | MappingType | TupleType | StructType

definition type_desc_kinds :: "(string \<times> type_desc_kind) list" where
  "type_desc_kinds =
     [(''Primitive'', Primitive), (''StringType'', StringType), (''PackedBytes'', PackedBytes), (''Contract'', ContractType),
      (''UserDefinedStruct'', UserDefinedStruct), (''UserDefinedValueType'', UserDefinedValueType),
      (''UserDefinedEnum'', UserDefinedEnum), (''Array'', ArrayType), (''StaticArray'', StaticArray),
      (''Mapping'', MappingType), (''Tuple'', TupleType), (''Struct'', StructType)]"

definition parse_type_desc_kind :: "json \<Rightarrow> type_desc_kind option" where
  "parse_type_desc_kind v =
     (case map_of (fields_of v) ''type'' of Some (JString s) \<Rightarrow> map_of type_desc_kinds s | _ \<Rightarrow> None)"

datatype type_parse_mode = Canonical | Internal | Dispatched | Qualified | Solidity

definition after_bar :: "string \<Rightarrow> string" where
  "after_bar s = snd (split_once (CHR ''|'') s)"

definition qualify_user_defined_type :: "json \<Rightarrow> string \<Rightarrow> py_error + string" where
  "qualify_user_defined_type v cn =
     bindE (text_field v ''canonicalId'' []) (\<lambda>canonical_id.
       if CHR ''|'' \<in> set canonical_id
       then let right = after_bar canonical_id
            in if CHR ''.'' \<in> set right then Inr right else Inr (cn @ ''.'' @ right)
       else bindE (text_or v ''name'' []) (\<lambda>name.
         if name = [] then Inl NameMissing else Inr (cn @ ''.'' @ name)))"

definition solidity_user_defined_type :: "json \<Rightarrow> py_error + string" where
  "solidity_user_defined_type v =
     bindE (text_field v ''canonicalId'' []) (\<lambda>canonical_id.
       if CHR ''|'' \<in> set canonical_id then Inr (after_bar canonical_id)
       else bindE (text_or v ''name'' []) (\<lambda>name. if name \<noteq> [] then Inr name
       else bindE (text_or v ''enumName'' []) (\<lambda>name. if name \<noteq> [] then Inr name
       else bindE (text_or v ''structName'' []) (\<lambda>name. if name \<noteq> [] then Inr name else Inl NameMissing))))"

definition user_defined_name :: "type_parse_mode \<Rightarrow> json \<Rightarrow> string \<Rightarrow> py_error + string" where
  \<comment> \<open>the branches of a user-defined type that are not canonical\<close>
  "user_defined_name mode v cn =
     (if mode = Internal then text_field v ''name'' ''unknown''
      else if mode = Solidity then solidity_user_defined_type v
      else qualify_user_defined_type v cn)"

definition untyped_name :: "json \<Rightarrow> py_error + string" where
  \<comment> \<open>the legacy fallback of canonical mode for a descriptor without a kind\<close>
  "untyped_name v =
     (let has = (\<lambda>k. case v of JObject kvs \<Rightarrow> Inr (map_of kvs k \<noteq> None) | JArray xs \<Rightarrow> Inr (JString k \<in> set xs)
                    | JString s \<Rightarrow> Inr (occurs_in k s) | _ \<Rightarrow> Inl TypeError);
          item = (\<lambda>k. case v of JObject kvs \<Rightarrow> text_field v k [] | _ \<Rightarrow> Inl TypeError)
      in bindE (has ''primitiveName'') (\<lambda>b. if b then item ''primitiveName''
         else bindE (has ''contractName'') (\<lambda>b. if b then Inr ''address''
         else bindE (has ''name'') (\<lambda>b. if b then item ''name'' else Inr ''unknown''))))"

fun json_size :: "json \<Rightarrow> nat" where
  "json_size (JString s) = Suc (length s)"
| "json_size (JArray xs) = Suc (sum_list (map (\<lambda>x. Suc (json_size x)) xs))"
| "json_size (JObject kvs) = Suc (sum_list (map (\<lambda>(k, v). Suc (Suc (length k) + json_size v)) kvs))"
| "json_size v = 1"

lemma json_size_pos: "0 < json_size v"
  by (cases v) auto

lemma json_size_value: "map_of (fields_of v) k = Some x \<Longrightarrow> Suc (json_size x) < json_size v"
proof (cases v)
  case (JObject kvs)
  assume "map_of (fields_of v) k = Some x"
  then have "(k, x) \<in> set kvs" by (simp add: JObject map_of_SomeD)
  then have "Suc (Suc (length k) + json_size x) \<le> sum_list (map (\<lambda>(k, v). Suc (Suc (length k) + json_size v)) kvs)"
    by (intro member_le_sum_list) (simp_all add: rev_image_eqI)
  then show ?thesis by (simp add: JObject)
qed simp_all

lemma json_size_typed: "parse_type_desc_kind v = Some kind \<Longrightarrow> 2 < json_size v"
proof -
  assume "parse_type_desc_kind v = Some kind"
  then obtain x where "map_of (fields_of v) ''type'' = Some x" by (auto simp: parse_type_desc_kind_def split: option.splits)
  from json_size_value [OF this] json_size_pos [of x] show ?thesis by simp
qed

lemma json_size_field_le: "json_size (field v k) \<le> json_size v"
  using json_size_value [of v k] json_size_pos [of v] by (auto simp: field_def Suc_le_eq split: option.split)

lemma json_size_field: "2 < json_size v \<Longrightarrow> json_size (field v k) < json_size v"
  using json_size_value [of v k] by (auto simp: field_def split: option.split)

lemma json_size_field_or: "2 < json_size v \<Longrightarrow> json_size (field_or v a b) < json_size v"
  using json_size_value [of v a] json_size_field [of v b] by (auto simp: field_or_def split: option.split)

lemma json_size_iter: "json_iter x = Inr xs \<Longrightarrow> y \<in> set xs \<Longrightarrow> json_size y \<le> json_size x"
proof (cases x)
  case (JArray ys)
  assume "json_iter x = Inr xs" "y \<in> set xs"
  then have "Suc (json_size y) \<le> sum_list (map (\<lambda>x. Suc (json_size x)) ys)"
    by (intro member_le_sum_list) (auto simp: JArray)
  then show ?thesis by (simp add: JArray)
next
  case (JObject kvs)
  assume "json_iter x = Inr xs" "y \<in> set xs"
  then obtain k v where y: "y = JString k" "(k, v) \<in> set kvs" by (auto simp: JObject)
  then have "Suc (Suc (length k) + json_size v) \<le> sum_list (map (\<lambda>(k, v). Suc (Suc (length k) + json_size v)) kvs)"
    by (intro member_le_sum_list) (simp_all add: rev_image_eqI)
  then show ?thesis by (simp add: JObject y)
qed (auto simp: Suc_le_eq)

lemma json_size_list_field: "list_field v k = Inr xs \<Longrightarrow> y \<in> set xs \<Longrightarrow> json_size y < json_size v"
  using json_size_iter json_size_value [of v k] by (fastforce simp: list_field_def split: option.splits)

function parse_type_descriptor :: "json \<Rightarrow> type_parse_mode \<Rightarrow> string \<Rightarrow> py_error + string" where
  "parse_type_descriptor v mode cn =
     (let struct_tuple = bindE (list_field v ''members'') (\<lambda>ms.
            bindE (mapE (\<lambda>m. if is_object m then parse_type_descriptor (field m ''type'') mode cn else Inl AttributeError) ms)
              (\<lambda>ts. Inr (''('' @ join '','' ts @ '')'')))
      in case parse_type_desc_kind v of
        None \<Rightarrow> if mode = Canonical then untyped_name v else Inr ''unknown''
      | Some kind \<Rightarrow>
          (case kind of
             Primitive \<Rightarrow> text_field v ''primitiveName'' []
           | StringType \<Rightarrow> Inr ''string''
           | PackedBytes \<Rightarrow> Inr ''bytes''
           | ContractType \<Rightarrow>
               if mode \<in> {Canonical, Dispatched} then Inr ''address'' else text_field v ''contractName'' ''address''
           | UserDefinedStruct \<Rightarrow> if mode = Canonical then struct_tuple else user_defined_name mode v cn
           | UserDefinedValueType \<Rightarrow>
               if mode = Canonical then parse_type_descriptor (field v ''underlying'') mode cn else user_defined_name mode v cn
           | UserDefinedEnum \<Rightarrow> if mode = Canonical then Inr ''uint8'' else user_defined_name mode v cn
           | ArrayType \<Rightarrow>
               bindE (parse_type_descriptor (field_or v ''dynamicArrayBaseType'' ''base'') mode cn) (\<lambda>t. Inr (t @ ''[]''))
           | StaticArray \<Rightarrow>
               bindE (parse_type_descriptor (field v ''staticArrayBaseType'') mode cn) (\<lambda>t.
                 Inr (t @ ''['' @ (case map_of (fields_of v) ''staticArraySize'' of None \<Rightarrow> [] | Some n \<Rightarrow> json_str n) @ '']''))
           | MappingType \<Rightarrow>
               bindE (parse_type_descriptor (field_or v ''key'' ''mappingKeyType'') mode cn) (\<lambda>k.
               bindE (parse_type_descriptor (field_or v ''value'' ''mappingValueType'') mode cn) (\<lambda>t.
                 Inr (''mapping('' @ k @ '' => '' @ t @ '')'')))
           | TupleType \<Rightarrow>
               bindE (list_field v ''members'') (\<lambda>ms.
               bindE (mapE (\<lambda>m. parse_type_descriptor m mode cn) ms) (\<lambda>ts. Inr (''('' @ join '','' ts @ '')'')))
           | StructType \<Rightarrow> if mode = Canonical then struct_tuple else text_field v ''name'' ''unknown''))"
  by pat_completeness auto
termination
proof (relation "measure (\<lambda>(v, mode, cn). json_size v)", goal_cases)
  case (2 v mode cn ms m)
  then show ?case by (auto intro: le_less_trans [OF json_size_field_le] json_size_list_field)
next
  case (8 v mode cn k ms m)
  then show ?case by (auto intro: json_size_list_field)
qed (auto intro: json_size_field json_size_field_or json_size_typed)

declare parse_type_descriptor.simps [simp del]

subsection \<open>Parameters and struct members\<close>

definition unresolved :: "string \<Rightarrow> bool" where
  "unresolved t \<longleftrightarrow> t = [] \<or> t = ''unknown''"

definition raw_kind :: "json \<Rightarrow> string" where
  \<comment> \<open>\<^verbatim>\<open>str(d.get("type", ""))\<close> of a dictionary, the empty string for anything else\<close>
  "raw_kind v = (case map_of (fields_of v) ''type'' of None \<Rightarrow> [] | Some t \<Rightarrow> json_str t)"

definition read_param :: "json list \<Rightarrow> string \<Rightarrow> nat \<times> json \<Rightarrow> py_error + lib_param" where
  "read_param names cn = (\<lambda>(i, entry).
     if \<not> is_object entry then Inl AttributeError
     else
       let type_desc = field entry ''typeDesc'' in
       bindE (parse_type_descriptor type_desc Solidity cn) (\<lambda>t.
       bindE (if i < length names then (case names ! i of JString s \<Rightarrow> Inr s | x \<Rightarrow> if json_truthy x then Inl TypeError else Inr [])
              else Inr []) (\<lambda>name.
       bindE (text_or entry ''location'' []) (\<lambda>loc.
         Inr \<lparr>p_name = (if name \<noteq> [] then name else ''arg'' @ show_nat i),
              solidity_type = (if unresolved t then [] else t), location = loc, desc_kind = raw_kind type_desc\<rparr>))))"

definition param_list :: "json list \<Rightarrow> json list \<Rightarrow> string \<Rightarrow> py_error + lib_param list" where
  "param_list raw names cn = mapE (read_param names cn) (enumerate 0 raw)"

definition names_field :: "json \<Rightarrow> json list \<Rightarrow> py_error + json list" where
  \<comment> \<open>the names that are indexed; they are not looked at when there are no parameters\<close>
  "names_field m args =
     (if args = [] then Inr []
      else case map_of (fields_of m) ''paramNames'' of
        None \<Rightarrow> Inr []
      | Some (JArray xs) \<Rightarrow> Inr xs
      | Some (JString s) \<Rightarrow> Inr (map (\<lambda>c. JString [c]) s)
      | Some x \<Rightarrow> if x = JObject [] then Inr [] else Inl TypeError)"

definition max_member_depth :: nat where "max_member_depth = 6"

definition member_name :: "json \<Rightarrow> py_error + string" where
  \<comment> \<open>\<^verbatim>\<open>member.get("name") or member.get("fieldName")\<close>; the empty string when both are false\<close>
  "member_name m = bindE (text_or m ''name'' []) (\<lambda>n. if n \<noteq> [] then Inr n else text_or m ''fieldName'' [])"

function member_node :: "string \<Rightarrow> json \<Rightarrow> string \<Rightarrow> nat \<Rightarrow> py_error + member_node option" where
  "member_node name v cn depth =
     (if depth > max_member_depth \<or> \<not> is_object v then Inr None
      else bindE (parse_type_descriptor v Solidity cn) (\<lambda>rendered.
        if unresolved rendered then Inr None
        else if raw_kind v = ''UserDefinedStruct''
        then bindE (list_field v ''structMembers'') (\<lambda>raw.
             bindE (concatE (\<lambda>m. if \<not> is_object m then Inr []
                 else bindE (member_name m) (\<lambda>n. if n = [] then Inr []
                 else bindE (member_node n (field_or m ''type'' ''typeDesc'') cn (depth + 1)) (\<lambda>node.
                   Inr (case node of None \<Rightarrow> [] | Some x \<Rightarrow> [x])))) raw) (\<lambda>children.
               Inr (Some (MemberNode name rendered kind_struct [] None children))))
        else if raw_kind v = ''Mapping''
        then bindE (parse_type_descriptor (field_or_empty v ''mappingKeyType'' ''key'') Solidity cn) (\<lambda>key_type.
             bindE (member_node [] (field_or_empty v ''mappingValueType'' ''value'') cn (depth + 1)) (\<lambda>value_node.
               Inr (if unresolved key_type then None
                    else map_option (\<lambda>node. MemberNode name rendered kind_mapping key_type (Some node) []) value_node)))
        else if raw_kind v = ''Array''
        then bindE (member_node [] (field_or_empty v ''dynamicArrayBaseType'' ''base'') cn (depth + 1)) (\<lambda>element.
               Inr (map_option (\<lambda>node. MemberNode name rendered kind_array [] (Some node) []) element))
        else Inr (Some (MemberNode name rendered kind_value [] None []))))"
  by pat_completeness auto
termination
  by (relation "measure (\<lambda>(name, v, cn, depth). Suc max_member_depth - depth)") auto

declare member_node.simps [simp del]

definition member_nodes :: "json list \<Rightarrow> string \<Rightarrow> nat \<Rightarrow> py_error + member_node list" where
  "member_nodes raw cn depth =
     concatE (\<lambda>m. if \<not> is_object m then Inr []
       else bindE (member_name m) (\<lambda>n. if n = [] then Inr []
       else bindE (member_node n (field_or m ''type'' ''typeDesc'') cn depth) (\<lambda>node.
         Inr (case node of None \<Rightarrow> [] | Some x \<Rightarrow> [x])))) raw"

definition add_struct :: "json \<Rightarrow> struct_members \<Rightarrow> py_error + struct_members" where
  \<comment> \<open>one entry of \<^verbatim>\<open>solidityTypes\<close>\<close>
  "add_struct info members =
     (if \<not> is_object info \<or> map_of (fields_of info) ''type'' \<noteq> Some (JString ''UserDefinedStruct'') then Inr members
      else bindE (text_or info ''structName'' []) (\<lambda>struct_name.
        if struct_name = [] then Inr members
        else bindE (text_or info ''containingContract'' []) (\<lambda>containing.
             bindE (list_field info ''structMembers'') (\<lambda>raw.
             bindE (member_nodes raw containing 0) (\<lambda>nodes.
               Inr (dset (if containing \<noteq> [] then containing @ ''.'' @ struct_name else struct_name) nodes members))))))"

definition read_struct_members :: "json \<Rightarrow> py_error + struct_members" where
  "read_struct_members c = bindE (list_field c ''solidityTypes'') (\<lambda>infos. foldE add_struct infos [])"

subsection \<open>The library's record\<close>

definition path_tuple :: "string \<Rightarrow> string list" where
  \<comment> \<open>\<^verbatim>\<open>Path(s).parts\<close>: the root is a part of its own\<close>
  "path_tuple s =
     (let p = pure_path s in (if path_root p = 0 then [] else [replicate (path_root p) (CHR ''/'')]) @ path_parts p)"

definition last_parts :: "nat \<Rightarrow> 'a list \<Rightarrow> 'a list" where
  \<comment> \<open>\<^verbatim>\<open>parts[-n:]\<close>, which is all of them for zero\<close>
  "last_parts n xs = (if n = 0 then xs else drop (length xs - n) xs)"

definition same_source_file :: "string \<Rightarrow> string \<Rightarrow> bool" where
  "same_source_file candidate wanted \<longleftrightarrow>
     candidate \<noteq> [] \<and> wanted \<noteq> [] \<and>
     (let cs = path_tuple candidate; ws = path_tuple wanted; depth = min (length cs) (length ws)
      in last_parts depth cs = last_parts depth ws)"

definition contract_source_file :: "json \<Rightarrow> py_error + string" where
  "contract_source_file c = bindE (text_or c ''original_file'' []) (\<lambda>s. if s \<noteq> [] then Inr s else text_or c ''file'' [])"

fun scan_contracts :: "contract_handle \<Rightarrow> json list \<Rightarrow> string list \<Rightarrow> py_error + (json, string list) sum" where
  \<comment> \<open>the search among the contracts of one unit: the match on the left, the files seen on the right\<close>
  "scan_contracts lib [] seen = Inr (Inr seen)"
| "scan_contracts lib (c # cs) seen =
     (if \<not> is_object c \<or> (case map_of (fields_of c) ''name'' of None \<Rightarrow> JString [] | Some n \<Rightarrow> n) \<noteq> JString (contract_name lib)
      then scan_contracts lib cs seen
      else bindE (contract_source_file c) (\<lambda>candidate.
        if same_source_file candidate (source_file lib) then Inr (Inl c)
        else scan_contracts lib cs (seen @ [candidate])))"

fun scan_units :: "contract_handle \<Rightarrow> json list \<Rightarrow> string list \<Rightarrow> py_error + (json, string list) sum" where
  "scan_units lib [] seen = Inr (Inr seen)"
| "scan_units lib (unit # units) seen =
     (if \<not> is_object unit then scan_units lib units seen
      else bindE (list_field unit ''contracts'') (\<lambda>cs.
           bindE (scan_contracts lib cs seen) (\<lambda>r.
             case r of Inl c \<Rightarrow> Inr (Inl c) | Inr seen \<Rightarrow> scan_units lib units seen)))"

definition read_line :: "json \<Rightarrow> py_error + int" where
  "read_line m =
     (case map_of (fields_of m) ''sourceLine'' of
        None \<Rightarrow> Inr 0
      | Some (JInt i) \<Rightarrow> Inr i
      | Some x \<Rightarrow> if json_truthy x then Inl TypeError else Inr 0)"

definition read_function :: "string \<Rightarrow> json \<Rightarrow> py_error + lib_function list" where
  \<comment> \<open>one element of \<^verbatim>\<open>allMethods\<close>: no function for the constructor or a nameless entry\<close>
  "read_function library_name m =
     (if \<not> is_object m then Inr []
      else bindE (text_or m ''name'' []) (\<lambda>name.
        if name = [] \<or> name = ''constructor'' then Inr []
        else bindE (text_or m ''visibility'' ''internal'') (\<lambda>vis.
             bindE (text_or m ''stateMutability'' ''nonpayable'') (\<lambda>mut.
             bindE (list_field m ''fullArgs'') (\<lambda>args.
             bindE (names_field m args) (\<lambda>names.
             bindE (param_list args names library_name) (\<lambda>ps.
             bindE (list_field m ''returns'') (\<lambda>rets.
             bindE (param_list rets [] library_name) (\<lambda>rs.
             bindE (read_line m) (\<lambda>line.
               Inr [\<lparr>f_name = name, f_visibility = vis, f_mutability = mut, f_params = ps, f_returns = rs,
                     source_line = line\<rparr>]))))))))))"

datatype read_error = Unreadable py_error | ReadError string

fun lift_error :: "py_error + 'a \<Rightarrow> read_error + 'a" where
  "lift_error (Inl e) = Inl (Unreadable e)"
| "lift_error (Inr x) = Inr x"

definition no_record_message :: "contract_handle \<Rightarrow> string list \<Rightarrow> string" where
  "no_record_message lib seen =
     (if seen \<noteq> []
      then ''library '' @ contract_name lib @ '' is in the build, but none of its records match '' @ source_file lib @
           '' (found: '' @ comma_join (sorted_set seen) @ '')''
      else ''library '' @ contract_name lib @ '' ('' @ source_file lib @ '') is absent from the probe build '' @ em_dash @
           '' the harness stub does not reference it'')"

fun build_units :: "json \<Rightarrow> py_error + json list" where
  \<comment> \<open>\<^verbatim>\<open>build_data.values()\<close>\<close>
  "build_units (JObject kvs) = Inr (map snd kvs)"
| "build_units v = Inl AttributeError"

definition read_matched :: "contract_handle \<Rightarrow> json \<Rightarrow> read_error + library_api" where
  "read_matched lib c =
     bindE (lift_error (bindE (list_field c ''allMethods'') (concatE (read_function (contract_name lib))))) (\<lambda>functions.
       if functions = []
       then Inl (ReadError (''library '' @ contract_name lib @ '' declares no functions in the build output''))
       else bindE (lift_error (contract_source_file c)) (\<lambda>src.
            bindE (lift_error (read_struct_members c)) (\<lambda>structs.
              Inr \<lparr>contract = \<lparr>contract_name = contract_name lib, source_file = (if src \<noteq> [] then src else source_file lib)\<rparr>,
                   api_functions = functions, api_structs = structs\<rparr>)))"

definition read_library_api :: "string \<Rightarrow> json option \<Rightarrow> contract_handle \<Rightarrow> read_error + library_api" where
  \<comment> \<open>the path of the build file, and its contents when it exists\<close>
  "read_library_api build_json build lib =
     (case build of
        None \<Rightarrow> Inl (ReadError (''probe build produced no '' @ build_json @ '' '' @ em_dash @
            '' cannot read the library's API''))
      | Some data \<Rightarrow>
          bindE (lift_error (bindE (build_units data) (\<lambda>units. scan_units lib units []))) (\<lambda>r.
            case r of Inl c \<Rightarrow> read_matched lib c
            | Inr seen \<Rightarrow> Inl (ReadError (no_record_message lib seen))))"

end
