(* ===== verification/Build_Laws.thy ===== *)
theory Build_Laws
  imports Build_Reader
begin

text \<open>
  Contract handles and the reading of a build: the spelling of a handle reads back, one handle is kept for each name,
  what is read of a library, and how deep the trees of its structs are.
\<close>

subsection \<open>Handles\<close>

lemma split_once_after: "c \<notin> set s \<Longrightarrow> split_once c (s @ c # t) = (s, t)"
  unfolding split_once_def by (induction s) auto

lemma handle_of_spec_to_config_str: "CHR '':'' \<notin> set (source_file h) \<Longrightarrow> handle_of_spec (to_config_str h) = h"
  by (simp add: handle_of_spec_def to_config_str_def split_contract_spec_def split_once_after)

text \<open>
  the spelling of a handle in a configuration, with the name left out when it is the stem of the file, reads back
  as the handle, for a source path without a colon.
\<close>

theorem config_spelling_reads_back:
  assumes "CHR '':'' \<notin> set (source_file h)"
  shows "handle_of_spec (to_config_str h) = h"
  using assms by (rule handle_of_spec_to_config_str)

theorem config_spelling_reads_back_witness:
  "handle_of_spec (to_config_str \<lparr>contract_name = ''L'', source_file = ''src/Lib.sol''\<rparr>) =
     \<lparr>contract_name = ''L'', source_file = ''src/Lib.sol''\<rparr> \<and>
   to_config_str \<lparr>contract_name = ''L'', source_file = ''src/Lib.sol''\<rparr> = ''src/Lib.sol:L'' \<and>
   to_config_str \<lparr>contract_name = ''Lib'', source_file = ''src/Lib.sol''\<rparr> = ''src/Lib.sol''"
  using config_spelling_reads_back [of "\<lparr>contract_name = ''L'', source_file = ''src/Lib.sol''\<rparr>"]
  by (simp add: to_config_str_def) code_simp

lemma parse_specs_inverse:
  "parse_specs (\<lambda>_. True) None strict specs = Inr hs \<Longrightarrow>
   list_all (\<lambda>spec. ends_in (fst (split_contract_spec spec)) ''.sol'') specs \<Longrightarrow>
   hs = map (\<lambda>spec. (handle_of_spec spec)\<lparr>source_file := path_str (pure_path (fst (split_contract_spec spec)))\<rparr>) specs"
  by (induction specs arbitrary: hs) (auto simp: bindE_Inr_iff Let_def handle_of_spec_def split_beta)

subsection \<open>One handle for each name\<close>

lemma dset_graph:
  "distinct ks \<Longrightarrow> dset k v (map (\<lambda>n. (n, f n)) ks) =
     (if k \<in> set ks then map (\<lambda>n. (n, if n = k then v else f n)) ks else map (\<lambda>n. (n, f n)) ks @ [(k, v)])"
proof (induction ks)
  case (Cons a ks)
  then show ?case by (auto intro: map_cong)
qed simp

lemma dget_graph: "dget (map (\<lambda>n. (n, f n)) ks) k = (if k \<in> set ks then Some (f k) else None)"
  by (induction ks) auto

definition first_names :: "contract_handle list \<Rightarrow> string list" where
  \<comment> \<open>the names in the order of their first handle\<close>
  "first_names hs = rev (remdups (rev (map contract_name hs)))"

definition named :: "contract_handle list \<Rightarrow> string \<Rightarrow> contract_handle list" where
  "named hs n = filter (\<lambda>h. contract_name h = n) hs"

lemma set_first_names [simp]: "set (first_names hs) = contract_name ` set hs"
  by (simp add: first_names_def)

lemma distinct_first_names [simp]: "distinct (first_names hs)"
  by (simp add: first_names_def)

lemma first_names_snoc:
  "first_names (hs @ [h]) = (if contract_name h \<in> contract_name ` set hs then first_names hs else first_names hs @ [contract_name h])"
  by (simp add: first_names_def)

lemma by_contract_name_eq: "by_contract_name hs = map (\<lambda>n. (n, named hs n)) (first_names hs)"
proof (induction hs rule: rev_induct)
  case Nil
  then show ?case by (simp add: by_contract_name_def first_names_def)
next
  case (snoc h hs)
  let ?n = "contract_name h" and ?graph = "map (\<lambda>n. (n, named hs n)) (first_names hs)"
  have new: "named hs ?n = []" if "?n \<notin> contract_name ` set hs" using that unfolding named_def filter_empty_conv by (metis image_eqI)
  have "by_contract_name (hs @ [h]) = append_at ?n h ?graph" using snoc by (simp add: by_contract_name_def)
  also have "\<dots> = dset ?n (named hs ?n @ [h]) ?graph" using new by (auto simp: append_at_def dget_graph)
  also have "\<dots> = map (\<lambda>n. (n, named (hs @ [h]) n)) (first_names (hs @ [h]))"
    using new by (auto simp: dset_graph first_names_snoc named_def)
  finally show ?case .
qed

lemma hd_shortest_first:
  assumes "hs \<noteq> []"
  shows "hd (shortest_first hs) \<in> set hs" "h \<in> set hs \<Longrightarrow> length (source_file (hd (shortest_first hs))) \<le> length (source_file h)"
proof -
  have set: "set (shortest_first hs) = set hs" by (simp add: shortest_first_def)
  then have ne: "shortest_first hs \<noteq> []" using assms by (metis set_empty)
  with set show "hd (shortest_first hs) \<in> set hs" by (metis hd_in_set)
  have "sorted (map (\<lambda>h. length (source_file h)) (shortest_first hs))"
    by (cases hs; cases "tl hs") (auto simp: shortest_first_def simp del: sort_key_simps)
  then have "\<forall>h\<in>set (shortest_first hs). length (source_file (hd (shortest_first hs))) \<le> length (source_file h)"
    using ne by (cases "shortest_first hs") auto
  then show "h \<in> set hs \<Longrightarrow> length (source_file (hd (shortest_first hs))) \<le> length (source_file h)" by (simp add: set)
qed

text \<open>
  deduplication keeps exactly one handle for each contract name, in the order in which the names first occur; the
  handle kept is one of those given, and none of that name has a shorter path.
\<close>

theorem one_shortest_handle_per_name:
  "map contract_name (fst (deduplicate_contract_handles hs)) = first_names hs \<and>
   list_all (\<lambda>kept. list_ex (\<lambda>h. h = kept) hs \<and>
     list_all (\<lambda>h. length (source_file kept) \<le> length (source_file h)) (named hs (contract_name kept)))
     (fst (deduplicate_contract_handles hs))"
proof -
  have kept: "fst (deduplicate_contract_handles hs) = map (\<lambda>n. hd (shortest_first (named hs n))) (first_names hs)"
    by (simp add: deduplicate_contract_handles_def by_contract_name_eq Let_def)
  have ne: "n \<in> contract_name ` set hs \<Longrightarrow> named hs n \<noteq> []" for n by (auto simp: named_def filter_empty_conv)
  have name: "contract_name (hd (shortest_first (named hs n))) = n" if "n \<in> contract_name ` set hs" for n
    using hd_shortest_first(1) [OF ne [OF that]] by (simp add: named_def)
  have "map contract_name (fst (deduplicate_contract_handles hs)) = first_names hs"
    unfolding kept map_map by (rule map_idI) (simp add: name)
  moreover have "hd (shortest_first (named hs n)) \<in> set hs" if "n \<in> contract_name ` set hs" for n
    using hd_shortest_first(1) [OF ne [OF that]] by (simp add: named_def)
  ultimately show ?thesis
    using hd_shortest_first(2) [OF ne] by (auto simp: kept list_all_iff list_ex_iff name)
qed

text \<open>
  Adding a handle to a list that has it changes nothing, even when the list also names the contract with another
  file: the list need not name each contract once.
\<close>

lemma added_handle_is_alone:
  "to_add \<notin> set hs \<Longrightarrow> named (with_contract_handle hs to_add) (contract_name to_add) = [to_add]"
  by (simp add: named_def with_contract_handle_def filter_empty_conv)

lemma present_handle_keeps_its_double:
  "named (with_contract_handle
     [\<lparr>contract_name = ''C'', source_file = ''a.sol''\<rparr>, \<lparr>contract_name = ''C'', source_file = ''b.sol''\<rparr>]
     \<lparr>contract_name = ''C'', source_file = ''a.sol''\<rparr>) ''C'' =
   [\<lparr>contract_name = ''C'', source_file = ''a.sol''\<rparr>, \<lparr>contract_name = ''C'', source_file = ''b.sol''\<rparr>]"
  by code_simp

text \<open>Resolution by artifacts never touches an explicit name, and only drops files of several contracts.\<close>

lemma explicit_names_stay:
  "list_all (\<lambda>h. contract_name h \<noteq> path_stem (source_file h)) hs \<Longrightarrow>
   resolve_contract_handles foundry artifacts rebased hs = (hs, [])"
proof -
  assume "list_all (\<lambda>h. contract_name h \<noteq> path_stem (source_file h)) hs"
  then have "map (resolved_handle entries rebased) hs = map (\<lambda>h. (Some h, [])) hs" for entries
    by (auto simp: list_all_iff resolved_handle_def)
  moreover have "List.map_filter fst (map (\<lambda>h. (Some h, [])) hs) = hs" by (induction hs) (simp_all add: List.map_filter_simps)
  ultimately show ?thesis
    by (simp only: resolve_contract_handles_def Let_def) (auto split: option.split)
qed

subsection \<open>Types\<close>

lemma mapE_eq: "(\<And>x. x \<in> set xs \<Longrightarrow> f x = g x) \<Longrightarrow> mapE f xs = mapE g xs"
  by (rule mapE_cong) auto

text \<open>
  only the two qualifying modes use the name of the contract: a type rendered for an ABI selector, for an internal
  signature or for generated Solidity is the same whatever contract it is read for.
\<close>

theorem only_qualified_types_name_the_contract:
  assumes "mode \<notin> {Dispatched, Qualified}"
  shows "parse_type_descriptor v mode cn = parse_type_descriptor v mode cn'"
proof (induction v rule: measure_induct_rule [of json_size])
  case (less v)
  have named: "(if mode = Canonical then t else user_defined_name mode v cn) =
      (if mode = Canonical then t else user_defined_name mode v cn')" for t
    using assms by (cases mode) (simp_all add: user_defined_name_def)
  have elements: "mapE (\<lambda>m. parse_type_descriptor m mode cn) ms = mapE (\<lambda>m. parse_type_descriptor m mode cn') ms"
    if "list_field v ''members'' = Inr ms" for ms
    using json_size_list_field [OF that] by (intro mapE_eq less.IH)
  have members:
    "mapE (\<lambda>m. if is_object m then parse_type_descriptor (field m ''type'') mode cn else Inl AttributeError) ms =
     mapE (\<lambda>m. if is_object m then parse_type_descriptor (field m ''type'') mode cn' else Inl AttributeError) ms"
    if "list_field v ''members'' = Inr ms" for ms
    using json_size_list_field [OF that] json_size_field_le
    by (intro mapE_eq) (auto intro!: less.IH intro: le_less_trans)
  show ?case
  proof (cases "parse_type_desc_kind v")
    case None
    then show ?thesis by (simp add: parse_type_descriptor.simps [of v mode])
  next
    case (Some kind)
    have fields: "parse_type_descriptor (field v k) mode cn = parse_type_descriptor (field v k) mode cn'"
      "parse_type_descriptor (field_or v k l) mode cn = parse_type_descriptor (field_or v k l) mode cn'" for k l
      by (intro less.IH json_size_field json_size_field_or json_size_typed [OF Some])+
    have tuples: "bindE (list_field v ''members'') (\<lambda>ms. bindE (mapE (\<lambda>m. parse_type_descriptor m mode cn) ms) k) =
        bindE (list_field v ''members'') (\<lambda>ms. bindE (mapE (\<lambda>m. parse_type_descriptor m mode cn') ms) k)"
      "bindE (list_field v ''members'') (\<lambda>ms. bindE (mapE (\<lambda>m. if is_object m
          then parse_type_descriptor (field m ''type'') mode cn else Inl AttributeError) ms) k) =
       bindE (list_field v ''members'') (\<lambda>ms. bindE (mapE (\<lambda>m. if is_object m
          then parse_type_descriptor (field m ''type'') mode cn' else Inl AttributeError) ms) k)" for k :: "string list \<Rightarrow> py_error + string"
      by (rule bindE_cong [OF refl], simp only: elements, rule bindE_cong [OF refl], simp only: members)
    show ?thesis
      unfolding parse_type_descriptor.simps [of v mode] Some Let_def option.case tuples named fields ..
  qed
qed

theorem only_qualified_types_name_the_contract_witness:
  "parse_type_descriptor (JObject [(''type'', JString ''Array''), (''base'',
      JObject [(''type'', JString ''UserDefinedEnum''), (''name'', JString ''E'')])]) Solidity ''A'' = Inr ''E[]'' \<and>
   parse_type_descriptor (JObject [(''type'', JString ''Array''), (''base'',
      JObject [(''type'', JString ''UserDefinedEnum''), (''name'', JString ''E'')])]) Qualified ''A'' = Inr ''A.E[]''"
proof -
  let ?v = "JObject [(''type'', JString ''Array''), (''base'', JObject [(''type'', JString ''UserDefinedEnum''), (''name'', JString ''E'')])]"
  have "parse_type_descriptor ?v Solidity [] = Inr ''E[]''" "parse_type_descriptor ?v Qualified ''A'' = Inr ''A.E[]''" by code_simp+
  with only_qualified_types_name_the_contract [of Solidity ?v "''A''" "[]"] show ?thesis by simp
qed

subsection \<open>Struct members\<close>

fun height :: "member_node \<Rightarrow> nat" where
  "height (MemberNode name t kind key v ms) =
     max (case v of None \<Rightarrow> 0 | Some n \<Rightarrow> Suc (height n)) (foldr (\<lambda>m. max (Suc (height m))) ms 0)"

fun has_mapping :: "member_node \<Rightarrow> bool" where
  \<comment> \<open>a mapping is reached through structs and arrays, however deep\<close>
  "has_mapping (MemberNode name t kind key v ms) \<longleftrightarrow>
     kind = kind_mapping \<or> kind = kind_struct \<and> list_ex has_mapping ms \<or>
     kind \<noteq> kind_struct \<and> kind = kind_array \<and> (case v of None \<Rightarrow> False | Some n \<Rightarrow> has_mapping n)"

lemma foldr_max_le: "m \<in> set ms \<Longrightarrow> f m \<le> foldr (\<lambda>m. max (f m)) ms (0::nat)"
  by (induction ms) auto

lemma foldr_max_bound: "(\<And>m. m \<in> set ms \<Longrightarrow> f m \<le> b) \<Longrightarrow> foldr (\<lambda>m. max (f m)) ms (0::nat) \<le> b"
  by (induction ms) auto

lemma node_contains_mapping_shallow:
  "height node + depth \<le> 8 \<Longrightarrow> node_contains_mapping node depth = has_mapping node"
proof (induction node depth rule: node_contains_mapping.induct)
  case (1 name t kind key v ms depth)
  have ms: "node_contains_mapping m (depth + 1) = has_mapping m" if "\<not> (depth > 8 \<or> kind = kind_mapping)" "kind = kind_struct" "m \<in> set ms" for m
    using 1(1) [OF that] foldr_max_le [OF that(3), of "\<lambda>m. Suc (height m)"] 1(3) by simp
  have "list_ex (\<lambda>m. node_contains_mapping m (depth + 1)) ms = list_ex has_mapping ms"
    if "\<not> (depth > 8 \<or> kind = kind_mapping)" "kind = kind_struct"
    using ms [OF that] by (simp add: list_ex_iff)
  then show ?case using 1(2,3) by (auto split: option.splits)
qed

lemma member_node_height:
  "member_node name v cn depth = Inr (Some node) \<Longrightarrow> height node + depth \<le> max_member_depth"
proof (induction name v cn depth arbitrary: node rule: member_node.induct)
  case (1 name v cn depth)
  from 1(4) have guard: "\<not> (depth > max_member_depth \<or> \<not> is_object v)" and depth: "depth \<le> max_member_depth"
    by (auto simp: member_node.simps [of name v] split: if_splits)
  from 1(4) guard obtain rendered where r: "parse_type_descriptor v Solidity cn = Inr rendered" "\<not> unresolved rendered"
    by (auto simp: member_node.simps [of name v] bindE_Inr_iff split: if_splits)
  note IH = 1(1-3) [OF guard r]
  consider (struct) "raw_kind v = ''UserDefinedStruct''" | (mapping) "raw_kind v \<noteq> ''UserDefinedStruct''" "raw_kind v = ''Mapping''"
    | (arr) "raw_kind v \<noteq> ''UserDefinedStruct''" "raw_kind v \<noteq> ''Mapping''" "raw_kind v = ''Array''"
    | (leaf) "raw_kind v \<noteq> ''UserDefinedStruct''" "raw_kind v \<noteq> ''Mapping''" "raw_kind v \<noteq> ''Array''" by blast
  then show ?case
  proof cases
    case struct
    from 1(4) guard r struct obtain raw children where raw: "list_field v ''structMembers'' = Inr raw"
      and ch: "concatE (\<lambda>m. if \<not> is_object m then Inr [] else bindE (member_name m) (\<lambda>n. if n = [] then Inr []
          else bindE (member_node n (field_or m ''type'' ''typeDesc'') cn (depth + 1)) (\<lambda>node.
            Inr (case node of None \<Rightarrow> [] | Some x \<Rightarrow> [x])))) raw = Inr children"
      and node: "node = MemberNode name rendered kind_struct [] None children"
      by (auto simp: member_node.simps [of name v] bindE_Inr_iff)
    have "Suc (height c) \<le> max_member_depth - depth" if "c \<in> set children" for c
      using concatE_in [OF ch that] IH(1) [OF struct raw]
      by (fastforce simp: bindE_Inr_iff split: if_splits option.splits)
    then have "foldr (\<lambda>m. max (Suc (height m))) children 0 \<le> max_member_depth - depth" by (rule foldr_max_bound)
    with depth show ?thesis by (simp add: node)
  next
    case mapping
    from 1(4) guard r mapping obtain k n where k: "parse_type_descriptor (field_or_empty v ''mappingKeyType'' ''key'') Solidity cn = Inr k"
      and n: "member_node [] (field_or_empty v ''mappingValueType'' ''value'') cn (depth + 1) = Inr (Some n)"
      and node: "node = MemberNode name rendered kind_mapping k (Some n) []"
      by (auto simp: member_node.simps [of name v] bindE_Inr_iff split: if_splits)
    from IH(2) [OF mapping k n] show ?thesis by (simp add: node)
  next
    case arr
    from 1(4) guard r arr obtain n where n: "member_node [] (field_or_empty v ''dynamicArrayBaseType'' ''base'') cn (depth + 1) = Inr (Some n)"
      and node: "node = MemberNode name rendered kind_array [] (Some n) []"
      by (auto simp: member_node.simps [of name v] bindE_Inr_iff split: if_splits)
    from IH(3) [OF arr n] show ?thesis by (simp add: node)
  next
    case leaf
    from 1(4) guard r leaf depth show ?thesis by (auto simp: member_node.simps [of name v])
  qed
qed

definition shallow_structs :: "struct_members \<Rightarrow> bool" where
  "shallow_structs d \<longleftrightarrow> list_all (\<lambda>(t, ms). list_all (\<lambda>m. height m \<le> max_member_depth) ms) d"

lemma member_nodes_shallow: "member_nodes raw cn 0 = Inr ms \<Longrightarrow> list_all (\<lambda>m. height m \<le> max_member_depth) ms"
  using member_node_height [of _ _ cn 0] unfolding member_nodes_def list_all_iff
  by (fastforce dest!: concatE_in simp: bindE_Inr_iff split: if_splits option.splits)

lemma set_dset: "set (dset k v d) \<subseteq> insert (k, v) (set d)"
  by (induction d) (auto split: if_splits)

lemma add_struct_shallow: "add_struct info d = Inr d' \<Longrightarrow> shallow_structs d \<Longrightarrow> shallow_structs d'"
  unfolding add_struct_def shallow_structs_def
  using set_dset
  by (fastforce simp: bindE_Inr_iff list_all_iff split: if_splits dest!: member_nodes_shallow)

lemma read_struct_members_shallow: "read_struct_members c = Inr structs \<Longrightarrow> shallow_structs structs"
proof -
  have "foldE add_struct infos d = Inr d' \<Longrightarrow> shallow_structs d \<Longrightarrow> shallow_structs d'" for infos d d'
    by (induction infos arbitrary: d) (auto simp: bindE_Inr_iff dest: add_struct_shallow)
  moreover assume "read_struct_members c = Inr structs"
  ultimately show ?thesis by (auto simp: read_struct_members_def bindE_Inr_iff shallow_structs_def)
qed

definition struct_has_mapping :: "string \<Rightarrow> struct_members \<Rightarrow> bool" where
  "struct_has_mapping t structs \<longleftrightarrow>
     occurs_in ''mapping('' t \<or>
     (case dget structs (strip (str_replace None ''[]'' [] t)) of None \<Rightarrow> False | Some ms \<Rightarrow> list_ex has_mapping ms)"

text \<open>
  C38: the trees read from a build are at most seven levels high, so the depth guard of the mapping check never decides:
  a type is taken to hold a mapping exactly when a mapping is reached in its tree through structs and arrays.
\<close>

theorem mapping_check_sees_the_whole_tree:
  assumes "read_struct_members c = Inr structs"
  shows "contains_mapping t structs = struct_has_mapping t structs"
proof -
  have "node_contains_mapping m 0 = has_mapping m" if "dget structs s = Some ms" "m \<in> set ms" for s ms m
    using read_struct_members_shallow [OF assms] map_of_SomeD [OF that(1)] that(2) node_contains_mapping_shallow [of m 0]
    by (fastforce simp: shallow_structs_def list_all_iff max_member_depth_def)
  then show ?thesis
    by (auto simp: contains_mapping_def struct_has_mapping_def list_ex_iff split: option.split)
qed

subsection \<open>A struct whose mapping is lost\<close>

definition primitive :: "string \<Rightarrow> json" where
  "primitive t = JObject [(''type'', JString ''Primitive''), (''primitiveName'', JString t)]"

definition struct_record :: "json \<Rightarrow> json" where
  \<comment> \<open>a record of a contract with one struct \<open>L.S\<close> of one member \<open>m\<close>\<close>
  "struct_record t =
     JObject [(''solidityTypes'', JArray [JObject [(''type'', JString ''UserDefinedStruct''), (''structName'', JString ''S''),
       (''containingContract'', JString ''L''),
       (''structMembers'', JArray [JObject [(''name'', JString ''m''), (''type'', t)]])]])]"

definition mapping_to :: "json \<Rightarrow> json" where
  "mapping_to t = JObject [(''type'', JString ''Mapping''), (''mappingKeyType'', primitive ''uint256''), (''mappingValueType'', t)]"

theorem mapping_check_sees_the_whole_tree_witness:
  "contains_mapping ''L.S[]'' [(''L.S'', [MemberNode ''m'' ''mapping(uint256 => bool)'' kind_mapping ''uint256'' (Some (MemberNode [] ''bool'' kind_value [] None [])) []])]"
proof -
  have "read_struct_members (struct_record (mapping_to (primitive ''bool''))) =
      Inr [(''L.S'', [MemberNode ''m'' ''mapping(uint256 => bool)'' kind_mapping ''uint256'' (Some (MemberNode [] ''bool'' kind_value [] None [])) []])]"
    by code_simp
  from mapping_check_sees_the_whole_tree [OF this, of "''L.S[]''"] show ?thesis by (simp add: struct_has_mapping_def) code_simp
qed

text \<open>
  A mapping whose value type has no rendering is dropped from the tree of its struct. The struct then counts as free of
  mappings, and a function with such a parameter in memory is given a wrapper, which solc refuses.
\<close>

lemma mapping_to_a_function_type_is_lost:
  "read_struct_members (struct_record (mapping_to (JObject [(''type'', JString ''Function'')]))) = Inr [(''L.S'', [])]"
  "classify \<lparr>f_name = ''f'', f_visibility = ''internal'', f_mutability = ''pure'',
     f_params = [\<lparr>p_name = ''s'', solidity_type = ''L.S'', location = loc_memory, desc_kind = ''UserDefinedStruct''\<rparr>],
     f_returns = [], source_line = 1\<rparr> [(''L.S'', [])] = None"
  by code_simp+

subsection \<open>The library that is read\<close>

lemma lift_error_Inr [simp]: "lift_error r = Inr x \<longleftrightarrow> r = Inr x"
  by (cases r) auto

text \<open>
  What it is to be read from a build, entry by entry: a record among the contracts of a unit, its name, the methods it declares, and the
  function and the parameters an entry describes. A type that has no rendering is left empty.
\<close>

definition record_in :: "json \<Rightarrow> json \<Rightarrow> bool" where
  "record_in data c \<longleftrightarrow> (\<exists>unit\<in>set (map snd (fields_of data)). \<exists>cs. list_field unit ''contracts'' = Inr cs \<and> c \<in> set cs)"

definition record_name :: "json \<Rightarrow> json" where
  "record_name c = (case map_of (fields_of c) ''name'' of None \<Rightarrow> JString [] | Some n \<Rightarrow> n)"

definition declared_methods :: "json list \<Rightarrow> json list" where
  "declared_methods entries =
     filter (\<lambda>m. case map_of (fields_of m) ''name'' of Some (JString n) \<Rightarrow> n \<notin> {[], ''constructor''} | _ \<Rightarrow> False) entries"

definition shows_param :: "string \<Rightarrow> json \<Rightarrow> lib_param \<Rightarrow> bool" where
  "shows_param cn entry p \<longleftrightarrow> p_name p \<noteq> [] \<and>
     (\<exists>t. parse_type_descriptor (field entry ''typeDesc'') Solidity cn = Inr t \<and>
        solidity_type p = (if t = ''unknown'' then [] else t))"

definition shows_method :: "string \<Rightarrow> json \<Rightarrow> lib_function \<Rightarrow> bool" where
  "shows_method cn m f \<longleftrightarrow> map_of (fields_of m) ''name'' = Some (JString (f_name f)) \<and> f_visibility f \<noteq> [] \<and>
     (\<exists>args rets. list_field m ''fullArgs'' = Inr args \<and> list_field m ''returns'' = Inr rets \<and>
        list_all2 (shows_param cn) args (f_params f) \<and> list_all2 (shows_param cn) rets (f_returns f))"

lemma scan_contracts_source:
  "scan_contracts lib cs seen = Inr (Inl c) \<Longrightarrow> c \<in> set cs \<and> record_name c = JString (contract_name lib) \<and>
   (\<exists>file. contract_source_file c = Inr file \<and> same_source_file file (source_file lib))"
  by (induction lib cs seen rule: scan_contracts.induct) (auto simp: bindE_Inr_iff record_name_def split: if_splits)

lemma scan_units_source:
  "scan_units lib us seen = Inr (Inl c) \<Longrightarrow>
   (\<exists>unit\<in>set us. \<exists>cs. list_field unit ''contracts'' = Inr cs \<and> c \<in> set cs) \<and> record_name c = JString (contract_name lib) \<and>
   (\<exists>file. contract_source_file c = Inr file \<and> same_source_file file (source_file lib))"
proof (induction lib us seen rule: scan_units.induct)
  case (2 lib unit units seen)
  show ?case
  proof (cases "is_object unit")
    case True
    with 2(3) obtain cs r where cs: "list_field unit ''contracts'' = Inr cs" "scan_contracts lib cs seen = Inr r"
      and r: "(case r of Inl c \<Rightarrow> Inr (Inl c) | Inr seen \<Rightarrow> scan_units lib units seen) = Inr (Inl c)"
      by (auto simp: bindE_Inr_iff)
    then show ?thesis using 2(2) True cs(1) by (cases r) (auto dest: scan_contracts_source)
  qed (use 2 in auto)
qed simp

lemma mapE_all2: "mapE f xs = Inr ys \<Longrightarrow> (\<And>x y. x \<in> set xs \<Longrightarrow> f x = Inr y \<Longrightarrow> P x y) \<Longrightarrow> list_all2 P xs ys"
  by (induction xs arbitrary: ys) (auto simp: bindE_Inr_iff)

lemma read_param_shows:
  assumes "read_param names cn (i, entry) = Inr p"
  shows "shows_param cn entry p"
proof -
  define r where "r = parse_type_descriptor (field entry ''typeDesc'') Solidity cn"
  from assms have "is_object entry" by (auto simp: read_param_def split: if_splits)
  with assms obtain t name where "r = Inr t" "p_name p = (if name \<noteq> [] then name else ''arg'' @ show_nat i)"
    "solidity_type p = (if unresolved t then [] else t)"
    unfolding read_param_def Let_def r_def [symmetric] prod.case by (auto simp: bindE_Inr_iff)
  then show ?thesis unfolding shows_param_def r_def [symmetric] by (auto simp: unresolved_def)
qed

lemma param_list_shows: "param_list raw names cn = Inr ps \<Longrightarrow> list_all2 (shows_param cn) raw ps"
proof -
  assume "param_list raw names cn = Inr ps"
  then have "list_all2 (\<lambda>ie p. shows_param cn (snd ie) p) (enumerate 0 raw) ps"
    unfolding param_list_def
    by (rule mapE_all2) (use read_param_shows in \<open>metis prod.collapse\<close>)
  then have "list_all2 (shows_param cn) (map snd (enumerate 0 raw)) ps" by (simp only: list_all2_map1)
  then show "list_all2 (shows_param cn) raw ps" by simp
qed

lemma text_or_nonempty: "text_or v k d = Inr s \<Longrightarrow> d \<noteq> [] \<Longrightarrow> s \<noteq> []"
  by (auto simp: text_or_def split: option.splits if_splits json.splits)

lemma text_or_string: "text_or v k [] = Inr s \<Longrightarrow> s \<noteq> [] \<Longrightarrow> map_of (fields_of v) k = Some (JString s)"
  by (auto simp: text_or_def split: option.splits if_splits json.splits)

lemma read_function_shows:
  assumes "read_function cn m = Inr fs"
  shows "list_all2 (shows_method cn) (declared_methods [m]) fs"
proof (cases "is_object m")
  case False
  then have "fields_of m = []" by (cases m) simp_all
  then show ?thesis using False assms by (simp add: read_function_def declared_methods_def)
next
  case True
  with assms obtain name where name: "text_or m ''name'' [] = Inr name" by (auto simp: read_function_def bindE_Inr_iff)
  show ?thesis
  proof (cases "name = [] \<or> name = ''constructor''")
    case True
    then have "declared_methods [m] = []"
      using name by (auto simp: declared_methods_def text_or_def split: option.splits json.splits if_splits)
    then show ?thesis using assms True name \<open>is_object m\<close> by (auto simp: read_function_def)
  next
    case False
    then have n: "map_of (fields_of m) ''name'' = Some (JString name)" using text_or_string [OF name] by simp
    then have m: "declared_methods [m] = [m]" using False by (simp add: declared_methods_def)
    show ?thesis using assms True name False n unfolding m
      by (auto simp: read_function_def bindE_Inr_iff shows_method_def dest: param_list_shows text_or_nonempty)
  qed
qed

lemma read_functions_shows:
  "concatE (read_function cn) ms = Inr fs \<Longrightarrow> list_all2 (shows_method cn) (declared_methods ms) fs"
proof (induction ms arbitrary: fs)
  case (Cons m ms)
  then obtain a b where "read_function cn m = Inr a" "concatE (read_function cn) ms = Inr b" "fs = a @ b"
    by (auto simp: bindE_Inr_iff)
  moreover have "declared_methods (m # ms) = declared_methods [m] @ declared_methods ms" by (simp add: declared_methods_def)
  ultimately show ?case using read_function_shows Cons.IH by (metis list_all2_appendI)
qed (simp add: declared_methods_def)

lemma read_library_api_sound:
  assumes "read_library_api build_json (Some data) lib = Inr api"
  shows "contract_name (contract api) = contract_name lib \<and>
    (\<exists>c entries. record_in data c \<and> record_name c = JString (contract_name lib) \<and>
      contract_source_file c = Inr (source_file (contract api)) \<and> same_source_file (source_file (contract api)) (source_file lib) \<and>
      list_field c ''allMethods'' = Inr entries \<and>
      list_all2 (shows_method (contract_name lib)) (declared_methods entries) (api_functions api) \<and> api_functions api \<noteq> [] \<and>
      read_struct_members c = Inr (api_structs api))"
proof -
  from assms obtain all r where data: "build_units data = Inr all" and units: "scan_units lib all [] = Inr r"
    and r: "(case r of Inl c \<Rightarrow> read_matched lib c | Inr seen \<Rightarrow> Inl (ReadError (no_record_message lib seen))) = Inr api"
    by (auto simp: read_library_api_def bindE_Inr_iff)
  from r obtain c where "r = Inl c" and m: "read_matched lib c = Inr api" by (cases r) auto
  with units have u: "scan_units lib all [] = Inr (Inl c)" by simp
  from data have "all = map snd (fields_of data)" by (cases data) simp_all
  with scan_units_source [OF u] obtain src where
    c: "record_in data c" "record_name c = JString (contract_name lib)" and
    src: "contract_source_file c = Inr src" "same_source_file src (source_file lib)" by (auto simp: record_in_def)
  from m obtain ms fs structs where fs: "list_field c ''allMethods'' = Inr ms" "concatE (read_function (contract_name lib)) ms = Inr fs" "fs \<noteq> []"
    and structs: "read_struct_members c = Inr structs"
    and api: "api = \<lparr>contract = \<lparr>contract_name = contract_name lib, source_file = (if src \<noteq> [] then src else source_file lib)\<rparr>,
      api_functions = fs, api_structs = structs\<rparr>"
    by (auto simp: read_matched_def bindE_Inr_iff src split: if_splits)
  have "src \<noteq> []" using src(2) by (auto simp: same_source_file_def)
  then show ?thesis using fs src c structs read_functions_shows [OF fs(2)] by (auto simp: api)
qed


subsection \<open>Builds with two libraries of one name\<close>

definition library_record :: "string \<Rightarrow> json list \<Rightarrow> json" where
  "library_record file methods =
     JObject [(''name'', JString ''L''), (''original_file'', JString file), (''allMethods'', JArray methods)]"

definition method_record :: "string \<Rightarrow> json" where
  "method_record name =
     JObject [(''name'', JString name), (''fullArgs'', JArray [JObject [(''typeDesc'', primitive ''uint256''), (''location'', JString ''default'')]]),
       (''sourceLine'', JInt 3)]"

definition two_libraries :: json where
  "two_libraries =
     JObject [(''unit'', JObject [(''contracts'', JArray
       [library_record ''lib/dep/L.sol'' [method_record ''theirs''], library_record ''L.sol'' [method_record ''ours'']])])]"

lemma two_libraries_api:
  "read_library_api ''b'' (Some two_libraries) \<lparr>contract_name = ''L'', source_file = ''L.sol''\<rparr> =
     Inr \<lparr>contract = \<lparr>contract_name = ''L'', source_file = ''lib/dep/L.sol''\<rparr>,
          api_functions = [\<lparr>f_name = ''theirs'', f_visibility = ''internal'', f_mutability = ''nonpayable'',
            f_params = [\<lparr>p_name = ''arg0'', solidity_type = ''uint256'', location = ''default'', desc_kind = ''Primitive''\<rparr>],
            f_returns = [], source_line = 3\<rparr>], api_structs = []\<rparr>"
  by code_simp


text \<open>
  So a match of the endings is not a match of the files: the library at the root of the project is asked for, the
  record of a dependency comes first, and it is the dependency that is harnessed. The relation is symmetric, not
  transitive.
\<close>

lemma same_source_file_symmetric: "same_source_file a b \<longleftrightarrow> same_source_file b a"
  by (auto simp: same_source_file_def Let_def min.commute)

lemma same_source_file_not_transitive:
  "same_source_file ''lib/dep/L.sol'' ''L.sol'' \<and> same_source_file ''L.sol'' ''src/L.sol'' \<and>
   \<not> same_source_file ''lib/dep/L.sol'' ''src/L.sol''"
  by code_simp

text \<open>A library of the project is told apart by its directory whenever neither path is a tail of the other.\<close>

lemma different_directories_differ:
  "path_tuple a = xs @ [d, f] \<Longrightarrow> path_tuple b = ys @ [e, f] \<Longrightarrow> d \<noteq> e \<Longrightarrow> \<not> same_source_file a b"
proof -
  assume a: "path_tuple a = xs @ [d, f]" and b: "path_tuple b = ys @ [e, f]" and "d \<noteq> e"
  let ?n = "min (length xs) (length ys)"
  have "last_parts (?n + 2) (zs @ [g, f]) = drop (length zs - ?n) zs @ [g, f]" if "?n \<le> length zs" for zs g
    using that by (simp add: last_parts_def)
  then have "last_parts (?n + 2) (path_tuple a) \<noteq> last_parts (?n + 2) (path_tuple b)"
    using \<open>d \<noteq> e\<close> by (simp add: a b)
  then show ?thesis by (simp add: same_source_file_def Let_def a b)
qed

end
