(* ===== verification/Harness_Run.thy ===== *)
theory Harness_Run
  imports Build_Reader Remappings
begin

text \<open>
  The run of the harnesser, from the stub to the manifest (\<^verbatim>\<open>harnesser/run.py\<close>), and the swap of a library main contract
  for its harness (\<^verbatim>\<open>harnesser/swap.py\<close>).

  The files written are a list of paths and texts in the order of the writes; they remain when a later step fails. The
  compiler run, which may time out, the build output it leaves, the texts of the sources and the resolution of symbolic
  links are fields of an environment. Whether the main contract is a library is asked of solc and is an argument. Log
  messages are not modelled.
\<close>

subsection \<open>Steps that write files\<close>

type_synonym files = "(posix_path \<times> string) list"

fun and_then :: "('e + 'a) \<times> 's \<Rightarrow> ('a \<Rightarrow> 's \<Rightarrow> ('e + 'b) \<times> 's) \<Rightarrow> ('e + 'b) \<times> 's" where
  "and_then (Inl e, s) f = (Inl e, s)"
| "and_then (Inr x, s) f = f x s"

datatype run_error =
    MissingSource string
  | NotUnderProject
  | ProbeFailed string
  | ProbeTimedOut
  | PackagesFailed py_error
  | ReadFailed read_error
  | PlanFailed harness_error
  | RenderFailed linker_error

fun map_error :: "('e \<Rightarrow> 'f) \<Rightarrow> 'e + 'a \<Rightarrow> 'f + 'a" where
  "map_error g (Inl e) = Inl (g e)"
| "map_error g (Inr x) = Inr x"

record run_env =
  file_exists :: "posix_path \<Rightarrow> bool"
  source_text :: "posix_path \<Rightarrow> string option" \<comment> \<open>None: it cannot be read or decoded\<close>
  resolve_path :: "posix_path \<Rightarrow> posix_path" \<comment> \<open>\<^verbatim>\<open>Path.resolve\<close>\<close>
  certora_run :: "string list \<Rightarrow> files \<Rightarrow> (int \<times> string \<times> string) option" \<comment> \<open>None: the time-out\<close>
  build_of :: "files \<Rightarrow> json option"
  build_path :: string
  packages_world :: world
  sha256 :: "string \<Rightarrow> string"

subsection \<open>Names and records\<close>

record harness_result =
  res_library :: contract_handle
  res_harness :: contract_handle
  res_plan_hash :: string
  res_coverage :: "(string, nat) dict"
  res_wrappers :: "string list"
  res_skipped :: "skipped list"

definition skipped_json :: "skipped \<Rightarrow> json" where
  "skipped_json s =
     JObject [(''function'', JString (s_function s)), (''reason'', JString (skip_reason_value (s_reason s))),
              (''detail'', JString (s_detail s))]"

definition result_json :: "harness_result \<Rightarrow> json" where
  "result_json r =
     JObject
       [(''library_name'', JString (contract_name (res_library r))), (''library_file'', JString (source_file (res_library r))),
        (''harness_name'', JString (contract_name (res_harness r))), (''harness_file'', JString (source_file (res_harness r))),
        (''plan_hash'', JString (res_plan_hash r)),
        (''coverage'', JObject (map (\<lambda>(k, n). (k, JInt (int n))) (res_coverage r))),
        (''wrappers'', JArray (map JString (res_wrappers r))), (''skipped'', JArray (map skipped_json (res_skipped r)))]"

definition harness_prefix :: string where
  "harness_prefix = ''CertoraLibraryHarness_''"

definition harness_name_for :: "string \<Rightarrow> string" where
  "harness_name_for library_name = harness_prefix @ library_name"

definition pragma_line_of :: "string option \<Rightarrow> string" where
  "pragma_line_of spec = (case spec of None \<Rightarrow> [] | Some s \<Rightarrow> if s \<noteq> [] then ''pragma solidity '' @ s @ '';'' else [])"

definition import_line :: "string \<Rightarrow> string" where
  "import_line relative = ''import '' @ dquote @ relative @ dquote @ '';''"

text \<open>
  The search for \<^verbatim>\<open>pragma\s+solidity\s+([^;]+);\<close>: what follows the blanks up to the semicolon is the specification. The
  blanks may give one of theirs to the group when nothing else stands before the semicolon.
\<close>

definition pragma_at :: "string \<Rightarrow> string option" where
  "pragma_at s =
     (let after = drop (length ''pragma'') s; keyword = dropWhile is_blank after;
          tail = drop (length ''solidity'') keyword; gap = takeWhile is_blank tail; text = dropWhile is_blank tail;
          spec = takeWhile (\<lambda>c. c \<noteq> CHR '';'') text
      in if \<not> starts_with ''pragma'' s \<or> keyword = after \<or> \<not> starts_with ''solidity'' keyword \<or> gap = [] \<or>
            length gap + length spec < 2 \<or> length spec = length text
         then None else Some (strip spec))"

fun extract_pragma_spec :: "string \<Rightarrow> string option" where
  "extract_pragma_spec [] = None"
| "extract_pragma_spec (c # cs) = (case pragma_at (c # cs) of Some spec \<Rightarrow> Some spec | None \<Rightarrow> extract_pragma_spec cs)"

definition read_pragma_from_source_file :: "run_env \<Rightarrow> posix_path \<Rightarrow> string option" where
  \<comment> \<open>of an absolute path\<close>
  "read_pragma_from_source_file env p = (case source_text env p of None \<Rightarrow> None | Some t \<Rightarrow> extract_pragma_spec t)"

fun common_parts :: "string list \<Rightarrow> string list \<Rightarrow> nat" where
  "common_parts (x # xs) (y # ys) = (if x = y then Suc (common_parts xs ys) else 0)"
| "common_parts xs ys = 0"

definition relpath :: "posix_path \<Rightarrow> posix_path \<Rightarrow> string" where
  \<comment> \<open>\<^verbatim>\<open>os.path.relpath\<close> of two resolved paths\<close>
  "relpath p start =
     (let n = common_parts (path_parts start) (path_parts p);
          parts = replicate (length (path_parts start) - n) ''..'' @ drop n (path_parts p)
      in if parts = [] then ''.'' else join ''/'' parts)"

definition library_import_line :: "run_env \<Rightarrow> posix_path \<Rightarrow> posix_path \<Rightarrow> string" where
  "library_import_line env library_file harness_file =
     import_line (relpath (resolve_path env library_file) (resolve_path env (path_parent harness_file)))"

definition user_harness_path :: "posix_path \<Rightarrow> string \<Rightarrow> posix_path" where
  "user_harness_path root hname = path_join (path_join root ''certora/harnesses'') (hname @ ''.sol'')"

definition manifest_path :: "posix_path \<Rightarrow> posix_path" where
  \<comment> \<open>\<^verbatim>\<open>with_suffix(".manifest.json")\<close>\<close>
  "manifest_path p =
     PosixPath (path_root p) (butlast (path_parts p) @ [path_stem (last (path_parts p)) @ ''.manifest.json''])"

definition relative_to :: "posix_path \<Rightarrow> posix_path \<Rightarrow> string option" where
  \<comment> \<open>\<^verbatim>\<open>p.relative_to(root).as_posix()\<close>; None is the \<^verbatim>\<open>ValueError\<close>\<close>
  "relative_to p root =
     (if path_root p = path_root root \<and> starts_with (path_parts root) (path_parts p)
      then Some (path_str (PosixPath 0 (drop (length (path_parts root)) (path_parts p)))) else None)"

fun json_indented :: "nat \<Rightarrow> json \<Rightarrow> string" where
  \<comment> \<open>\<^verbatim>\<open>json.dumps(v, indent=2)\<close> at an indentation\<close>
  "json_indented n (JArray xs) =
     (if xs = [] then ''[]''
      else ''['' @ newline @ join ('','' @ newline) (map (\<lambda>x. replicate (n + 2) (CHR '' '') @ json_indented (n + 2) x) xs) @
           newline @ replicate n (CHR '' '') @ '']'')"
| "json_indented n (JObject kvs) =
     (if kvs = [] then ''{}''
      else ''{'' @ newline @
           join ('','' @ newline) (map (\<lambda>(k, v). replicate (n + 2) (CHR '' '') @ json_string k @ '': '' @ json_indented (n + 2) v) kvs) @
           newline @ replicate n (CHR '' '') @ ''}'')"
| "json_indented n v = json_dumps v"

definition manifest_text :: "harness_result \<Rightarrow> string" where
  "manifest_text r = json_indented 0 (result_json r) @ newline"

subsection \<open>The probe build\<close>

definition probe_spec :: string where
  "probe_spec = ''rule certoraLibraryHarnessProbe { assert true; }'' @ newline"

definition probe_spec_path :: "posix_path \<Rightarrow> posix_path" where
  "probe_spec_path root = path_join (path_join root ''.certora_internal'') ''certora_library_harness_probe.spec''"

definition probe_command :: "string \<Rightarrow> string \<Rightarrow> string \<Rightarrow> contract_handle list \<Rightarrow> string \<Rightarrow> string \<Rightarrow> string option \<Rightarrow>
    string list \<Rightarrow> string list" where
  "probe_command run_command harness_arg library_arg extra_files hname spec_rel solc packages =
     [run_command, harness_arg, library_arg] @ map to_config_str extra_files @
     [''--verify'', hname @ '':'' @ spec_rel, ''--compilation_steps_only''] @
     (if truthy solc then [''--solc'', the solc] else []) @
     (if packages \<noteq> [] then ''--packages'' # packages else [])"

definition last_chars :: "nat \<Rightarrow> string \<Rightarrow> string" where
  "last_chars n s = drop (length s - n) s"

definition run_probe_build :: "run_env \<Rightarrow> posix_path \<Rightarrow> posix_path \<Rightarrow> string \<Rightarrow> posix_path \<Rightarrow> string \<Rightarrow> string option \<Rightarrow>
    contract_handle list \<Rightarrow> string \<Rightarrow> files \<Rightarrow> (run_error + unit) \<times> files" where
  "run_probe_build env root harness_file hname library_file library_name solc extra_files run_command fs =
     (let fs = fs @ [(probe_spec_path root, probe_spec)] in
      case (relative_to harness_file root, relative_to library_file root, relative_to (probe_spec_path root) root) of
        (Some h, Some l, Some s) \<Rightarrow>
          (case build_packages_from_remapping_sources (packages_world env) root ''default'' None of
             Inl e \<Rightarrow> (Inl (PackagesFailed e), fs)
           | Inr (packages, messages) \<Rightarrow>
               let command = probe_command run_command (h @ '':'' @ hname) (l @ '':'' @ library_name) extra_files hname s solc packages
               in (case certora_run env command fs of
                    None \<Rightarrow> (Inl ProbeTimedOut, fs)
                  | Some (returncode, stdout, stderr) \<Rightarrow>
                      if returncode \<noteq> 0
                      then (Inl (ProbeFailed (''probe build failed for library '' @ library_name @ '':'' @ newline @
                              last_chars 4000 stdout @ newline @ last_chars 4000 stderr)), fs)
                      else (Inr (), fs)))
      | _ \<Rightarrow> (Inl NotUnderProject, fs))"

subsection \<open>The run\<close>

definition result_of :: "(string \<Rightarrow> string) \<Rightarrow> harness_plan \<Rightarrow> harness_result" where
  "result_of sha p =
     \<lparr>res_library = library p, res_harness = harness p, res_plan_hash = plan_hash sha p, res_coverage = coverage p,
      res_wrappers = map w_name (wrappers p), res_skipped = plan_skipped p\<rparr>"

definition ensure_library_harness :: "run_env \<Rightarrow> posix_path \<Rightarrow> contract_handle \<Rightarrow> string option \<Rightarrow> contract_handle list \<Rightarrow>
    string \<Rightarrow> bool \<Rightarrow> (run_error + harness_result) \<times> files" where
  "ensure_library_harness env root lib solc extra_files run_command validate =
     (let library_name = contract_name lib;
          library_file = pure_path (source_file lib);
          absolute_library = (if path_root library_file \<noteq> 0 then library_file else path_join root (source_file lib))
      in if \<not> file_exists env absolute_library
         then (Inl (MissingSource (''library source '' @ path_str library_file @ '' does not exist'')), [])
         else
           let hname = harness_name_for library_name;
               harness_file = user_harness_path root hname;
               pragma = pragma_line_of (read_pragma_from_source_file env absolute_library);
               imports = [library_import_line env absolute_library harness_file];
               probe = run_probe_build env root harness_file hname absolute_library library_name solc extra_files run_command
           in
           and_then (map_error RenderFailed (render_stub hname library_name pragma imports), []) (\<lambda>stub fs.
           and_then (probe (fs @ [(harness_file, stub)])) (\<lambda>_ fs.
           and_then (case (relative_to absolute_library root, relative_to harness_file root) of
               (Some l, Some h) \<Rightarrow> (Inr (l, h), fs) | _ \<Rightarrow> (Inl NotUnderProject, fs)) (\<lambda>(l, h) fs.
           and_then (map_error ReadFailed
               (read_library_api (build_path env) (build_of env fs) \<lparr>contract_name = library_name, source_file = l\<rparr>), fs) (\<lambda>api fs.
           and_then (map_error PlanFailed (build_plan api \<lparr>contract_name = hname, source_file = h\<rparr> pragma imports), fs) (\<lambda>p fs.
           and_then (map_error RenderFailed (render_harness (sha256 env) p), fs) (\<lambda>text fs.
           and_then (let fs = fs @ [(harness_file, text)] in if validate then probe fs else (Inr (), fs)) (\<lambda>_ fs.
             let r = result_of (sha256 env) p
             in (Inr r, fs @ [(manifest_path harness_file, manifest_text r)])))))))))"

definition is_generated_library_harness :: "(string \<Rightarrow> json option) \<Rightarrow> posix_path \<Rightarrow> string option \<Rightarrow> bool" where
  \<comment> \<open>the text of the file, None when it does not exist or cannot be read; a JSON \<^verbatim>\<open>null\<close> is not a record\<close>
  "is_generated_library_harness loads p text \<longleftrightarrow>
     path_parts p \<noteq> [] \<and> ends_in (last (path_parts p)) ''.sol'' \<and> length (last (path_parts p)) > 4 \<and>
     (case text of None \<Rightarrow> False
      | Some s \<Rightarrow> (case read_sentinel loads s of None \<Rightarrow> False | Some v \<Rightarrow> v \<noteq> JNull))"

definition existing_harness_provenance :: "(string \<Rightarrow> json option) \<Rightarrow> (posix_path \<Rightarrow> string option) \<Rightarrow> posix_path \<Rightarrow> string \<Rightarrow> json option" where
  "existing_harness_provenance loads read_text root library_name =
     (case read_text (user_harness_path root (harness_name_for library_name)) of
        None \<Rightarrow> None | Some s \<Rightarrow> read_sentinel loads s)"

subsection \<open>The swap\<close>

definition library_behind_harness :: "(string \<Rightarrow> json option) \<Rightarrow> (posix_path \<Rightarrow> string option) \<Rightarrow> posix_path \<Rightarrow> contract_handle \<Rightarrow>
    py_error + contract_handle option" where
  \<comment> \<open>a manifest that is missing, unreadable or not JSON is no manifest\<close>
  "library_behind_harness loads read_text root main =
     (case read_text (manifest_path (path_join root (source_file main))) of
        None \<Rightarrow> Inr None
      | Some text \<Rightarrow>
          (case loads text of
             None \<Rightarrow> Inr None
           | Some rec \<Rightarrow>
               if \<not> is_object rec then Inl AttributeError
               else if map_of (fields_of rec) ''harness_name'' \<noteq> Some (JString (contract_name main)) then Inr None
               else bindE (text_or rec ''library_name'' []) (\<lambda>name.
                    bindE (text_or rec ''library_file'' []) (\<lambda>file.
                      Inr (if name = [] \<or> file = [] then None
                           else Some \<lparr>contract_name = name, source_file = file\<rparr>)))))"

definition add_library :: "contract_handle option \<Rightarrow> contract_handle \<Rightarrow> string list \<Rightarrow> string list" where
  "add_library lib main additional =
     (case lib of
        None \<Rightarrow> additional
      | Some l \<Rightarrow>
          if l = main \<or> l \<in> set (map handle_of_spec additional) then additional
          else additional @ [to_config_str l])"

definition with_harnessed_library :: "(string \<Rightarrow> json option) \<Rightarrow> (posix_path \<Rightarrow> string option) \<Rightarrow> posix_path \<Rightarrow> contract_handle \<Rightarrow>
    string list \<Rightarrow> contract_handle option \<Rightarrow> py_error + string list" where
  "with_harnessed_library loads read_text root main additional swapped_from =
     bindE (case swapped_from of Some l \<Rightarrow> Inr (Some l) | None \<Rightarrow> library_behind_harness loads read_text root main) (\<lambda>lib.
       Inr (add_library lib main additional))"

definition add_handle :: "contract_handle \<Rightarrow> contract_handle list \<Rightarrow> contract_handle list" where
  "add_handle h scene = (if h \<in> set scene then scene else scene @ [h])"

datatype swap_error = SwapRun run_error | SwapManifest py_error

definition swap_library_main_contract :: "(string \<Rightarrow> json option) \<Rightarrow> (posix_path \<Rightarrow> string option) \<Rightarrow> run_env \<Rightarrow> bool \<Rightarrow>
    posix_path \<Rightarrow> contract_handle \<Rightarrow> contract_handle list \<Rightarrow> string option \<Rightarrow> string \<Rightarrow> bool \<Rightarrow>
    (swap_error + contract_handle \<times> contract_handle list \<times> harness_result option) \<times> files" where
  "swap_library_main_contract loads read_text env is_library root main handles solc run_command validate =
     (if \<not> is_library
      then (case library_behind_harness loads read_text root main of
          Inl e \<Rightarrow> (Inl (SwapManifest e), [])
        | Inr lib \<Rightarrow> (Inr (main, (case lib of None \<Rightarrow> handles | Some l \<Rightarrow> add_handle l handles), None), []))
      else (case ensure_library_harness env root main solc [] run_command validate of
          (Inl e, fs) \<Rightarrow> (Inl (SwapRun e), fs)
        | (Inr r, fs) \<Rightarrow> (Inr (res_harness r, add_handle (res_harness r) (add_handle main handles), Some r), fs)))"

definition swap_library_main_contract_paths :: "(string \<Rightarrow> json option) \<Rightarrow> (posix_path \<Rightarrow> string option) \<Rightarrow> run_env \<Rightarrow> bool \<Rightarrow>
    posix_path \<Rightarrow> string \<Rightarrow> string \<Rightarrow> string option \<Rightarrow> (swap_error + string \<times> string) \<times> files" where
  "swap_library_main_contract_paths loads read_text env is_library root relative_path name solc =
     (let h = \<lparr>contract_name = name, source_file = relative_path\<rparr> in
      and_then (swap_library_main_contract loads read_text env is_library root h [h] solc ''certoraRun'' True) (\<lambda>(swapped, scene, r) fs.
        (Inr (case r of None \<Rightarrow> (relative_path, name) | Some _ \<Rightarrow> (source_file swapped, contract_name swapped)), fs)))"

end
