(* ===== verification/Harness_Run_Laws.thy ===== *)
theory Harness_Run_Laws
  imports Harness_Run Build_Laws Remappings_Paths
begin

text \<open>
  The run of the harnesser and the swap: a harness is reported only after it was built, its manifest and its sentinel
  agree and lead back to the library, and the scene of a swapped run holds the harness and the library once each.
\<close>

subsection \<open>Steps\<close>

lemma and_then_Inr: "and_then m f = (Inr y, s) \<longleftrightarrow> (\<exists>x t. m = (Inr x, t) \<and> f x t = (Inr y, s))"
  by (cases "(m, f)" rule: and_then.cases) auto

lemma map_error_Inr [simp]: "map_error g r = Inr x \<longleftrightarrow> r = Inr x"
  by (cases r) auto

definition current_text :: "files \<Rightarrow> posix_path \<Rightarrow> string option" where
  \<comment> \<open>the text of the last write\<close>
  "current_text fs p = map_of (rev fs) p"

lemma current_text_append [simp]:
  "current_text (fs @ [(p, t)]) q = (if q = p then Some t else current_text fs q)"
  by (simp add: current_text_def)

lemma path_parts_join: "path_parts (path_join p s) = (if path_root (pure_path s) \<noteq> 0 then path_parts (pure_path s) else path_parts p @ path_parts (pure_path s))"
  by (simp add: path_join_def Let_def)

text \<open>
  What stands for a build: the certoraRun command over harness, library and probe spec, with the packages of the project, ended
  with code 0 on the files as they were, the probe spec among them.
\<close>

definition built_with :: "run_env \<Rightarrow> posix_path \<Rightarrow> posix_path \<Rightarrow> contract_handle \<Rightarrow> string option \<Rightarrow> contract_handle list \<Rightarrow> string \<Rightarrow>
    files \<Rightarrow> bool" where
  "built_with env root library_file lib solc extra run_command fs \<longleftrightarrow>
     (\<exists>h l s packages messages out err.
        relative_to (user_harness_path root (harness_name_for (contract_name lib))) root = Some h \<and>
        relative_to library_file root = Some l \<and> relative_to (probe_spec_path root) root = Some s \<and>
        current_text fs (probe_spec_path root) = Some probe_spec \<and>
        build_packages_from_remapping_sources (packages_world env) root ''default'' None = Inr (packages, messages) \<and>
        certora_run env
          ([run_command, h @ '':'' @ harness_name_for (contract_name lib), l @ '':'' @ contract_name lib] @ map to_config_str extra @
           [''--verify'', harness_name_for (contract_name lib) @ '':'' @ s, ''--compilation_steps_only''] @
           (if truthy solc then [''--solc'', the solc] else []) @ (if packages = [] then [] else ''--packages'' # packages))
          fs = Some (0, out, err))"

lemma run_probe_build_Inr:
  assumes "run_probe_build env root (user_harness_path root (harness_name_for (contract_name lib))) (harness_name_for (contract_name lib))
     library_file (contract_name lib) solc extra cmd fs = (Inr u, fs')"
  shows "fs' = fs @ [(probe_spec_path root, probe_spec)] \<and> built_with env root library_file lib solc extra cmd fs'"
proof -
  let ?fs = "fs @ [(probe_spec_path root, probe_spec)]" and ?hname = "harness_name_for (contract_name lib)"
  let ?hf = "user_harness_path root ?hname" and ?sp = "probe_spec_path root"
  let ?packs = "build_packages_from_remapping_sources (packages_world env) root ''default'' None"
  note run_def = assms [unfolded run_probe_build_def Let_def]
  obtain h where h: "relative_to ?hf root = Some h" using run_def by (cases "relative_to ?hf root") simp_all
  obtain l where l: "relative_to library_file root = Some l"
    using run_def by (cases "relative_to library_file root") (simp_all add: h)
  obtain s where s: "relative_to ?sp root = Some s" using run_def by (cases "relative_to ?sp root") (simp_all add: h l)
  note paths = h l s
  obtain packages messages where packages: "?packs = Inr (packages, messages)"
    using run_def by (cases ?packs) (auto simp: paths)
  let ?command = "probe_command cmd (h @ '':'' @ ?hname) (l @ '':'' @ contract_name lib) extra ?hname s solc packages"
  obtain code out err where ended: "certora_run env ?command ?fs = Some (code, out, err)"
    using run_def by (cases "certora_run env ?command ?fs") (auto simp: paths packages)
  have "code = 0" and fs': "fs' = ?fs" using run_def ended by (simp_all add: paths packages split: if_splits)
  then have run: "certora_run env ?command ?fs = Some (0, out, err)" using ended by simp
  have "built_with env root library_file lib solc extra cmd ?fs"
    unfolding built_with_def
    by (rule exI [of _ h], rule exI [of _ l], rule exI [of _ s], rule exI [of _ packages], rule exI [of _ messages],
        rule exI [of _ out], rule exI [of _ err])
      (use run in \<open>simp add: paths packages probe_command_def current_text_def split: if_splits\<close>)
  then show ?thesis by (simp add: fs')
qed

definition library_path :: "posix_path \<Rightarrow> contract_handle \<Rightarrow> posix_path" where
  "library_path root lib = (if path_root (pure_path (source_file lib)) \<noteq> 0 then pure_path (source_file lib) else path_join root (source_file lib))"

definition run_is_sound :: "run_env \<Rightarrow> posix_path \<Rightarrow> contract_handle \<Rightarrow> string option \<Rightarrow> contract_handle list \<Rightarrow> string \<Rightarrow> bool \<Rightarrow>
    harness_result \<Rightarrow> files \<Rightarrow> bool" where
  \<comment> \<open>the first build ran on the stub; the API was read from what it left; the plan was made of this API\<close>
  "run_is_sound env root lib solc extra run_command validate r fs \<longleftrightarrow>
     (\<exists>first l api stub p text before.
        built_with env root (library_path root lib) lib solc extra run_command first \<and>
        render_stub (harness_name_for (contract_name lib)) (contract_name lib) (pragma_line p) (import_lines p) = Inr stub \<and>
        current_text first (user_harness_path root (harness_name_for (contract_name lib))) = Some stub \<and>
        relative_to (library_path root lib) root = Some l \<and>
        read_library_api (build_path env) (build_of env first) \<lparr>contract_name = contract_name lib, source_file = l\<rparr> = Inr api \<and>
        contract_name (contract api) = contract_name lib \<and>
        contract_name (res_harness r) = harness_name_for (contract_name lib) \<and>
        build_plan api (res_harness r) (pragma_line p) (import_lines p) = Inr p \<and>
        r = result_of (sha256 env) p \<and>
        render_harness (sha256 env) p = Inr text \<and>
        current_text before (user_harness_path root (harness_name_for (contract_name lib))) = Some text \<and>
        (if validate then built_with env root (library_path root lib) lib solc extra run_command before else True) \<and>
        fs = before @ [(manifest_path (user_harness_path root (harness_name_for (contract_name lib))), manifest_text r)])"

lemma pure_paths_of_the_run:
  "pure_path ''certora/harnesses'' = PosixPath 0 [''certora'', ''harnesses'']"
  "pure_path ''.certora_internal'' = PosixPath 0 [''.certora_internal'']"
  "pure_path ''certora_library_harness_probe.spec'' = PosixPath 0 [''certora_library_harness_probe.spec'']"
  by code_simp+

lemma probe_spec_is_not_the_harness: "probe_spec_path root \<noteq> user_harness_path root (harness_name_for name)"
proof -
  have rel: "path_root (pure_path (harness_name_for name @ ''.sol'')) = 0"
    by (simp add: pure_path_def root_of_def harness_name_for_def harness_prefix_def Let_def)
  have "path_parts (probe_spec_path root) = path_parts root @ [''.certora_internal'', ''certora_library_harness_probe.spec'']"
    by (simp add: probe_spec_path_def path_join_def pure_paths_of_the_run)
  moreover have "path_parts (user_harness_path root (harness_name_for name)) =
      path_parts root @ [''certora'', ''harnesses''] @ path_parts (pure_path (harness_name_for name @ ''.sol''))"
    using rel by (simp add: user_harness_path_def path_join_def pure_paths_of_the_run Let_def)
  ultimately show ?thesis by auto
qed

lemma ensure_library_harness_Inr:
  assumes "ensure_library_harness env root lib solc extra cmd validate = (Inr r, fs)"
  obtains first h l api p stub src before where
    "built_with env root (library_path root lib) lib solc extra cmd first"
    and "render_stub (harness_name_for (contract_name lib)) (contract_name lib) (pragma_line p) (import_lines p) = Inr stub"
    and "current_text first (user_harness_path root (harness_name_for (contract_name lib))) = Some stub"
    and "relative_to (library_path root lib) root = Some l"
    and "read_library_api (build_path env) (build_of env first) \<lparr>contract_name = contract_name lib, source_file = l\<rparr> = Inr api"
    and "relative_to (user_harness_path root (harness_name_for (contract_name lib))) root = Some h"
    and "build_plan api \<lparr>contract_name = harness_name_for (contract_name lib), source_file = h\<rparr> (pragma_line p) (import_lines p) = Inr p"
    and "harness p = \<lparr>contract_name = harness_name_for (contract_name lib), source_file = h\<rparr>" and "library p = contract api"
    and "pragma_line p = pragma_line_of (read_pragma_from_source_file env (library_path root lib))"
    and "import_lines p = [library_import_line env (library_path root lib) (user_harness_path root (harness_name_for (contract_name lib)))]"
    and "render_harness (sha256 env) p = Inr src"
    and "current_text before (user_harness_path root (harness_name_for (contract_name lib))) = Some src"
    and "validate \<Longrightarrow> built_with env root (library_path root lib) lib solc extra cmd before"
    and "r = result_of (sha256 env) p"
    and "fs = before @ [(manifest_path (user_harness_path root (harness_name_for (contract_name lib))), manifest_text r)]"
proof -
  let ?hname = "harness_name_for (contract_name lib)"
  let ?hf = "user_harness_path root ?hname" 
  let ?file = "pure_path (source_file lib)"
  let ?abs = "if path_root ?file \<noteq> 0 then ?file else path_join root (source_file lib)"
  have abs: "library_path root lib = ?abs" by (simp add: library_path_def)
  let ?pragma = "pragma_line_of (read_pragma_from_source_file env ?abs)"
  let ?imports = "[library_import_line env ?abs ?hf]"
  let ?probe = "run_probe_build env root ?hf ?hname ?abs (contract_name lib) solc extra cmd"
  from assms obtain stub fs2 l h api p src fs3 where
    stub: "render_stub ?hname (contract_name lib) ?pragma ?imports = Inr stub"
    and first: "?probe [(?hf, stub)] = (Inr (), fs2)"
    and l: "relative_to ?abs root = Some l"
    and api: "read_library_api (build_path env) (build_of env fs2) \<lparr>contract_name = contract_name lib, source_file = l\<rparr> = Inr api"
    and h: "relative_to ?hf root = Some h"
    and p: "build_plan api \<lparr>contract_name = ?hname, source_file = h\<rparr> ?pragma ?imports = Inr p"
    and src: "render_harness (sha256 env) p = Inr src"
    and last: "(let fs = fs2 @ [(?hf, src)] in if validate then ?probe fs else (Inr (), fs)) = (Inr (), fs3)"
    and r: "r = result_of (sha256 env) p" and fs: "fs = fs3 @ [(manifest_path ?hf, manifest_text r)]"
    by (auto simp: ensure_library_harness_def Let_def and_then_Inr split: if_splits option.splits)
  have plan: "harness p = \<lparr>contract_name = ?hname, source_file = h\<rparr>" "pragma_line p = ?pragma" "import_lines p = ?imports"
    "library p = contract api"
    using p by (auto simp: build_plan_def bindE_Inr_iff Let_def split: if_splits)
  note apart = probe_spec_is_not_the_harness [of root "contract_name lib"]
  have one: "built_with env root ?abs lib solc extra cmd fs2" "current_text fs2 ?hf = Some stub"
    using run_probe_build_Inr [OF first] apart by (auto simp: current_text_def)
  have two: "current_text fs3 ?hf = Some src" "validate \<Longrightarrow> built_with env root ?abs lib solc extra cmd fs3"
    using last run_probe_build_Inr [of env root lib ?abs solc extra cmd "fs2 @ [(?hf, src)]" "()" fs3] apart
    by (auto simp: Let_def current_text_def split: if_splits)
  show thesis
    by (rule that [unfolded abs, OF one(1) _ one(2) l api h _ plan(1,4,2,3) src two r fs]) (use stub p plan in simp_all)
qed

lemma ensure_is_sound:
  assumes "ensure_library_harness env root lib solc extra cmd validate = (Inr r, fs)"
  shows "run_is_sound env root lib solc extra cmd validate r fs"
  using assms
proof (rule ensure_library_harness_Inr)
  let ?hf = "user_harness_path root (harness_name_for (contract_name lib))"
  fix first h l api p stub src before
  assume run: "built_with env root (library_path root lib) lib solc extra cmd first"
      "render_stub (harness_name_for (contract_name lib)) (contract_name lib) (pragma_line p) (import_lines p) = Inr stub"
      "current_text first ?hf = Some stub" "relative_to (library_path root lib) root = Some l"
    and api: "read_library_api (build_path env) (build_of env first) \<lparr>contract_name = contract_name lib, source_file = l\<rparr> = Inr api"
    and rest: "build_plan api \<lparr>contract_name = harness_name_for (contract_name lib), source_file = h\<rparr> (pragma_line p) (import_lines p) = Inr p"
      "harness p = \<lparr>contract_name = harness_name_for (contract_name lib), source_file = h\<rparr>"
      "render_harness (sha256 env) p = Inr src" "current_text before ?hf = Some src"
      "validate \<Longrightarrow> built_with env root (library_path root lib) lib solc extra cmd before"
      "r = result_of (sha256 env) p" "fs = before @ [(manifest_path ?hf, manifest_text r)]"
  obtain built where "build_of env first = Some built" using api by (cases "build_of env first") (auto simp: read_library_api_def)
  with api have "contract_name (contract api) = contract_name lib"
    using read_library_api_sound by fastforce
  moreover have "res_harness r = \<lparr>contract_name = harness_name_for (contract_name lib), source_file = h\<rparr>"
    using rest by (simp add: result_of_def)
  ultimately show ?thesis
    unfolding run_is_sound_def
    by (intro exI [of _ first] exI [of _ l] exI [of _ api] exI [of _ stub] exI [of _ p] exI [of _ src] exI [of _ before])
      (use run api rest in simp)
qed


subsection \<open>The manifest leads back to the library\<close>

lemma split_on_segments: "w \<in> set (split_on c s) \<Longrightarrow> c \<notin> set w"
  by (induction s arbitrary: w) (force split: list.splits if_splits)+

definition path_component :: "string \<Rightarrow> bool" where
  "path_component c \<longleftrightarrow> segment c \<and> c \<noteq> ''.''"

lemma pure_path_components: "list_all path_component (path_parts (pure_path s))"
  by (auto simp: pure_path_def list_all_iff path_component_def segment_def dest: split_on_segments)

lemma pure_path_relative:
  assumes "list_all path_component cs"
  shows "pure_path (path_str (PosixPath 0 cs)) = PosixPath 0 cs"
proof (cases "cs = []")
  case False
  from assms have seg: "list_all segment cs" and id: "filter (\<lambda>c. c \<noteq> [] \<and> c \<noteq> ''.'') cs = cs"
    by (auto simp: list_all_iff path_component_def segment_def filter_id_conv)
  from join_segments_hd [OF False seg] have "path_str (PosixPath 0 cs) = join ''/'' cs" "root_of (join ''/'' cs) = 0"
    by (auto simp: path_str_def root_of_def)
  then show ?thesis using split_on_join_segments [OF False seg] id by (simp add: pure_path_def)
qed (simp add: pure_path_def path_str_def root_of_def)

lemma relative_to_join:
  assumes "relative_to (PosixPath (path_root root) (path_parts root @ cs)) root = Some h" and "list_all path_component cs"
  shows "path_join root h = PosixPath (path_root root) (path_parts root @ cs)"
  using assms pure_path_relative [of cs] by (auto simp: relative_to_def path_join_def split: if_splits)

lemma user_harness_path_parts:
  obtains cs where "user_harness_path root (harness_name_for name) = PosixPath (path_root root) (path_parts root @ cs)"
    and "list_all path_component cs"
proof -
  have rel: "path_root (pure_path (harness_name_for name @ ''.sol'')) = 0"
    by (simp add: pure_path_def root_of_def harness_name_for_def harness_prefix_def Let_def)
  let ?cs = "[''certora'', ''harnesses''] @ path_parts (pure_path (harness_name_for name @ ''.sol''))"
  have "user_harness_path root (harness_name_for name) = PosixPath (path_root root) (path_parts root @ ?cs)"
    using rel by (simp add: user_harness_path_def path_join_def pure_paths_of_the_run Let_def)
  moreover have "list_all path_component ?cs"
    using pure_path_components by (simp add: path_component_def segment_def)
  ultimately show thesis by (rule that)
qed

text \<open>
  the manifest leads a later process back to the library: read beside the harness, it names the library the run
  reports, provided the JSON reader reads back what was written and the names are not empty.
\<close>

theorem manifest_names_the_library:
  assumes "ensure_library_harness env root lib solc extra cmd validate = (Inr r, fs)"
    and "loads (manifest_text r) = Some (result_json r)"
    and "contract_name (res_library r) \<noteq> []" and "source_file (res_library r) \<noteq> []"
  shows "library_behind_harness loads (current_text fs) root (res_harness r) = Inr (Some (res_library r))"
  using assms(1)
proof (rule ensure_library_harness_Inr)
  fix first h l api p stub src before
  let ?hf = "user_harness_path root (harness_name_for (contract_name lib))"
  assume h: "relative_to ?hf root = Some h"
    and p: "harness p = \<lparr>contract_name = harness_name_for (contract_name lib), source_file = h\<rparr>"
    and r: "r = result_of (sha256 env) p" and fs: "fs = before @ [(manifest_path ?hf, manifest_text r)]"
  obtain cs where cs: "?hf = PosixPath (path_root root) (path_parts root @ cs)" "list_all path_component cs"
    by (rule user_harness_path_parts)
  have "path_join root (source_file (res_harness r)) = ?hf"
    using relative_to_join [of root cs h] h cs by (simp add: r result_of_def p)
  then have "current_text fs (manifest_path (path_join root (source_file (res_harness r)))) = Some (manifest_text r)"
    by (simp add: fs)
  then show ?thesis
    using assms(2-4) by (simp add: library_behind_harness_def result_json_def text_or_def)
qed

subsection \<open>The scene\<close>

lemma set_add_handle [simp]: "set (add_handle h scene) = insert h (set scene)"
  by (auto simp: add_handle_def)

lemma add_handle_extends: "\<exists>new. add_handle h scene = scene @ new"
  by (simp add: add_handle_def)

lemma distinct_add_handle: "distinct scene \<Longrightarrow> distinct (add_handle h scene)"
  by (simp add: add_handle_def)

text \<open>
  the target of a run is never a library. For a library main contract it is the harness, the scene holds the
  library and the harness, each once, after the handles given; otherwise target and scene are those given, with at
  most the library of an earlier harness added, and nothing is written.
\<close>

theorem swapped_scene_holds_both:
  assumes "swap_library_main_contract loads read_text env is_library root main handles solc cmd validate =
    (Inr (target, scene, outcome), fs)"
  shows "starts_with handles scene \<and> (if distinct handles then distinct scene else True) \<and>
    (case outcome of
       Some r \<Rightarrow> is_library \<and> target = res_harness r \<and> target \<noteq> main \<and> main \<in> set scene \<and> target \<in> set scene \<and>
         run_is_sound env root main solc [] cmd validate r fs
     | None \<Rightarrow> \<not> is_library \<and> target = main \<and> fs = [])"
proof (cases is_library)
  case True
  with assms obtain r where r: "ensure_library_harness env root main solc [] cmd validate = (Inr r, fs)"
    and res: "target = res_harness r" "outcome = Some r" "scene = add_handle (res_harness r) (add_handle main handles)"
    by (auto simp: swap_library_main_contract_def split: prod.splits sum.splits)
  from ensure_is_sound [OF r] have sound: "run_is_sound env root main solc [] cmd validate r fs" .
  then have "contract_name (res_harness r) = harness_prefix @ contract_name main"
    by (auto simp: run_is_sound_def harness_name_for_def)
  then have "res_harness r \<noteq> main" by (auto simp: harness_prefix_def)
  moreover have "starts_with handles scene"
    using add_handle_extends [of main handles] add_handle_extends [of "res_harness r" "add_handle main handles"]
    by (auto simp: res starts_with_iff)
  ultimately show ?thesis using sound True by (simp add: res distinct_add_handle)
next
  case False
  with assms show ?thesis
    using add_handle_extends
    by (auto simp: swap_library_main_contract_def starts_with_iff distinct_add_handle split: sum.splits option.splits)
qed

lemma with_harnessed_library_list:
  "with_harnessed_library loads read_text root main additional swapped = Inr listed \<Longrightarrow>
   \<exists>lib. listed = add_library lib main additional"
  by (auto simp: with_harnessed_library_def bindE_Inr_iff)

definition colon_free :: "contract_handle option \<Rightarrow> bool" where
  "colon_free lib = (case lib of None \<Rightarrow> True | Some l \<Rightarrow> CHR '':'' \<notin> set (source_file l))"

text \<open>
  listing the harnessed library in a configuration is idempotent, although a contract has two spellings there: a
  second process leaves the list of the first one as it is; and the list only grows at its end, by the library
  alone.
\<close>

theorem library_is_listed_once:
  assumes "colon_free lib"
  shows "add_library lib main (add_library lib main additional) = add_library lib main additional \<and>
    starts_with additional (add_library lib main additional) \<and>
    length (add_library lib main additional) \<le> length additional + 1"
  using assms handle_of_spec_to_config_str
  by (auto simp: add_library_def colon_free_def starts_with_iff split: option.splits)

theorem library_is_listed_once_witness:
  "add_library (Some \<lparr>contract_name = ''L'', source_file = ''L.sol''\<rparr>) \<lparr>contract_name = ''M'', source_file = ''M.sol''\<rparr> [''X.sol'', ''L.sol''] =
     [''X.sol'', ''L.sol''] \<and>
   add_library (Some \<lparr>contract_name = ''L'', source_file = ''L.sol''\<rparr>) \<lparr>contract_name = ''M'', source_file = ''M.sol''\<rparr> [''X.sol''] =
     [''X.sol'', ''L.sol'']"
proof -
  have one: "add_library (Some \<lparr>contract_name = ''L'', source_file = ''L.sol''\<rparr>) \<lparr>contract_name = ''M'', source_file = ''M.sol''\<rparr> [''X.sol''] =
      [''X.sol'', ''L.sol'']" by code_simp
  with library_is_listed_once [of "Some \<lparr>contract_name = ''L'', source_file = ''L.sol''\<rparr>"
      "\<lparr>contract_name = ''M'', source_file = ''M.sol''\<rparr>" "[''X.sol'']"]
  show ?thesis by (simp add: colon_free_def)
qed

subsection \<open>A run\<close>

definition sample_build :: json where
  "sample_build =
     JObject [(''u'', JObject [(''contracts'', JArray [library_record ''L.sol'' [method_record ''f'']])])]"

definition sample_env :: run_env where
  "sample_env =
     \<lparr>file_exists = (\<lambda>p. True), source_text = (\<lambda>p. Some ''pragma solidity ^0.8.0; library L { }''), resolve_path = (\<lambda>p. p),
      certora_run = (\<lambda>command fs. Some (0, [], [])), build_of = (\<lambda>fs. Some sample_build), build_path = ''b.json'',
      packages_world = sample_world, sha256 = (\<lambda>s. ''d'')\<rparr>"

definition sample_library :: contract_handle where
  "sample_library = \<lparr>contract_name = ''L'', source_file = ''L.sol''\<rparr>"

definition sample_result :: harness_result where
  "sample_result =
     \<lparr>res_library = sample_library,
      res_harness = \<lparr>contract_name = ''CertoraLibraryHarness_L'', source_file = ''certora/harnesses/CertoraLibraryHarness_L.sol''\<rparr>,
      res_plan_hash = ''d'', res_coverage = [(''total'', 1), (''wrapped'', 1), (''skipped'', 0), (''readers'', 0)],
      res_wrappers = [''f''], res_skipped = []\<rparr>"

lemma sample_run:
  "fst (ensure_library_harness sample_env (PosixPath 1 [''p'']) sample_library None [] ''certoraRun'' True) = Inr sample_result"
  by code_simp


theorem manifest_names_the_library_witness:
  "\<exists>fs. library_behind_harness (\<lambda>s. if s = manifest_text sample_result then Some (result_json sample_result) else None)
     (current_text fs) (PosixPath 1 [''p'']) (res_harness sample_result) = Inr (Some sample_library)"
proof -
  obtain fs where run: "ensure_library_harness sample_env (PosixPath 1 [''p'']) sample_library None [] ''certoraRun'' True = (Inr sample_result, fs)"
    using sample_run by (metis prod.collapse)
  have lib: "res_library sample_result = sample_library" by (simp add: sample_result_def)
  have "library_behind_harness (\<lambda>s. if s = manifest_text sample_result then Some (result_json sample_result) else None)
     (current_text fs) (PosixPath 1 [''p'']) (res_harness sample_result) = Inr (Some (res_library sample_result))"
    by (rule manifest_names_the_library [OF run]) (simp_all add: lib sample_library_def)
  with lib show ?thesis by auto
qed

theorem swapped_scene_holds_both_witness:
  "\<exists>scene fs. starts_with [sample_library] scene \<and> res_harness sample_result \<in> set scene \<and>
     run_is_sound sample_env (PosixPath 1 [''p'']) sample_library None [] ''certoraRun'' True sample_result fs"
proof -
  obtain fs where run: "ensure_library_harness sample_env (PosixPath 1 [''p'']) sample_library None [] ''certoraRun'' True = (Inr sample_result, fs)"
    using sample_run by (metis prod.collapse)
  have "swap_library_main_contract (\<lambda>s. None) (\<lambda>p. None) sample_env True (PosixPath 1 [''p'']) sample_library [sample_library] None ''certoraRun'' True =
      (Inr (res_harness sample_result, add_handle (res_harness sample_result) (add_handle sample_library [sample_library]), Some sample_result), fs)"
    unfolding swap_library_main_contract_def run by simp
  from swapped_scene_holds_both [OF this] show ?thesis by auto
qed

text \<open>
  Handles are compared by the spelling of their paths. The library of a manifest is spelled as the build spells it, so
  the list of a user who spells it otherwise gets the same file twice.
\<close>

lemma other_spelling_is_listed_twice:
  "add_library (Some sample_library) (res_harness sample_result) [''./L.sol''] = [''./L.sol'', ''L.sol''] \<and>
   same_source_file ''./L.sol'' ''L.sol''"
  by code_simp

end
