(* ===== verification/Harness_Provenance.thy ===== *)
theory Harness_Provenance
  imports Harness_Laws Harness_Run_Laws
begin

text \<open>
  The two records of a generated harness agree: the manifest beside the file and the sentinel in it.
\<close>

lemma ends_in_last_split:
  "c \<notin> set t \<Longrightarrow> ends_in (last (split_on c (s @ t))) t"
proof (induction s)
  case Nil
  then show ?case by (simp add: split_on_no_sep ends_in_def starts_with_def)
next
  case (Cons a s)
  then show ?case
    by (cases "split_on c (s @ t)") (auto dest: ends_in_append [of _ _ "[a]"])
qed

lemma harness_file_name:
  "ends_in (last (path_parts (user_harness_path root (harness_name_for name)))) ''.sol''"
proof -
  let ?s = "harness_name_for name @ ''.sol''"
  have rel: "path_root (pure_path ?s) = 0"
    by (simp add: pure_path_def root_of_def harness_name_for_def harness_prefix_def Let_def)
  have tail: "ends_in (last (split_on (CHR ''/'') ?s)) ''.sol''" by (rule ends_in_last_split) simp
  then have "last (split_on (CHR ''/'') ?s) \<noteq> []" "last (split_on (CHR ''/'') ?s) \<noteq> ''.''"
    by (auto simp: ends_in_def starts_with_def)
  then have "path_parts (pure_path ?s) \<noteq> []" "last (path_parts (pure_path ?s)) = last (split_on (CHR ''/'') ?s)"
    by (cases "split_on (CHR ''/'') ?s" rule: rev_cases; simp add: pure_path_def)+
  then show ?thesis
    using rel tail by (simp add: user_harness_path_def path_join_def pure_paths_of_the_run Let_def)
qed

lemma manifest_is_not_the_harness:
  "manifest_path (user_harness_path root (harness_name_for name)) \<noteq> user_harness_path root (harness_name_for name)"
proof
  assume eq: "manifest_path (user_harness_path root (harness_name_for name)) = user_harness_path root (harness_name_for name)"
  have "ends_in (last (path_parts (manifest_path (user_harness_path root (harness_name_for name))))) ''.manifest.json''"
    by (auto simp: manifest_path_def ends_in_def starts_with_iff)
  with eq harness_file_name [of root name] show False by (auto simp: ends_in_def starts_with_iff)
qed

lemma strip_Cons: "\<not> is_blank c \<Longrightarrow> \<exists>y. strip (c # x) = c # y"
proof -
  assume c: "\<not> is_blank c"
  have "dropWhile is_blank (rev x @ [c]) = dropWhile is_blank (rev x) @ [c]"
    using c by (cases "\<forall>y\<in>set (rev x). is_blank y") (auto simp: dropWhile_append3)
  with c show ?thesis by (simp add: strip_def lstrip_def rstrip_def)
qed

lemma plain_line_Cons:
  assumes "one_line (c # x)" and "\<not> is_blank c" and "c \<noteq> CHR ''/''"
  shows "plain_line (c # x)"
  using assms(1,3) strip_Cons [OF assms(2), of x] by (auto simp: plain_line_def sentinel_prefix_def starts_with_def)

lemma plain_pragma:
  assumes "case spec of None \<Rightarrow> True | Some s \<Rightarrow> one_line s"
  shows "plain_line (pragma_line_of spec)"
proof (cases "pragma_line_of spec = []")
  case True
  then show ?thesis using plain_fixed(2) by simp
next
  case False
  then obtain s where s: "spec = Some s" "pragma_line_of spec = ''pragma solidity '' @ s @ '';''"
    by (auto simp: pragma_line_of_def split: option.splits if_splits)
  have "one_line ''pragma solidity ''" "one_line '';''" "\<not> is_blank (CHR ''p'')" by code_simp+
  with assms s show ?thesis
    using plain_line_Cons [of "CHR ''p''" "''ragma solidity '' @ s @ '';''"] one_line_append [of "''pragma solidity ''" "s @ '';''"]
    by (simp add: one_line_append)
qed

lemma plain_import:
  assumes "one_line s"
  shows "plain_line (import_line s)"
proof -
  have "one_line ''import ''" "one_line dquote" "one_line '';''" "\<not> is_blank (CHR ''i'')" by code_simp+
  with assms show ?thesis
    using plain_line_Cons [of "CHR ''i''" "''mport '' @ dquote @ s @ dquote @ '';''"]
      one_line_append [of "''import ''" "dquote @ s @ dquote @ '';''"]
    by (simp add: import_line_def one_line_append)
qed

lemma one_line_join: "list_all one_line xs \<Longrightarrow> one_line sep \<Longrightarrow> one_line (join sep xs)"
  by (induction sep xs rule: join.induct) (simp_all, simp add: one_line_def)

lemma relpath_one_line: "list_all one_line (path_parts p) \<Longrightarrow> one_line (relpath p start)"
proof -
  assume p: "list_all one_line (path_parts p)"
  have fixed: "one_line ''..''" "one_line ''.''" "one_line ''/''" by code_simp+
  have "list_all one_line (replicate k ''..'' @ drop n (path_parts p))" for k n
    using p fixed(1) by (auto simp: list_all_iff dest: in_set_dropD)
  then show ?thesis unfolding relpath_def Let_def using fixed by (auto intro: one_line_join)
qed

text \<open>The record of the sentinel, as JSON.\<close>

definition sentinel_json :: "string \<Rightarrow> string \<Rightarrow> json" where
  "sentinel_json library_name digest =
     JObject [(''v'', JInt 1), (''library'', JString library_name), (''plan_hash'', JString digest)]"

text \<open>
  C32: The two records of a generated harness tell one story. After a successful run, the manifest is there beside the harness
  and, read back, has a library name and a plan hash; and the provenance read from the harness file has exactly this
  library and this hash. Assumed are: the pragma specification of the library is a single line (or missing), no component of the library's resolved path
  contains a line break, and the JSON reader reads back the two texts that were written.
\<close>

theorem sentinel_and_manifest_agree:
  assumes "ensure_library_harness env root lib solc extra cmd validate = (Inr r, fs)"
    and "case read_pragma_from_source_file env (library_path root lib) of None \<Rightarrow> True | Some s \<Rightarrow> one_line s"
    and "list_all one_line (path_parts (resolve_path env (library_path root lib)))"
    and "loads (manifest_text r) = Some (result_json r)"
    and "loads (sentinel_record (contract_name (res_library r)) (res_plan_hash r)) =
      Some (sentinel_json (contract_name (res_library r)) (res_plan_hash r))"
  shows "\<exists>text fields name digest.
    current_text fs (manifest_path (user_harness_path root (harness_name_for (contract_name lib)))) = Some text \<and>
    loads text = Some (JObject fields) \<and>
    map_of fields ''library_name'' = Some (JString name) \<and> map_of fields ''plan_hash'' = Some (JString digest) \<and>
    existing_harness_provenance loads (current_text fs) root (contract_name lib) = Some (sentinel_json name digest)"
  using assms(1)
proof (rule ensure_library_harness_Inr)
  fix first h l api p stub src before
  let ?hf = "user_harness_path root (harness_name_for (contract_name lib))"
  assume pragma: "pragma_line p = pragma_line_of (read_pragma_from_source_file env (library_path root lib))"
    and imp: "import_lines p = [library_import_line env (library_path root lib) ?hf]"
    and src: "render_harness (sha256 env) p = Inr src" "current_text before ?hf = Some src"
    and r: "r = result_of (sha256 env) p" and fs: "fs = before @ [(manifest_path ?hf, manifest_text r)]"
  have "plain_line (pragma_line p)" unfolding pragma by (rule plain_pragma) (rule assms(2))
  moreover have "list_all plain_line (import_lines p)"
    using plain_import relpath_one_line [OF assms(3)] by (simp add: imp library_import_line_def)
  ultimately have "read_sentinel loads src = Some (sentinel_json (contract_name (res_library r)) (res_plan_hash r))"
    using sentinel_reads_back [OF src(1)] assms(5) by (simp add: r result_of_def)
  then have "existing_harness_provenance loads (current_text fs) root (contract_name lib) =
      Some (sentinel_json (contract_name (res_library r)) (res_plan_hash r))"
    using src(2) manifest_is_not_the_harness [of root "contract_name lib"]
    by (auto simp: existing_harness_provenance_def fs)
  moreover have "current_text fs (manifest_path ?hf) = Some (manifest_text r)" by (simp add: fs)
  ultimately show ?thesis
    using assms(4) by (intro exI conjI) (assumption | simp add: result_json_def)+
qed

definition sample_loads :: "string \<Rightarrow> json option" where
  "sample_loads s =
     (if s = manifest_text sample_result then Some (result_json sample_result)
      else if s = sentinel_record ''L'' ''d'' then Some (sentinel_json ''L'' ''d'') else None)"

theorem sentinel_and_manifest_agree_witness:
  "\<exists>fs. existing_harness_provenance sample_loads (current_text fs) (PosixPath 1 [''p'']) ''L'' = Some (sentinel_json ''L'' ''d'')"
proof -
  obtain fs where run: "ensure_library_harness sample_env (PosixPath 1 [''p'']) sample_library None [] ''certoraRun'' True = (Inr sample_result, fs)"
    using sample_run by (metis prod.collapse)
  have "sentinel_record ''L'' ''d'' \<noteq> manifest_text sample_result" by code_simp
  then have loads: "sample_loads (manifest_text sample_result) = Some (result_json sample_result)"
    "sample_loads (sentinel_record (contract_name (res_library sample_result)) (res_plan_hash sample_result)) =
      Some (sentinel_json (contract_name (res_library sample_result)) (res_plan_hash sample_result))"
    by (simp_all add: sample_loads_def sample_result_def sample_library_def)
  have env: "case read_pragma_from_source_file sample_env (library_path (PosixPath 1 [''p'']) sample_library) of None \<Rightarrow> True | Some s \<Rightarrow> one_line s"
    "list_all one_line (path_parts (resolve_path sample_env (library_path (PosixPath 1 [''p'']) sample_library)))"
    by code_simp+
  obtain written fields name digest where m: "current_text fs (manifest_path (user_harness_path (PosixPath 1 [''p'']) (harness_name_for ''L''))) = Some written"
    "sample_loads written = Some (JObject fields)" "map_of fields ''library_name'' = Some (JString name)"
    "map_of fields ''plan_hash'' = Some (JString digest)"
    "existing_harness_provenance sample_loads (current_text fs) (PosixPath 1 [''p'']) ''L'' = Some (sentinel_json name digest)"
    using sentinel_and_manifest_agree [OF run env loads] by (auto simp: sample_library_def)
  then have "sample_loads written = Some (JObject fields)" by simp
  then have "name = ''L'' \<and> digest = ''d''"
    using m(3,4) by (auto simp: sample_loads_def sample_result_def sample_library_def result_json_def sentinel_json_def split: if_splits)
  then show ?thesis using m(5) by blast
qed

end
