(* ===== verification/Agent_Tools.thy ===== *)
theory Agent_Tools
  imports Authoring
begin

text \<open>
  The tools every authoring agent has, and the buffer they work on: \<^verbatim>\<open>composer/authoring/tools.py\<close>,
  \<^verbatim>\<open>buffer.py\<close> and the parts of \<^verbatim>\<open>judge.py\<close> that decide. A tool reads the state of its session and answers
  with a text, which leaves the state alone, or with a command (\<^verbatim>\<open>tool_state_update\<close>): a text and the channels it
  writes. A channel whose type names a reducer is merged with it, any other is replaced.

  The calls of one turn of the agent all see the state at the start of the turn, and their commands are applied
  together; a channel without a reducer takes one value per turn. Both are documented behaviour of the graph
  library the code is built on. What a backend writes beyond the shared channels is a parameter of the types.
\<close>

subsection \<open>Channels\<close>

datatype 'w channel_write =
    SpecWrite string
  | SkipWrite "skipped_property list"
  | StampWrite "(string, string) dict"
  | MarkWrite "(string, string) dict"
  | FailedWrite bool
  | ResultWrite string
  | OwnWrite 'w

datatype 'w tool_reply = Reply string | Command string "'w channel_write list"

fun writes_of :: "'w tool_reply \<Rightarrow> 'w channel_write list" where
  "writes_of (Reply t) = []"
| "writes_of (Command t ws) = ws"

text \<open>A session adds to the authoring state whether it failed, and the text it ends with.\<close>

record authored = authoring_state +
  failed :: "bool option"
  closing :: "string option" \<comment> \<open>the channel \<^verbatim>\<open>result\<close>; the session ends when it is written\<close>

fun apply_write :: "('w \<Rightarrow> 'a authored_scheme \<Rightarrow> 'a authored_scheme) \<Rightarrow> 'w channel_write \<Rightarrow>
    'a authored_scheme \<Rightarrow> 'a authored_scheme" where
  "apply_write own (SpecWrite t) s = s\<lparr>curr_spec := Some t\<rparr>"
| "apply_write own (SkipWrite u) s = s\<lparr>skipped := merge_skips (skipped s) u\<rparr>"
| "apply_write own (StampWrite u) s = s\<lparr>validations := merge_validation (validations s) u\<rparr>"
| "apply_write own (MarkWrite u) s = s\<lparr>expected_failures := merge_expected_failures (expected_failures s) u\<rparr>"
| "apply_write own (FailedWrite b) s = s\<lparr>failed := Some b\<rparr>"
| "apply_write own (ResultWrite t) s = s\<lparr>closing := Some t\<rparr>"
| "apply_write own (OwnWrite w) s = own w s"

text \<open>The channels that take one value per turn; the first argument numbers those of the backend, None for one with a reducer.\<close>

datatype channel = SpecChannel | FailedChannel | ResultChannel | OwnChannel nat

fun single_channel :: "('w \<Rightarrow> nat option) \<Rightarrow> 'w channel_write \<Rightarrow> channel option" where
  "single_channel num (SpecWrite t) = Some SpecChannel"
| "single_channel num (FailedWrite b) = Some FailedChannel"
| "single_channel num (ResultWrite t) = Some ResultChannel"
| "single_channel num (OwnWrite w) = map_option OwnChannel (num w)"
| "single_channel num _ = None"

definition merge_turn :: "('w \<Rightarrow> nat option) \<Rightarrow> ('w \<Rightarrow> 'a authored_scheme \<Rightarrow> 'a authored_scheme) \<Rightarrow> 'w tool_reply list \<Rightarrow>
    'a authored_scheme \<Rightarrow> 'a authored_scheme option" where
  \<comment> \<open>None where two commands of the turn write one channel without a reducer\<close>
  "merge_turn num own replies s =
     (let ws = concat (map writes_of replies)
      in if distinct (List.map_filter (single_channel num) ws) then Some (fold (apply_write own) ws s) else None)"

subsection \<open>The buffer\<close>

type_synonym 'e spec_validator = "string \<Rightarrow> 'e + string option"

definition apply_spec_update :: "'e spec_validator option \<Rightarrow> string \<Rightarrow> 'w option \<Rightarrow> 'e + 'w tool_reply" where
  \<comment> \<open>over the channel \<^verbatim>\<open>curr_spec\<close>; \<open>reset\<close> is the write that clears the draft flag, for a session that has one\<close>
  "apply_spec_update validator t reset =
     bindE (case validator of None \<Rightarrow> Inr None | Some v \<Rightarrow> v t)
       (\<lambda>complaint. case complaint of
          Some err \<Rightarrow> Inr (Reply err)
        | None \<Rightarrow> Inr (Command ''Accepted'' (SpecWrite t # (case reset of None \<Rightarrow> [] | Some w \<Rightarrow> [OwnWrite w]))))"

definition get_spec :: "string \<Rightarrow> 'a authoring_state_scheme \<Rightarrow> 'w tool_reply" where
  "get_spec missing s = Reply (case curr_spec s of None \<Rightarrow> missing | Some t \<Rightarrow> t)"

record ('e, 'w) edit_deps =
  edit_name :: string
  edit_missing :: string
  edit_validator :: "'e spec_validator option"
  edit_reset :: "'w option"

definition edit_spec :: "('e, 'w) edit_deps \<Rightarrow> string list \<Rightarrow> 'a authoring_state_scheme \<Rightarrow> string \<Rightarrow> string \<Rightarrow> 'e + 'w tool_reply" where
  \<comment> \<open>the second argument: the names of the tools the last message calls\<close>
  "edit_spec deps turn s old new =
     (case curr_spec s of
        None \<Rightarrow> Inr (Reply (edit_missing deps))
      | Some spec \<Rightarrow>
          if length (filter (\<lambda>n. n = edit_name deps) turn) > 1
          then Inr (Reply (''`'' @ edit_name deps @ ''` tool cannot be called in parallel within the same turn.''))
          else case replace_unique spec old new False of
                 EditErr msg \<Rightarrow> Inr (Reply msg)
               | EditOk t \<Rightarrow> apply_spec_update (edit_validator deps) t (edit_reset deps))"

subsection \<open>Skips\<close>

definition unknown_title :: "string \<Rightarrow> string list \<Rightarrow> string" where
  "unknown_title title known =
     ''Unknown property title '' @ py_repr title @ ''. Must be one of: '' @ comma_join known @ ''.''"

definition focus_refusal :: "string \<Rightarrow> string" where
  "focus_refusal title =
     ''Property '' @ py_repr title @ '' is the focus of this run and cannot be '' @
     ''skipped. Prove a smaller statement it is built out of, or formalize the '' @
     ''strongest version of it that holds and say what you could not prove '' @ em_dash @ '' but do '' @
     ''not retire it.''"

definition record_skip :: "string list \<Rightarrow> string list \<Rightarrow> bool \<Rightarrow> string \<Rightarrow> string \<Rightarrow> 'w tool_reply" where
  \<comment> \<open>the titles of the batch, the protected ones, and whether the budget monitor has ordered a wrap-up\<close>
  "record_skip known protected curtailed title justification =
     (if title \<notin> set known then Reply (unknown_title title known)
      else if title \<in> set protected \<and> \<not> curtailed then Reply (focus_refusal title)
      else if strip justification = [] then Reply ''A non-empty justification is required when skipping a property.''
      else Command (''Recorded skip for property '' @ title @ ''.'')
             [SkipWrite [\<lparr>property_title = title, reason = justification\<rparr>]])"

definition unskip :: "string list \<Rightarrow> string \<Rightarrow> 'w tool_reply" where
  "unskip known title =
     (if title \<notin> set known then Command (unknown_title title known) []
      else Command (''Removed skip for property '' @ title @ ''.'') [SkipWrite [\<lparr>property_title = title, reason = []\<rparr>]])"

subsection \<open>Giving up\<close>

definition give_up_call :: "string \<Rightarrow> 'w tool_reply" where
  "give_up_call why = Command ''Accepted'' [FailedWrite True, ResultWrite why]"

text \<open>The messages of a session: the names of the tools an answer of the agent calls, or anything else.\<close>

datatype message = AIMessage "string list" | OtherMessage

definition verify_attempts :: "message list \<Rightarrow> nat" where
  "verify_attempts msgs =
     length (filter (\<lambda>n. n = ''submit_buffer'')
       (concat (map (\<lambda>m. case m of AIMessage calls \<Rightarrow> calls | OtherMessage \<Rightarrow> []) msgs)))"

datatype give_up_sort = Environment | Exhausted

definition attempts_refusal :: "nat \<Rightarrow> nat \<Rightarrow> string" where
  "attempts_refusal tried required =
     ''Rejected: you have run the prover '' @ show_nat tried @ '' time(s) on this task, and this run '' @
     ''requires at least '' @ show_nat required @ '' before a property may be abandoned. This is the '' @
     ''property the run exists to establish. Prove a smaller statement it is built '' @
     ''out of, or formalize the strongest version of it that holds and state what '' @
     ''you could not prove '' @ em_dash @ '' then verify. Do not reach a passing rule by assuming '' @
     ''away the states where the property is interesting. If the toolchain itself '' @
     ''is broken, stop with sort='' @ squote @ ''environment'' @ squote @ '' instead.''"

definition gated_give_up :: "nat \<Rightarrow> message list \<Rightarrow> give_up_sort \<Rightarrow> string \<Rightarrow> 'w tool_reply" where
  "gated_give_up required msgs kind why =
     (let tried = verify_attempts msgs
      in if kind = Exhausted \<and> tried < required then Reply (attempts_refusal tried required)
         else Command ''Accepted'' [FailedWrite True, ResultWrite why])"

subsection \<open>The judge\<close>

record property_feedback =
  good :: bool
  feedback :: string

definition budget_abort_feedback :: property_feedback where
  "budget_abort_feedback = \<lparr>good = False, feedback =
     ''The feedback judge was terminated due to budget constraints. '' @
     ''See the system alert: feedback approval is no longer required for this task.''\<rparr>"

record rebuttal =
  prior_feedback_reference :: string
  evidence_type :: string
  evidence :: string

text \<open>The completion check of the judge: the flag \<^verbatim>\<open>drafted\<close> of its state.\<close>

definition wrote_rough_draft :: "bool \<Rightarrow> string option" where
  "wrote_rough_draft drafted =
     (if \<not> drafted then Some ''Completion REJECTED: never wrote a rough draft for review'' else None)"

text \<open>A review: the judge's run ends with feedback, or the budget monitor aborts it.\<close>

datatype judge_run = JudgeResult property_feedback | PressureAbort

fun judge_verdict :: "judge_run \<Rightarrow> property_feedback" where
  "judge_verdict (JudgeResult f) = f"
| "judge_verdict PressureAbort = budget_abort_feedback"

end
