(* ===== verification/Json_Fields.thy ===== *)
theory Json_Fields
  imports Pystr
begin

text \<open>
  Reading a field of a declared type from a JSON value, the way pydantic's models read their \<^verbatim>\<open>str\<close>, optional, list and
  dictionary fields: None where the value is not of the type. Strings are not converted.
\<close>

fun str_value :: "json \<Rightarrow> string option" where
  "str_value (JString s) = Some s"
| "str_value _ = None"

definition nullable :: "(json \<Rightarrow> 'a option) \<Rightarrow> json \<Rightarrow> 'a option option" where
  "nullable read v = (if v = JNull then Some None else map_option Some (read v))"

fun list_value :: "(json \<Rightarrow> 'a option) \<Rightarrow> json \<Rightarrow> 'a list option" where
  "list_value read (JArray vs) = (let xs = map read vs in if list_all (\<lambda>x. x \<noteq> None) xs then Some (map the xs) else None)"
| "list_value read _ = None"

fun dict_value :: "(json \<Rightarrow> 'a option) \<Rightarrow> json \<Rightarrow> (string, 'a) dict option" where
  "dict_value read (JObject kvs) =
     (let xs = map (\<lambda>(k, v). (k, read v)) kvs
      in if list_all (\<lambda>(k, x). x \<noteq> None) xs then Some (map (\<lambda>(k, x). (k, the x)) xs) else None)"
| "dict_value read _ = None"

fun object_value :: "json \<Rightarrow> (string, json) dict option" where
  "object_value (JObject kvs) = Some kvs"
| "object_value _ = None"

end
