(* ===== verification/Rust_Wire.thy ===== *)
theory Rust_Wire
  imports Report Json_Fields
begin

text \<open>
  The payloads that cross the boundary to a Rust application on every call (\<^verbatim>\<open>composer/rustapp/wire.py\<close>): the
  checks, targets and verdicts, and the parsers of what a wheel answers. The reader of JSON texts and the lenient
  conversions of numbers (pydantic's) are arguments. A class of the module rejects unknown fields and requires all
  of its own, so reading a value is exact: its keys are the fields, and each has the declared type.
\<close>

subsection \<open>Checks, targets and verdicts\<close>

record check =
  check_name :: string
  check_properties :: "string list"
  check_target :: "string option"

definition target_or_name :: "check \<Rightarrow> string" where
  "target_or_name c = (case check_target c of None \<Rightarrow> check_name c | Some t \<Rightarrow> if t = [] then check_name c else t)"

record target =
  target_name :: string
  target_checks :: "check list"

record wire_verdict =
  w_outcome :: outcome
  w_line :: "int option"
  w_duration :: "rat option"
  w_unit_file :: "string option"
  w_detail :: "string option"

definition with_outcome :: "outcome \<Rightarrow> wire_verdict" where
  "with_outcome o' = \<lparr>w_outcome = o', w_line = None, w_duration = None, w_unit_file = None, w_detail = None\<rparr>"

datatype callout_error = CalloutFailed string | ValidationError | ValidateCoverageError string

subsection \<open>Reading values\<close>

record json_reader =
  json_loads :: "string \<Rightarrow> json option" \<comment> \<open>None where the text is not JSON\<close>
  lenient_int :: "json \<Rightarrow> int option"
  lenient_float :: "json \<Rightarrow> rat option"

definition fields_of :: "string list \<Rightarrow> json \<Rightarrow> callout_error + (string, json) dict" where
  \<comment> \<open>the fields of a model that forbids extra fields and has no defaults\<close>
  "fields_of names v =
     (case v of JObject kvs \<Rightarrow> if set (keys kvs) = set names then Inr kvs else Inl ValidationError
      | _ \<Rightarrow> Inl ValidationError)"

definition field_at :: "(json \<Rightarrow> 'a option) \<Rightarrow> string \<Rightarrow> (string, json) dict \<Rightarrow> callout_error + 'a" where
  "field_at read k kvs =
     (case dget kvs k of None \<Rightarrow> Inl ValidationError
      | Some v \<Rightarrow> (case read v of None \<Rightarrow> Inl ValidationError | Some x \<Rightarrow> Inr x))"

subsection \<open>The error envelope\<close>

definition is_error_envelope :: "json \<Rightarrow> bool" where
  "is_error_envelope v = (case v of JObject kvs \<Rightarrow> dget kvs ''kind'' = Some (JString ''error'') | _ \<Rightarrow> False)"

definition callout_error_of :: "json \<Rightarrow> callout_error" where
  "callout_error_of v =
     (case bindE (fields_of [''kind'', ''message''] v) (field_at str_value ''message'') of
        Inl e \<Rightarrow> e
      | Inr message \<Rightarrow> CalloutFailed message)"

definition expect_payload :: "json_reader \<Rightarrow> string \<Rightarrow> callout_error + string" where
  "expect_payload rd raw =
     (case json_loads rd raw of
        None \<Rightarrow> Inr raw
      | Some v \<Rightarrow> if is_error_envelope v then Inl (callout_error_of v) else Inr raw)"

definition expect_text :: "json_reader \<Rightarrow> string option \<Rightarrow> callout_error + string option" where
  "expect_text rd raw =
     (case raw of None \<Rightarrow> Inr None | Some t \<Rightarrow> bindE (expect_payload rd t) (\<lambda>_. Inr (Some t)))"

definition parse_payload :: "json_reader \<Rightarrow> (json \<Rightarrow> callout_error + 'a) \<Rightarrow> string \<Rightarrow> callout_error + 'a" where
  \<comment> \<open>\<^verbatim>\<open>validate_json(expect_payload(raw))\<close>\<close>
  "parse_payload rd read raw =
     bindE (expect_payload rd raw) (\<lambda>t. case json_loads rd t of None \<Rightarrow> Inl ValidationError | Some v \<Rightarrow> read v)"

subsection \<open>What a callout returns\<close>

datatype compile_result = CompileOk | CompileFailed string

definition tag_of :: "string \<Rightarrow> json \<Rightarrow> string option" where
  "tag_of k v = (case v of JObject kvs \<Rightarrow> Option.bind (dget kvs k) str_value | _ \<Rightarrow> None)"

definition read_compile :: "json \<Rightarrow> callout_error + compile_result" where
  "read_compile v =
     (if tag_of ''status'' v = Some ''ok'' then bindE (fields_of [''status''] v) (\<lambda>_. Inr CompileOk)
      else if tag_of ''status'' v = Some ''failed''
      then bindE (fields_of [''status'', ''errors''] v) (\<lambda>kvs. bindE (field_at str_value ''errors'' kvs) (Inr \<circ> CompileFailed))
      else Inl ValidationError)"

definition parse_compile :: "json_reader \<Rightarrow> string \<Rightarrow> callout_error + compile_result" where
  "parse_compile rd = parse_payload rd read_compile"

definition read_verdict :: "json_reader \<Rightarrow> json \<Rightarrow> callout_error + wire_verdict" where
  "read_verdict rd v =
     bindE (fields_of [''outcome'', ''line'', ''duration_seconds'', ''unit_file'', ''detail''] v) (\<lambda>kvs.
     bindE (field_at (\<lambda>x. Option.bind (str_value x) parse_outcome) ''outcome'' kvs) (\<lambda>o'.
     bindE (field_at (nullable (lenient_int rd)) ''line'' kvs) (\<lambda>l.
     bindE (field_at (nullable (lenient_float rd)) ''duration_seconds'' kvs) (\<lambda>d.
     bindE (field_at (nullable str_value) ''unit_file'' kvs) (\<lambda>u.
     bindE (field_at (nullable str_value) ''detail'' kvs) (\<lambda>t.
     Inr \<lparr>w_outcome = o', w_line = l, w_duration = d, w_unit_file = u, w_detail = t\<rparr>))))))"

datatype validate_outcome = BuildFailed string | Verdicts "(string \<times> wire_verdict) list"

fun read_verdict_pair :: "json_reader \<Rightarrow> json \<Rightarrow> callout_error + (string \<times> wire_verdict)" where
  "read_verdict_pair rd (JArray [JString name, v]) = bindE (read_verdict rd v) (\<lambda>w. Inr (name, w))"
| "read_verdict_pair rd _ = Inl ValidationError"

definition read_validate :: "json_reader \<Rightarrow> json \<Rightarrow> callout_error + validate_outcome" where
  "read_validate rd v =
     (if tag_of ''kind'' v = Some ''build_failed''
      then bindE (fields_of [''kind'', ''errors''] v) (\<lambda>kvs. bindE (field_at str_value ''errors'' kvs) (Inr \<circ> BuildFailed))
      else if tag_of ''kind'' v = Some ''verdicts''
      then bindE (fields_of [''kind'', ''verdicts''] v) (\<lambda>kvs.
           case dget kvs ''verdicts'' of
             Some (JArray vs) \<Rightarrow> bindE (mapE (read_verdict_pair rd) vs) (Inr \<circ> Verdicts)
           | _ \<Rightarrow> Inl ValidationError)
      else Inl ValidationError)"

definition parse_validate :: "json_reader \<Rightarrow> string \<Rightarrow> callout_error + validate_outcome" where
  "parse_validate rd = parse_payload rd (read_validate rd)"

record prompt =
  instruction :: string
  prompt_system :: "string option"

definition read_prompt :: "json \<Rightarrow> callout_error + prompt" where
  "read_prompt v =
     bindE (fields_of [''instruction'', ''system''] v) (\<lambda>kvs.
     bindE (field_at str_value ''instruction'' kvs) (\<lambda>i.
     bindE (field_at (nullable str_value) ''system'' kvs) (\<lambda>s.
     Inr \<lparr>instruction = i, prompt_system = s\<rparr>)))"

definition parse_prompt :: "json_reader \<Rightarrow> string \<Rightarrow> callout_error + prompt" where
  "parse_prompt rd = parse_payload rd read_prompt"

definition parse_judge :: "json_reader \<Rightarrow> string \<Rightarrow> callout_error + string option" where
  \<comment> \<open>the only field of \<^verbatim>\<open>Judge\<close>, \<^verbatim>\<open>system\<close>\<close>
  "parse_judge rd = parse_payload rd (\<lambda>v. bindE (fields_of [''system''] v) (field_at (nullable str_value) ''system''))"

record workspace_prep =
  prep_files :: "(string, string) dict"
  toolchain_request :: "(string, json) dict"

definition needs_toolchain :: "workspace_prep \<Rightarrow> bool" where
  "needs_toolchain p \<longleftrightarrow> toolchain_request p \<noteq> []"

definition parse_workspace_prep :: "json_reader \<Rightarrow> string \<Rightarrow> callout_error + workspace_prep" where
  "parse_workspace_prep rd = parse_payload rd (\<lambda>v.
     bindE (fields_of [''files'', ''toolchain_request''] v) (\<lambda>kvs.
     bindE (field_at (dict_value str_value) ''files'' kvs) (\<lambda>fs.
     bindE (field_at object_value ''toolchain_request'' kvs) (\<lambda>r.
     Inr \<lparr>prep_files = fs, toolchain_request = r\<rparr>))))"

record sandbox_grants =
  extra_ro :: "string list"
  extra_env :: "string list"

definition parse_sandbox_grants :: "json_reader \<Rightarrow> string \<Rightarrow> callout_error + sandbox_grants" where
  "parse_sandbox_grants rd = parse_payload rd (\<lambda>v.
     bindE (fields_of [''extra_ro'', ''extra_env''] v) (\<lambda>kvs.
     bindE (field_at (list_value str_value) ''extra_ro'' kvs) (\<lambda>r.
     bindE (field_at (list_value str_value) ''extra_env'' kvs) (\<lambda>e.
     Inr \<lparr>extra_ro = r, extra_env = e\<rparr>))))"

definition parse_files :: "json_reader \<Rightarrow> string \<Rightarrow> callout_error + (string, string) dict" where
  "parse_files rd = parse_payload rd (\<lambda>v. case dict_value str_value v of None \<Rightarrow> Inl ValidationError | Some fs \<Rightarrow> Inr fs)"

subsection \<open>The verdicts of a target\<close>

definition first_seen :: "'a list \<Rightarrow> 'a list" where
  \<comment> \<open>\<^verbatim>\<open>list(dict.fromkeys(xs))\<close>\<close>
  "first_seen xs = rev (remdups (rev xs))"

definition coverage_error :: "target \<Rightarrow> (string \<times> wire_verdict) list \<Rightarrow> string" where
  "coverage_error t vs =
     (let covered = map check_name (target_checks t);
          answered = keys vs;
          missing = filter (\<lambda>n. n \<notin> set answered) covered;
          unknown = sorted_set (filter (\<lambda>n. n \<notin> set covered) answered);
          repeated = sorted_set (filter (\<lambda>n. count_list answered n > 1) answered)
      in ''target '' @ py_repr (target_name t) @ '' covers '' @ repr_list covered @ '', but validate answered for '' @
         repr_list (first_seen answered) @
         (if missing = [] then [] else ''; no verdict for '' @ repr_list missing) @
         (if unknown = [] then [] else ''; no such check '' @ repr_list unknown) @
         (if repeated = [] then [] else ''; more than one verdict for '' @ repr_list repeated))"

definition resolve_verdicts :: "(string \<times> wire_verdict) list \<Rightarrow> target \<Rightarrow> callout_error + (check \<times> wire_verdict) list" where
  "resolve_verdicts vs t =
     (let covered = map check_name (target_checks t);
          by_name = dict_of vs
      in if (\<exists>n\<in>set covered. dget by_name n = None) \<or> (\<exists>n\<in>set (keys by_name). n \<notin> set covered)
            \<or> (\<exists>n\<in>set (keys vs). count_list (keys vs) n > 1)
         then Inl (ValidateCoverageError (coverage_error t vs))
         else Inr (map (\<lambda>c. (c, the (dget by_name (check_name c)))) (target_checks t)))"

end
