(* ===== verification/Rust_Session.thy ===== *)
theory Rust_Session
  imports Agent_Tools Rust_Wire
begin

text \<open>
  The authoring session of a Rust application (\<^verbatim>\<open>composer/rustapp/session.py\<close>) and how its result reaches the
  report (\<^verbatim>\<open>result.py\<close>, \<^verbatim>\<open>RustFormalizer\<close> in \<^verbatim>\<open>adapter.py\<close>). The wheel's callouts, the judge and MD5 are arguments;
  a callout may answer differently at every call, so each call of a tool comes with its own answers. Events for
  the user interface are left out, and so are the tools of the session that only read (sources, memory).
\<close>

subsection \<open>Vocabulary and state\<close>

record check_vocab =
  noun_one :: string
  noun_many :: string

definition check_vocab_of :: "string option \<Rightarrow> check_vocab" where
  \<comment> \<open>from the noun of the descriptor (\<^verbatim>\<open>check_label\<close>)\<close>
  "check_vocab_of declared =
     (let noun = (case declared of None \<Rightarrow> ''check'' | Some n \<Rightarrow> if n = [] then ''check'' else n)
      in \<lparr>noun_one = noun, noun_many = noun @ ''s''\<rparr>)"

type_synonym check_mapping = "(string \<times> string list) list"

record rust_state = authored +
  declared_mapping :: check_mapping \<comment> \<open>the channel \<^verbatim>\<open>property_checks\<close>\<close>
  ran_verdicts :: "(string, wire_verdict) dict"
  ran_targets :: "target list"

datatype rust_write = MapWrite check_mapping | VerdictsWrite "(string, wire_verdict) dict" | RanWrite "target list"

fun rust_own :: "rust_write \<Rightarrow> rust_state \<Rightarrow> rust_state" where
  "rust_own (MapWrite m) s = s\<lparr>declared_mapping := m\<rparr>"
| "rust_own (VerdictsWrite v) s = s\<lparr>ran_verdicts := v\<rparr>"
| "rust_own (RanWrite t) s = s\<lparr>ran_targets := t\<rparr>"

fun rust_channel :: "rust_write \<Rightarrow> nat option" where
  "rust_channel (MapWrite m) = Some 0"
| "rust_channel (VerdictsWrite v) = Some 1"
| "rust_channel (RanWrite t) = Some 2"

definition validate_key :: string where "validate_key = ''validate''"

definition compile_key :: string where "compile_key = ''compile''"

definition feedback_key :: string where "feedback_key = ''feedback''"

definition compile_stamper :: "(string \<Rightarrow> string) \<Rightarrow> stamper" where
  "compile_stamper md5 = make_validation_stamper md5 compile_key"

definition validate_stamper :: "(string \<Rightarrow> string) \<Rightarrow> stamper" where
  "validate_stamper md5 = make_verdict_stamper md5 validate_key"

definition feedback_stamper :: "(string \<Rightarrow> string) \<Rightarrow> stamper" where
  "feedback_stamper md5 = make_validation_stamper md5 feedback_key"

definition rust_stampers :: "(string \<Rightarrow> string) \<Rightarrow> stamper list" where
  "rust_stampers md5 = [compile_stamper md5, validate_stamper md5, feedback_stamper md5]"

definition rust_mapping_vocab :: mapping_vocab where
  "rust_mapping_vocab = \<lparr>check_noun = ''check'', field_name = ''property_checks'', ran_source = ''the stamping validate_spec run''\<rparr>"

subsection \<open>What is declared, and what runs\<close>

definition properties_of :: "check_mapping \<Rightarrow> string \<Rightarrow> string list" where
  "properties_of m name = map fst (filter (\<lambda>e. name \<in> set (snd e)) m)"

definition declared_names :: "check_mapping \<Rightarrow> string list" where
  "declared_names m = first_seen (concat (map (\<lambda>e. map strip (filter (\<lambda>n. strip n \<noteq> []) (snd e))) m))"

text \<open>The callouts of a wheel, at one call of a tool; the input, the directory and the sandbox are fixed.\<close>

record wheel =
  w_check_syntax :: "string \<Rightarrow> string option"
  w_target_for :: "string \<Rightarrow> string option"
  w_compile :: "string \<Rightarrow> string"
  w_validate :: "string \<Rightarrow> target \<Rightarrow> string"

definition declared_check :: "json_reader \<Rightarrow> wheel \<Rightarrow> check_mapping \<Rightarrow> string \<Rightarrow> callout_error + check" where
  "declared_check rd w m name =
     bindE (expect_text rd (w_target_for w name))
       (\<lambda>t. Inr \<lparr>check_name = name, check_properties = properties_of m name, check_target = t\<rparr>)"

definition declared_checks :: "json_reader \<Rightarrow> wheel \<Rightarrow> check_mapping \<Rightarrow> callout_error + check list" where
  "declared_checks rd w m = mapE (declared_check rd w m) (declared_names m)"

definition targets_of :: "check list \<Rightarrow> target list" where
  "targets_of checks =
     map (\<lambda>n. \<lparr>target_name = n, target_checks = filter (\<lambda>c. target_or_name c = n) checks\<rparr>)
       (first_seen (map target_or_name checks))"

definition unexplained :: "(string, wire_verdict) dict \<Rightarrow> (string, string) dict \<Rightarrow> string list" where
  "unexplained verdicts expected =
     map fst (filter (\<lambda>(n, v). w_outcome v \<noteq> Good \<and> n \<notin> set (keys expected)) verdicts)"

definition verdict_line :: "(string, string) dict \<Rightarrow> string \<times> wire_verdict \<Rightarrow> string" where
  "verdict_line expected nv =
     (case nv of (n, v) \<Rightarrow>
        ''  '' @ n @ '': '' @ outcome_name (w_outcome v) @
        (if n \<in> set (keys expected) then '' (expected to fail)'' else []) @
        (case w_detail v of None \<Rightarrow> [] | Some t \<Rightarrow> if t = [] then [] else '' '' @ em_dash @ '' '' @ t))"

definition verdict_report :: "(string, wire_verdict) dict \<Rightarrow> (string, string) dict \<Rightarrow> string" where
  "verdict_report verdicts expected =
     ''Validation results:'' @ newline @ join newline (map (verdict_line expected) verdicts)"

subsection \<open>The gate tools\<close>

definition no_spec_yet :: string where
  "no_spec_yet = ''No spec written yet '' @ em_dash @ '' use `put_spec` first.''"

definition compile_spec :: "(string \<Rightarrow> string) \<Rightarrow> json_reader \<Rightarrow> wheel \<Rightarrow> rust_state \<Rightarrow> callout_error + rust_write tool_reply" where
  "compile_spec md5 rd w s =
     (case curr_spec s of
        None \<Rightarrow> Inr (Reply no_spec_yet)
      | Some spec \<Rightarrow>
          bindE (parse_compile rd (w_compile w spec)) (\<lambda>r. case r of
            CompileFailed errors \<Rightarrow> Inr (Reply (''The build FAILED.'' @ newline @ newline @ errors))
          | CompileOk \<Rightarrow> Inr (Command ''The build succeeded.''
                [StampWrite (compile_stamper md5 (authoring_state.truncate s) [])])))"

fun run_all_targets :: "json_reader \<Rightarrow> wheel \<Rightarrow> string \<Rightarrow> target list \<Rightarrow> (string, wire_verdict) dict \<Rightarrow>
    callout_error + (string + (string, wire_verdict) dict)" where
  \<comment> \<open>the errors of a failed build, or the verdicts\<close>
  "run_all_targets rd w spec [] verdicts = Inr (Inr verdicts)"
| "run_all_targets rd w spec (t # ts) verdicts =
     bindE (parse_validate rd (w_validate w spec t)) (\<lambda>res. case res of
       BuildFailed errors \<Rightarrow> Inr (Inl errors)
     | Verdicts vs \<Rightarrow> bindE (resolve_verdicts vs t) (\<lambda>pairs.
         run_all_targets rd w spec ts (fold (\<lambda>(c, v). dset (check_name c) v) pairs verdicts)))"

definition select_checks :: "check_vocab \<Rightarrow> string list option \<Rightarrow> check list \<Rightarrow> string + check list" where
  "select_checks vocab only wanted =
     (case only of
        None \<Rightarrow> Inr wanted
      | Some asked \<Rightarrow>
          let unknown = sorted_set (filter (\<lambda>n. n \<notin> set (map check_name wanted)) asked)
          in if unknown \<noteq> []
             then Inl (''Unknown '' @ noun_one vocab @ '' name(s): '' @ comma_join unknown @ ''. The declared '' @
                    noun_many vocab @ '' are: '' @ comma_join (map check_name wanted) @ ''.'')
             else Inr (filter (\<lambda>c. check_name c \<in> set asked) wanted))"

definition nothing_declared :: "check_vocab \<Rightarrow> string" where
  "nothing_declared vocab =
     ''No '' @ noun_many vocab @ '' declared yet, so there is nothing to run. Use `map_checks` '' @
     ''to say which '' @ noun_many vocab @ '' in your spec verify which property '' @ em_dash @ '' only those '' @
     ''names are run.''"

definition gate_not_satisfied :: "check_vocab \<Rightarrow> string list \<Rightarrow> string" where
  "gate_not_satisfied vocab names =
     ''The publish gate is NOT satisfied: '' @ comma_join (sorted_set names) @ '' '' @
     ''did not pass. Fix the spec, or '' @ em_dash @ '' if the failure is the finding '' @ em_dash @ '' mark the '' @
     noun_one vocab @ '' with `expect_check_failure` and a reason.''"

definition validation_reply :: "(string \<Rightarrow> string) \<Rightarrow> check_vocab \<Rightarrow> rust_state \<Rightarrow> bool \<Rightarrow> target list \<Rightarrow>
    (string, wire_verdict) dict \<Rightarrow> rust_write tool_reply" where
  "validation_reply md5 vocab s partial_run covered verdicts =
     (let report = verdict_report verdicts (expected_failures s);
          open_names = unexplained verdicts (expected_failures s)
      in if partial_run
         then Reply (report @ newline @ newline @ ''This was a partial run, so it does not satisfy the publish gate.'')
         else if open_names \<noteq> [] then Reply (report @ newline @ newline @ gate_not_satisfied vocab open_names)
         else Command (report @ newline @ newline @ ''Every declared '' @ noun_one vocab @
                '' is accounted for; the publish gate is '' @
                ''satisfied.'')
                [OwnWrite (VerdictsWrite verdicts), OwnWrite (RanWrite covered),
                 StampWrite (validate_stamper md5 (authoring_state.truncate s) [])])"

definition validate_spec :: "(string \<Rightarrow> string) \<Rightarrow> check_vocab \<Rightarrow> json_reader \<Rightarrow> wheel \<Rightarrow> rust_state \<Rightarrow> string list option \<Rightarrow>
    callout_error + rust_write tool_reply" where
  "validate_spec md5 vocab rd w s only =
     (case curr_spec s of
        None \<Rightarrow> Inr (Reply no_spec_yet)
      | Some spec \<Rightarrow>
          bindE (declared_checks rd w (declared_mapping s)) (\<lambda>wanted.
            if wanted = [] then Inr (Reply (nothing_declared vocab))
            else case select_checks vocab only wanted of
              Inl complaint \<Rightarrow> Inr (Reply complaint)
            | Inr chosen \<Rightarrow>
                let covered = targets_of chosen
                in bindE (run_all_targets rd w spec covered []) (\<lambda>res. case res of
                     Inl errors \<Rightarrow> Inr (Reply (''The build FAILED, so nothing was checked.'' @ newline @ newline @ errors))
                   | Inr verdicts \<Rightarrow> Inr (validation_reply md5 vocab s (only \<noteq> None) covered verdicts))))"

subsection \<open>Markings, mapping and review\<close>

definition expect_check_failure :: "string \<Rightarrow> string \<Rightarrow> rust_write tool_reply" where
  "expect_check_failure name why =
     (if strip why = [] then Reply ''A non-empty reason is required when marking it as expected to fail.''
      else Command ''Recorded.'' [MarkWrite [(name, why)]])"

definition expect_check_passage :: "string \<Rightarrow> rust_write tool_reply" where
  "expect_check_passage name = Command ''Recorded.'' [MarkWrite [(name, [])]]"

definition map_checks :: "check_mapping \<Rightarrow> rust_write tool_reply" where
  "map_checks m =
     (let names = declared_names m
      in if names = []
         then Reply ''That declares no checks at all. Name at least one per property you did not skip.''
         else Command (''Recorded: '' @ show_nat (length m) @ '' propert'' @
                (if length m = 1 then ''y'' else ''ies'') @ '' mapped onto '' @ comma_join names @
                ''. `validate_spec` now runs only these names.'') [OwnWrite (MapWrite m)])"

type_synonym rust_judge = "string \<Rightarrow> skipped_property list \<Rightarrow> rebuttal list \<Rightarrow> judge_run"

definition bool_text :: "bool \<Rightarrow> string" where
  "bool_text b = (if b then ''True'' else ''False'')"

definition feedback_tool :: "(string \<Rightarrow> string) \<Rightarrow> rust_judge \<Rightarrow> rust_state \<Rightarrow> rebuttal list \<Rightarrow> rust_write tool_reply" where
  "feedback_tool md5 judge s rebuttals =
     (case curr_spec s of
        None \<Rightarrow> Reply (''No spec written yet '' @ em_dash @ '' there is nothing to review.'')
      | Some spec \<Rightarrow>
          let res = judge_verdict (judge spec (skipped s) rebuttals);
              body = ''Accepted? '' @ bool_text (good res) @ newline @ ''Feedback:'' @ newline @ feedback res
          in if \<not> good res then Reply body
             else Command body [StampWrite (feedback_stamper md5 (authoring_state.truncate s) [])])"

text \<open>What the judge is given to read.\<close>

definition skip_parts :: "skipped_property list \<Rightarrow> string list" where
  "skip_parts skips =
     (if skips = [] then []
      else ''The author declined to formalize these properties:'' #
           map (\<lambda>s. ''  Property '' @ property_title s @ '': '' @ reason s) skips)"

definition rebuttal_part :: "nat \<times> rebuttal \<Rightarrow> string" where
  "rebuttal_part ir =
     (case ir of (i, r) \<Rightarrow>
        ''  Rebuttal '' @ show_nat i @ '' ['' @ evidence_type r @ '']'' @ newline @
        ''    Addressing: '' @ prior_feedback_reference r @ newline @
        ''    Evidence: '' @ evidence r)"

definition judge_input_parts :: "string \<Rightarrow> skipped_property list \<Rightarrow> rebuttal list \<Rightarrow> string list" where
  "judge_input_parts spec skips rebuttals =
     [''The proposed spec is'', spec] @ skip_parts skips @
     (if rebuttals = [] then []
      else (''The author has filed the following rebuttals against feedback from prior '' @
            ''rounds. Evidence produced by a tool carries near-binding weight; a reasoned '' @
            ''rebuttal is a conversation, not a veto.'') #
           map rebuttal_part (zip [1..<Suc (length rebuttals)] rebuttals))"

subsection \<open>Publishing\<close>

definition publish_spec :: "(string \<Rightarrow> string) \<Rightarrow> string list \<Rightarrow> rust_state \<Rightarrow> string \<Rightarrow> authoring_error + rust_write tool_reply" where
  "publish_spec md5 titles s commentary =
     bindE (check_completion (authoring_state.truncate s) (rust_stampers md5) [] nothing_written_default)
       (\<lambda>complaint. case complaint of
          Some err \<Rightarrow> Inr (Reply err)
        | None \<Rightarrow>
            (case validate_check_mapping (declared_mapping s) (skipped s) titles rust_mapping_vocab
                    (Some (concat (map (\<lambda>t. map check_name (target_checks t)) (ran_targets s)))) of
               Some err \<Rightarrow> Inr (Reply err)
             | None \<Rightarrow> Inr (Command ''Accepted'' [ResultWrite commentary, FailedWrite False])))"

definition publish_setup :: "(string \<Rightarrow> string) \<Rightarrow> rust_state \<Rightarrow> string \<Rightarrow> authoring_error + rust_write tool_reply" where
  "publish_setup md5 s commentary =
     bindE (check_completion (authoring_state.truncate s) (rust_stampers md5) [] nothing_written_default)
       (\<lambda>complaint. case complaint of
          Some err \<Rightarrow> Inr (Reply err)
        | None \<Rightarrow> Inr (Command ''Accepted'' [ResultWrite commentary, FailedWrite False]))"

subsection \<open>The session\<close>

datatype session_kind = ComponentSession | SetupSession

record rust_config =
  cfg_kind :: session_kind
  cfg_titles :: "string list"
  cfg_judged :: bool
  cfg_vocab :: check_vocab

definition required_gates :: "rust_config \<Rightarrow> string list" where
  "required_gates cfg =
     [if cfg_kind cfg = ComponentSession then validate_key else compile_key] @
     (if cfg_judged cfg then [feedback_key] else [])"

definition rust_start :: "rust_config \<Rightarrow> rust_state" where
  "rust_start cfg =
     \<lparr>curr_spec = None, skipped = [], validations = [], required_validations = required_gates cfg, expected_failures = [],
      failed = None, closing = None, declared_mapping = [], ran_verdicts = [], ran_targets = []\<rparr>"

datatype rust_call =
    PutSpec string
  | GetSpec
  | EditSpec string string
  | GiveUp string
  | MapChecks check_mapping
  | ValidateSpec "string list option"
  | CompileSpec
  | RecordSkip string string
  | Unskip string
  | ExpectCheckFailure string string
  | ExpectCheckPassage string
  | Feedback "rebuttal list"
  | PublishSpec string
  | PublishSetup string

fun tool_name :: "rust_call \<Rightarrow> string" where
  "tool_name (PutSpec _) = ''put_spec''"
| "tool_name GetSpec = ''get_spec''"
| "tool_name (EditSpec _ _) = ''edit_spec''"
| "tool_name (GiveUp _) = ''give_up''"
| "tool_name (MapChecks _) = ''map_checks''"
| "tool_name (ValidateSpec _) = ''validate_spec''"
| "tool_name CompileSpec = ''compile_spec''"
| "tool_name (RecordSkip _ _) = ''record_skip''"
| "tool_name (Unskip _) = ''unskip_property''"
| "tool_name (ExpectCheckFailure _ _) = ''expect_check_failure''"
| "tool_name (ExpectCheckPassage _) = ''expect_check_passage''"
| "tool_name (Feedback _) = ''feedback_tool''"
| "tool_name (PublishSpec _) = ''result''"
| "tool_name (PublishSetup _) = ''result''"

text \<open>The tools of a session, by its kind and whether the wheel declares a judge for its input.\<close>

fun offered :: "rust_config \<Rightarrow> rust_call \<Rightarrow> bool" where
  "offered cfg (MapChecks _) = (cfg_kind cfg = ComponentSession)"
| "offered cfg (ValidateSpec _) = (cfg_kind cfg = ComponentSession)"
| "offered cfg (RecordSkip _ _) = (cfg_kind cfg = ComponentSession)"
| "offered cfg (Unskip _) = (cfg_kind cfg = ComponentSession)"
| "offered cfg (ExpectCheckFailure _ _) = (cfg_kind cfg = ComponentSession)"
| "offered cfg (ExpectCheckPassage _) = (cfg_kind cfg = ComponentSession)"
| "offered cfg (PublishSpec _) = (cfg_kind cfg = ComponentSession)"
| "offered cfg CompileSpec = (cfg_kind cfg = SetupSession)"
| "offered cfg (PublishSetup _) = (cfg_kind cfg = SetupSession)"
| "offered cfg (Feedback _) = cfg_judged cfg"
| "offered cfg _ = True"

record rust_world =
  reader :: json_reader
  wheel_now :: wheel
  judge_now :: rust_judge

datatype rust_error = CalloutRaised callout_error | StateRaised authoring_error

definition syntax_check :: "json_reader \<Rightarrow> wheel \<Rightarrow> callout_error spec_validator" where
  "syntax_check rd w spec = expect_text rd (w_check_syntax w spec)"

definition rust_edit_deps :: "json_reader \<Rightarrow> wheel \<Rightarrow> (callout_error, rust_write) edit_deps" where
  "rust_edit_deps rd w = \<lparr>edit_name = ''edit_spec'', edit_missing = no_spec_yet,
     edit_validator = Some (syntax_check rd w), edit_reset = None\<rparr>"

definition raised :: "('a \<Rightarrow> 'b) \<Rightarrow> 'a + 'c \<Rightarrow> 'b + 'c" where
  "raised f r = (case r of Inl e \<Rightarrow> Inl (f e) | Inr x \<Rightarrow> Inr x)"

fun rust_tool :: "(string \<Rightarrow> string) \<Rightarrow> rust_config \<Rightarrow> string list \<Rightarrow> rust_state \<Rightarrow> rust_world \<times> rust_call \<Rightarrow>
    rust_error + rust_write tool_reply" where
  "rust_tool md5 cfg turn s (wd, PutSpec t) =
     raised CalloutRaised (apply_spec_update (Some (syntax_check (reader wd) (wheel_now wd))) t None)"
| "rust_tool md5 cfg turn s (wd, GetSpec) = Inr (get_spec ''No spec written yet'' s)"
| "rust_tool md5 cfg turn s (wd, EditSpec old new) =
     raised CalloutRaised (edit_spec (rust_edit_deps (reader wd) (wheel_now wd)) turn s old new)"
| "rust_tool md5 cfg turn s (wd, GiveUp why) = Inr (give_up_call why)"
| "rust_tool md5 cfg turn s (wd, MapChecks m) = Inr (map_checks m)"
| "rust_tool md5 cfg turn s (wd, ValidateSpec only) =
     raised CalloutRaised (validate_spec md5 (cfg_vocab cfg) (reader wd) (wheel_now wd) s only)"
| "rust_tool md5 cfg turn s (wd, CompileSpec) = raised CalloutRaised (compile_spec md5 (reader wd) (wheel_now wd) s)"
| "rust_tool md5 cfg turn s (wd, RecordSkip title why) = Inr (record_skip (cfg_titles cfg) [] False title why)"
| "rust_tool md5 cfg turn s (wd, Unskip title) = Inr (unskip (cfg_titles cfg) title)"
| "rust_tool md5 cfg turn s (wd, ExpectCheckFailure name why) = Inr (expect_check_failure name why)"
| "rust_tool md5 cfg turn s (wd, ExpectCheckPassage name) = Inr (expect_check_passage name)"
| "rust_tool md5 cfg turn s (wd, Feedback rs) = Inr (feedback_tool md5 (judge_now wd) s rs)"
| "rust_tool md5 cfg turn s (wd, PublishSpec c) = raised StateRaised (publish_spec md5 (cfg_titles cfg) s c)"
| "rust_tool md5 cfg turn s (wd, PublishSetup c) = raised StateRaised (publish_setup md5 s c)"

text \<open>
  A session is a sequence of turns. In a turn the agent calls tools of the session; all calls see the state at its
  start, and the commands they return are merged. A turn in which a tool raises, or two commands write one
  single-valued channel, ends the session with an exception and has no successor. The log has the turns, the
  latest first: the state each started from, its calls and what they returned.
\<close>

type_synonym rust_turn = "rust_state \<times> (rust_world \<times> rust_call) list \<times> rust_write tool_reply list"

definition rust_turn_replies :: "(string \<Rightarrow> string) \<Rightarrow> rust_config \<Rightarrow> rust_state \<Rightarrow> (rust_world \<times> rust_call) list \<Rightarrow>
    rust_error + rust_write tool_reply list" where
  "rust_turn_replies md5 cfg s calls = mapE (rust_tool md5 cfg (map (tool_name \<circ> snd) calls) s) calls"

inductive rust_session :: "(string \<Rightarrow> string) \<Rightarrow> rust_config \<Rightarrow> rust_state \<Rightarrow> rust_turn list \<Rightarrow> bool" for md5 cfg where
  rust_begin: "rust_session md5 cfg (rust_start cfg) []"
| rust_turn: "rust_session md5 cfg s hist \<Longrightarrow> closing s = None \<Longrightarrow> list_all (offered cfg \<circ> snd) calls \<Longrightarrow>
    rust_turn_replies md5 cfg s calls = Inr replies \<Longrightarrow>
    merge_turn rust_channel rust_own replies s = Some s' \<Longrightarrow> rust_session md5 cfg s' ((s, calls, replies) # hist)"

record session_result =
  sr_commentary :: string
  sr_spec :: string
  sr_skipped :: "skipped_property list"
  sr_checks :: check_mapping
  sr_verdicts :: "(string, wire_verdict) dict"
  sr_ran :: "target list"
  sr_expected :: "(string, string) dict"

datatype session_outcome = Published session_result | GaveUp string | AssertionFailed

definition session_outcome_of :: "rust_state \<Rightarrow> session_outcome" where
  \<comment> \<open>what \<^verbatim>\<open>run_session\<close> makes of the state the graph ended in\<close>
  "session_outcome_of s =
     (case (closing s, failed s) of
        (Some t, Some True) \<Rightarrow> GaveUp t
      | (Some t, Some False) \<Rightarrow>
          (case curr_spec s of
             None \<Rightarrow> AssertionFailed
           | Some spec \<Rightarrow> Published \<lparr>sr_commentary = t, sr_spec = spec, sr_skipped = skipped s, sr_checks = declared_mapping s,
               sr_verdicts = ran_verdicts s, sr_ran = ran_targets s, sr_expected = expected_failures s\<rparr>)
      | _ \<Rightarrow> AssertionFailed)"

subsection \<open>From the session to the report\<close>

record rust_formal_result =
  rf_commentary :: string
  rf_artifact :: string
  rf_checks :: check_mapping
  rf_skipped :: "skipped_property list"
  rf_verdicts :: "(string, wire_verdict) dict"
  rf_targets :: "target list"

definition formal_result :: "session_result \<Rightarrow> rust_formal_result" where
  "formal_result r = \<lparr>rf_commentary = sr_commentary r, rf_artifact = sr_spec r, rf_checks = sr_checks r,
     rf_skipped = sr_skipped r, rf_verdicts = sr_verdicts r, rf_targets = sr_ran r\<rparr>"

definition checks_by_name :: "rust_formal_result \<Rightarrow> (string, string list) dict" where
  \<comment> \<open>\<^verbatim>\<open>check_properties\<close>: the mapping inverted\<close>
  "checks_by_name r =
     fold (\<lambda>(title, names). fold (\<lambda>n. append_at n title) names) (rf_checks r) []"

text \<open>A result with where it was delivered, as the report collects it, and the hook that supplies its verdicts.\<close>

definition formalized_of :: "string \<Rightarrow> string \<Rightarrow> string option \<Rightarrow> rust_formal_result \<Rightarrow> formalized" where
  "formalized_of deliver file link r =
     \<lparr>result_skipped = rf_skipped r, property_checks = rf_checks r, deliverable = deliver, unit_file = file, run_link = link\<rparr>"

definition report_verdict :: "string \<Rightarrow> wire_verdict \<Rightarrow> verdict" where
  "report_verdict file v =
     \<lparr>outcome = w_outcome v, v_line = w_line v, v_duration = w_duration v,
      v_unit_file = Some (file_or (w_unit_file v) file), v_message = w_detail v, v_link = None\<rparr>"

definition rust_fetch_verdicts :: "rust_formal_result \<Rightarrow> string \<Rightarrow> (string, verdict) dict" where
  "rust_fetch_verdicts r file = map (\<lambda>(n, v). (n, report_verdict file v)) (rf_verdicts r)"

end
