(* ===== verification/Agent_Laws.thy ===== *)
theory Agent_Laws
  imports Agent_Tools Authoring_Laws
begin

text \<open>
  What holds of every authoring session, whatever tools its backend gives the agent: an invariant of the writes of the
  tools is an invariant of the turns, skips stay within the batch, and a gate with a stamper for each of its keys does not raise.
\<close>

subsection \<open>Turns\<close>

lemma mapE_list_all2: "mapE f xs = Inr ys \<Longrightarrow> list_all2 (\<lambda>x y. f x = Inr y) xs ys"
  by (induction xs arbitrary: ys) (auto simp: bindE_Inr_iff)

text \<open>The tools of a backend, specified by the writes each call may produce.\<close>

locale tool_session =
  fixes num :: "'w \<Rightarrow> nat option"
    and own :: "'w \<Rightarrow> 'a authored_scheme \<Rightarrow> 'a authored_scheme"
    and tool :: "string list \<Rightarrow> 'a authored_scheme \<Rightarrow> 'c \<Rightarrow> 'e + 'w tool_reply"
    and effect :: "'a authored_scheme \<Rightarrow> 'c \<Rightarrow> 'w channel_write list \<Rightarrow> bool"
  assumes effect_of_tool: "tool turn s c = Inr r \<Longrightarrow> effect s c (writes_of r)"
begin

lemma replies_invariant:
  assumes "mapE (tool turn s) calls = Inr replies" and "merge_turn num own replies s0 = Some s'" and "P s0"
    and step: "\<And>c ws s1. c \<in> set calls \<Longrightarrow> effect s c ws \<Longrightarrow> P s1 \<Longrightarrow> P (fold (apply_write own) ws s1)"
  shows "P s'"
proof -
  have "list_all2 (\<lambda>c r. effect s c (writes_of r)) calls replies"
    using mapE_list_all2 [OF assms(1)] by (rule list_all2_mono) (rule effect_of_tool)
  then have "P (fold (apply_write own) (concat (map writes_of replies)) s1)"
    if "P s1" "\<forall>c\<in>set calls. \<forall>ws s1. effect s c ws \<longrightarrow> P s1 \<longrightarrow> P (fold (apply_write own) ws s1)" for s1
    using that
  proof (induction arbitrary: s1 rule: list_all2_induct)
    case (Cons x xs y ys)
    then have "P (fold (apply_write own) (writes_of y) s1)" by simp
    then show ?case using Cons.IH Cons.prems(2) by simp
  qed simp
  from this [OF assms(3)] step show ?thesis using assms(2) by (auto simp: merge_turn_def Let_def split: if_splits)
qed

end

subsection \<open>Skips\<close>

definition skips_known :: "string list \<Rightarrow> 'a authoring_state_scheme \<Rightarrow> bool" where
  "skips_known titles s \<longleftrightarrow> skips_ok (skipped s) \<and> property_title ` set (skipped s) \<subseteq> set titles"

lemma titles_merge_skips: "property_title ` set (merge_skips l r) \<subseteq> property_title ` set l \<union> property_title ` set r"
proof -
  have "set (vals (fold (\<lambda>s. dset (property_title s) s) r d)) \<subseteq> set (vals d) \<union> set r"
    for r :: "skipped_property list" and d
  proof (induction r arbitrary: d)
    case (Cons a r)
    have "set (vals (dset (property_title a) a d)) \<subseteq> insert a (set (vals d))" by (induction d) auto
    with Cons [of "dset (property_title a) a d"] show ?case by auto
  qed simp
  from this [where r = r and d = "fold (\<lambda>s. dset (property_title s) s) l []"] this [where r = l and d = "[]"]
  have "set (vals (fold (\<lambda>s. dset (property_title s) s) r (fold (\<lambda>s. dset (property_title s) s) l []))) \<subseteq> set l \<union> set r"
    by fastforce
  then show ?thesis by (auto simp: merge_skips_def Let_def)
qed

lemma skips_known_merge:
  assumes "skips_known titles s" and "title \<in> set titles"
  shows "skips_known titles (s\<lparr>skipped := merge_skips (skipped s) [\<lparr>property_title = title, reason = why\<rparr>]\<rparr>)"
proof -
  have "property_title ` set (merge_skips (skipped s) [\<lparr>property_title = title, reason = why\<rparr>]) \<subseteq> set titles"
    by (rule order_trans [OF titles_merge_skips]) (use assms in \<open>auto simp: skips_known_def\<close>)
  then show ?thesis using merge_skips_ok by (simp add: skips_known_def)
qed

subsection \<open>The gate\<close>

lemma truncated [simp]:
  "curr_spec (authoring_state.truncate s) = curr_spec s" "validations (authoring_state.truncate s) = validations s"
  "required_validations (authoring_state.truncate s) = required_validations s"
  by (simp_all add: authoring_state.defs)

lemma check_required_total:
  "\<forall>k\<in>set ks. dget current k \<noteq> None \<Longrightarrow> check_required current stamps ks \<noteq> Inl e"
  by (induction ks) (auto split: option.splits)

end
