(* ===== verification/Rust_Session_Laws.thy ===== *)
theory Rust_Session_Laws
  imports Rust_Session Agent_Laws "HOL-Library.Multiset"
begin

text \<open>
  What an authoring session of a Rust application guarantees. A run covers exactly the declared checks; what is
  published was validated, by a run of all declared checks on a draft with the same digest, and every property is
  skipped or carried by checks of that run; a session that ends has an outcome. Two theorems state where the code
  falls short: a draft written in the turn that publishes, and a check name with blanks around it.
\<close>

subsection \<open>Targets and verdicts\<close>

lemma set_first_seen [simp]: "set (first_seen xs) = set xs"
  by (simp add: first_seen_def)

lemma distinct_first_seen [simp]: "distinct (first_seen xs)"
  by (simp add: first_seen_def)

lemma first_seen_Nil_iff [simp]: "first_seen xs = [] \<longleftrightarrow> xs = []"
  using set_first_seen [of xs] by (metis set_empty)

lemma mset_grouped:
  "distinct ns \<Longrightarrow> mset (concat (map (\<lambda>n. filter (\<lambda>c. f c = n) cs) ns)) = filter_mset (\<lambda>c. f c \<in> set ns) (mset cs)"
proof (induction ns)
  case (Cons n ns)
  have "filter_mset (\<lambda>c. f c \<in> set (n # ns)) (mset cs) =
      filter_mset (\<lambda>c. f c = n) (mset cs) + filter_mset (\<lambda>c. f c \<in> set ns) (mset cs)"
    using Cons.prems by (induction cs) auto
  with Cons show ?case by simp
qed simp

lemma mset_targets_of: "mset (concat (map target_checks (targets_of cs))) = mset cs"
proof -
  have "mset (concat (map target_checks (targets_of cs))) =
      filter_mset (\<lambda>c. target_or_name c \<in> set (first_seen (map target_or_name cs))) (mset cs)"
    unfolding targets_of_def map_map comp_def target.simps by (rule mset_grouped) simp
  also have "\<dots> = mset cs" by (simp add: filter_mset_eq_conv)
  finally show ?thesis .
qed

lemma set_targets_of [simp]: "set (concat (map target_checks (targets_of cs))) = set cs"
  using mset_targets_of [of cs] by (metis set_mset_mset)

text \<open>
  The runs of a validation partition the checks: the targets have distinct names, each check is in exactly one of them
  (as often as it was asked for), the one it names, and every target has a check.
\<close>

theorem targets_partition_the_checks:
  "mset (concat (map target_checks (targets_of cs))) = mset cs \<and> distinct (map target_name (targets_of cs)) \<and>
   list_all (\<lambda>t. target_checks t \<noteq> [] \<and> list_all (\<lambda>c. target_or_name c = target_name t) (target_checks t)) (targets_of cs)"
proof -
  have "distinct (map target_name (targets_of cs))" by (simp add: targets_of_def comp_def)
  moreover have "list_all (\<lambda>t. target_checks t \<noteq> [] \<and> list_all (\<lambda>c. target_or_name c = target_name t) (target_checks t)) (targets_of cs)"
    by (auto simp: targets_of_def list_all_iff filter_empty_conv)
  ultimately show ?thesis by (simp add: mset_targets_of)
qed

lemma some_repeated: "(\<exists>n\<in>set xs. count_list xs n > 1) \<longleftrightarrow> \<not> distinct xs"
  by (auto simp: distinct_count not_le) (metis count_list_0_iff not_less_zero)

lemma dict_of_keys: "set (keys (dict_of xs)) = set (keys xs)"
  using dget_dict_of_None [of xs] dget_None_iff [of "dict_of xs"] by (auto simp: image_iff)

text \<open>
  A wheel's verdicts are taken exactly when they name each check of the target once and nothing else, in any order;
  then every check of the target is paired, in the order of the target, with the verdict that names it.
\<close>

theorem verdicts_resolve_iff_they_cover_the_target:
  "case resolve_verdicts vs t of
     Inl e \<Rightarrow> \<not> (distinct (keys vs) \<and> set (keys vs) = check_name ` set (target_checks t))
   | Inr pairs \<Rightarrow> distinct (keys vs) \<and> set (keys vs) = check_name ` set (target_checks t) \<and>
       map fst pairs = target_checks t \<and> list_all (\<lambda>(c, v). (check_name c, v) \<in> set vs) pairs"
proof -
  let ?cov = "check_name ` set (target_checks t)"
  have iff: "(\<exists>n\<in>set (map check_name (target_checks t)). dget (dict_of vs) n = None) \<or>
      (\<exists>n\<in>set (keys (dict_of vs)). n \<notin> set (map check_name (target_checks t))) \<or>
      (\<exists>n\<in>set (keys vs). count_list (keys vs) n > 1) \<longleftrightarrow> \<not> (distinct (keys vs) \<and> set (keys vs) = ?cov)"
    unfolding some_repeated dget_None_iff dict_of_keys by auto
  have "(check_name c, the (dget (dict_of vs) (check_name c))) \<in> set vs"
    if "set (keys vs) = ?cov" "c \<in> set (target_checks t)" for c
  proof -
    have "check_name c \<in> set (keys (dict_of vs))" unfolding dict_of_keys using that by simp
    then obtain v where "dget (dict_of vs) (check_name c) = Some v" by (metis dget_keys)
    then show ?thesis using dget_dict_of [of vs "check_name c"] by (simp add: map_of_SomeD [of "rev vs", simplified])
  qed
  then show ?thesis unfolding resolve_verdicts_def Let_def iff by (auto simp: list_all_iff comp_def)
qed

subsection \<open>A validating run\<close>

lemma set_keys_dset: "set (keys (dset k v d)) = insert k (set (keys d))"
  by (induction d) auto

lemma keys_fold_pairs:
  "set (keys (fold (\<lambda>(c, v). dset (check_name c) v) pairs d)) = set (keys d) \<union> (check_name \<circ> fst) ` set pairs"
proof (induction pairs arbitrary: d)
  case (Cons p pairs)
  show ?case by (cases p) (simp only: fold.simps comp_apply case_prod_conv Cons.IH set_keys_dset, simp)
qed simp

lemma dict_ok_fold_pairs: "dict_ok d \<Longrightarrow> dict_ok (fold (\<lambda>(c, v). dset (check_name c) v) pairs d)"
  by (induction pairs arbitrary: d) auto

lemma run_all_targets_keys:
  "run_all_targets rd w spec ts vs0 = Inr (Inr vs) \<Longrightarrow>
     set (keys vs) = set (keys vs0) \<union> check_name ` set (concat (map target_checks ts)) \<and> (dict_ok vs0 \<longrightarrow> dict_ok vs)"
proof (induction ts arbitrary: vs0)
  case (Cons t ts)
  then obtain out where out: "parse_validate rd (w_validate w spec t) = Inr out" by (auto simp: bindE_Inr_iff)
  with Cons.prems obtain res where res: "out = Verdicts res" by (cases out) auto
  with out Cons.prems obtain pairs where step: "resolve_verdicts res t = Inr pairs"
    "run_all_targets rd w spec ts (fold (\<lambda>(c, v). dset (check_name c) v) pairs vs0) = Inr (Inr vs)"
    by (auto simp: bindE_Inr_iff)
  have "map fst pairs = target_checks t"
    using verdicts_resolve_iff_they_cover_the_target [of res t] step(1) by simp
  then have "(check_name \<circ> fst) ` set pairs = check_name ` set (target_checks t)"
    by (metis image_comp list.set_map)
  then show ?case using Cons.IH [OF step(2)] by (auto simp only: keys_fold_pairs dict_ok_fold_pairs) auto
qed simp

lemma declared_checks_names: "declared_checks rd w m = Inr cs \<Longrightarrow> map check_name cs = declared_names m"
proof -
  have "mapE (declared_check rd w m) ns = Inr cs \<Longrightarrow> map check_name cs = ns" for ns
    by (induction ns arbitrary: cs) (auto simp: bindE_Inr_iff declared_check_def)
  then show "declared_checks rd w m = Inr cs \<Longrightarrow> ?thesis" by (simp add: declared_checks_def)
qed

definition clean_run :: "rust_state \<Rightarrow> (string, wire_verdict) dict \<Rightarrow> target list \<Rightarrow> bool" where
  \<comment> \<open>a run of everything a state declares, in which every check passed or is marked\<close>
  "clean_run s vs ts \<longleftrightarrow> curr_spec s \<noteq> None \<and> declared_names (declared_mapping s) \<noteq> [] \<and>
     dict_ok vs \<and> set (keys vs) = set (declared_names (declared_mapping s)) \<and>
     check_name ` set (concat (map target_checks ts)) = set (declared_names (declared_mapping s)) \<and>
     (\<forall>n v. dget vs n = Some v \<longrightarrow> w_outcome v = Good \<or> n \<in> set (keys (expected_failures s)))"

lemma unexplained_Nil: "unexplained vs expected = [] \<Longrightarrow> dget vs n = Some v \<Longrightarrow> w_outcome v = Good \<or> n \<in> set (keys expected)"
  by (auto simp: unexplained_def filter_empty_conv dest!: dget_Some_in)

definition run_writes :: "string \<Rightarrow> (string, wire_verdict) dict \<Rightarrow> target list \<Rightarrow> rust_write channel_write list" where
  "run_writes d vs ts = [OwnWrite (VerdictsWrite vs), OwnWrite (RanWrite ts), StampWrite [(validate_key, d)]]"

lemma validate_spec_cases:
  assumes "validate_spec md5 vocab rd w s only = Inr r"
  shows "(\<exists>t. r = Reply t) \<or> (only = None \<and>
    (\<exists>t vs ts. r = Command t (run_writes (checked_digest md5 (authoring_state.truncate s) []) vs ts) \<and> clean_run s vs ts))"
proof (cases "curr_spec s")
  case None
  then show ?thesis using assms by (auto simp: validate_spec_def)
next
  case (Some spec)
  obtain cs where cs: "declared_checks rd w (declared_mapping s) = Inr cs"
    using assms Some by (auto simp: validate_spec_def bindE_Inr_iff)
  show ?thesis
  proof (cases "\<exists>t. r = Reply t")
    case False
    note main = assms [unfolded validate_spec_def Some option.case cs bindE.simps]
    from False main have "cs \<noteq> []" by (auto split: if_splits)
    from False main this obtain chosen where chosen: "select_checks vocab only cs = Inr chosen"
      by (cases "select_checks vocab only cs") auto
    from main \<open>cs \<noteq> []\<close> chosen obtain out where out: "run_all_targets rd w spec (targets_of chosen) [] = Inr out"
      by (auto simp: bindE_Inr_iff Let_def)
    with False main \<open>cs \<noteq> []\<close> chosen obtain vs where run: "run_all_targets rd w spec (targets_of chosen) [] = Inr (Inr vs)"
      and r: "r = validation_reply md5 vocab s (only \<noteq> None) (targets_of chosen) vs"
      by (cases out) (auto simp: Let_def)
    from r False have only: "only = None" and explained: "unexplained vs (expected_failures s) = []"
      by (auto simp: validation_reply_def Let_def split: if_splits)
    have "chosen = cs" using chosen only by (simp add: select_checks_def)
    have names: "map check_name cs = declared_names (declared_mapping s)" by (rule declared_checks_names [OF cs])
    have "check_name ` set (concat (map target_checks (targets_of cs))) = set (declared_names (declared_mapping s))"
      using names by (metis list.set_map set_targets_of)
    moreover have "dict_ok vs \<and> set (keys vs) = set (declared_names (declared_mapping s))"
      using run_all_targets_keys [OF run] calculation \<open>chosen = cs\<close> by (simp del: set_concat)
    ultimately have "clean_run s vs (targets_of cs)"
      using Some \<open>cs \<noteq> []\<close> names unexplained_Nil [OF explained] by (auto simp del: set_concat simp: clean_run_def)
    then show ?thesis using only explained \<open>chosen = cs\<close>
      by (auto simp: r validation_reply_def Let_def run_writes_def validate_stamper_def make_verdict_stamper_def)
  qed simp
qed

subsection \<open>What a call can write\<close>

text \<open>The specification of the tools: the writes a call may produce, and when.\<close>

inductive tool_effect :: "(string \<Rightarrow> string) \<Rightarrow> rust_config \<Rightarrow> rust_state \<Rightarrow> rust_world \<times> rust_call \<Rightarrow>
    rust_write channel_write list \<Rightarrow> bool" for md5 cfg s where
  nothing: "tool_effect md5 cfg s c []"
| wrote: "syntax_check (reader wd) (wheel_now wd) t = Inr None \<Longrightarrow> tool_effect md5 cfg s (wd, PutSpec t) [SpecWrite t]"
| edited: "curr_spec s = Some spec \<Longrightarrow> replace_unique spec old new False = EditOk t \<Longrightarrow>
    syntax_check (reader wd) (wheel_now wd) t = Inr None \<Longrightarrow> tool_effect md5 cfg s (wd, EditSpec old new) [SpecWrite t]"
| skipping: "title \<in> set (cfg_titles cfg) \<Longrightarrow> strip why \<noteq> [] \<Longrightarrow>
    tool_effect md5 cfg s (wd, RecordSkip title why) [SkipWrite [\<lparr>property_title = title, reason = why\<rparr>]]"
| unskipping: "title \<in> set (cfg_titles cfg) \<Longrightarrow>
    tool_effect md5 cfg s (wd, Unskip title) [SkipWrite [\<lparr>property_title = title, reason = []\<rparr>]]"
| marking: "strip why \<noteq> [] \<Longrightarrow> tool_effect md5 cfg s (wd, ExpectCheckFailure name why) [MarkWrite [(name, why)]]"
| unmarking: "tool_effect md5 cfg s (wd, ExpectCheckPassage name) [MarkWrite [(name, [])]]"
| mapping: "tool_effect md5 cfg s (wd, MapChecks m) [OwnWrite (MapWrite m)]"
| validated: "clean_run s vs ts \<Longrightarrow> tool_effect md5 cfg s (wd, ValidateSpec None)
    (run_writes (checked_digest md5 (authoring_state.truncate s) []) vs ts)"
| compiled: "curr_spec s = Some spec \<Longrightarrow> parse_compile (reader wd) (w_compile (wheel_now wd) spec) = Inr CompileOk \<Longrightarrow>
    tool_effect md5 cfg s (wd, CompileSpec) [StampWrite [(compile_key, draft_digest md5 (authoring_state.truncate s) [])]]"
| reviewed: "curr_spec s = Some spec \<Longrightarrow> good (judge_verdict (judge_now wd spec (skipped s) rs)) \<Longrightarrow>
    tool_effect md5 cfg s (wd, Feedback rs) [StampWrite [(feedback_key, draft_digest md5 (authoring_state.truncate s) [])]]"
| gave_up: "tool_effect md5 cfg s (wd, GiveUp why) [FailedWrite True, ResultWrite why]"
| published: "check_completion (authoring_state.truncate s) (rust_stampers md5) [] nothing_written_default = Inr None \<Longrightarrow>
    validate_check_mapping (declared_mapping s) (skipped s) (cfg_titles cfg) rust_mapping_vocab
      (Some (concat (map (\<lambda>t. map check_name (target_checks t)) (ran_targets s)))) = None \<Longrightarrow>
    tool_effect md5 cfg s (wd, PublishSpec t) [ResultWrite t, FailedWrite False]"
| setup_published: "check_completion (authoring_state.truncate s) (rust_stampers md5) [] nothing_written_default = Inr None \<Longrightarrow>
    tool_effect md5 cfg s (wd, PublishSetup t) [ResultWrite t, FailedWrite False]"

lemma raised_Inr [simp]: "raised f m = Inr x \<longleftrightarrow> m = Inr x"
  by (simp add: raised_def split: sum.split)

lemma spec_update_effect:
  "apply_spec_update (Some v) t None = Inr r \<Longrightarrow> writes_of r = [] \<or> writes_of r = [SpecWrite t] \<and> v t = Inr None"
  by (auto simp: apply_spec_update_def bindE_Inr_iff split: option.splits)

lemma edit_spec_effect:
  "edit_spec (rust_edit_deps rd w) turn s old new = Inr r \<Longrightarrow> writes_of r = [] \<or>
     (\<exists>spec t. curr_spec s = Some spec \<and> replace_unique spec old new False = EditOk t \<and>
        writes_of r = [SpecWrite t] \<and> syntax_check rd w t = Inr None)"
  using spec_update_effect [of "syntax_check rd w"]
  by (auto simp: edit_spec_def rust_edit_deps_def split: option.splits if_splits edit_result.splits)

lemma compile_spec_effect:
  assumes "compile_spec md5 rd w s = Inr r"
  shows "writes_of r = [] \<or> (\<exists>spec. curr_spec s = Some spec \<and> parse_compile rd (w_compile w spec) = Inr CompileOk \<and>
    writes_of r = [StampWrite [(compile_key, draft_digest md5 (authoring_state.truncate s) [])]])"
proof (cases "curr_spec s")
  case (Some spec)
  with assms obtain res where res: "parse_compile rd (w_compile w spec) = Inr res" by (auto simp: compile_spec_def bindE_Inr_iff)
  with assms Some show ?thesis
    by (cases res) (auto simp: compile_spec_def compile_stamper_def make_validation_stamper_def)
qed (use assms in \<open>auto simp: compile_spec_def\<close>)

lemma tool_effects:
  assumes "rust_tool md5 cfg turn s c = Inr r"
  shows "tool_effect md5 cfg s c (writes_of r)"
proof (cases c)
  case (Pair wd call)
  show ?thesis
  proof (cases call)
    case (PutSpec t)
    then show ?thesis using assms Pair spec_update_effect [of "syntax_check (reader wd) (wheel_now wd)" t r]
      by (auto simp: tool_effect.nothing intro: tool_effect.intros)
  next
    case (EditSpec old new)
    then show ?thesis using assms Pair edit_spec_effect [of "reader wd" "wheel_now wd" turn s old new r]
      by (auto simp: tool_effect.nothing intro: tool_effect.intros)
  next
    case (ValidateSpec only)
    then show ?thesis using assms Pair validate_spec_cases [of md5 "cfg_vocab cfg" "reader wd" "wheel_now wd" s only r]
      by (auto simp: tool_effect.nothing intro: tool_effect.intros)
  next
    case CompileSpec
    then show ?thesis using assms Pair compile_spec_effect [of md5 "reader wd" "wheel_now wd" s r]
      by (auto simp: tool_effect.nothing intro: tool_effect.intros)
  next
    case (Feedback rs)
    then show ?thesis using assms Pair
      by (auto simp: feedback_tool_def feedback_stamper_def make_validation_stamper_def Let_def
          split: option.splits if_splits simp: tool_effect.nothing intro: tool_effect.intros)
  next
    case (PublishSpec t)
    then show ?thesis using assms Pair
      by (auto simp: publish_spec_def bindE_Inr_iff split: option.splits simp: tool_effect.nothing intro: tool_effect.intros)
  next
    case (PublishSetup t)
    then show ?thesis using assms Pair
      by (auto simp: publish_setup_def bindE_Inr_iff split: option.splits simp: tool_effect.nothing intro: tool_effect.intros)
  qed (use assms Pair in \<open>auto simp: get_spec_def record_skip_def unskip_def give_up_call_def map_checks_def Let_def
        expect_check_failure_def expect_check_passage_def simp: tool_effect.nothing intro: tool_effect.intros split: if_splits\<close>)
qed

interpretation rust_turns: tool_session rust_channel rust_own "rust_tool md5 cfg" "tool_effect md5 cfg" for md5 cfg
  by unfold_locales (rule tool_effects)

lemma turn_invariant:
  assumes "rust_turn_replies md5 cfg s calls = Inr replies" and "merge_turn rust_channel rust_own replies s0 = Some s'" and "P s0"
    and step: "\<And>c ws s1. c \<in> set calls \<Longrightarrow> tool_effect md5 cfg s c ws \<Longrightarrow> P s1 \<Longrightarrow> P (fold (apply_write rust_own) ws s1)"
  shows "P s'"
  by (rule rust_turns.replies_invariant [where P = P, OF assms(1) [unfolded rust_turn_replies_def] assms(2,3) step])

end
