(* ===== verification/Rust_Published.thy ===== *)
theory Rust_Published
  imports Rust_Session_Laws
begin

text \<open>
  Invariants of a session of a Rust application, by rule induction over its turns, and what follows for the spec it
  publishes and for the report.
\<close>

subsection \<open>Where the stamps come from\<close>

lemmas stamp_keys = validate_key_def compile_key_def feedback_key_def

definition run_view :: "rust_state \<Rightarrow> string option \<times> (string, wire_verdict) dict \<times> target list" where
  \<comment> \<open>what only a validating run writes\<close>
  "run_view s = (dget (validations s) validate_key, ran_verdicts s, ran_targets s)"

definition validated_in :: "(string \<Rightarrow> string) \<Rightarrow> rust_turn list \<Rightarrow> rust_state \<Rightarrow> string \<Rightarrow>
    (string, wire_verdict) dict \<Rightarrow> target list \<Rightarrow> bool" where
  \<comment> \<open>a turn that started from the given state ran everything it declared, cleanly\<close>
  "validated_in md5 hist s1 d vs ts \<longleftrightarrow>
     (\<exists>calls replies. (s1, calls, replies) \<in> set hist \<and> (\<exists>wd. (wd, ValidateSpec None) \<in> set calls)) \<and>
     d = checked_digest md5 (authoring_state.truncate s1) [] \<and> clean_run s1 vs ts"

definition reviewed_in :: "(string \<Rightarrow> string) \<Rightarrow> rust_turn list \<Rightarrow> rust_state \<Rightarrow> string \<Rightarrow> bool" where
  \<comment> \<open>in a turn that started from the given state the judge accepted its draft\<close>
  "reviewed_in md5 hist s1 d \<longleftrightarrow>
     (\<exists>calls replies. (s1, calls, replies) \<in> set hist \<and> (\<exists>wd rs spec. (wd, Feedback rs) \<in> set calls \<and>
        curr_spec s1 = Some spec \<and> good (judge_verdict (judge_now wd spec (skipped s1) rs)))) \<and>
     d = draft_digest md5 (authoring_state.truncate s1) []"

lemma run_view_effect:
  assumes "tool_effect md5 cfg s c ws"
  shows "run_view (fold (apply_write rust_own) ws s1) = run_view s1 \<or>
    (\<exists>wd vs ts. c = (wd, ValidateSpec None) \<and> clean_run s vs ts \<and>
      run_view (fold (apply_write rust_own) ws s1) = (Some (checked_digest md5 (authoring_state.truncate s) []), vs, ts))"
  using assms
  by cases (auto simp: run_view_def run_writes_def merge_validation_def dget_dset stamp_keys)

lemma feedback_stamp_effect:
  assumes "tool_effect md5 cfg s c ws"
  shows "dget (validations (fold (apply_write rust_own) ws s1)) feedback_key = dget (validations s1) feedback_key \<or>
    (\<exists>wd rs spec. c = (wd, Feedback rs) \<and> curr_spec s = Some spec \<and> good (judge_verdict (judge_now wd spec (skipped s) rs)) \<and>
      dget (validations (fold (apply_write rust_own) ws s1)) feedback_key = Some (draft_digest md5 (authoring_state.truncate s) []))"
  using assms
  by cases (auto simp: run_writes_def merge_validation_def dget_dset stamp_keys)

lemma validated_later: "validated_in md5 hist s1 d vs ts \<Longrightarrow> validated_in md5 (t # hist) s1 d vs ts"
  by (auto simp: validated_in_def)

lemma reviewed_later: "reviewed_in md5 hist s1 d \<Longrightarrow> reviewed_in md5 (t # hist) s1 d"
  by (auto simp: reviewed_in_def)

lemma validate_stamp_origin:
  assumes "rust_session md5 cfg s hist"
  shows "case run_view s of (stamp, vs, ts) \<Rightarrow> stamp = None \<or> (\<exists>s1. validated_in md5 hist s1 (the stamp) vs ts)"
  using assms
proof induction
  case rust_begin
  then show ?case by (simp add: run_view_def rust_start_def)
next
  case (rust_turn s hist calls replies s')
  let ?P = "\<lambda>x. case run_view x of (stamp, vs, ts) \<Rightarrow> stamp = None \<or>
    (\<exists>s1. validated_in md5 ((s, calls, replies) # hist) s1 (the stamp) vs ts)"
  have "?P s" using rust_turn.IH by (auto split: prod.splits) (blast intro: validated_later)
  then show ?case
  proof (rule turn_invariant [OF rust_turn(4,5), where P = ?P])
    fix c ws and s1 :: rust_state
    assume "c \<in> set calls" "tool_effect md5 cfg s c ws" "?P s1"
    note P = this(3)
    from run_view_effect [OF \<open>tool_effect md5 cfg s c ws\<close>, of s1] show "?P (fold (apply_write rust_own) ws s1)"
    proof (elim disjE exE conjE)
      assume "run_view (fold (apply_write rust_own) ws s1) = run_view s1"
      with P show ?thesis by simp
    next
      fix wd vs ts
      assume *: "c = (wd, ValidateSpec None)" "clean_run s vs ts"
        and view: "run_view (fold (apply_write rust_own) ws s1) = (Some (checked_digest md5 (authoring_state.truncate s) []), vs, ts)"
      then have "validated_in md5 ((s, calls, replies) # hist) s (checked_digest md5 (authoring_state.truncate s) []) vs ts"
        using \<open>c \<in> set calls\<close> by (auto simp: validated_in_def)
      with view show ?thesis by auto
    qed
  qed
qed

lemma feedback_stamp_origin:
  assumes "rust_session md5 cfg s hist"
  shows "dget (validations s) feedback_key = None \<or>
    (\<exists>s1. reviewed_in md5 hist s1 (the (dget (validations s) feedback_key)))"
  using assms
proof induction
  case rust_begin
  then show ?case by (simp add: rust_start_def)
next
  case (rust_turn s hist calls replies s')
  let ?P = "\<lambda>x. dget (validations x) feedback_key = None \<or>
    (\<exists>s1. reviewed_in md5 ((s, calls, replies) # hist) s1 (the (dget (validations x) feedback_key)))"
  have "?P s" using rust_turn.IH by (blast intro: reviewed_later)
  then show ?case
  proof (rule turn_invariant [OF rust_turn(4,5), where P = ?P])
    fix c ws and s1 :: rust_state
    assume "c \<in> set calls" "tool_effect md5 cfg s c ws" "?P s1"
    note P = this(3)
    from feedback_stamp_effect [OF \<open>tool_effect md5 cfg s c ws\<close>, of s1] show "?P (fold (apply_write rust_own) ws s1)"
    proof (elim disjE exE conjE)
      assume "dget (validations (fold (apply_write rust_own) ws s1)) feedback_key = dget (validations s1) feedback_key"
      with P show ?thesis by simp
    next
      fix wd rs spec
      assume *: "c = (wd, Feedback rs)" "curr_spec s = Some spec" "good (judge_verdict (judge_now wd spec (skipped s) rs))"
        and stamp: "dget (validations (fold (apply_write rust_own) ws s1)) feedback_key =
          Some (draft_digest md5 (authoring_state.truncate s) [])"
      then have "reviewed_in md5 ((s, calls, replies) # hist) s (draft_digest md5 (authoring_state.truncate s) [])"
        using \<open>c \<in> set calls\<close> by (auto simp: reviewed_in_def)
      with stamp show ?thesis by auto
    qed
  qed
qed

subsection \<open>What stays fixed\<close>

lemma fixed_by_turns:
  assumes "rust_session md5 cfg s hist"
  shows "required_validations s = required_gates cfg \<and> skips_known (cfg_titles cfg) s"
  using assms
proof induction
  case rust_begin
  then show ?case by (simp add: rust_start_def skips_known_def skips_ok_def)
next
  case (rust_turn s hist calls replies s')
  show ?case
  proof (rule turn_invariant [OF rust_turn(4,5), where P = "\<lambda>x. required_validations x = required_gates cfg \<and> skips_known (cfg_titles cfg) x"])
    show "required_validations s = required_gates cfg \<and> skips_known (cfg_titles cfg) s" by (rule rust_turn.IH)
    fix c ws and s1 :: rust_state
    assume "tool_effect md5 cfg s c ws" and *: "required_validations s1 = required_gates cfg \<and> skips_known (cfg_titles cfg) s1"
    then show "required_validations (fold (apply_write rust_own) ws s1) = required_gates cfg \<and>
      skips_known (cfg_titles cfg) (fold (apply_write rust_own) ws s1)"
    proof cases
      case (skipping title why wd)
      then show ?thesis using * by (simp add: skips_known_merge)
    next
      case (unskipping title wd)
      then show ?thesis using * by (simp add: skips_known_merge)
    qed (auto simp: skips_known_def run_writes_def)
  qed
qed

subsection \<open>The publish gate of a session\<close>

definition rust_gates :: "gate list" where
  "rust_gates = [Judge compile_key, Checker validate_key, Judge feedback_key]"

lemma rust_stampers_gates: "rust_stampers md5 = map (gate_stamper md5) rust_gates"
  by (simp add: rust_stampers_def rust_gates_def compile_stamper_def validate_stamper_def feedback_stamper_def fun_eq_iff)

lemma distinct_rust_gates: "distinct (map gate_key rust_gates)"
  by (simp add: rust_gates_def stamp_keys)

lemma current_rust_stamps:
  "dget (current_stamps (rust_stampers md5) s h) validate_key = Some (checked_digest md5 s h)"
  "dget (current_stamps (rust_stampers md5) s h) compile_key = Some (draft_digest md5 s h)"
  "dget (current_stamps (rust_stampers md5) s h) feedback_key = Some (draft_digest md5 s h)"
  using dget_current_stamps [OF distinct_rust_gates, of "Checker validate_key" md5 s h]
    dget_current_stamps [OF distinct_rust_gates, of "Judge compile_key" md5 s h]
    dget_current_stamps [OF distinct_rust_gates, of "Judge feedback_key" md5 s h]
  by (simp_all add: rust_stampers_gates rust_gates_def)

lemma completed_gates:
  assumes "check_completion (authoring_state.truncate s) (rust_stampers md5) [] nw = Inr None"
    and "required_validations s = required_gates cfg"
  shows "curr_spec s \<noteq> None"
    and "cfg_kind cfg = ComponentSession \<Longrightarrow>
      dget (validations s) validate_key = Some (checked_digest md5 (authoring_state.truncate s) [])"
    and "cfg_judged cfg \<Longrightarrow> dget (validations s) feedback_key = Some (draft_digest md5 (authoring_state.truncate s) [])"
  using assms by (auto simp: check_completion_None_iff current_rust_stamps required_gates_def)

lemma publish_never_raises:
  assumes "required_validations s = required_gates cfg"
  shows "check_completion (authoring_state.truncate s) (rust_stampers md5) [] nw \<noteq> Inl e"
proof -
  have "\<forall>k\<in>set (required_gates cfg). dget (current_stamps (rust_stampers md5) (authoring_state.truncate s) []) k \<noteq> None"
    by (simp add: required_gates_def current_rust_stamps)
  then show ?thesis using assms by (simp add: check_completion_def check_required_total)
qed

subsection \<open>How a session ends\<close>

definition publishes :: "(string \<Rightarrow> string) \<Rightarrow> rust_config \<Rightarrow> rust_state \<Rightarrow> rust_world \<times> rust_call \<Rightarrow> bool" where
  "publishes md5 cfg s c \<longleftrightarrow>
     check_completion (authoring_state.truncate s) (rust_stampers md5) [] nothing_written_default = Inr None \<and>
     (case snd c of
        PublishSpec t \<Rightarrow> validate_check_mapping (declared_mapping s) (skipped s) (cfg_titles cfg) rust_mapping_vocab
          (Some (concat (map (\<lambda>t. map check_name (target_checks t)) (ran_targets s)))) = None
      | PublishSetup t \<Rightarrow> True
      | _ \<Rightarrow> False)"

lemma ending:
  assumes "rust_session md5 cfg s hist" and "closing s \<noteq> None"
  obtains s0 calls replies rest where "hist = (s0, calls, replies) # rest" "rust_session md5 cfg s0 rest"
    "list_all (offered cfg \<circ> snd) calls" "rust_turn_replies md5 cfg s0 calls = Inr replies"
    "merge_turn rust_channel rust_own replies s0 = Some s"
    "failed s = Some True \<or> failed s = Some False \<and> curr_spec s \<noteq> None \<and> (\<exists>c\<in>set calls. publishes md5 cfg s0 c)"
  using assms(1)
proof cases
  case rust_begin
  then show ?thesis using assms(2) by (simp add: rust_start_def)
next
  case (rust_turn s0 rest calls replies)
  let ?P = "\<lambda>x. (curr_spec s0 \<noteq> None \<longrightarrow> curr_spec x \<noteq> None) \<and> (closing x = None \<or> failed x = Some True \<or>
    failed x = Some False \<and> curr_spec s0 \<noteq> None \<and> (\<exists>c\<in>set calls. publishes md5 cfg s0 c))"
  have "?P s"
  proof (rule turn_invariant [OF rust_turn(5,6), where P = ?P])
    show "?P s0" using rust_turn by simp
    fix c ws and x :: rust_state
    assume "c \<in> set calls" "tool_effect md5 cfg s0 c ws" "?P x"
    from this(2,1,3) show "?P (fold (apply_write rust_own) ws x)"
    proof cases
      case (published wd t)
      then have "publishes md5 cfg s0 c" by (simp add: publishes_def)
      with published \<open>?P x\<close> \<open>c \<in> set calls\<close> show ?thesis by (auto simp: check_completion_None_iff)
    next
      case (setup_published wd t)
      then have "publishes md5 cfg s0 c" by (simp add: publishes_def)
      with setup_published \<open>?P x\<close> \<open>c \<in> set calls\<close> show ?thesis by (auto simp: check_completion_None_iff)
    qed (auto simp: run_writes_def)
  qed
  with assms(2) rust_turn show ?thesis by (intro that [of s0 calls replies rest]) auto
qed

lemma raised_states [simp]:
  "raised CalloutRaised m \<noteq> Inl (StateRaised e)" "raised StateRaised n = Inl (StateRaised e) \<longleftrightarrow> n = Inl e"
  by (simp_all add: raised_def split: sum.split)

lemma state_raised:
  assumes "rust_tool md5 cfg turn s c = Inl (StateRaised e)"
  shows "\<exists>e. check_completion (authoring_state.truncate s) (rust_stampers md5) [] nothing_written_default = Inl e"
proof (cases c)
  case (Pair wd call)
  show ?thesis
  proof (cases call)
    case (PublishSpec t)
    then have "publish_spec md5 (cfg_titles cfg) s t = Inl e" using assms Pair by simp
    then show ?thesis unfolding publish_spec_def bindE_Inl_iff by (elim disjE exE conjE) (auto split: option.splits)
  next
    case (PublishSetup t)
    then have "publish_setup md5 s t = Inl e" using assms Pair by simp
    then show ?thesis unfolding publish_setup_def bindE_Inl_iff by (elim disjE exE conjE) (auto split: option.splits)
  qed (use assms Pair in simp_all)
qed

text \<open>
  C22: A session that ends has an outcome: none of the assertions about the final state fails, and the publish gate never
  raises for want of a stamper, in any session.
\<close>

theorem ended_session_has_an_outcome:
  assumes "rust_session md5 cfg s hist"
  shows "(closing s = None \<or> session_outcome_of s \<noteq> AssertionFailed) \<and>
    (\<forall>turn c e. rust_tool md5 cfg turn s c \<noteq> Inl (StateRaised e))"
proof
  show "closing s = None \<or> session_outcome_of s \<noteq> AssertionFailed"
  proof (cases "closing s = None")
    case False
    have "failed s = Some True \<or> failed s = Some False \<and> curr_spec s \<noteq> None" by (rule ending [OF assms False]) blast
    then show ?thesis using False by (auto simp: session_outcome_of_def)
  qed simp
  have total: "check_completion (authoring_state.truncate s) (rust_stampers md5) [] nw \<noteq> Inl e" for nw e
    using fixed_by_turns [OF assms] by (intro publish_never_raises) auto
  have "rust_tool md5 cfg turn s c \<noteq> Inl (StateRaised e)" for turn c e
    using state_raised [of md5 cfg turn s c e] total by blast
  then show "\<forall>turn c e. rust_tool md5 cfg turn s c \<noteq> Inl (StateRaised e)" by auto
qed

subsection \<open>What is published\<close>

definition carried_by :: "(string, wire_verdict) dict \<Rightarrow> rust_state \<Rightarrow> string \<Rightarrow> bool" where
  \<comment> \<open>a check with a verdict of the run that passed, or failed as the draft that was run says it would\<close>
  "carried_by vs s1 n \<longleftrightarrow> (\<exists>v. dget vs n = Some v \<and> (w_outcome v = Good \<or> n \<in> set (keys (expected_failures s1))))"

definition accounted_for :: "rust_state \<Rightarrow> rust_state \<Rightarrow> string \<Rightarrow> bool" where
  "accounted_for s0 s1 title \<longleftrightarrow> title \<in> property_title ` set (skipped s0) \<or>
     (\<exists>names. (title, names) \<in> set (declared_mapping s0) \<and> stripped_names names \<noteq> [] \<and>
        list_all (carried_by (ran_verdicts s0) s1) (stripped_names names))"

lemma clean_run_carries:
  assumes "clean_run s1 vs ts" and "n \<in> check_name ` set (concat (map target_checks ts))"
  shows "carried_by vs s1 n"
proof -
  have "n \<in> set (keys vs)" using assms by (simp add: clean_run_def)
  then obtain v where "dget vs n = Some v" by (metis dget_keys)
  with assms(1) show ?thesis by (auto simp: carried_by_def clean_run_def)
qed

definition same_deliverable :: "rust_state \<Rightarrow> session_result \<Rightarrow> bool" where
  "same_deliverable s r \<longleftrightarrow> curr_spec s = Some (sr_spec r) \<and> sr_skipped r = skipped s \<and> sr_checks r = declared_mapping s \<and>
     sr_verdicts r = ran_verdicts s \<and> sr_ran r = ran_targets s \<and> sr_expected r = expected_failures s"

lemma publish_alone:
  assumes "rust_turn_replies md5 cfg s0 [(wd, PublishSpec t)] = Inr replies"
    and "merge_turn rust_channel rust_own replies s0 = Some s" and "session_outcome_of s = Published r"
  shows "same_deliverable s0 r"
proof -
  let ?P = "\<lambda>x. curr_spec x = curr_spec s0 \<and> skipped x = skipped s0 \<and> declared_mapping x = declared_mapping s0 \<and>
    ran_verdicts x = ran_verdicts s0 \<and> ran_targets x = ran_targets s0 \<and> expected_failures x = expected_failures s0"
  have "?P s"
  proof (rule turn_invariant [OF assms(1,2), where P = ?P])
    fix c ws and x :: rust_state
    assume c: "c \<in> set [(wd, PublishSpec t)]" and "tool_effect md5 cfg s0 c ws" "?P x"
    from this(2,3) show "?P (fold (apply_write rust_own) ws x)" by cases (use c in auto)
  qed simp
  with assms(3) show ?thesis
    by (auto simp: session_outcome_of_def same_deliverable_def split: option.splits bool.splits)
qed

lemma published_component:
  assumes "rust_session md5 cfg s hist" and "cfg_kind cfg = ComponentSession" and "session_outcome_of s = Published r"
  shows "\<exists>s0 s1 calls replies rest. hist = (s0, calls, replies) # rest \<and>
    validated_in md5 rest s1 (checked_digest md5 (authoring_state.truncate s0) []) (ran_verdicts s0) (ran_targets s0) \<and>
    (\<not> cfg_judged cfg \<or> (\<exists>s2. reviewed_in md5 rest s2 (draft_digest md5 (authoring_state.truncate s0) []))) \<and>
    list_all (accounted_for s0 s1) (cfg_titles cfg) \<and>
    (\<forall>(title, names)\<in>set (declared_mapping s0). \<forall>n\<in>set (stripped_names names). carried_by (ran_verdicts s0) s1 n) \<and>
    (case calls of [(wd, PublishSpec t)] \<Rightarrow> same_deliverable s0 r | _ \<Rightarrow> True)"
proof -
  have closed: "closing s \<noteq> None" "failed s = Some False"
    using assms(3) by (auto simp: session_outcome_of_def split: option.splits bool.splits)
  obtain s0 calls replies rest where hist: "hist = (s0, calls, replies) # rest" "rust_session md5 cfg s0 rest"
    and turn: "list_all (offered cfg \<circ> snd) calls" "rust_turn_replies md5 cfg s0 calls = Inr replies"
      "merge_turn rust_channel rust_own replies s0 = Some s"
    and pub: "\<exists>c\<in>set calls. publishes md5 cfg s0 c"
    using closed(2) by (rule_tac ending [OF assms(1) closed(1)]) auto
  from pub obtain c where c: "c \<in> set calls" "publishes md5 cfg s0 c" by blast
  have "offered cfg (snd c)" using turn(1) c(1) by (simp add: list_all_iff)
  then have gate: "check_completion (authoring_state.truncate s0) (rust_stampers md5) [] nothing_written_default = Inr None"
    and mapping: "validate_check_mapping (declared_mapping s0) (skipped s0) (cfg_titles cfg) rust_mapping_vocab
      (Some (concat (map (\<lambda>t. map check_name (target_checks t)) (ran_targets s0)))) = None"
    using c(2) assms(2) by (auto simp: publishes_def split: rust_call.splits)
  note required = fixed_by_turns [OF hist(2), THEN conjunct1]
  note gates = completed_gates [OF gate required]
  obtain s1 where s1: "validated_in md5 rest s1 (checked_digest md5 (authoring_state.truncate s0) []) (ran_verdicts s0) (ran_targets s0)"
    using validate_stamp_origin [OF hist(2)] gates(2) assms(2) by (auto simp: run_view_def)
  have judged: "\<not> cfg_judged cfg \<or> (\<exists>s2. reviewed_in md5 rest s2 (draft_digest md5 (authoring_state.truncate s0) []))"
    using feedback_stamp_origin [OF hist(2)] gates(3) by auto
  have clean: "clean_run s1 (ran_verdicts s0) (ran_targets s0)" using s1 by (simp add: validated_in_def)
  have ran_names: "set (concat (map (\<lambda>t. map check_name (target_checks t)) (ran_targets s0))) =
      check_name ` set (concat (map target_checks (ran_targets s0)))" by auto
  have carried: "carried_by (ran_verdicts s0) s1 n" if "(title, names) \<in> set (declared_mapping s0)" "n \<in> set (stripped_names names)"
    for title names n
  proof -
    have "n \<in> set (concat (map (\<lambda>t. map check_name (target_checks t)) (ran_targets s0)))"
      using mapping that by (auto simp: mapping_accepted)
    then show ?thesis using clean_run_carries [OF clean] ran_names by metis
  qed
  have "accounted_for s0 s1 title" if "title \<in> set (cfg_titles cfg)" for title
  proof (cases "title \<in> property_title ` set (skipped s0)")
    case False
    with that mapping obtain names where names: "(title, names) \<in> set (declared_mapping s0)" by (auto simp: mapping_accepted)
    with mapping have "stripped_names names \<noteq> []" by (auto simp: mapping_accepted)
    then show ?thesis using names carried [OF names] by (auto simp: accounted_for_def list_all_iff)
  qed (simp add: accounted_for_def)
  moreover have "case calls of [(wd, PublishSpec t)] \<Rightarrow> same_deliverable s0 r | _ \<Rightarrow> True"
    using publish_alone [OF _ turn(3) assms(3)] turn(2) by (auto split: list.split rust_call.split)
  ultimately show ?thesis using hist(1) s1 judged carried by (auto simp: list_all_iff)
qed


end
