(* ===== verification/Component_Report.thy ===== *)
theory Component_Report
  imports Report_Laws
begin

text \<open>
  The collection of a report with a single delivered component: which rules it lists, and which verdict each of them
  shows. The backends' theorems about what a report says of a session rest on these facts.
\<close>

lemma referenced_units:
  assumes "\<forall>ref\<in>set (c_referenced c). P ref"
    and "\<And>title us n. (title, us) \<in> set (property_checks f) \<Longrightarrow> n \<in> set (nonblank us) \<Longrightarrow> P (unit_ref f verdicts n)"
  shows "\<forall>ref\<in>set (c_referenced (fold (collect_property name f verdicts) ps c)). P ref"
  using assms(1)
proof (induction ps arbitrary: c)
  case (Cons p ps)
  have "\<forall>ref\<in>set (c_referenced (collect_property name f verdicts p c)). P ref"
    using Cons.prems assms(2)
    by (auto simp: collect_property_def Let_def dget_dict_of dest!: map_of_SomeD split: option.split)
  then show ?case using Cons.IH by simp
qed simp

lemma referenced_registers: "c_referenced (fold (register_verdict f) vs c) = c_referenced c"
  by (induction vs arbitrary: c) (simp_all add: register_verdict_def Let_def split: prod.split)

definition one_component :: "string \<Rightarrow> property_formulation list \<Rightarrow> formalized \<Rightarrow> component_input list" where
  "one_component name props f = [\<lparr>ci_name = name, ci_props = props, ci_formalized = Delivered f\<rparr>]"

text \<open>
  The checks a report of the component has to list: those the mapping names, blank names apart, for the properties
  that are not skipped.
\<close>

definition claimed_checks :: "skipped_property list \<Rightarrow> (string \<times> string list) list \<Rightarrow> property_formulation list \<Rightarrow> string list" where
  "claimed_checks skips mapping props =
     concat (map (\<lambda>p. nonblank (case dget (dict_of mapping) (p_title p) of None \<Rightarrow> [] | Some names \<Rightarrow> names))
       (filter (\<lambda>p. p_title p \<notin> set (map property_title skips)) props))"

lemma skip_reasons_None: "dget (skip_reasons f) t = None \<longleftrightarrow> t \<notin> set (map property_title (result_skipped f))"
  by (simp add: skip_reasons_def dget_dict_of_None image_image)

lemma referenced_one:
  "c_referenced (collect_property name f verdicts p c) =
     c_referenced c @ map (unit_ref f verdicts) (claimed_checks (result_skipped f) (property_checks f) [p])"
proof (cases "dget (skip_reasons f) (p_title p)")
  case None
  then have "p_title p \<notin> set (map property_title (result_skipped f))" using skip_reasons_None by metis
  with None show ?thesis
    by (cases "dget (dict_of (property_checks f)) (p_title p)")
      (simp_all add: collect_property_def claimed_checks_def Let_def nonblank_def)
next
  case (Some r)
  then have "p_title p \<in> set (map property_title (result_skipped f))"
    using skip_reasons_None [of f "p_title p"] by (metis option.distinct(1))
  with Some show ?thesis by (simp add: collect_property_def claimed_checks_def)
qed

lemma claimed_checks_Cons:
  "claimed_checks sk m (p # ps) = claimed_checks sk m [p] @ claimed_checks sk m ps"
  by (simp add: claimed_checks_def)

lemma referenced_claimed:
  "c_referenced (fold (collect_property name f verdicts) ps c) =
     c_referenced c @ map (unit_ref f verdicts) (claimed_checks (result_skipped f) (property_checks f) ps)"
proof (induction ps arbitrary: c)
  case (Cons p ps)
  have "c_referenced (fold (collect_property name f verdicts) (p # ps) c) =
      c_referenced c @ map (unit_ref f verdicts) (claimed_checks (result_skipped f) (property_checks f) [p] @
        claimed_checks (result_skipped f) (property_checks f) ps)"
    by (simp add: Cons.IH referenced_one)
  then show ?case by (simp only: claimed_checks_Cons [of _ _ p ps])
qed (simp add: claimed_checks_def)

lemma one_component_rules:
  "set (map rule_ref_of (rules (collect fetch False (one_component name props f)))) =
     unit_ref f (fetch f) ` set (claimed_checks (result_skipped f) (property_checks f) props)"
proof -
  let ?c = "fold (collect_input fetch) (one_component name props f) empty_collected"
  have "c_referenced ?c = map (unit_ref f (fetch f)) (claimed_checks (result_skipped f) (property_checks f) props)"
    by (simp add: one_component_def collect_input_def Let_def referenced_claimed empty_collected_def)
  then show ?thesis
    unfolding rule_refs_of_table using keys_referenced [of "c_referenced ?c" "c_rules_by_key ?c"]
    by (simp add: set_eq_iff) blast
qed

lemma one_component_names:
  "rv_name ` set (rules (collect fetch False (one_component name props f))) =
     set (claimed_checks (result_skipped f) (property_checks f) props)"
proof -
  let ?rs = "rules (collect fetch False (one_component name props f))"
  have "rv_name ` set ?rs = snd ` set (map rule_ref_of ?rs)" by (simp add: image_image rule_ref_of_def)
  also have "\<dots> = (snd \<circ> unit_ref f (fetch f)) ` set (claimed_checks (result_skipped f) (property_checks f) props)"
    unfolding one_component_rules by (simp only: image_comp)
  also have "snd \<circ> unit_ref f (fetch f) = id" by (simp add: fun_eq_iff unit_ref_def split: option.split)
  finally show ?thesis by simp
qed

lemma one_component_rule:
  assumes "rv \<in> set (rules (collect fetch False (one_component name props f)))"
  shows "\<exists>title us n. (title, us) \<in> set (property_checks f) \<and> n \<in> set (nonblank us) \<and> rule_ref_of rv = unit_ref f (fetch f) n"
proof -
  let ?c = "fold (collect_input fetch) (one_component name props f) empty_collected"
  have "rule_ref_of rv \<in> set (map rule_ref_of (rules (collect fetch False (one_component name props f))))"
    using assms by simp
  then have "rule_ref_of rv \<in> set (c_referenced ?c)" unfolding rule_refs_of_table by simp
  also have "c_referenced ?c = c_referenced (fold (collect_property name f (fetch f)) props empty_collected)"
    by (simp add: one_component_def collect_input_def Let_def referenced_registers)
  finally have mem: "rule_ref_of rv \<in> set (c_referenced (fold (collect_property name f (fetch f)) props empty_collected))" .
  have "\<forall>ref\<in>set (c_referenced (fold (collect_property name f (fetch f)) props empty_collected)).
      \<exists>title us n. (title, us) \<in> set (property_checks f) \<and> n \<in> set (nonblank us) \<and> ref = unit_ref f (fetch f) n"
    by (rule referenced_units) (auto simp: empty_collected_def)
  from bspec [OF this mem] show ?thesis .
qed

lemma reported_unit:
  assumes "dict_ok vs" and "dget vs n = Some v"
  shows "map_of (map (\<lambda>nv. (verdict_key f nv, outcome (snd nv))) vs) (unit_ref f vs n) = Some (outcome v)"
proof -
  have ref: "unit_ref f vs n = verdict_key f (n, v)" using assms(2) by (simp add: unit_ref_def verdict_key_def)
  have "inj_on (verdict_key f) (set vs)"
    using assms(1) by (auto simp: inj_on_def verdict_key_def dict_ok_def eq_key_imp_eq_value split: prod.splits)
  then have "distinct (map fst (map (\<lambda>nv. (verdict_key f nv, outcome (snd nv))) vs))"
    using assms(1) by (simp add: comp_def distinct_map dict_ok_def)
  moreover have "(verdict_key f (n, v), outcome v) \<in> set (map (\<lambda>nv. (verdict_key f nv, outcome (snd nv))) vs)"
    using dget_Some_in [OF assms(2)] by force
  ultimately show ?thesis unfolding ref by (rule map_of_is_SomeI)
qed

lemma one_component_outcome:
  assumes "rv \<in> set (rules (collect fetch False (one_component name props f)))" and "dict_ok (fetch f)"
  obtains title us where "(title, us) \<in> set (property_checks f)" "rv_name rv \<in> set (nonblank us)"
    "\<And>v. dget (fetch f) (rv_name rv) = Some v \<Longrightarrow> rv_outcome rv = outcome v"
proof -
  obtain title us n where n: "(title, us) \<in> set (property_checks f)" "n \<in> set (nonblank us)"
    and ref: "rule_ref_of rv = unit_ref f (fetch f) n" using one_component_rule [OF assms(1)] by blast
  have "rv_name rv = n" using ref by (simp add: rule_ref_of_def unit_ref_def split: option.splits)
  moreover have "rv_outcome rv = outcome v" if "dget (fetch f) n = Some v" for v
    using rule_outcome [OF assms(1)] reported_unit [OF assms(2) that, of f] by (simp add: ref reported_def one_component_def)
  ultimately show ?thesis using that n by blast
qed

end
