(* ===== verification/Rust_Report.thy ===== *)
theory Rust_Report
  imports Rust_Published Component_Report
begin

text \<open>
  From a session to the report: the outcomes shown for a published component are those of the run that checked it,
  as long as the check names are declared without blanks around them. Sample sessions, evaluated, and the two places
  where the code falls short of what it promises.
\<close>

subsection \<open>Running a session\<close>

fun run_turns :: "(string \<Rightarrow> string) \<Rightarrow> rust_config \<Rightarrow> rust_state \<Rightarrow> rust_turn list \<Rightarrow> (rust_world \<times> rust_call) list list \<Rightarrow>
    (rust_state \<times> rust_turn list) option" where
  "run_turns md5 cfg s hist [] = Some (s, hist)"
| "run_turns md5 cfg s hist (calls # turns) =
     (if closing s \<noteq> None \<or> \<not> list_all (offered cfg \<circ> snd) calls then None
      else case rust_turn_replies md5 cfg s calls of
        Inl e \<Rightarrow> None
      | Inr replies \<Rightarrow>
          (case merge_turn rust_channel rust_own replies s of
             None \<Rightarrow> None
           | Some s' \<Rightarrow> run_turns md5 cfg s' ((s, calls, replies) # hist) turns))"

lemma run_turns_session:
  "rust_session md5 cfg s hist \<Longrightarrow> run_turns md5 cfg s hist turns = Some (s', hist') \<Longrightarrow> rust_session md5 cfg s' hist'"
  by (induction turns arbitrary: s hist) (auto split: if_splits sum.splits option.splits intro: rust_turn)

subsection \<open>Outcomes in the report\<close>


subsection \<open>A sample session\<close>

definition good_json :: json where
  "good_json = JObject [(''outcome'', JString ''GOOD''), (''line'', JNull), (''duration_seconds'', JNull),
     (''unit_file'', JNull), (''detail'', JNull)]"

definition sample_reader :: json_reader where
  "sample_reader = \<lparr>json_loads = (\<lambda>t. if t = ''good'' then Some (JObject [(''kind'', JString ''verdicts''),
       (''verdicts'', JArray [JArray [JString ''c_sum'', good_json]])]) else None),
     lenient_int = (\<lambda>v. None), lenient_float = (\<lambda>v. None)\<rparr>"

definition sample_world :: rust_world where
  "sample_world = \<lparr>reader = sample_reader,
     wheel_now = \<lparr>w_check_syntax = (\<lambda>t. None), w_target_for = (\<lambda>n. None), w_compile = (\<lambda>t. []),
       w_validate = (\<lambda>t tg. ''good'')\<rparr>,
     judge_now = (\<lambda>t sk rs. PressureAbort)\<rparr>"

definition sample_config :: rust_config where
  "sample_config = \<lparr>cfg_kind = ComponentSession, cfg_titles = [''sum'', ''order''], cfg_judged = False, cfg_vocab = check_vocab_of None\<rparr>"

definition sample_turns :: "string \<Rightarrow> (rust_world \<times> rust_call) list list" where
  "sample_turns name = map (map (Pair sample_world))
     [[PutSpec ''spec''], [RecordSkip ''order'' ''not observable'', MapChecks [(''sum'', [name])]],
      [ValidateSpec None], [PublishSpec ''done'']]"

definition sample_result :: "string \<Rightarrow> session_result" where
  "sample_result name = \<lparr>sr_commentary = ''done'', sr_spec = ''spec'',
     sr_skipped = [\<lparr>property_title = ''order'', reason = ''not observable''\<rparr>], sr_checks = [(''sum'', [name])],
     sr_verdicts = [(''c_sum'', with_outcome Good)],
     sr_ran = [\<lparr>target_name = ''c_sum'', target_checks = [\<lparr>check_name = ''c_sum'',
        check_properties = properties_of [(''sum'', [name])] ''c_sum'', check_target = None\<rparr>]\<rparr>],
     sr_expected = []\<rparr>"

definition sample_run_of :: "string \<Rightarrow> (rust_state \<times> rust_turn list) option" where
  "sample_run_of name = run_turns (\<lambda>t. t) sample_config (rust_start sample_config) [] (sample_turns name)"

lemma sample_outcome:
  "map_option (session_outcome_of \<circ> fst) (sample_run_of ''c_sum'') = Some (Published (sample_result ''c_sum''))"
  by code_simp

lemma sample_session:
  obtains s s0 wd replies rest where "rust_session (\<lambda>t. t) sample_config s ((s0, [(wd, PublishSpec ''done'')], replies) # rest)"
    "session_outcome_of s = Published (sample_result ''c_sum'')"
proof -
  obtain s hist where run: "sample_run_of ''c_sum'' = Some (s, hist)"
    and out: "session_outcome_of s = Published (sample_result ''c_sum'')"
    using sample_outcome by (cases "sample_run_of ''c_sum''") auto
  have "map_option (\<lambda>(s, hist). map (map snd \<circ> fst \<circ> snd) (take 1 hist)) (sample_run_of ''c_sum'') = Some [[PublishSpec ''done'']]"
    by code_simp
  then have "map (map snd \<circ> fst \<circ> snd) (take 1 hist) = [[PublishSpec ''done'']]" by (simp add: run)
  then obtain s0 calls replies rest where hist: "hist = (s0, calls, replies) # rest" "map snd calls = [PublishSpec ''done'']"
    by (cases hist) auto
  from hist(2) obtain wd where "calls = [(wd, PublishSpec ''done'')]" by (cases calls) auto
  moreover have "rust_session (\<lambda>t. t) sample_config s hist"
    using run_turns_session [OF rust_begin run [unfolded sample_run_of_def]] .
  ultimately show ?thesis using that out hist(1) by simp
qed


lemma ended_session_has_an_outcome_witness:
  "\<exists>s. closing s = Some ''done'' \<and> session_outcome_of s \<noteq> AssertionFailed"
proof -
  obtain s s0 wd replies rest where run: "rust_session (\<lambda>t. t) sample_config s ((s0, [(wd, PublishSpec ''done'')], replies) # rest)"
    and out: "session_outcome_of s = Published (sample_result ''c_sum'')" by (rule sample_session)
  have "closing s = Some ''done''" using out
    by (auto simp: session_outcome_of_def sample_result_def split: option.splits bool.splits)
  with ended_session_has_an_outcome [OF run] show ?thesis by auto
qed

definition sum_property :: property_formulation where
  "sum_property = \<lparr>p_sort = Invariant, p_description = ''the sum is kept'', p_title = ''sum''\<rparr>"

definition sample_report :: "string \<Rightarrow> collection" where
  "sample_report name = collect (\<lambda>f. rust_fetch_verdicts (formal_result (sample_result name)) (unit_file f)) False
     (one_component ''pool'' [sum_property] (formalized_of ''specs'' ''pool.spec'' None (formal_result (sample_result name))))"


subsection \<open>A draft written in the turn that publishes\<close>

text \<open>
  The calls of a turn all see the state at its start. Whenever publishing would be accepted, calling \<^verbatim>\<open>put_spec\<close> in the
  same turn publishes the new text instead: any text that passes the syntax check, which no gate has seen.
\<close>

theorem draft_written_with_the_publish_is_published:
  assumes "rust_session md5 cfg s hist" and "closing s = None" and "cfg_kind cfg = ComponentSession"
    and "publishes md5 cfg s (wd, PublishSpec c)" and "w_check_syntax (wheel_now wd) t = None"
  shows "\<exists>s' hist' r. rust_session md5 cfg s' hist' \<and> session_outcome_of s' = Published r \<and> sr_spec r = t \<and> tl hist' = hist"
proof -
  let ?calls = "[(wd, PublishSpec c), (wd, PutSpec t)]"
  let ?replies = "[Command ''Accepted'' [ResultWrite c, FailedWrite False], Command ''Accepted'' [SpecWrite t]]"
  let ?s' = "s\<lparr>closing := Some c, failed := Some False, curr_spec := Some t\<rparr>"
  have "publish_spec md5 (cfg_titles cfg) s c = Inr (Command ''Accepted'' [ResultWrite c, FailedWrite False])"
    using assms(4) by (simp add: publishes_def publish_spec_def)
  moreover have "apply_spec_update (Some (syntax_check (reader wd) (wheel_now wd))) t None =
      Inr (Command ''Accepted'' [SpecWrite t] :: rust_write tool_reply)"
    by (simp add: apply_spec_update_def syntax_check_def expect_text_def assms(5))
  ultimately have "rust_turn_replies md5 cfg s ?calls = Inr ?replies"
    by (simp add: rust_turn_replies_def raised_def)
  moreover have "merge_turn rust_channel rust_own ?replies s = Some ?s'"
    by (simp add: merge_turn_def List.map_filter_simps)
  ultimately have "rust_session md5 cfg ?s' ((s, ?calls, ?replies) # hist)"
    using assms(1-3) by (intro rust_turn) simp_all
  moreover have "\<exists>r. session_outcome_of ?s' = Published r \<and> sr_spec r = t" by (simp add: session_outcome_of_def)
  ultimately show ?thesis by (metis list.sel(3))
qed

definition racing_turns :: "(rust_world \<times> rust_call) list list" where
  "racing_turns = map (map (Pair sample_world))
     [[PutSpec ''spec''], [RecordSkip ''order'' ''not observable'', MapChecks [(''sum'', [''c_sum''])]], [ValidateSpec None]]"

lemma racing_state:
  "map_option (\<lambda>(s, hist). closing s = None \<and> publishes (\<lambda>t. t) sample_config s (sample_world, PublishSpec ''done''))
     (run_turns (\<lambda>t. t) sample_config (rust_start sample_config) [] racing_turns) = Some True"
  by code_simp

lemma draft_written_with_the_publish_is_published_witness:
  "\<exists>s hist r. rust_session (\<lambda>t. t) sample_config s hist \<and> session_outcome_of s = Published r \<and> sr_spec r = ''unchecked''"
proof -
  obtain s hist where run: "run_turns (\<lambda>t. t) sample_config (rust_start sample_config) [] racing_turns = Some (s, hist)"
    and ready: "closing s = None" "publishes (\<lambda>t. t) sample_config s (sample_world, PublishSpec ''done'')"
    using racing_state by (cases "run_turns (\<lambda>t. t) sample_config (rust_start sample_config) [] racing_turns") auto
  have "rust_session (\<lambda>t. t) sample_config s hist" using run_turns_session [OF rust_begin run] .
  from draft_written_with_the_publish_is_published [OF this ready(1) _ ready(2), of "''unchecked''"]
  show ?thesis by (auto simp: sample_config_def sample_world_def)
qed

subsection \<open>A check name with blanks\<close>

text \<open>
  A name declared with a blank before it runs, and passes the gate, as the name without: a session can publish it with
  a good verdict. But the mapping keeps the blank, so the check was handed to the wheel with no property, and the
  report finds no verdict under the name: the property's only rule is shown as unknown and the good one is dropped.
\<close>

theorem padded_check_name_hides_its_verdict:
  "map_option (session_outcome_of \<circ> fst) (sample_run_of '' c_sum'') = Some (Published (sample_result '' c_sum'')) \<and>
   map w_outcome (vals (sr_verdicts (sample_result '' c_sum''))) = [Good] \<and>
   map check_properties (concat (map target_checks (sr_ran (sample_result '' c_sum'')))) = [[]] \<and>
   map (\<lambda>rv. (rv_name rv, rv_outcome rv)) (rules (sample_report '' c_sum'')) = [('' c_sum'', Unknown)] \<and>
   dropped_orphans (sample_report '' c_sum'') = 1"
  by code_simp

end
