(* ===== verification/Foundry_Session.thy ===== *)
theory Foundry_Session
  imports Agent_Tools Report Json_Fields
begin

text \<open>
  The authoring session of the Foundry back end (\<^verbatim>\<open>composer/foundry\<close>: state, runner, author), and how its result
  reaches the report (\<^verbatim>\<open>report.py\<close>) and the status file of a component (\<^verbatim>\<open>artifacts.py\<close>). The forge process, the JSON
  reader, the judge, the names of staged files and whether the budget is under pressure at a call are arguments;
  each call of a tool comes with its own. The staged file itself, which a run writes and removes, is left out.
\<close>

subsection \<open>State\<close>

definition forge_test_key :: string where "forge_test_key = ''forge_test''"

definition foundry_feedback_key :: string where "foundry_feedback_key = ''feedback''"

definition forge_test_stamper :: "(string \<Rightarrow> string) \<Rightarrow> stamper" where
  "forge_test_stamper md5 = make_verdict_stamper md5 forge_test_key"

definition foundry_feedback_stamper :: "(string \<Rightarrow> string) \<Rightarrow> stamper" where
  "foundry_feedback_stamper md5 = make_validation_stamper md5 foundry_feedback_key"

record property_test_mapping =
  tested_title :: string
  tests :: "string list"

record foundry_state = authored +
  property_tests :: "property_test_mapping list"
  last_test_names :: "string list option"
  budget_curtailed :: bool

datatype foundry_write = TestsWrite "property_test_mapping list" | NamesWrite "string list"

fun foundry_own :: "foundry_write \<Rightarrow> foundry_state \<Rightarrow> foundry_state" where
  "foundry_own (TestsWrite m) s = s\<lparr>property_tests := m\<rparr>"
| "foundry_own (NamesWrite ns) s = s\<lparr>last_test_names := Some ns\<rparr>"

fun foundry_channel :: "foundry_write \<Rightarrow> nat option" where
  "foundry_channel (TestsWrite m) = Some 0"
| "foundry_channel (NamesWrite ns) = Some 1"

definition check_foundry_completion :: "(string \<Rightarrow> string) \<Rightarrow> foundry_state \<Rightarrow> authoring_error + string option" where
  "check_foundry_completion md5 s =
     check_completion (authoring_state.truncate s) [forge_test_stamper md5, foundry_feedback_stamper md5] []
       ''no test written yet.''"

definition foundry_mapping_vocab :: mapping_vocab where
  "foundry_mapping_vocab = \<lparr>check_noun = ''test'', field_name = ''property_tests'',
     ran_source = ''the stamping forge_test invocation''\<rparr>"

definition tests_mapping :: "property_test_mapping list \<Rightarrow> (string \<times> string list) list" where
  "tests_mapping ms = map (\<lambda>m. (tested_title m, tests m)) ms"

definition validate_property_tests :: "property_test_mapping list \<Rightarrow> skipped_property list \<Rightarrow> string list \<Rightarrow> string list \<Rightarrow>
    string option" where
  "validate_property_tests ms skips titles ran_test_names =
     validate_check_mapping (tests_mapping ms) skips titles foundry_mapping_vocab (Some ran_test_names)"

subsection \<open>The output of forge\<close>

record test_result =
  test_name :: string
  test_status :: string
  test_reason :: "string option"

definition read_test_entry :: "json \<Rightarrow> (string \<times> string option) option" where
  \<comment> \<open>\<^verbatim>\<open>_ForgeTestEntry\<close>: status and reason; other fields are ignored\<close>
  "read_test_entry v =
     (case v of
        JObject kvs \<Rightarrow>
          (case (Option.bind (dget kvs ''status'') str_value,
                 case dget kvs ''reason'' of None \<Rightarrow> Some None | Some r \<Rightarrow> nullable str_value r) of
             (Some st, Some r) \<Rightarrow> Some (st, r)
           | _ \<Rightarrow> None)
      | _ \<Rightarrow> None)"

definition read_suite :: "json \<Rightarrow> (string, string \<times> string option) dict option" where
  \<comment> \<open>\<^verbatim>\<open>_ForgeSuiteResult\<close>\<close>
  "read_suite v =
     (case v of
        JObject kvs \<Rightarrow> (case dget kvs ''test_results'' of None \<Rightarrow> Some [] | Some r \<Rightarrow> dict_value read_test_entry r)
      | _ \<Rightarrow> None)"

definition test_of_signature :: "string \<Rightarrow> string" where
  "test_of_signature sig = strip (takeWhile (\<lambda>c. c \<noteq> CHR ''('') sig)"

datatype foundry_error = ForgeSchemaError | StateError authoring_error

definition parse_forge_json :: "(string \<Rightarrow> json option) \<Rightarrow> string \<Rightarrow> foundry_error + test_result list option" where
  "parse_forge_json loads stdout =
     (let t = strip stdout in
      if t = [] then Inr None
      else case loads t of
        None \<Rightarrow> Inr None
      | Some doc \<Rightarrow>
          (case dict_value read_suite doc of
             None \<Rightarrow> Inl ForgeSchemaError
           | Some report \<Rightarrow>
               Inr (Some (concat (map (\<lambda>suite.
                 map (\<lambda>(sig, st, r). \<lparr>test_name = test_of_signature sig, test_status = st, test_reason = r\<rparr>) suite)
                 (vals report))))))"

definition with_status :: "string \<Rightarrow> test_result list \<Rightarrow> test_result list" where
  "with_status st rs = filter (\<lambda>r. test_status r = st) rs"

definition failed_line :: "(string, string) dict \<Rightarrow> test_result \<Rightarrow> string" where
  "failed_line expected r =
     ''  FAIL '' @ test_name r @ (if test_name r \<in> set (keys expected) then '' [expected-fail]'' else []) @
     (case test_reason r of None \<Rightarrow> [] | Some t \<Rightarrow> if t = [] then [] else '' '' @ em_dash @ '' '' @ t)"

definition format_summary :: "test_result list \<Rightarrow> (string, string) dict \<Rightarrow> string" where
  "format_summary results expected =
     (if results = [] then ''(no tests reported)''
      else
        let passed = with_status ''Success'' results;
            failures = with_status ''Failure'' results;
            others = filter (\<lambda>r. test_status r \<notin> {''Success'', ''Failure''}) results
        in join newline
          ([''forge test: '' @ show_nat (length passed) @ '' passed, '' @ show_nat (length failures) @ '' failed''] @
           (if others \<noteq> [] then [''  (forge-skipped: '' @ comma_join (map test_name others) @ '')''] else []) @
           map (failed_line expected) failures))"

subsection \<open>Running forge\<close>

datatype forge_process = ForgeTimedOut | ForgeMissing | ForgeExited string string "int option"

record foundry_config =
  fc_titles :: "string list"
  fc_root :: string
  fc_binary :: string
  fc_timeout :: nat

record foundry_world =
  has_foundry_toml :: bool
  fresh_key :: string
  loads_json :: "string \<Rightarrow> json option"
  run_forge :: "string \<Rightarrow> string \<Rightarrow> forge_process" \<comment> \<open>the key of the staged file, and its text\<close>
  foundry_judge :: "string \<Rightarrow> skipped_property list \<Rightarrow> rebuttal list \<Rightarrow> judge_run"
  pressured :: bool

definition seed_ok :: "string option \<Rightarrow> bool" where
  \<comment> \<open>the pattern of the field \<^verbatim>\<open>seed\<close>\<close>
  "seed_ok seed =
     (case seed of
        None \<Rightarrow> True
      | Some k \<Rightarrow> 1 \<le> length k \<and> length k \<le> 32 \<and>
          list_all (\<lambda>c. is_alnum c \<or> c = CHR ''_'') k)"

definition seed_footer :: "string \<Rightarrow> string" where
  "seed_footer key =
     newline @ newline @ ''(seed for this run: '' @ py_repr key @ '' '' @ em_dash @ '' pass '' @
     ''`forge_test(seed='' @ py_repr key @ '')` to iterate against this '' @
     ''campaign's cached failures.)''"

definition build_failure :: "string \<Rightarrow> string \<Rightarrow> int option \<Rightarrow> string \<Rightarrow> string" where
  "build_failure stdout stderr exit_code key =
     ''The project failed to BUILD -- no tests ran. Fix the compile '' @
     ''error before iterating on test logic or fuzz seeds.'' @ newline @ newline @
     ''forge test did not produce parseable JSON '' @
     ''(exit '' @ show_int (case exit_code of None \<Rightarrow> -1 | Some c \<Rightarrow> c) @ '').'' @ newline @ newline @
     ''stderr:'' @ newline @ stderr @ newline @ newline @ ''stdout:'' @ newline @ stdout @ seed_footer key"

definition unexpected_failures :: "test_result list \<Rightarrow> (string, string) dict \<Rightarrow> test_result list" where
  "unexpected_failures results expected =
     filter (\<lambda>r. test_status r = ''Failure'' \<and> test_name r \<notin> set (keys expected)) results"

definition unexpected_passes :: "test_result list \<Rightarrow> (string, string) dict \<Rightarrow> test_result list" where
  "unexpected_passes results expected =
     filter (\<lambda>r. test_status r = ''Success'' \<and> test_name r \<in> set (keys expected)) results"

definition forge_problems :: "test_result list \<Rightarrow> (string, string) dict \<Rightarrow> string list" where
  "forge_problems results expected =
     (let fs = unexpected_failures results expected; ps = unexpected_passes results expected
      in (if fs \<noteq> [] then [''Unexpected failures: '' @ comma_join (map test_name fs)] else []) @
         (if ps \<noteq> [] then [''Tests marked expect_test_failure that actually passed (call '' @
            ''expect_test_passage to clear the marker, or rework the test): '' @ comma_join (map test_name ps)] else []))"

definition forge_reply :: "(string \<Rightarrow> string) \<Rightarrow> foundry_state \<Rightarrow> string option \<Rightarrow> string \<Rightarrow> test_result list \<Rightarrow>
    foundry_write tool_reply" where
  "forge_reply md5 s seed key results =
     (let expected = expected_failures s;
          summary = format_summary results expected;
          clean = (unexpected_failures results expected = [] \<and> unexpected_passes results expected = []);
          names = OwnWrite (NamesWrite (map test_name results))
      in if clean then
           (case seed of
              None \<Rightarrow> Command (''All tests passed (publish gate stamped).'' @ newline @ newline @ summary)
                [StampWrite (forge_test_stamper md5 (authoring_state.truncate s) []), names]
            | Some k \<Rightarrow> Command (''All tests passed under seed='' @ py_repr k @ '' '' @
                ''Call forge_test WITHOUT a seed '' @ ''to run a fresh campaign and stamp the publish gate.'' @
                newline @ newline @ summary) [names])
         else Command (''forge test did not produce a clean run.'' @ newline @
                join newline (forge_problems results expected) @ newline @ newline @ summary @ seed_footer key) [names])"

definition forge_test :: "(string \<Rightarrow> string) \<Rightarrow> foundry_config \<Rightarrow> foundry_world \<Rightarrow> foundry_state \<Rightarrow> string option \<Rightarrow>
    foundry_error + foundry_write tool_reply" where
  "forge_test md5 cfg wd s seed =
     (case curr_spec s of
        None \<Rightarrow> Inr (Reply ''No test written yet. Call put_test_raw before forge_test.'')
      | Some draft \<Rightarrow>
          if \<not> has_foundry_toml wd
          then Inr (Reply (''forge_test cannot run: '' @ fc_root cfg @ ''/foundry.toml does not '' @
                 ''exist. The project does not look like a foundry project.''))
          else
            let key = (case seed of None \<Rightarrow> fresh_key wd | Some k \<Rightarrow> k)
            in (case run_forge wd key draft of
                  ForgeTimedOut \<Rightarrow> Inr (Reply (''forge test timed out after '' @ show_nat (fc_timeout cfg) @ ''s''))
                | ForgeMissing \<Rightarrow> Inr (Reply (''`'' @ fc_binary cfg @ ''` not found on PATH''))
                | ForgeExited stdout stderr exit_code \<Rightarrow>
                    bindE (parse_forge_json (loads_json wd) stdout) (\<lambda>parsed. case parsed of
                      None \<Rightarrow> Inr (Command (build_failure stdout stderr exit_code key) [OwnWrite (NamesWrite [])])
                    | Some results \<Rightarrow> Inr (forge_reply md5 s seed key results))))"

definition infer_test_dir :: "json option \<Rightarrow> string" where
  \<comment> \<open>of the table in \<^verbatim>\<open>foundry.toml\<close>, if there is one\<close>
  "infer_test_dir conf =
     (let profile = (\<lambda>p. case p of
            JObject kvs \<Rightarrow> (case dget kvs ''test'' of None \<Rightarrow> Some None | Some t \<Rightarrow> nullable str_value t)
          | _ \<Rightarrow> None)
      in case conf of
           Some (JObject kvs) \<Rightarrow>
             (case Option.bind (dget kvs ''profile'') (dict_value profile) of
                Some ps \<Rightarrow> (case dget ps ''default'' of Some (Some t) \<Rightarrow> if t = [] then ''test'' else t | _ \<Rightarrow> ''test'')
              | None \<Rightarrow> ''test'')
         | _ \<Rightarrow> ''test'')"

subsection \<open>Markings and review\<close>

definition expect_test_failure :: "string \<Rightarrow> string \<Rightarrow> foundry_write tool_reply" where
  "expect_test_failure name why =
     (if strip why = [] then Command ''A non-empty reason is required when marking a test as expected to fail.'' []
      else Command ''Success'' [MarkWrite [(name, why)]])"

definition expect_test_passage :: "string \<Rightarrow> foundry_write tool_reply" where
  "expect_test_passage name = Command ''Success'' [MarkWrite [(name, [])]]"

definition foundry_feedback :: "(string \<Rightarrow> string) \<Rightarrow> foundry_world \<Rightarrow> foundry_state \<Rightarrow> rebuttal list \<Rightarrow> foundry_write tool_reply" where
  "foundry_feedback md5 wd s rebuttals =
     (case curr_spec s of
        None \<Rightarrow> Reply ''No test written''
      | Some draft \<Rightarrow>
          if pressured wd
          then Reply (''Good? False'' @ newline @ ''Feedback:'' @ newline @ ''The feedback judge was not run due to '' @
                 ''budget constraints. See the system alert: feedback approval is '' @ ''no longer required for this task.'')
          else
            let res = judge_verdict (foundry_judge wd draft (skipped s) rebuttals);
                body = ''Good? '' @ (if good res then ''True'' else ''False'') @ newline @ ''Feedback:'' @ newline @ feedback res
            in if good res then Command body [StampWrite (foundry_feedback_stamper md5 (authoring_state.truncate s) [])]
               else Reply body)"

definition foundry_input_parts :: "string \<Rightarrow> skipped_property list \<Rightarrow> rebuttal list \<Rightarrow> string list" where
  "foundry_input_parts source skips rebuttals =
     [''The proposed foundry test file is'', source] @
     (if skips = [] then []
      else ''The following properties were explicitly skipped by the author:'' #
        map (\<lambda>s. ''  Property '' @ property_title s @ '': '' @ reason s) skips) @
     (if rebuttals = [] then []
      else (''The author has filed the following rebuttals against feedback '' @
            ''from prior rounds. Evaluate each per the rebuttal rules in your '' @
            ''instructions. Empirical evidence types (`compilation_failure`, '' @
            ''`test_run_output`, `execution_trace`, `manual_citation`) carry '' @
            ''near-binding weight; `reasoned` rebuttals are a conversation, '' @ ''not a veto.'') #
        map (\<lambda>(i, r). ''  Rebuttal '' @ show_nat i @ '' ['' @ evidence_type r @ '']'' @ newline @
            ''    Addressing: '' @ prior_feedback_reference r @ newline @ ''    Evidence: '' @ evidence r)
          (zip [1..<Suc (length rebuttals)] rebuttals))"

subsection \<open>Publishing\<close>

definition publish_result :: "(string \<Rightarrow> string) \<Rightarrow> string list \<Rightarrow> foundry_world \<Rightarrow> foundry_state \<Rightarrow> string \<Rightarrow>
    property_test_mapping list \<Rightarrow> foundry_error + foundry_write tool_reply" where
  "publish_result md5 titles wd s commentary ms =
     (case check_foundry_completion md5 s of
        Inl e \<Rightarrow> Inl (StateError e)
      | Inr (Some err) \<Rightarrow> Inr (Reply err)
      | Inr None \<Rightarrow>
          let accept = Command ''Accepted'' [ResultWrite commentary, OwnWrite (TestsWrite ms), FailedWrite False]
          in if pressured wd then Inr accept
             else case last_test_names s of
                    None \<Rightarrow> Inr (Reply ''Completion REJECTED: no forge_test run has been recorded.'')
                  | Some ran_names \<Rightarrow>
                      (case validate_property_tests ms (skipped s) titles ran_names of
                         Some err \<Rightarrow> Inr (Reply err)
                       | None \<Rightarrow> Inr accept))"

subsection \<open>The session\<close>

definition foundry_start :: foundry_state where
  "foundry_start =
     \<lparr>curr_spec = None, skipped = [], validations = [], required_validations = [forge_test_key, foundry_feedback_key],
      expected_failures = [], failed = None, closing = None, property_tests = [], last_test_names = None,
      budget_curtailed = False\<rparr>"

datatype foundry_call =
    PutTestRaw string
  | GetTest
  | SkipProperty string string
  | UnskipProperty string
  | ExpectTestFailure string string
  | ExpectTestPassage string
  | ForgeTest "string option"
  | FoundryFeedback "rebuttal list"
  | PublishResult string "property_test_mapping list"
  | GiveUpBatch string

fun well_formed_call :: "foundry_call \<Rightarrow> bool" where
  "well_formed_call (ForgeTest seed) = seed_ok seed"
| "well_formed_call _ = True"

fun foundry_tool :: "(string \<Rightarrow> string) \<Rightarrow> foundry_config \<Rightarrow> foundry_state \<Rightarrow> foundry_world \<times> foundry_call \<Rightarrow>
    foundry_error + foundry_write tool_reply" where
  "foundry_tool md5 cfg s (wd, PutTestRaw t) = apply_spec_update None t None"
| "foundry_tool md5 cfg s (wd, GetTest) = Inr (get_spec ''No test draft written'' s)"
| "foundry_tool md5 cfg s (wd, SkipProperty title why) = Inr (record_skip (fc_titles cfg) [] (budget_curtailed s) title why)"
| "foundry_tool md5 cfg s (wd, UnskipProperty title) = Inr (unskip (fc_titles cfg) title)"
| "foundry_tool md5 cfg s (wd, ExpectTestFailure name why) = Inr (expect_test_failure name why)"
| "foundry_tool md5 cfg s (wd, ExpectTestPassage name) = Inr (expect_test_passage name)"
| "foundry_tool md5 cfg s (wd, ForgeTest seed) = forge_test md5 cfg wd s seed"
| "foundry_tool md5 cfg s (wd, FoundryFeedback rs) = Inr (foundry_feedback md5 wd s rs)"
| "foundry_tool md5 cfg s (wd, PublishResult c ms) = publish_result md5 (fc_titles cfg) wd s c ms"
| "foundry_tool md5 cfg s (wd, GiveUpBatch why) = Inr (give_up_call why)"

text \<open>
  A session is a sequence of turns and budget alerts. The monitor looks at the state between turns; when it orders a
  wrap-up, its transformer lifts the required validations and marks the batch as curtailed.
\<close>

definition wrap_up :: "foundry_state \<Rightarrow> foundry_state" where
  "wrap_up s = s\<lparr>required_validations := [], budget_curtailed := True\<rparr>"

datatype foundry_event =
    Turn foundry_state "(foundry_world \<times> foundry_call) list" "foundry_write tool_reply list"
  | Alert foundry_state

inductive foundry_session :: "(string \<Rightarrow> string) \<Rightarrow> foundry_config \<Rightarrow> foundry_state \<Rightarrow> foundry_event list \<Rightarrow> bool" for md5 cfg where
  foundry_begin: "foundry_session md5 cfg foundry_start []"
| foundry_turn: "foundry_session md5 cfg s hist \<Longrightarrow> closing s = None \<Longrightarrow> list_all (well_formed_call \<circ> snd) calls \<Longrightarrow>
    mapE (foundry_tool md5 cfg s) calls = Inr replies \<Longrightarrow>
    merge_turn foundry_channel foundry_own replies s = Some s' \<Longrightarrow> foundry_session md5 cfg s' (Turn s calls replies # hist)"
| foundry_alert: "foundry_session md5 cfg s hist \<Longrightarrow> closing s = None \<Longrightarrow> foundry_session md5 cfg (wrap_up s) (Alert s # hist)"

record generated_test =
  g_commentary :: string
  g_source :: string
  g_skipped :: "skipped_property list"
  g_tests :: "property_test_mapping list"
  g_expected :: "(string, string) dict"
  g_ran :: "string list"

text \<open>How a batch ends: the graph stops in a state, or the monitor raises because the budget is exhausted.\<close>

datatype batch_end = GraphEnded foundry_state | BudgetExceeded string

datatype batch_result =
    Generated generated_test
  | BatchCurtailed "generated_test option" "string option"
  | BatchGaveUp string
  | BatchAssertion

definition generated_of :: "foundry_state \<Rightarrow> string \<Rightarrow> string \<Rightarrow> generated_test" where
  "generated_of s commentary draft =
     \<lparr>g_commentary = commentary, g_source = draft, g_skipped = skipped s, g_tests = property_tests s,
      g_expected = expected_failures s, g_ran = (case last_test_names s of None \<Rightarrow> [] | Some ns \<Rightarrow> ns)\<rparr>"

fun batch_outcome :: "batch_end \<Rightarrow> batch_result" where
  "batch_outcome (BudgetExceeded msg) = BatchCurtailed None (Some msg)"
| "batch_outcome (GraphEnded s) =
     (case (closing s, failed s) of
        (Some t, Some True) \<Rightarrow> if budget_curtailed s then BatchCurtailed None (Some t) else BatchGaveUp t
      | (Some t, Some False) \<Rightarrow>
          (case curr_spec s of
             None \<Rightarrow> BatchAssertion
           | Some draft \<Rightarrow>
               if budget_curtailed s then BatchCurtailed (Some (generated_of s t draft)) None
               else Generated (generated_of s t draft))
      | _ \<Rightarrow> BatchAssertion)"

subsection \<open>From the batch to the report\<close>

definition foundry_formalized :: "string \<Rightarrow> string \<Rightarrow> generated_test \<Rightarrow> formalized" where
  \<comment> \<open>the result where it was delivered; a Foundry result has no link\<close>
  "foundry_formalized deliver file g =
     \<lparr>result_skipped = g_skipped g, property_checks = tests_mapping (g_tests g), deliverable = deliver,
      unit_file = file, run_link = None\<rparr>"

definition expected_reason :: "(string, string) dict \<Rightarrow> string \<Rightarrow> string" where
  \<comment> \<open>\<^verbatim>\<open>expected_failures.get(name) or ""\<close>\<close>
  "expected_reason expected name = (case dget expected name of None \<Rightarrow> [] | Some r \<Rightarrow> r)"

definition foundry_verdicts :: "generated_test \<Rightarrow> formalized \<Rightarrow> (string, verdict) dict" where
  "foundry_verdicts g f =
     fold (\<lambda>name. dset name
        \<lparr>outcome = if expected_reason (g_expected g) name \<noteq> [] then Bad else Good, v_line = None, v_duration = None,
         v_unit_file = Some (unit_file f), v_message = None, v_link = None\<rparr>) (g_ran g) []"

datatype written_status = PassedTest string | ExpectedFailureTest string string

definition component_status :: "generated_test \<Rightarrow> written_status list \<times> skipped_property list" where
  \<comment> \<open>the status file of a component\<close>
  "component_status g =
     (map (\<lambda>name. let r = expected_reason (g_expected g) name
             in if r \<noteq> [] then ExpectedFailureTest name r else PassedTest name) (g_ran g), g_skipped g)"

end
