(* ===== verification/Foundry_Laws.thy ===== *)
theory Foundry_Laws
  imports Foundry_Session Agent_Laws
begin

text \<open>
  The tools of a Foundry session, specified by the writes they may produce; where its stamps and test names come from, by
  one induction over the session; and what can be said of a batch that is returned as a full result.
\<close>

subsection \<open>What a call can write\<close>

definition forged :: "foundry_world \<Rightarrow> foundry_state \<Rightarrow> string option \<Rightarrow> test_result list \<Rightarrow> bool" where
  \<comment> \<open>forge ran the draft of the state and reported these results\<close>
  "forged wd s seed rs \<longleftrightarrow>
     (\<exists>draft stdout stderr exit_code. curr_spec s = Some draft \<and>
        run_forge wd (case seed of None \<Rightarrow> fresh_key wd | Some k \<Rightarrow> k) draft = ForgeExited stdout stderr exit_code \<and>
        parse_forge_json (loads_json wd) stdout = Inr (Some rs))"

definition clean_results :: "foundry_state \<Rightarrow> test_result list \<Rightarrow> bool" where
  "clean_results s rs \<longleftrightarrow> unexpected_failures rs (expected_failures s) = [] \<and> unexpected_passes rs (expected_failures s) = []"

definition mapping_passes :: "foundry_config \<Rightarrow> foundry_state \<Rightarrow> property_test_mapping list \<Rightarrow> bool" where
  "mapping_passes cfg s ms \<longleftrightarrow>
     (\<exists>ns. last_test_names s = Some ns \<and> validate_property_tests ms (skipped s) (fc_titles cfg) ns = None)"

inductive foundry_effect :: "(string \<Rightarrow> string) \<Rightarrow> foundry_config \<Rightarrow> foundry_state \<Rightarrow> foundry_world \<times> foundry_call \<Rightarrow>
    foundry_write channel_write list \<Rightarrow> bool" for md5 cfg s where
  no_effect: "foundry_effect md5 cfg s c []"
| put: "foundry_effect md5 cfg s (wd, PutTestRaw t) [SpecWrite t]"
| skip: "title \<in> set (fc_titles cfg) \<Longrightarrow> strip why \<noteq> [] \<Longrightarrow>
    foundry_effect md5 cfg s (wd, SkipProperty title why) [SkipWrite [\<lparr>property_title = title, reason = why\<rparr>]]"
| unskip: "title \<in> set (fc_titles cfg) \<Longrightarrow>
    foundry_effect md5 cfg s (wd, UnskipProperty title) [SkipWrite [\<lparr>property_title = title, reason = []\<rparr>]]"
| expect_failure: "strip why \<noteq> [] \<Longrightarrow> foundry_effect md5 cfg s (wd, ExpectTestFailure name why) [MarkWrite [(name, why)]]"
| expect_passage: "foundry_effect md5 cfg s (wd, ExpectTestPassage name) [MarkWrite [(name, [])]]"
| not_built: "foundry_effect md5 cfg s (wd, ForgeTest seed) [OwnWrite (NamesWrite [])]"
| ran: "forged wd s seed rs \<Longrightarrow> foundry_effect md5 cfg s (wd, ForgeTest seed) [OwnWrite (NamesWrite (map test_name rs))]"
| certified: "forged wd s None rs \<Longrightarrow> clean_results s rs \<Longrightarrow> foundry_effect md5 cfg s (wd, ForgeTest None)
    [StampWrite [(forge_test_key, checked_digest md5 (authoring_state.truncate s) [])], OwnWrite (NamesWrite (map test_name rs))]"
| accepted: "curr_spec s = Some draft \<Longrightarrow> good (judge_verdict (foundry_judge wd draft (skipped s) rs)) \<Longrightarrow>
    foundry_effect md5 cfg s (wd, FoundryFeedback rs)
      [StampWrite [(foundry_feedback_key, draft_digest md5 (authoring_state.truncate s) [])]]"
| result: "check_foundry_completion md5 s = Inr None \<Longrightarrow> pressured wd \<or> mapping_passes cfg s ms \<Longrightarrow>
    foundry_effect md5 cfg s (wd, PublishResult t ms) [ResultWrite t, OwnWrite (TestsWrite ms), FailedWrite False]"
| gave_up: "foundry_effect md5 cfg s (wd, GiveUpBatch why) [FailedWrite True, ResultWrite why]"

lemmas foundry_keys = forge_test_key_def foundry_feedback_key_def

lemma forge_test_effect:
  assumes "forge_test md5 cfg wd s seed = Inr r"
  shows "foundry_effect md5 cfg s (wd, ForgeTest seed) (writes_of r)"
proof (cases "curr_spec s")
  case None
  then show ?thesis using assms by (auto simp: forge_test_def intro: foundry_effect.intros)
next
  case (Some draft)
  let ?key = "case seed of None \<Rightarrow> fresh_key wd | Some k \<Rightarrow> k"
  show ?thesis
  proof (cases "has_foundry_toml wd")
    case True
    show ?thesis
    proof (cases "run_forge wd ?key draft")
      case (ForgeExited stdout stderr exit_code)
      then obtain parsed where parsed: "parse_forge_json (loads_json wd) stdout = Inr parsed"
        using assms Some True by (auto simp: forge_test_def Let_def bindE_Inr_iff)
      show ?thesis
      proof (cases parsed)
        case None
        then show ?thesis using assms Some True ForgeExited parsed by (auto simp: forge_test_def Let_def intro: foundry_effect.intros)
      next
        case (Some rs)
        then have ran: "forged wd s seed rs" using \<open>curr_spec s = Some draft\<close> ForgeExited parsed by (auto simp: forged_def)
        have "r = forge_reply md5 s seed ?key rs"
          using assms \<open>curr_spec s = Some draft\<close> True ForgeExited parsed Some by (simp add: forge_test_def Let_def)
        then show ?thesis using ran
          by (auto simp: forge_reply_def Let_def clean_results_def forge_test_stamper_def make_verdict_stamper_def
              intro!: foundry_effect.intros split: option.split)
      qed
    qed (use assms Some True in \<open>auto simp: forge_test_def Let_def intro: foundry_effect.intros\<close>)
  qed (use assms Some in \<open>auto simp: forge_test_def intro: foundry_effect.intros\<close>)
qed

lemma publish_result_effect:
  "publish_result md5 (fc_titles cfg) wd s c ms = Inr r \<Longrightarrow> foundry_effect md5 cfg s (wd, PublishResult c ms) (writes_of r)"
  by (auto simp: publish_result_def mapping_passes_def Let_def intro!: foundry_effect.intros split: sum.splits option.splits if_splits)

lemma foundry_tool_effects: "foundry_tool md5 cfg s c = Inr r \<Longrightarrow> foundry_effect md5 cfg s c (writes_of r)"
proof (induction md5 cfg s c rule: foundry_tool.induct)
  case (7 md5 cfg s wd seed)
  then show ?case by (simp add: forge_test_effect)
next
  case (9 md5 cfg s wd c ms)
  then show ?case by (simp add: publish_result_effect)
qed (auto simp: apply_spec_update_def get_spec_def record_skip_def unskip_def expect_test_failure_def expect_test_passage_def
      foundry_feedback_def foundry_feedback_stamper_def make_validation_stamper_def give_up_call_def Let_def
      intro!: foundry_effect.intros split: if_splits option.splits)

interpretation foundry_turns: tool_session foundry_channel foundry_own "\<lambda>turn. foundry_tool md5 cfg" "foundry_effect md5 cfg" for md5 cfg
  by unfold_locales (rule foundry_tool_effects)

lemmas foundry_turn_invariant = foundry_turns.replies_invariant

subsection \<open>Where stamps and names come from\<close>

definition made_in :: "foundry_event list \<Rightarrow> foundry_state \<Rightarrow> foundry_world \<times> foundry_call \<Rightarrow> bool" where
  \<comment> \<open>the call was made in a turn that started from the state\<close>
  "made_in hist s1 c \<longleftrightarrow> (\<exists>calls replies. Turn s1 calls replies \<in> set hist \<and> c \<in> set calls)"

lemma made_in_later: "made_in hist s1 c \<Longrightarrow> made_in (e # hist) s1 c"
  by (auto simp: made_in_def)

text \<open>A part of the state that only certain calls write has its value from such a call.\<close>

lemma written_by_a_call:
  assumes "foundry_session md5 cfg s hist" and "view s = Some x"
    and start: "view foundry_start = None" and alert: "\<And>s. view (wrap_up s) = view s"
    and effect: "\<And>s c ws s1. foundry_effect md5 cfg s c ws \<Longrightarrow> view (fold (apply_write foundry_own) ws s1) = view s1 \<or>
      (\<exists>x. view (fold (apply_write foundry_own) ws s1) = Some x \<and> G s c x)"
  shows "\<exists>s1 c. made_in hist s1 c \<and> G s1 c x"
  using assms(1,2)
proof (induction arbitrary: x)
  case foundry_begin
  then show ?case using start by simp
next
  case (foundry_turn s hist calls replies s')
  let ?P = "\<lambda>u. \<forall>x. view u = Some x \<longrightarrow> (\<exists>s1 c. made_in (Turn s calls replies # hist) s1 c \<and> G s1 c x)"
  have "?P s'"
  proof (rule foundry_turn_invariant [OF foundry_turn.hyps(4,5), where P = ?P])
    show "?P s" using foundry_turn.IH by (blast intro: made_in_later)
    fix c ws and s1 :: foundry_state
    assume "c \<in> set calls" "foundry_effect md5 cfg s c ws" "?P s1"
    moreover have "made_in (Turn s calls replies # hist) s c" using \<open>c \<in> set calls\<close> by (auto simp: made_in_def)
    ultimately show "?P (fold (apply_write foundry_own) ws s1)" using effect by (metis option.inject)
  qed
  with foundry_turn.prems show ?case by blast
next
  case (foundry_alert s hist)
  then show ?case using alert by (metis made_in_later)
qed

definition certified_in :: "(string \<Rightarrow> string) \<Rightarrow> foundry_event list \<Rightarrow> foundry_state \<Rightarrow> test_result list \<Rightarrow> string \<Rightarrow> bool" where
  \<comment> \<open>a run without a seed on the draft of the state was clean\<close>
  "certified_in md5 hist s1 rs d \<longleftrightarrow>
     (\<exists>wd. made_in hist s1 (wd, ForgeTest None) \<and> forged wd s1 None rs) \<and> clean_results s1 rs \<and>
     d = checked_digest md5 (authoring_state.truncate s1) []"

definition judged_in :: "(string \<Rightarrow> string) \<Rightarrow> foundry_event list \<Rightarrow> foundry_state \<Rightarrow> string \<Rightarrow> bool" where
  "judged_in md5 hist s1 d \<longleftrightarrow>
     (\<exists>wd rs draft. made_in hist s1 (wd, FoundryFeedback rs) \<and> curr_spec s1 = Some draft \<and>
        good (judge_verdict (foundry_judge wd draft (skipped s1) rs))) \<and> d = draft_digest md5 (authoring_state.truncate s1) []"

definition reported_in :: "foundry_event list \<Rightarrow> string list \<Rightarrow> bool" where
  \<comment> \<open>some run of forge reported tests of these names, or failed to build\<close>
  "reported_in hist ns \<longleftrightarrow>
     (\<exists>s1 wd seed. made_in hist s1 (wd, ForgeTest seed) \<and> (ns = [] \<or> (\<exists>rs. forged wd s1 seed rs \<and> ns = map test_name rs)))"

lemma forge_stamp_origin:
  assumes "foundry_session md5 cfg s hist" and "dget (validations s) forge_test_key = Some d"
  shows "\<exists>s1 rs. certified_in md5 hist s1 rs d"
proof -
  let ?G = "\<lambda>s1 c d. \<exists>wd rs. c = (wd, ForgeTest None) \<and> forged wd s1 None rs \<and> clean_results s1 rs \<and>
    d = checked_digest md5 (authoring_state.truncate s1) []"
  have "\<exists>s1 c. made_in hist s1 c \<and> ?G s1 c d"
  proof (rule written_by_a_call [where view = "\<lambda>s. dget (validations s) forge_test_key", OF assms])
    show "dget (validations (fold (apply_write foundry_own) ws s1)) forge_test_key = dget (validations s1) forge_test_key \<or>
        (\<exists>x. dget (validations (fold (apply_write foundry_own) ws s1)) forge_test_key = Some x \<and> ?G s c x)"
      if "foundry_effect md5 cfg s c ws" for s c ws and s1 :: foundry_state
      using that by cases (auto simp: merge_validation_def dget_dset foundry_keys)
  qed (simp_all add: foundry_start_def wrap_up_def)
  then show ?thesis by (auto simp: certified_in_def)
qed

lemma judge_stamp_origin:
  assumes "foundry_session md5 cfg s hist" and "dget (validations s) foundry_feedback_key = Some d"
  shows "\<exists>s1. judged_in md5 hist s1 d"
proof -
  let ?G = "\<lambda>s1 c d. \<exists>wd rs draft. c = (wd, FoundryFeedback rs) \<and> curr_spec s1 = Some draft \<and>
    good (judge_verdict (foundry_judge wd draft (skipped s1) rs)) \<and> d = draft_digest md5 (authoring_state.truncate s1) []"
  have "\<exists>s1 c. made_in hist s1 c \<and> ?G s1 c d"
  proof (rule written_by_a_call [where view = "\<lambda>s. dget (validations s) foundry_feedback_key", OF assms])
    show "dget (validations (fold (apply_write foundry_own) ws s1)) foundry_feedback_key = dget (validations s1) foundry_feedback_key \<or>
        (\<exists>x. dget (validations (fold (apply_write foundry_own) ws s1)) foundry_feedback_key = Some x \<and> ?G s c x)"
      if "foundry_effect md5 cfg s c ws" for s c ws and s1 :: foundry_state
      using that by cases (auto simp: merge_validation_def dget_dset foundry_keys)
  qed (simp_all add: foundry_start_def wrap_up_def)
  then show ?thesis by (auto simp: judged_in_def)
qed

lemma test_names_origin:
  assumes "foundry_session md5 cfg s hist" and "last_test_names s = Some ns"
  shows "reported_in hist ns"
proof -
  let ?G = "\<lambda>s1 c ns. \<exists>wd seed. c = (wd, ForgeTest seed) \<and> (ns = [] \<or> (\<exists>rs. forged wd s1 seed rs \<and> ns = map test_name rs))"
  have "\<exists>s1 c. made_in hist s1 c \<and> ?G s1 c ns"
  proof (rule written_by_a_call [where view = last_test_names, OF assms])
    show "last_test_names (fold (apply_write foundry_own) ws s1) = last_test_names s1 \<or>
        (\<exists>x. last_test_names (fold (apply_write foundry_own) ws s1) = Some x \<and> ?G s c x)"
      if "foundry_effect md5 cfg s c ws" for s c ws and s1 :: foundry_state
      using that by cases auto
  qed (simp_all add: foundry_start_def wrap_up_def)
  then show ?thesis by (auto simp: reported_in_def)
qed

end
