(* ===== verification/Foundry_Published.thy ===== *)
theory Foundry_Published
  imports Foundry_Laws Component_Report
begin

text \<open>
  What a batch that is returned as a full result has been through, and what the report says of it. A batch published
  after the monitor's wrap-up order is returned as curtailed and no claim is made for it.
\<close>

subsection \<open>What stays fixed\<close>

definition foundry_fixed :: "foundry_config \<Rightarrow> foundry_state \<Rightarrow> bool" where
  "foundry_fixed cfg s \<longleftrightarrow>
     required_validations s = (if budget_curtailed s then [] else [forge_test_key, foundry_feedback_key]) \<and>
     skips_known (fc_titles cfg) s"

lemma foundry_fixed: "foundry_session md5 cfg s hist \<Longrightarrow> foundry_fixed cfg s"
proof (induction rule: foundry_session.induct)
  case foundry_begin
  then show ?case by (simp add: foundry_fixed_def foundry_start_def skips_known_def skips_ok_def)
next
  case (foundry_turn s hist calls replies s')
  show ?case
  proof (rule foundry_turn_invariant [OF foundry_turn.hyps(4,5), where P = "foundry_fixed cfg"])
    show "foundry_fixed cfg s" by (rule foundry_turn.IH)
    fix c ws and s1 :: foundry_state
    assume "foundry_effect md5 cfg s c ws" and *: "foundry_fixed cfg s1"
    then show "foundry_fixed cfg (fold (apply_write foundry_own) ws s1)"
    proof cases
      case (skip title why wd)
      then show ?thesis using * by (simp add: foundry_fixed_def skips_known_merge)
    next
      case (unskip title wd)
      then show ?thesis using * by (simp add: foundry_fixed_def skips_known_merge)
    qed (auto simp: foundry_fixed_def skips_known_def)
  qed
next
  case (foundry_alert s hist)
  then show ?case by (simp add: foundry_fixed_def wrap_up_def skips_known_def)
qed

subsection \<open>The gate\<close>

definition foundry_gates :: "gate list" where
  "foundry_gates = [Checker forge_test_key, Judge foundry_feedback_key]"

lemma foundry_stamps:
  "dget (current_stamps [forge_test_stamper md5, foundry_feedback_stamper md5] s h) forge_test_key = Some (checked_digest md5 s h)"
  "dget (current_stamps [forge_test_stamper md5, foundry_feedback_stamper md5] s h) foundry_feedback_key = Some (draft_digest md5 s h)"
proof -
  have gates: "[forge_test_stamper md5, foundry_feedback_stamper md5] = map (gate_stamper md5) foundry_gates"
    by (simp add: foundry_gates_def forge_test_stamper_def foundry_feedback_stamper_def fun_eq_iff)
  have distinct: "distinct (map gate_key foundry_gates)" by (simp add: foundry_gates_def foundry_keys)
  show "dget (current_stamps [forge_test_stamper md5, foundry_feedback_stamper md5] s h) forge_test_key = Some (checked_digest md5 s h)"
    "dget (current_stamps [forge_test_stamper md5, foundry_feedback_stamper md5] s h) foundry_feedback_key = Some (draft_digest md5 s h)"
    using dget_current_stamps [OF distinct, of "Checker forge_test_key" md5 s h]
      dget_current_stamps [OF distinct, of "Judge foundry_feedback_key" md5 s h]
    by (simp_all add: gates foundry_gates_def)
qed

lemma foundry_completed:
  assumes "check_foundry_completion md5 s = Inr None"
  shows "curr_spec s \<noteq> None" and "required_validations s = [forge_test_key, foundry_feedback_key] \<Longrightarrow>
    dget (validations s) forge_test_key = Some (checked_digest md5 (authoring_state.truncate s) []) \<and>
    dget (validations s) foundry_feedback_key = Some (draft_digest md5 (authoring_state.truncate s) [])"
  using assms by (auto simp: check_foundry_completion_def check_completion_None_iff foundry_stamps)

lemma foundry_gate_never_raises:
  assumes "foundry_session md5 cfg s hist"
  shows "foundry_tool md5 cfg s c \<noteq> Inl (StateError e)"
proof -
  have "\<forall>k\<in>set (required_validations s).
      dget (current_stamps [forge_test_stamper md5, foundry_feedback_stamper md5] (authoring_state.truncate s) []) k \<noteq> None"
    using foundry_fixed [OF assms] by (auto simp: foundry_fixed_def foundry_stamps split: if_splits)
  then have total: "check_foundry_completion md5 s \<noteq> Inl e" for e
    by (simp add: check_foundry_completion_def check_completion_def check_required_total)
  have parse: "parse_forge_json loads out \<noteq> Inl (StateError e)" for loads out
    by (auto simp: parse_forge_json_def Let_def split: option.splits)
  have "forge_test md5 cfg wd s seed \<noteq> Inl (StateError e)" for wd seed
    using parse by (auto simp: forge_test_def Let_def bindE_Inl_iff split: option.splits forge_process.splits)
  moreover have "publish_result md5 (fc_titles cfg) wd s t ms \<noteq> Inl (StateError e)" for wd t ms
    using total by (auto simp: publish_result_def Let_def split: sum.splits option.splits)
  ultimately show ?thesis
    by (induction md5 cfg s c rule: foundry_tool.induct)
      (auto simp: apply_spec_update_def split: option.splits)
qed

subsection \<open>How a batch ends\<close>

definition publishes_tests :: "(string \<Rightarrow> string) \<Rightarrow> foundry_config \<Rightarrow> foundry_state \<Rightarrow> foundry_world \<times> foundry_call \<Rightarrow>
    property_test_mapping list \<Rightarrow> bool" where
  "publishes_tests md5 cfg s c ms \<longleftrightarrow>
     (\<exists>wd t. c = (wd, PublishResult t ms) \<and> check_foundry_completion md5 s = Inr None \<and> (pressured wd \<or> mapping_passes cfg s ms))"

lemma foundry_ending:
  assumes "foundry_session md5 cfg s hist" and "closing s \<noteq> None"
  obtains s0 calls replies rest where "hist = Turn s0 calls replies # rest" "foundry_session md5 cfg s0 rest"
    "mapE (foundry_tool md5 cfg s0) calls = Inr replies" "merge_turn foundry_channel foundry_own replies s0 = Some s"
    "budget_curtailed s = budget_curtailed s0"
    "failed s = Some True \<or> failed s = Some False \<and> curr_spec s \<noteq> None \<and> (\<exists>c\<in>set calls. publishes_tests md5 cfg s0 c (property_tests s))"
  using assms(1)
proof cases
  case foundry_begin
  then show ?thesis using assms(2) by (simp add: foundry_start_def)
next
  case (foundry_alert s0 rest)
  then show ?thesis using assms(2) by (simp add: wrap_up_def)
next
  case (foundry_turn s0 rest calls replies)
  let ?P = "\<lambda>x. budget_curtailed x = budget_curtailed s0 \<and> (curr_spec s0 \<noteq> None \<longrightarrow> curr_spec x \<noteq> None) \<and>
    (closing x = None \<or> failed x = Some True \<or> failed x = Some False \<and> curr_spec s0 \<noteq> None \<and>
      (\<exists>c\<in>set calls. publishes_tests md5 cfg s0 c (property_tests x)))"
  have "?P s"
  proof (rule foundry_turn_invariant [OF foundry_turn(5,6), where P = ?P])
    show "?P s0" using foundry_turn by simp
    fix c ws and x :: foundry_state
    assume "c \<in> set calls" "foundry_effect md5 cfg s0 c ws" "?P x"
    from this(2,1,3) show "?P (fold (apply_write foundry_own) ws x)"
    proof cases
      case (result wd ms t)
      then have "publishes_tests md5 cfg s0 c ms" by (simp add: publishes_tests_def)
      with result \<open>?P x\<close> \<open>c \<in> set calls\<close> foundry_completed(1) show ?thesis by auto
    qed auto
  qed
  with assms(2) foundry_turn show ?thesis by (intro that [of s0 calls replies rest]) auto
qed

text \<open>Every batch ends with a result: no assertion about the final state fails, however the tools were called.\<close>

lemma batch_has_an_outcome:
  assumes "foundry_session md5 cfg s hist" and "closing s \<noteq> None"
  shows "batch_outcome (GraphEnded s) \<noteq> BatchAssertion"
proof -
  have "failed s = Some True \<or> failed s = Some False \<and> curr_spec s \<noteq> None" by (rule foundry_ending [OF assms]) blast
  then show ?thesis using assms(2) by (auto split: if_splits)
qed

subsection \<open>What is published\<close>

definition same_batch :: "foundry_state \<Rightarrow> generated_test \<Rightarrow> bool" where
  "same_batch s g \<longleftrightarrow> curr_spec s = Some (g_source g) \<and> g_skipped g = skipped s \<and> g_expected g = expected_failures s \<and>
     last_test_names s = Some (g_ran g)"

lemma publish_result_alone:
  assumes "mapE (foundry_tool md5 cfg s0) [(wd, PublishResult t ms)] = Inr replies"
    and "merge_turn foundry_channel foundry_own replies s0 = Some s"
    and "batch_outcome (GraphEnded s) = Generated g" and "last_test_names s0 \<noteq> None"
  shows "same_batch s0 g"
proof -
  let ?P = "\<lambda>x. curr_spec x = curr_spec s0 \<and> skipped x = skipped s0 \<and> last_test_names x = last_test_names s0 \<and>
    expected_failures x = expected_failures s0"
  have "?P s"
  proof (rule foundry_turn_invariant [OF assms(1,2), where P = ?P])
    fix c ws and x :: foundry_state
    assume c: "c \<in> set [(wd, PublishResult t ms)]" and "foundry_effect md5 cfg s0 c ws" "?P x"
    from this(2,3) show "?P (fold (apply_write foundry_own) ws x)" by cases (use c in auto)
  qed simp
  with assms(3,4) show ?thesis
    by (auto simp: same_batch_def generated_of_def split: option.splits bool.splits if_splits)
qed

definition tested :: "foundry_state \<Rightarrow> string list \<Rightarrow> property_test_mapping list \<Rightarrow> string \<Rightarrow> bool" where
  \<comment> \<open>the property is skipped, or mapped to tests that all ran\<close>
  "tested s ran_names ms title \<longleftrightarrow> title \<in> property_title ` set (skipped s) \<or>
     (\<exists>names. (title, names) \<in> set (tests_mapping ms) \<and> stripped_names names \<noteq> [] \<and> set (stripped_names names) \<subseteq> set ran_names)"

definition unpressured :: "(foundry_world \<times> foundry_call) list \<Rightarrow> bool" where
  "unpressured calls \<longleftrightarrow> list_all (\<lambda>(wd, c). \<not> pressured wd) calls"

lemma mapping_passes_tested:
  assumes "mapping_passes cfg s ms"
  obtains ns where "last_test_names s = Some ns" "list_all (tested s ns ms) (fc_titles cfg)"
    "set ns = (\<Union>(t, names)\<in>set (tests_mapping ms). set (stripped_names names))"
proof -
  obtain ns where ns: "last_test_names s = Some ns"
    and ok: "validate_check_mapping (tests_mapping ms) (skipped s) (fc_titles cfg) foundry_mapping_vocab (Some ns) = None"
    using assms by (auto simp: mapping_passes_def validate_property_tests_def)
  have "tested s ns ms title" if "title \<in> set (fc_titles cfg)" for title
  proof (cases "title \<in> property_title ` set (skipped s)")
    case False
    with that ok obtain names where names: "(title, names) \<in> set (tests_mapping ms)" by (auto simp: mapping_accepted)
    with ok have "stripped_names names \<noteq> []" "set (stripped_names names) \<subseteq> set ns" by (auto simp: mapping_accepted)
    with names show ?thesis by (auto simp: tested_def)
  qed (simp add: tested_def)
  with ns ok show ?thesis by (intro that [of ns]) (auto simp: list_all_iff mapping_accepted)
qed

lemma published_batch:
  assumes "foundry_session md5 cfg s (Turn s0 calls replies # rest)" and "batch_outcome (GraphEnded s) = Generated g"
    and "unpressured calls"
  shows "\<exists>s1 s2 rs names. certified_in md5 rest s1 rs (checked_digest md5 (authoring_state.truncate s0) []) \<and>
    judged_in md5 rest s2 (draft_digest md5 (authoring_state.truncate s0) []) \<and>
    last_test_names s0 = Some names \<and> reported_in rest names \<and>
    list_all (tested s0 names (g_tests g)) (fc_titles cfg) \<and>
    set names = (\<Union>(t, us)\<in>set (tests_mapping (g_tests g)). set (stripped_names us)) \<and>
    (case calls of [(wd, PublishResult t ms)] \<Rightarrow> same_batch s0 g | _ \<Rightarrow> True)"
proof -
  have closed: "closing s \<noteq> None" "failed s = Some False" "\<not> budget_curtailed s" "g_tests g = property_tests s"
    using assms(2) by (auto simp: generated_of_def split: option.splits bool.splits if_splits)
  have hist: "foundry_session md5 cfg s0 rest" using assms(1) by cases
  have turn: "mapE (foundry_tool md5 cfg s0) calls = Inr replies" "merge_turn foundry_channel foundry_own replies s0 = Some s"
    and uncurtailed: "\<not> budget_curtailed s0"
    and pub: "\<exists>c\<in>set calls. publishes_tests md5 cfg s0 c (g_tests g)"
    using closed by (rule_tac foundry_ending [OF assms(1) closed(1)], auto)+
  from pub obtain c where c: "c \<in> set calls" "publishes_tests md5 cfg s0 c (g_tests g)" by blast
  have gate: "check_foundry_completion md5 s0 = Inr None" and "mapping_passes cfg s0 (g_tests g)"
    using c assms(3) by (auto simp: publishes_tests_def unpressured_def list_all_iff)
  then obtain names where names: "last_test_names s0 = Some names" "list_all (tested s0 names (g_tests g)) (fc_titles cfg)"
    "set names = (\<Union>(t, us)\<in>set (tests_mapping (g_tests g)). set (stripped_names us))" by (elim mapping_passes_tested)
  have "required_validations s0 = [forge_test_key, foundry_feedback_key]"
    using foundry_fixed [OF hist] uncurtailed by (simp add: foundry_fixed_def)
  note stamps = foundry_completed(2) [OF gate this]
  obtain s1 rs where "certified_in md5 rest s1 rs (checked_digest md5 (authoring_state.truncate s0) [])"
    using forge_stamp_origin [OF hist] stamps by blast
  moreover obtain s2 where "judged_in md5 rest s2 (draft_digest md5 (authoring_state.truncate s0) [])"
    using judge_stamp_origin [OF hist] stamps by blast
  moreover have "case calls of [(wd, PublishResult t ms)] \<Rightarrow> same_batch s0 g | _ \<Rightarrow> True"
    using publish_result_alone [OF _ turn(2) assms(2)] turn(1) names(1) by (auto split: list.split foundry_call.split)
  ultimately show ?thesis using names test_names_origin [OF hist names(1)] by blast
qed


end
