(* ===== verification/Foundry_Report.thy ===== *)
theory Foundry_Report
  imports Foundry_Published
begin

text \<open>
  What the report says of a Foundry batch, on the whole and against the run that certified it; sample sessions, evaluated,
  and the places where the code falls short of what it promises.
\<close>

subsection \<open>Markings\<close>

lemma no_blank_marks: "\<forall>k. dget d k \<noteq> Some [] \<Longrightarrow> dget (merge_expected_failures d r) k \<noteq> Some []"
proof -
  have "\<forall>k. dget d k \<noteq> Some [] \<Longrightarrow> dget (fold (\<lambda>(k, v) d. if v = [] then dpop k d else dset k v d) r d) k \<noteq> Some []"
  proof (induction r arbitrary: d)
    case (Cons a r)
    then show ?case by (cases a) (simp add: dget_dset dget_dpop)
  qed simp
  then show "\<forall>k. dget d k \<noteq> Some [] \<Longrightarrow> ?thesis" by (simp add: merge_expected_failures_def)
qed

lemma marks_have_reasons:
  assumes "foundry_session md5 cfg s hist"
  shows "\<forall>k. dget (expected_failures s) k \<noteq> Some []"
  using assms
proof induction
  case foundry_begin
  then show ?case by (simp add: foundry_start_def)
next
  case (foundry_turn s hist calls replies s')
  show ?case
  proof (rule foundry_turn_invariant [OF foundry_turn.hyps(4,5), where P = "\<lambda>x. \<forall>k. dget (expected_failures x) k \<noteq> Some []"])
    show "\<forall>k. dget (expected_failures s) k \<noteq> Some []" by (rule foundry_turn.IH)
    fix c ws and s1 :: foundry_state
    assume "foundry_effect md5 cfg s c ws" and *: "\<forall>k. dget (expected_failures s1) k \<noteq> Some []"
    then show "\<forall>k. dget (expected_failures (fold (apply_write foundry_own) ws s1)) k \<noteq> Some []"
      by cases (auto simp: no_blank_marks)
  qed
next
  case (foundry_alert s hist)
  then show ?case by (simp add: wrap_up_def)
qed

lemma expected_reason_iff:
  "\<forall>k. dget d k \<noteq> Some [] \<Longrightarrow> expected_reason d n \<noteq> [] \<longleftrightarrow> n \<in> set (keys d)"
  by (cases "dget d n") (metis dget_None_iff expected_reason_def option.case(1), metis dget_in_keys expected_reason_def option.case(2))

subsection \<open>Outcomes in the report\<close>

lemma foundry_verdict:
  "dict_ok (foundry_verdicts g f) \<and> map_option outcome (dget (foundry_verdicts g f) n) =
     (if n \<in> set (g_ran g) then Some (if expected_reason (g_expected g) n \<noteq> [] then Bad else Good) else None)"
proof -
  have "dict_ok d \<Longrightarrow> dict_ok (fold (\<lambda>name. dset name (w name)) ns d) \<and>
      dget (fold (\<lambda>name. dset name (w name)) ns d) n = (if n \<in> set ns then Some (w n) else dget d n)"
    for w :: "string \<Rightarrow> verdict" and ns d
    by (induction ns arbitrary: d) (auto simp: dget_dset)
  from this [of "[]"] show ?thesis by (simp add: foundry_verdicts_def)
qed

definition shown_rules :: "generated_test \<Rightarrow> string \<Rightarrow> property_formulation list \<Rightarrow> string \<Rightarrow> string \<Rightarrow> rule_verdict list" where
  "shown_rules g name props deliver file =
     rules (collect (foundry_verdicts g) False (one_component name props (foundry_formalized deliver file g)))"

definition unpadded :: "property_test_mapping list \<Rightarrow> bool" where
  "unpadded ms \<longleftrightarrow> list_all (\<lambda>m. list_all (\<lambda>n. strip n = n) (tests m)) ms"

definition agrees_with :: "test_result list \<Rightarrow> rule_verdict \<Rightarrow> bool" where
  \<comment> \<open>the test ran; when it is good, no result of it is a failure, and when it is bad, none is a success\<close>
  "agrees_with rs rv \<longleftrightarrow> rv_name rv \<in> test_name ` set rs \<and>
     (rv_outcome rv = Good \<and> (\<forall>r\<in>set rs. test_name r = rv_name rv \<longrightarrow> test_status r \<noteq> ''Failure'') \<or>
      rv_outcome rv = Bad \<and> (\<forall>r\<in>set rs. test_name r = rv_name rv \<longrightarrow> test_status r \<noteq> ''Success''))"

lemma clean_agrees:
  assumes "clean_results s1 rs" and "rv_name rv \<in> test_name ` set rs" and "rv_outcome rv = (if rv_name rv \<in> set (keys (expected_failures s1)) then Bad else Good)"
  shows "agrees_with rs rv"
proof -
  have "test_status r = ''Failure'' \<Longrightarrow> test_name r \<in> set (keys (expected_failures s1))"
    "test_status r = ''Success'' \<Longrightarrow> test_name r \<notin> set (keys (expected_failures s1))" if "r \<in> set rs" for r
    using assms(1) that unfolding clean_results_def unexpected_failures_def unexpected_passes_def filter_empty_conv by blast+
  with assms(2,3) show ?thesis unfolding agrees_with_def by (metis (full_types))
qed

lemma shown_rule:
  assumes "rv \<in> set (shown_rules g name props deliver file)" and "unpadded (g_tests g)"
    and "set (g_ran g) = (\<Union>(t, us)\<in>set (tests_mapping (g_tests g)). set (stripped_names us))"
  shows "rv_name rv \<in> set (g_ran g) \<and> rv_outcome rv = (if expected_reason (g_expected g) (rv_name rv) \<noteq> [] then Bad else Good)"
proof -
  let ?f = "foundry_formalized deliver file g"
  obtain title us where us: "(title, us) \<in> set (property_checks ?f)" "rv_name rv \<in> set (nonblank us)"
    and out: "\<And>v. dget (foundry_verdicts g ?f) (rv_name rv) = Some v \<Longrightarrow> rv_outcome rv = outcome v"
    using assms(1) foundry_verdict unfolding shown_rules_def by (blast elim: one_component_outcome)
  have mapped: "(title, us) \<in> set (tests_mapping (g_tests g))" using us(1) by (simp add: foundry_formalized_def)
  then have "strip (rv_name rv) = rv_name rv" "strip (rv_name rv) \<noteq> []"
    using us(2) assms(2) by (auto simp: tests_mapping_def unpadded_def list_all_iff nonblank_def)
  then have "rv_name rv \<in> set (stripped_names us)" using us(2) by (force simp: stripped_names_def nonblank_def)
  then have ran: "rv_name rv \<in> set (g_ran g)" using assms(3) mapped by auto
  then show ?thesis using out foundry_verdict [of g ?f "rv_name rv"] by auto
qed


subsection \<open>Sample sessions\<close>

text \<open>An event of a script: the calls of a turn, or none for an alert of the monitor.\<close>

fun run_events :: "(string \<Rightarrow> string) \<Rightarrow> foundry_config \<Rightarrow> foundry_state \<Rightarrow> foundry_event list \<Rightarrow>
    (foundry_world \<times> foundry_call) list option list \<Rightarrow> (foundry_state \<times> foundry_event list) option" where
  "run_events md5 cfg s hist [] = Some (s, hist)"
| "run_events md5 cfg s hist (None # es) =
     (if closing s \<noteq> None then None else run_events md5 cfg (wrap_up s) (Alert s # hist) es)"
| "run_events md5 cfg s hist (Some calls # es) =
     (if closing s \<noteq> None \<or> \<not> list_all (well_formed_call \<circ> snd) calls then None
      else case mapE (foundry_tool md5 cfg s) calls of
        Inl e \<Rightarrow> None
      | Inr replies \<Rightarrow>
          (case merge_turn foundry_channel foundry_own replies s of
             None \<Rightarrow> None
           | Some s' \<Rightarrow> run_events md5 cfg s' (Turn s calls replies # hist) es))"

lemma run_events_session:
  "foundry_session md5 cfg s hist \<Longrightarrow> run_events md5 cfg s hist es = Some (s', hist') \<Longrightarrow> foundry_session md5 cfg s' hist'"
proof (induction es arbitrary: s hist)
  case (Cons e es)
  then show ?case
    by (cases e) (auto split: if_splits sum.splits option.splits intro: foundry_turn foundry_alert)
qed simp

definition suite_of :: "string \<Rightarrow> string \<Rightarrow> json" where
  "suite_of sig st = JObject [(''test/T.t.sol:T'', JObject [(''test_results'', JObject [(sig, JObject [(''status'', JString st)])])])]"

definition sample_foundry :: foundry_world where
  \<comment> \<open>forge prints the draft, and the draft says what forge reports\<close>
  "sample_foundry = \<lparr>has_foundry_toml = True, fresh_key = ''k'',
     loads_json = (\<lambda>t. if t = ''a'' then Some (suite_of ''test_a(uint256)'' ''Success'')
       else if t = ''b'' then Some (suite_of ''test_b()'' ''Failure'')
       else if t = ''c'' then Some (suite_of ''test_c()'' ''Skipped'') else None),
     run_forge = (\<lambda>key draft. ForgeExited draft [] (Some 0)),
     foundry_judge = (\<lambda>t sk rs. JudgeResult \<lparr>good = True, feedback = []\<rparr>), pressured = False\<rparr>"

definition sample_batch :: foundry_config where
  "sample_batch = \<lparr>fc_titles = [''sum''], fc_root = ''/p'', fc_binary = ''forge'', fc_timeout = 600\<rparr>"

definition script :: "foundry_call list \<Rightarrow> (foundry_state \<times> foundry_event list) option" where
  "script calls = run_events (\<lambda>t. t) sample_batch foundry_start [] (map (\<lambda>c. Some [(sample_foundry, c)]) calls)"

definition mapped_to :: "string \<Rightarrow> property_test_mapping list" where
  "mapped_to name = [\<lparr>tested_title = ''sum'', tests = [name]\<rparr>]"

definition checked_draft :: "string \<Rightarrow> foundry_call list" where
  "checked_draft draft = [PutTestRaw draft, ForgeTest None, FoundryFeedback []]"

definition delivered_test :: "string \<Rightarrow> string \<Rightarrow> generated_test" where
  "delivered_test draft name = \<lparr>g_commentary = ''done'', g_source = draft, g_skipped = [], g_tests = mapped_to name,
     g_expected = [], g_ran = [name]\<rparr>"

definition sum_claim :: property_formulation where
  "sum_claim = \<lparr>p_sort = Invariant, p_description = ''the sum is kept'', p_title = ''sum''\<rparr>"

definition shown_outcomes :: "generated_test \<Rightarrow> (string \<times> outcome) list" where
  "shown_outcomes g = map (\<lambda>rv. (rv_name rv, rv_outcome rv)) (shown_rules g ''pool'' [sum_claim] ''test'' ''T.t.sol'')"

lemma sample_batch_outcome:
  "map_option (\<lambda>(s, hist). batch_outcome (GraphEnded s)) (script (checked_draft ''a'' @ [PublishResult ''done'' (mapped_to ''test_a'')])) =
     Some (Generated (delivered_test ''a'' ''test_a''))"
  by code_simp

lemma sample_batch_session:
  obtains s s0 wd t ms replies rest where
    "foundry_session (\<lambda>t. t) sample_batch s (Turn s0 [(wd, PublishResult t ms)] replies # rest)"
    "batch_outcome (GraphEnded s) = Generated (delivered_test ''a'' ''test_a'')" "\<not> pressured wd"
proof -
  let ?run = "script (checked_draft ''a'' @ [PublishResult ''done'' (mapped_to ''test_a'')])"
  obtain s hist where run: "?run = Some (s, hist)"
    and out: "batch_outcome (GraphEnded s) = Generated (delivered_test ''a'' ''test_a'')"
    using sample_batch_outcome by (cases ?run) auto
  have "map_option (\<lambda>(s, hist). case hist of Turn s0 [(wd, PublishResult t ms)] r # rest \<Rightarrow> \<not> pressured wd | _ \<Rightarrow> False) ?run = Some True"
    by code_simp
  then have "case hist of Turn s0 [(wd, PublishResult t ms)] r # rest \<Rightarrow> \<not> pressured wd | _ \<Rightarrow> False" by (simp add: run)
  moreover have "foundry_session (\<lambda>t. t) sample_batch s hist"
    using run_events_session [OF foundry_begin run [unfolded script_def]] .
  ultimately show ?thesis using that out by (simp split: list.splits foundry_event.splits prod.splits foundry_call.splits)
qed



subsection \<open>Where the gate is looser than it reads\<close>

text \<open>
  The names of the tests that ran are those of forge's last run, whatever it ran and however it went, while the stamp is of
  the run that was clean. An author who certifies a draft, runs another one that fails, and puts the first one back can publish
  it with a mapping onto the failing test. The report shows that test as good.
\<close>

theorem mapping_can_name_another_drafts_tests:
  "map_option (\<lambda>(s, hist). batch_outcome (GraphEnded s))
     (script (checked_draft ''a'' @ [PutTestRaw ''b'', ForgeTest None, PutTestRaw ''a'', PublishResult ''done'' (mapped_to ''test_b'')])) =
     Some (Generated (delivered_test ''a'' ''test_b'')) \<and>
   parse_forge_json (loads_json sample_foundry) ''b'' =
     Inr (Some [\<lparr>test_name = ''test_b'', test_status = ''Failure'', test_reason = None\<rparr>]) \<and>
   shown_outcomes (delivered_test ''a'' ''test_b'') = [(''test_b'', Good)]"
  by code_simp

text \<open>
  A run is clean when no result is an unexpected failure or pass. A test that forge skipped is neither, so a batch whose
  only test was skipped is certified and published, and the report shows the test as good.
\<close>

theorem skipped_test_is_reported_good:
  "map_option (\<lambda>(s, hist). batch_outcome (GraphEnded s))
     (script (checked_draft ''c'' @ [PublishResult ''done'' (mapped_to ''test_c'')])) =
     Some (Generated (delivered_test ''c'' ''test_c'')) \<and>
   parse_forge_json (loads_json sample_foundry) ''c'' =
     Inr (Some [\<lparr>test_name = ''test_c'', test_status = ''Skipped'', test_reason = None\<rparr>]) \<and>
   shown_outcomes (delivered_test ''c'' ''test_c'') = [(''test_c'', Good)]"
  by code_simp

text \<open>
  Pressure and the wrap-up order are two different things. Between the moment the budget comes under pressure and the
  monitor's next look at the session, the gates are still required but the mapping is no longer checked: whatever mapping the
  author declares is published, and the batch is returned as a full result and not as a curtailed one.
\<close>

theorem pressured_publish_skips_the_mapping:
  assumes "foundry_session md5 cfg s hist" and "closing s = None" and "\<not> budget_curtailed s"
    and "check_foundry_completion md5 s = Inr None" and "pressured (wd :: foundry_world)"
  shows "\<exists>s' hist' g. foundry_session md5 cfg s' hist' \<and> batch_outcome (GraphEnded s') = Generated g \<and>
    g_tests g = ms \<and> tl hist' = hist"
proof -
  let ?ws = "[ResultWrite c, OwnWrite (TestsWrite ms), FailedWrite False]"
  let ?replies = "[Command ''Accepted'' ?ws]"
  let ?s' = "s\<lparr>closing := Some c, property_tests := ms, failed := Some False\<rparr>"
  obtain draft where draft: "curr_spec s = Some draft" using foundry_completed(1) [OF assms(4)] by blast
  have "mapE (foundry_tool md5 cfg s) [(wd, PublishResult c ms)] = Inr ?replies"
    by (simp add: publish_result_def assms(4,5))
  moreover have "merge_turn foundry_channel foundry_own ?replies s = Some ?s'"
    by (simp add: merge_turn_def List.map_filter_simps)
  ultimately have "foundry_session md5 cfg ?s' (Turn s [(wd, PublishResult c ms)] ?replies # hist)"
    using assms(1,2) by (intro foundry_turn) simp_all
  moreover have "\<exists>g. batch_outcome (GraphEnded ?s') = Generated g \<and> g_tests g = ms"
    by (simp add: draft assms(3) generated_of_def)
  ultimately show ?thesis by (metis list.sel(3))
qed

lemma pressured_publish_skips_the_mapping_witness:
  "\<exists>s hist g. foundry_session (\<lambda>t. t) sample_batch s hist \<and> batch_outcome (GraphEnded s) = Generated g \<and> g_tests g = []"
proof -
  have ready: "map_option (\<lambda>(s, hist). closing s = None \<and> \<not> budget_curtailed s \<and> check_foundry_completion (\<lambda>t. t) s = Inr None)
      (script (checked_draft ''a'')) = Some True"
    by code_simp
  then obtain s hist where run: "script (checked_draft ''a'') = Some (s, hist)"
    and s: "closing s = None" "\<not> budget_curtailed s" "check_foundry_completion (\<lambda>t. t) s = Inr None"
    by (cases "script (checked_draft ''a'')") auto
  have "foundry_session (\<lambda>t. t) sample_batch s hist" using run_events_session [OF foundry_begin run [unfolded script_def]] .
  from pressured_publish_skips_the_mapping [OF this s, of "sample_foundry\<lparr>pressured := True\<rparr>" "[]"] show ?thesis by auto
qed

end
