(* ===== verification/Buffer_Tools.thy ===== *)
theory Buffer_Tools
  imports Agent_Tools Spec_Buffers
begin

text \<open>
  The tools with which an agent writes several named spec buffers (\<^verbatim>\<open>composer/spec/source/buffer_tools.py\<close>), and
  the heuristic behind their notes on copied declarations (\<^verbatim>\<open>duplicated_declarations\<close> in \<^verbatim>\<open>spec_buffers.py\<close>). The CVL parser
  is the argument \<open>syntax\<close>, which gives the error of a text; the cap on run targets is an argument too. A write names a
  buffer and its new value, None to remove it.
\<close>

subsection \<open>Copied declarations\<close>

text \<open>\<^verbatim>\<open>methods\s*\{([^}]*)\}\<close>: the bodies of the blocks, from left to right.\<close>

definition until_char :: "string \<Rightarrow> string \<Rightarrow> string \<times> string" where
  \<comment> \<open>the text before the first of some characters, and from it on\<close>
  "until_char delims s = (takeWhile (\<lambda>d. d \<notin> set delims) s, dropWhile (\<lambda>d. d \<notin> set delims) s)"

definition methods_block :: "string \<Rightarrow> (string \<times> string) option" where
  \<comment> \<open>a block that begins here: its body, and what follows it\<close>
  "methods_block s =
     (if \<not> starts_with ''methods'' s then None
      else case dropWhile is_blank (drop 7 s) of
        [] \<Rightarrow> None
      | c # r \<Rightarrow>
          if c \<noteq> CHR ''{'' then None
          else case until_char ''}'' r of (body, rest) \<Rightarrow> if rest = [] then None else Some (body, tl rest))"

lemma methods_block_shorter: "methods_block s = Some (body, rest) \<Longrightarrow> length rest < length s"
proof -
  assume a: "methods_block s = Some (body, rest)"
  then obtain c r where r: "dropWhile is_blank (drop 7 s) = c # r"
    by (auto simp: methods_block_def split: if_splits list.splits)
  then have "rest = tl (dropWhile (\<lambda>d. d \<notin> set ''}'') r)"
    using a by (auto simp: methods_block_def until_char_def split: if_splits)
  then have "length rest \<le> length r" using length_dropWhile_le [of "\<lambda>d. d \<notin> set ''}''" r] by simp
  moreover have "length (c # r) \<le> length s" using length_dropWhile_le [of is_blank "drop 7 s"] r by simp
  ultimately show ?thesis by simp
qed

function method_blocks :: "string \<Rightarrow> string list" where
  "method_blocks s =
     (if s = [] then []
      else case methods_block s of None \<Rightarrow> method_blocks (tl s) | Some (body, rest) \<Rightarrow> body # method_blocks rest)"
  by pat_completeness auto
termination
  by (relation "measure length") (auto simp: methods_block_shorter)

declare method_blocks.simps [simp del]

text \<open>\<^verbatim>\<open>\bghost\b[^;{]*;\<close>; the first argument is the character before the text.\<close>

definition word_char :: "char \<Rightarrow> bool" where
  "word_char c \<longleftrightarrow> is_alnum c \<or> c = CHR ''_''"

definition boundary :: "char option \<Rightarrow> string \<Rightarrow> bool" where
  "boundary prev rest \<longleftrightarrow> (case prev of None \<Rightarrow> False | Some c \<Rightarrow> word_char c) \<noteq> (case rest of [] \<Rightarrow> False | c # _ \<Rightarrow> word_char c)"

definition ghost_decl :: "char option \<Rightarrow> string \<Rightarrow> (string \<times> string) option" where
  \<comment> \<open>a declaration that begins here, and what follows it\<close>
  "ghost_decl prev s =
     (if starts_with ''ghost'' s \<and> boundary prev s \<and> boundary (Some CHR ''t'') (drop 5 s)
      then case until_char '';{'' (drop 5 s) of (body, rest) \<Rightarrow>
        if rest \<noteq> [] \<and> hd rest = CHR '';'' then Some (''ghost'' @ body @ '';'', tl rest) else None
      else None)"

lemma ghost_decl_shorter: "ghost_decl prev s = Some (d, rest) \<Longrightarrow> length rest < length s"
proof -
  assume a: "ghost_decl prev s = Some (d, rest)"
  let ?r = "dropWhile (\<lambda>d. d \<notin> set '';{'') (drop 5 s)"
  have "rest = tl ?r" "?r \<noteq> []" using a by (auto simp: ghost_decl_def until_char_def split: if_splits)
  moreover have "length ?r \<le> length s" using length_dropWhile_le [of "\<lambda>d. d \<notin> set '';{''" "drop 5 s"] by simp
  ultimately show ?thesis by (cases ?r) auto
qed

function ghost_decls :: "char option \<Rightarrow> string \<Rightarrow> string list" where
  "ghost_decls prev s =
     (if s = [] then []
      else case ghost_decl prev s of
        None \<Rightarrow> ghost_decls (Some (hd s)) (tl s)
      | Some (d, rest) \<Rightarrow> d # ghost_decls (Some CHR '';'') rest)"
  by pat_completeness auto
termination
  by (relation "measure (\<lambda>(p, s). length s)") (auto simp: ghost_decl_shorter)

declare ghost_decls.simps [simp del]

text \<open>\<^verbatim>\<open>re.sub\<close> of the block comments, then of the line comments.\<close>

fun skip_comment :: "string \<Rightarrow> string option" where
  \<comment> \<open>what follows the first closing mark\<close>
  "skip_comment (CHR ''*'' # CHR ''/'' # r) = Some r"
| "skip_comment (c # r) = skip_comment r"
| "skip_comment [] = None"

lemma skip_comment_shorter: "skip_comment s = Some r \<Longrightarrow> length r < length s"
  by (induction s rule: skip_comment.induct) (auto split: if_splits)

function drop_block_comments :: "string \<Rightarrow> string" where
  "drop_block_comments s =
     (if s = [] then []
      else case (if starts_with ''/*'' s then skip_comment (drop 2 s) else None) of
        None \<Rightarrow> hd s # drop_block_comments (tl s)
      | Some r \<Rightarrow> drop_block_comments r)"
  by pat_completeness auto
termination
proof (relation "measure length", goal_cases)
  case (3 s r)
  then show ?case using skip_comment_shorter [of "drop 2 s" r] by (auto split: if_splits)
qed auto

declare drop_block_comments.simps [simp del]

fun drop_line_comments :: "bool \<Rightarrow> string \<Rightarrow> string" where
  \<comment> \<open>the flag says that the text is inside a comment\<close>
  "drop_line_comments inside [] = []"
| "drop_line_comments True (c # cs) = (if c = CHR 0x0A then c # drop_line_comments False cs else drop_line_comments True cs)"
| "drop_line_comments False (c # cs) =
     (if starts_with ''//'' (c # cs) then drop_line_comments True cs else c # drop_line_comments False cs)"

fun words_from :: "string \<Rightarrow> string \<Rightarrow> string list" where
  \<comment> \<open>\<^verbatim>\<open>s.split()\<close>, with the word read so far\<close>
  "words_from acc [] = (if acc = [] then [] else [acc])"
| "words_from acc (c # cs) =
     (if is_blank c then (if acc = [] then [] else [acc]) @ words_from [] cs else words_from (acc @ [c]) cs)"

definition normalize_decl :: "string \<Rightarrow> string" where
  "normalize_decl s = join '' '' (words_from [] (drop_line_comments False (drop_block_comments s)))"

definition extract_decls :: "string \<Rightarrow> string list" where
  \<comment> \<open>a set, in the order of the first finds\<close>
  "extract_decls text =
     rev (remdups (rev
       (List.map_filter (\<lambda>e. let n = normalize_decl e in if starts_with ''function '' n then Some (n @ '';'') else None)
          (concat (map (split_on CHR '';'') (method_blocks text))) @
        map normalize_decl (ghost_decls None text))))"

definition duplicated_declarations :: "buffers \<Rightarrow> (string, string list) dict" where
  "duplicated_declarations bs =
     map (\<lambda>(d, ns). (d, sort ns))
       (filter (\<lambda>(d, ns). length ns > 1)
         (fold (\<lambda>b. fold (\<lambda>d. append_at d (buf_name b)) (extract_decls (cvl b))) (run_targets bs) []))"

definition dup_note :: "buffers \<Rightarrow> string \<Rightarrow> string" where
  "dup_note bs name =
     (let dups = map (\<lambda>(d, ns). (d, filter (\<lambda>n. n \<noteq> name) ns))
            (filter (\<lambda>(d, ns). name \<in> set ns) (duplicated_declarations bs))
      in if dups = [] then []
         else newline @ newline @ ''NOTE: these declarations are duplicated in other run-target buffers '' @ em_dash @ '' consider moving '' @
              ''each to a shared buffer the duplicating buffers import, before proving:'' @ newline @
              join newline (map (\<lambda>(d, ns). ''  '' @ d @ ''  (also in '' @ repr_list ns @ '')'') dups))"

subsection \<open>The tools\<close>

type_synonym buffer_write = "string \<times> named_buffer option"

definition escapes_component_dir :: "string \<Rightarrow> bool" where
  "escapes_component_dir name \<longleftrightarrow> path_root (pure_path name) > 0 \<or> ''..'' \<in> set (path_parts (pure_path name))"

definition accept_buffer :: "buffers \<Rightarrow> named_buffer \<Rightarrow> string \<Rightarrow> buffer_write tool_reply" where
  \<comment> \<open>the answer shared by the tools that write a buffer\<close>
  "accept_buffer bs b name = Command (''Accepted'' @ dup_note (dset name b bs) name) [OwnWrite (name, Some b)]"

definition no_buffer :: "string \<Rightarrow> string" where
  "no_buffer name = ''No buffer named '' @ py_repr name @ ''. Create it with put_buffer first.''"

definition count_targets :: "buffers \<Rightarrow> nat" where
  "count_targets bs = length (filter is_run_target (vals bs))"

definition kept_mapping :: "buffers \<Rightarrow> string \<Rightarrow> (string, string list) dict \<Rightarrow> (string, string list) dict" where
  \<comment> \<open>an omitted mapping keeps the one declared before\<close>
  "kept_mapping bs name rules =
     (if rules \<noteq> [] then rules else case dget bs name of None \<Rightarrow> [] | Some b \<Rightarrow> property_rules b)"

definition put_buffer :: "(string \<Rightarrow> string option) \<Rightarrow> int \<Rightarrow> buffers \<Rightarrow> string \<Rightarrow> string \<Rightarrow> (string, string list) dict \<Rightarrow> bool \<Rightarrow>
    buffer_write tool_reply" where
  "put_buffer syntax cap bs name text rules target =
     (if escapes_component_dir name
      then Reply (''Buffer name '' @ py_repr name @ '' must stay within the component's spec dir '' @
             ''(certora/specs/<component>/): '' @ squote @ ''..'' @ squote @ '' and absolute paths are rejected.'')
      else case syntax text of
        Some err \<Rightarrow> Reply err
      | None \<Rightarrow>
          if target \<and> dget bs name = None \<and> int (count_targets bs) \<ge> cap
          then Reply (''Refusing to create run-target buffer '' @ py_repr name @ '': the run-target buffer cap '' @
                 ''('' @ show_int cap @ '') is already reached. Fold these properties into an existing run-target '' @
                 ''buffer instead.'')
          else
            let mapping = kept_mapping bs name rules
            in if \<not> target \<and> mapping \<noteq> []
               then Reply (''Buffer '' @ py_repr name @ '' is shared (is_run_target=false) but carries a property->rule '' @
                      ''mapping '' @ repr_list (sort (keys mapping)) @ ''; a shared buffer declares no properties.'')
               else accept_buffer bs (derive_path_from_name
                      \<lparr>buf_name = name, cvl = text, path = [], property_rules = mapping, is_run_target = target\<rparr>) name)"

definition edit_buffer_tool :: "(string \<Rightarrow> string option) \<Rightarrow> buffers \<Rightarrow> string \<Rightarrow> string \<Rightarrow> string \<Rightarrow> buffer_write tool_reply" where
  "edit_buffer_tool syntax bs name old new =
     (case dget bs name of
        None \<Rightarrow> Reply (no_buffer name)
      | Some b \<Rightarrow>
          (case replace_unique (cvl b) old new False of
             EditErr msg \<Rightarrow> Reply msg
           | EditOk t \<Rightarrow> (case syntax t of Some err \<Rightarrow> Reply err | None \<Rightarrow> accept_buffer bs (b\<lparr>cvl := t\<rparr>) name)))"

definition remap_buffer :: "buffers \<Rightarrow> string \<Rightarrow> (string, string list) dict \<Rightarrow> buffer_write tool_reply" where
  "remap_buffer bs name rules =
     (case dget bs name of
        None \<Rightarrow> Reply (no_buffer name)
      | Some b \<Rightarrow>
          if \<not> is_run_target b
          then Reply (''Buffer '' @ py_repr name @ '' is shared (is_run_target=false) and declares no properties.'')
          else if rules = []
          then Reply (''Refusing an empty mapping for '' @ py_repr name @ '': use delete_buffer to drop the buffer.'')
          else accept_buffer bs (b\<lparr>property_rules := rules\<rparr>) name)"

definition get_buffer :: "buffers \<Rightarrow> string \<Rightarrow> 'w tool_reply" where
  "get_buffer bs name =
     Reply (case dget bs name of Some b \<Rightarrow> cvl b | None \<Rightarrow> ''No buffer named '' @ py_repr name @ ''.'')"

definition list_buffers :: "buffers \<Rightarrow> 'w tool_reply" where
  "list_buffers bs =
     Reply (if bs = [] then ''No spec buffers yet.''
       else join newline (map (\<lambda>(name, b).
         let imps = imports_of bs b
         in ''- '' @ name @ '' ('' @ (if is_run_target b then ''run-target'' else ''shared'') @ '', '' @
            show_nat (length (owned_rules b)) @ '' rules'' @
            (if imps \<noteq> [] then '', imports '' @ repr_list (sort imps) else []) @ '')'') (sort_key fst bs)))"

definition delete_buffer :: "buffers \<Rightarrow> string \<Rightarrow> buffer_write tool_reply" where
  "delete_buffer bs name =
     (if dget bs name = None then Reply (''No buffer named '' @ py_repr name @ ''.'')
      else Command ''Deleted'' [OwnWrite (name, None)])"

end
