(* ===== verification/Prover_Runs.thy ===== *)
theory Prover_Runs
  imports Prover_Core Spec_Buffers
begin

text \<open>
  The history of prover runs an author's session keeps, and what is read off it (\<^verbatim>\<open>composer/spec/source/prover.py\<close>):
  whether the runs against the current state verify a buffer, which rules the prover declared, which links account for the
  published spec, and which rules are stuck on one failure. With it, the scopes of a run (\<^verbatim>\<open>composer/prover/conf.py\<close>) and the
  settings laid over a configuration.
\<close>

subsection \<open>Scopes and configurations\<close>

datatype rule_selection = InheritRules | SelectRules "string list" | ExcludeRules "string list"

text \<open>The classes sort the names when they are constructed.\<close>

definition select_rules :: "string list \<Rightarrow> rule_selection" where "select_rules names = SelectRules (sort names)"

definition exclude_rules :: "string list \<Rightarrow> rule_selection" where "exclude_rules names = ExcludeRules (sort names)"

type_synonym conf = "(string, json) dict"

fun apply_to :: "rule_selection \<Rightarrow> conf \<Rightarrow> conf" where
  "apply_to InheritRules c = c"
| "apply_to (SelectRules names) c = dset ''rule'' (JArray (map JString names)) c"
| "apply_to (ExcludeRules names) c = dset ''exclude_rule'' (JArray (map JString names)) c"

definition overlay_owned_keys :: "string list" where
  "overlay_owned_keys = [''verify'', ''parametric_contracts'', ''optimistic_loop'', ''rule_sanity'', ''rule'', ''msg'']"

definition prover_config_overlay :: "conf \<Rightarrow> string \<Rightarrow> string \<Rightarrow> conf \<Rightarrow> rule_selection \<Rightarrow> conf" where
  "prover_config_overlay base main_contract verify_target extra rules =
     apply_to rules
       (fold (\<lambda>(k, v). dset k v)
         ([(''verify'', JString verify_target), (''parametric_contracts'', JString main_contract),
           (''optimistic_loop'', JBool True), (''rule_sanity'', JString ''basic'')] @ extra) base)"

definition both_rule_scopes :: string where
  "both_rule_scopes = ''Cannot invoke the prover with both `rules` and `exclude_rules` set to non-none''"

definition rule_selection_of :: "string list option \<Rightarrow> string list option \<Rightarrow> string + rule_selection" where
  "rule_selection_of rules excluded =
     (case (rules, excluded) of
        (Some r, Some e) \<Rightarrow> Inl both_rule_scopes
      | (Some r, None) \<Rightarrow> Inr (select_rules r)
      | (None, Some e) \<Rightarrow> Inr (exclude_rules e)
      | (None, None) \<Rightarrow> Inr InheritRules)"

fun checked_rules_of :: "rule_selection \<Rightarrow> string list \<Rightarrow> string list" where
  "checked_rules_of InheritRules declared = declared"
| "checked_rules_of (SelectRules names) declared = filter (\<lambda>r. r \<in> set names) declared"
| "checked_rules_of (ExcludeRules names) declared = filter (\<lambda>r. r \<notin> set names) declared"

subsection \<open>The history\<close>

definition delete_skip :: string where "delete_skip = ''__delete_skip''"

definition merge_rule_skips :: "(string, string) dict \<Rightarrow> (string, string) dict \<Rightarrow> (string, string) dict" where
  "merge_rule_skips l r = fold (\<lambda>(k, v) d. if v = delete_skip then dpop k d else dset k v d) r l"

type_synonym statuses = "(rule_path \<times> status_code) list"

record prover_run_log =
  run_tool_call :: string
  run_results :: statuses
  run_spec_digest :: string
  run_rules :: rule_selection
  run_declared :: "string list"
  run_state_digest :: string
  run_buffer :: "string option"
  run_link :: "string option"

datatype history_item = RunLog prover_run_log | NagMarker "rule_path list"

definition merge_prover_history :: "history_item list \<Rightarrow> history_item list \<Rightarrow> history_item list" where
  "merge_prover_history l r = l @ r"

definition executed_rules :: "prover_run_log \<Rightarrow> string list" where
  "executed_rules r = checked_rules_of (run_rules r) (run_declared r)"

fun run_of :: "history_item \<Rightarrow> prover_run_log option" where
  "run_of (RunLog r) = Some r"
| "run_of (NagMarker ps) = None"

definition runs_newest_first :: "history_item list \<Rightarrow> prover_run_log list" where
  \<comment> \<open>the loops over \<^verbatim>\<open>reversed(history)\<close> that skip everything but runs\<close>
  "runs_newest_first h = List.map_filter run_of (rev h)"

definition declared_rules_at :: "history_item list \<Rightarrow> string \<Rightarrow> string list option" where
  "declared_rules_at h digest = map_option run_declared (List.find (\<lambda>r. run_state_digest r = digest) (runs_newest_first h))"

definition last_prover_run :: "history_item list \<Rightarrow> prover_run_log option" where
  "last_prover_run h = (case runs_newest_first h of [] \<Rightarrow> None | r # _ \<Rightarrow> Some r)"

subsection \<open>Completion\<close>

definition runs_at :: "history_item list \<Rightarrow> string \<Rightarrow> prover_run_log list" where
  \<comment> \<open>the newest runs, up to the first against another state\<close>
  "runs_at h digest = takeWhile (\<lambda>r. run_state_digest r = digest) (runs_newest_first h)"

definition iterate_history :: "history_item list \<Rightarrow> string \<Rightarrow> statuses \<Rightarrow> statuses list" where
  "iterate_history h digest curr_status = curr_status # map run_results (runs_at h digest)"

definition covering_run_links :: "history_item list \<Rightarrow> string \<Rightarrow> string list" where
  "covering_run_links h digest = List.map_filter run_link (runs_at h digest)"

definition unforgiven :: "string list \<Rightarrow> statuses \<Rightarrow> bool" where
  \<comment> \<open>some result is neither verified nor of a rule that may fail\<close>
  "unforgiven expected h \<longleftrightarrow> list_ex (\<lambda>(k, st). st \<noteq> VERIFIED \<and> rp_rule k \<notin> set expected) h"

definition covered_by :: "statuses \<Rightarrow> string list" where
  "covered_by h = map (\<lambda>(k, st). rp_rule k) h"

fun completes :: "string list \<Rightarrow> statuses list \<Rightarrow> string list \<Rightarrow> bool" where
  "completes expected [] remaining = False"
| "completes expected (h # hs) remaining =
     (if unforgiven expected h then False
      else let rest = filter (\<lambda>r. r \<notin> set (covered_by h)) remaining
           in if rest = [] then True else completes expected hs rest)"

definition is_completion_history :: "history_item list \<Rightarrow> string \<Rightarrow> string list \<Rightarrow> statuses \<Rightarrow> string list \<Rightarrow> bool" where
  "is_completion_history h digest expected curr_status all_rules =
     completes expected (iterate_history h digest curr_status) all_rules"

definition history_for_buffer :: "history_item list \<Rightarrow> string \<Rightarrow> history_item list" where
  "history_for_buffer h name = filter (\<lambda>it. case it of RunLog r \<Rightarrow> run_buffer r = Some name | NagMarker ps \<Rightarrow> True) h"

definition buffer_is_complete :: "history_item list \<Rightarrow> string \<Rightarrow> string \<Rightarrow> string list \<Rightarrow> statuses \<Rightarrow> string list \<Rightarrow> bool" where
  "buffer_is_complete h name digest expected curr_status all_rules =
     is_completion_history (history_for_buffer h name) digest expected curr_status all_rules"

definition buffer_spec_file :: "string \<Rightarrow> string \<Rightarrow> string" where
  \<comment> \<open>\<^verbatim>\<open>buffer_spec_path(slug, name).relative_to(SPECS_DIR)\<close>\<close>
  "buffer_spec_file slug name = path_str (path_join (pure_path slug) (name @ ''.spec''))"

definition collect_link :: "string \<Rightarrow> prover_run_log \<Rightarrow> (string \<times> string) list \<Rightarrow> (string \<times> string) list" where
  "collect_link spec r links =
     (case run_link r of
        None \<Rightarrow> links
      | Some l \<Rightarrow> if l \<noteq> [] \<and> l \<notin> set (map fst links) then links @ [(l, spec)] else links)"

definition completing_run_specs :: "history_item list \<Rightarrow> named_buffer list \<Rightarrow> (string \<Rightarrow> string) \<Rightarrow> string \<Rightarrow> (string \<times> string) list" where
  \<comment> \<open>of the run targets, with the digest of each\<close>
  "completing_run_specs h bufs digest_of slug =
     fold (\<lambda>b. fold (collect_link (buffer_spec_file slug (buf_name b)))
                 (runs_at (history_for_buffer h (buf_name b)) (digest_of (buf_name b)))) bufs []"

subsection \<open>Stuck rules\<close>

definition stuck_rule_nag_threshold :: nat where "stuck_rule_nag_threshold = 3"

definition count_streak :: "(rule_path, status_code) dict \<Rightarrow> prover_run_log \<Rightarrow> rule_path \<Rightarrow>
    (rule_path, nat) dict \<times> rule_path list \<Rightarrow> (rule_path, nat) dict \<times> rule_path list" where
  "count_streak stuck r k = (\<lambda>(counts, warn).
     if rp_rule k \<notin> set (executed_rules r) then (counts, warn)
     else if \<not> list_ex (\<lambda>(p, st). p = k \<and> dget stuck k = Some st) (run_results r) then (dpop k counts, warn)
     else case dget counts k of
       None \<Rightarrow> (counts, warn)
     | Some n \<Rightarrow> if Suc n = stuck_rule_nag_threshold then (dpop k counts, warn @ [k]) else (dset k (Suc n) counts, warn))"

fun stuck_scan :: "(rule_path, status_code) dict \<Rightarrow> string list \<Rightarrow> history_item list \<Rightarrow> (rule_path, nat) dict \<Rightarrow>
    rule_path list \<Rightarrow> bool \<Rightarrow> rule_path list \<times> bool" where
  \<comment> \<open>the history newest first, the tally, the rules to warn about, and whether an inspected run predates the compaction\<close>
  "stuck_scan stuck known [] counts warn seen = (warn, seen)"
| "stuck_scan stuck known (it # its) counts warn seen =
     (if counts = [] then (warn, seen)
      else case it of
        NagMarker ps \<Rightarrow> stuck_scan stuck known its (fold dpop ps counts) warn seen
      | RunLog r \<Rightarrow>
          (case fold (count_streak stuck r) (keys counts) (counts, warn) of
             (counts', warn') \<Rightarrow> stuck_scan stuck known its counts' warn' (seen \<or> run_tool_call r \<notin> set known)))"

definition stuck_rule_warnings :: "(rule_path, status_code) dict \<Rightarrow> history_item list \<Rightarrow> string list \<Rightarrow> rule_path list \<times> bool" where
  "stuck_rule_warnings stuck h known = stuck_scan stuck known (rev h) (map (\<lambda>(k, st). (k, 1)) stuck) [] False"

definition stuck_rule_reminder :: "rule_path list \<Rightarrow> string list \<Rightarrow> bool \<Rightarrow> string list" where
  "stuck_rule_reminder to_warn plugin_tools seen_post_compaction =
     [''The following rule(s) have had identical failures on the last 3 runs of the prover:''] @
     map (\<lambda>p. ''- '' @ path_pprint p) to_warn @
     [''You may need to significantly change your approach, or skip the property if this is a persistent issue (you may need to use rebuttals to communicate'' @
      '' these failures to the feedback judge).''] @
     (if plugin_tools \<noteq> []
      then [''Plugins have also given you these tools: '' @ comma_join (sort plugin_tools) @
            ''. Read their descriptions and use one if it '' @ ''addresses this failure.''] else []) @
     (if seen_post_compaction
      then [''(NB: Some of these prover calls happened before your most recent task history summarization)''] else [])"

definition stuck_rules_of :: "statuses \<Rightarrow> string list \<Rightarrow> (rule_path, status_code) dict" where
  "stuck_rules_of pairs skips =
     dict_of (filter (\<lambda>(k, v). v \<in> {TIMEOUT, ERROR, SANITY_FAILED} \<and> rp_rule k \<notin> set skips) pairs)"

definition stuck_rule_nag :: "statuses \<Rightarrow> history_item list \<Rightarrow> string list \<Rightarrow> string list \<Rightarrow> string list \<Rightarrow>
    string list \<times> history_item list" where
  \<comment> \<open>the reminder, and what is appended to the update of the history\<close>
  "stuck_rule_nag pairs h skips known plugin_tools =
     (case stuck_rule_warnings (stuck_rules_of pairs skips) h known of
        (to_warn, seen) \<Rightarrow>
          if to_warn = [] then ([], []) else (stuck_rule_reminder to_warn plugin_tools seen, [NagMarker to_warn]))"

definition component_slug :: "string option \<Rightarrow> string \<Rightarrow> string" where
  "component_slug stem main_contract =
     (let s = (case stem of None \<Rightarrow> main_contract | Some t \<Rightarrow> if t = [] then main_contract else t)
      in if starts_with ''autospec_'' s then drop 9 s else s)"

end
