(* ===== verification/Conf_Edits.thy ===== *)
theory Conf_Edits
  imports Agent_Tools Prover_Runs
begin

text \<open>
  Edits of the prover configuration by its author: the per-file compiler maps (\<^verbatim>\<open>composer/spec/source/conf_maps.py\<close>)
  and the tool \<^verbatim>\<open>ConfigEditTool\<close> of \<^verbatim>\<open>author.py\<close>. A configuration is a JSON object; an edit of its \<^verbatim>\<open>files\<close> raises where
  they are missing or not a list of strings.
\<close>

subsection \<open>Per-file compiler maps\<close>

text \<open>A value of a map: the settings of the code are strings, integers and Booleans.\<close>

record compiler_settings =
  set_solc :: "json option"
  set_optimize :: "json option"
  set_via_ir :: "json option"
  set_evm_version :: "json option"

definition setting_to_maps :: "(string \<times> string list) list" where
  "setting_to_maps =
     [(''solc'', [''solc_map'', ''compiler_map'']), (''optimize'', [''solc_optimize_map'']),
      (''via_ir'', [''solc_via_ir_map'']), (''evm_version'', [''solc_evm_version_map''])]"

definition compiler_map_keys :: "string list" where
  "compiler_map_keys = concat (map snd setting_to_maps)"

definition setting_of :: "compiler_settings \<Rightarrow> string \<Rightarrow> json option" where
  "setting_of s field =
     (if field = ''solc'' then set_solc s else if field = ''optimize'' then set_optimize s
      else if field = ''via_ir'' then set_via_ir s else if field = ''evm_version'' then set_evm_version s else None)"

definition files_entry_contract :: "string \<Rightarrow> string" where
  "files_entry_contract entry =
     (if CHR '':'' \<in> set entry then snd (split_once CHR '':'' entry) else path_stem entry)"

definition map_in :: "conf \<Rightarrow> string \<Rightarrow> (string, json) dict option" where
  \<comment> \<open>the map under a key, if there is one and it is not empty\<close>
  "map_in config k = (case dget config k of Some (JObject m) \<Rightarrow> if m = [] then None else Some m | _ \<Rightarrow> None)"

record required_setting =
  rs_field :: string
  rs_map_key :: string
  rs_existing :: "json list"

record missing_settings =
  ms_entry :: string
  ms_contract :: string
  ms_required :: "required_setting list"

record map_violations =
  v_missing :: "missing_settings list"
  v_spurious :: "(string \<times> string list) list"

definition distinct_values :: "(string, json) dict \<Rightarrow> json list" where
  "distinct_values m = rev (remdups (rev (vals m)))"

definition map_violation_message :: "map_violations \<Rightarrow> string" where
  "map_violation_message v =
     join newline
       ([''The prover configuration's per-file compiler maps reject this file set:''] @
        concat (map (\<lambda>m. map (\<lambda>r.
            ''- '' @ ms_entry m @ '' (contract `'' @ ms_contract m @ ''`): the configuration carries '' @
            ''`'' @ rs_map_key r @ ''` and has no entry for this contract, so '' @
            ''`compiler_settings.'' @ rs_field r @ ''` must be provided '' @
            ''(values the map currently uses: '' @ comma_join (map json_str (rs_existing r)) @ '')'') (ms_required m)) (v_missing v)) @
        map (\<lambda>(entry, fields).
            ''- '' @ entry @ '': '' @ comma_join (map (\<lambda>f. ''compiler_settings.'' @ f) fields) @
            '' declared, but the configuration carries no corresponding '' @
            ''per-file map '' @ em_dash @ '' do not set these; the global settings already govern every file'') (v_spurious v))"

text \<open>What one file asks of the maps: entries to write, settings it lacks, and settings aimed at no map.\<close>

record file_demand =
  additions :: "(string \<times> string \<times> json) list" \<comment> \<open>map, contract, value\<close>
  lacking :: "required_setting list"
  spurious :: "string list"

definition demand_of_field :: "conf \<Rightarrow> string \<Rightarrow> compiler_settings option \<Rightarrow> string \<times> string list \<Rightarrow> file_demand \<Rightarrow> file_demand" where
  "demand_of_field config contract settings = (\<lambda>(field, spellings) d.
     let present = filter (\<lambda>k. map_in config k \<noteq> None) spellings
     in case Option.bind settings (\<lambda>s. setting_of s field) of
          Some v \<Rightarrow>
            if present = [] then d\<lparr>spurious := spurious d @ [field]\<rparr>
            else d\<lparr>additions := additions d @ map (\<lambda>k. (k, contract, v)) present\<rparr>
        | None \<Rightarrow>
            d\<lparr>lacking := lacking d @ List.map_filter (\<lambda>k.
                case map_in config k of
                  None \<Rightarrow> None
                | Some m \<Rightarrow> if dget m contract = None
                    then Some \<lparr>rs_field = field, rs_map_key = k, rs_existing = distinct_values m\<rparr> else None) present\<rparr>)"

definition demand_of_file :: "conf \<Rightarrow> string \<times> compiler_settings option \<Rightarrow> file_demand" where
  "demand_of_file config = (\<lambda>(f, settings).
     fold (demand_of_field config (files_entry_contract f) settings) setting_to_maps
       \<lparr>additions = [], lacking = [], spurious = []\<rparr>)"

definition add_entry :: "string \<times> string \<times> json \<Rightarrow> conf \<Rightarrow> conf" where
  "add_entry = (\<lambda>(k, contract, v) config.
     case map_in config k of None \<Rightarrow> config | Some m \<Rightarrow> dset k (JObject (dset contract v m)) config)"

definition extend_compiler_maps :: "conf \<Rightarrow> (string \<times> compiler_settings option) list \<Rightarrow> map_violations + conf" where
  "extend_compiler_maps config new_files =
     (let demands = map (\<lambda>fs. (fst fs, demand_of_file config fs)) new_files;
          missing = map (\<lambda>(f, d). \<lparr>ms_entry = f, ms_contract = files_entry_contract f, ms_required = lacking d\<rparr>)
            (filter (\<lambda>(f, d). lacking d \<noteq> []) demands);
          spurious_of = map (\<lambda>(f, d). (f, spurious d)) (filter (\<lambda>(f, d). spurious d \<noteq> []) demands)
      in if missing \<noteq> [] \<or> spurious_of \<noteq> [] then Inl \<lparr>v_missing = missing, v_spurious = spurious_of\<rparr>
         else Inr (fold add_entry (concat (map (\<lambda>(f, d). additions d) demands)) config))"

subsection \<open>The edits\<close>

record extension_spec =
  ext_contract :: string
  ext_exclude :: "string list"

datatype config_edit =
    AddFile string "string option" "compiler_settings option"
  | RemoveFile string
  | SetStorageExtensionAnnotation bool
  | SetStorageExtensionHarnesses "(string \<times> string) list"
  | SetContractExtensions "(string, extension_spec list) dict"

definition flag_keys :: "string list" where
  "flag_keys = [''storage_extension_annotation'', ''storage_extension_harnesses'', ''contract_extensions'']"

datatype conf_error = NoFileList

definition files_of :: "conf \<Rightarrow> conf_error + string list" where
  "files_of config =
     (case dget config ''files'' of
        Some (JArray vs) \<Rightarrow> mapE (\<lambda>v. case v of JString f \<Rightarrow> Inr f | _ \<Rightarrow> Inl NoFileList) vs
      | _ \<Rightarrow> Inl NoFileList)"

definition with_files :: "string list \<Rightarrow> conf \<Rightarrow> conf" where
  "with_files fs config = dset ''files'' (JArray (map JString fs)) config"

definition remove_first :: "string \<Rightarrow> string list \<Rightarrow> string list option" where
  \<comment> \<open>the files without the first that begins with the path\<close>
  "remove_first p fs =
     (case dropWhile (\<lambda>f. \<not> starts_with p f) fs of
        [] \<Rightarrow> None
      | _ # rest \<Rightarrow> Some (takeWhile (\<lambda>f. \<not> starts_with p f) fs @ rest))"

definition set_flag :: "string \<Rightarrow> json option \<Rightarrow> conf \<Rightarrow> conf" where
  "set_flag k v config = (case v of None \<Rightarrow> dpop k config | Some x \<Rightarrow> dset k x config)"

definition extension_json :: "extension_spec \<Rightarrow> json" where
  "extension_json e = JObject [(''extension'', JString (ext_contract e)), (''exclude'', JArray (map JString (ext_exclude e)))]"

text \<open>One edit: an exception, the complaint that rejects the whole call, or the new configuration.\<close>

fun apply_config_edit :: "conf \<Rightarrow> config_edit \<Rightarrow> conf_error + string + conf" where
  "apply_config_edit config (RemoveFile p) =
     bindE (files_of config) (\<lambda>fs. case remove_first p fs of
        None \<Rightarrow> Inr (Inl (''Path '' @ p @ '' doesn't seem to appear in '' @ join newline fs))
      | Some fs' \<Rightarrow> Inr (Inr (with_files fs' config)))"
| "apply_config_edit config (AddFile p name settings) =
     bindE (files_of config) (\<lambda>fs.
       if list_ex (starts_with p) fs then Inr (Inl (''Path '' @ p @ '' already appears in prover inputs''))
       else
         let entry = p @ (case name of None \<Rightarrow> [] | Some n \<Rightarrow> '':'' @ n);
             config' = with_files (fs @ [entry]) config
         in case extend_compiler_maps config' [(entry, settings)] of
              Inl v \<Rightarrow> Inr (Inl (map_violation_message v))
            | Inr c \<Rightarrow> Inr (Inr c))"
| "apply_config_edit config (SetStorageExtensionAnnotation b) =
     Inr (Inr (set_flag ''storage_extension_annotation'' (if b then Some (JBool True) else None) config))"
| "apply_config_edit config (SetStorageExtensionHarnesses hs) =
     (if list_ex (\<lambda>(c, h). occurs_in ''.sol'' c \<or> occurs_in ''.sol'' h) hs
      then Inr (Inl ''.sol extension found in a harness pair; provide contract identifiers, not filenames'')
      else Inr (Inr (set_flag ''storage_extension_harnesses''
        (if hs \<noteq> [] then Some (JArray (map (\<lambda>(c, h). JString (c @ ''='' @ h)) hs)) else None) config)))"
| "apply_config_edit config (SetContractExtensions es) =
     (if list_ex (\<lambda>(c, specs). occurs_in ''.sol'' c \<or> list_ex (\<lambda>e. occurs_in ''.sol'' (ext_contract e)) specs) es
      then Inr (Inl ''.sol extension found in a contract extension; provide contract identifiers, not filenames'')
      else Inr (Inr (set_flag ''contract_extensions''
        (if es \<noteq> [] then Some (JObject (map (\<lambda>(c, specs). (c, JArray (map extension_json specs))) es)) else None) config)))"

fun apply_config_edits :: "conf \<Rightarrow> config_edit list \<Rightarrow> conf_error + string + conf" where
  "apply_config_edits config [] = Inr (Inr config)"
| "apply_config_edits config (e # es) =
     bindE (apply_config_edit config e) (\<lambda>r. case r of Inl t \<Rightarrow> Inr (Inl t) | Inr c \<Rightarrow> apply_config_edits c es)"

definition config_edit_tool :: "(conf \<Rightarrow> string) \<Rightarrow> conf \<Rightarrow> config_edit list \<Rightarrow> conf_error + conf tool_reply" where
  \<comment> \<open>the first argument dumps a configuration, indented\<close>
  "config_edit_tool dump config edits =
     bindE (apply_config_edits config edits) (\<lambda>r. case r of
        Inl t \<Rightarrow> Inr (Reply t)
      | Inr c \<Rightarrow> Inr (Command (''Accepted, new config is:'' @ newline @ ''```json'' @ newline @ dump c @ newline @ ''```'')
                 [OwnWrite c]))"

end
