(* ===== verification/Edit_Store.thy ===== *)
theory Edit_Store
  imports Pystr
begin

text \<open>
  The store of source edits (\<^verbatim>\<open>composer/spec/source/munge/edit_store.py\<close>), the history of the edits an author has
  applied (the reducer in \<^verbatim>\<open>live_explorer.py\<close>), and the diffs of the history log (\<^verbatim>\<open>vfs_diff.py\<close>). A snapshot maps the paths of
  the edited files to their texts. The backing store of the graph library is a dictionary; SHA-256 and the line differ of
  Python's library are the arguments \<open>sha\<close> and \<open>differ\<close>.
\<close>

type_synonym snapshot = "(string, string) dict"

datatype attribution = MungeEditor | PluginEditor string

record stored_edit =
  ed_vfs :: snapshot
  ed_summary :: string
  ed_why :: string
  ed_by :: attribution

type_synonym edit_store = "(string, stored_edit) dict"

subsection \<open>Identities\<close>

definition hashed_bytes :: "snapshot \<Rightarrow> string" where
  \<comment> \<open>what the hasher is fed: the texts in the order of their paths, each with a closing zero\<close>
  "hashed_bytes vfs = concat (map (\<lambda>(path, text). text @ [CHR 0x00]) (sort_key fst vfs))"

definition deterministic_hash :: "(string \<Rightarrow> string) \<Rightarrow> snapshot \<Rightarrow> string" where
  "deterministic_hash sha vfs = sha (hashed_bytes vfs)"

definition commit_edit :: "(string \<Rightarrow> string) \<Rightarrow> stored_edit \<Rightarrow> edit_store \<Rightarrow> edit_store" where
  "commit_edit sha e st = dset (deterministic_hash sha (ed_vfs e)) e st"

definition read_edit :: "edit_store \<Rightarrow> string \<Rightarrow> stored_edit option" where
  "read_edit st i = dget st i"

definition edit_store_ok :: "(string \<Rightarrow> string) \<Rightarrow> edit_store \<Rightarrow> bool" where
  \<comment> \<open>every record is stored under the identity of its snapshot, as commits do\<close>
  "edit_store_ok sha st \<longleftrightarrow> (\<forall>(i, e)\<in>set st. i = deterministic_hash sha (ed_vfs e))"

text \<open>The payload of an attribution; the reader raises on anything else, and a missing payload is the editor's.\<close>

fun attribution_payload :: "attribution \<Rightarrow> json" where
  "attribution_payload MungeEditor = JObject [(''kind'', JString ''munge-editor'')]"
| "attribution_payload (PluginEditor p) = JObject [(''kind'', JString ''plugin''), (''plugin'', JString p)]"

definition attribution_of :: "json option \<Rightarrow> attribution option" where
  \<comment> \<open>None where the code raises \<^verbatim>\<open>ValueError\<close>; a mapping pattern allows further keys\<close>
  "attribution_of v =
     (case v of
        None \<Rightarrow> Some MungeEditor
      | Some JNull \<Rightarrow> Some MungeEditor
      | Some (JObject kvs) \<Rightarrow>
          (if dget kvs ''kind'' = Some (JString ''munge-editor'') then Some MungeEditor
           else case (dget kvs ''kind'', dget kvs ''plugin'') of
                  (Some (JString k), Some (JString p)) \<Rightarrow> if k = ''plugin'' then Some (PluginEditor p) else None
                | _ \<Rightarrow> None)
      | _ \<Rightarrow> None)"

lemma attribution_reads_back: "attribution_of (Some (attribution_payload a)) = Some a"
  by (cases a) (simp_all add: attribution_of_def)

subsection \<open>The history of the applied edits\<close>

definition wipe_history :: string where "wipe_history = ''__wipe__''"

definition merge_version_history :: "string list \<Rightarrow> string list \<Rightarrow> string list" where
  "merge_version_history l r = (case r of [] \<Rightarrow> l | x # xs \<Rightarrow> if x = wipe_history then xs else l @ r)"

subsection \<open>Diffs\<close>

type_synonym differ = "string \<Rightarrow> string \<Rightarrow> string \<Rightarrow> string \<Rightarrow> string" \<comment> \<open>two texts and their labels\<close>

definition file_diff :: "differ \<Rightarrow> string \<Rightarrow> string option \<Rightarrow> string \<Rightarrow> string" where
  "file_diff differ path old new =
     (if old = Some new then []
      else differ (case old of None \<Rightarrow> [] | Some t \<Rightarrow> t) new
        (case old of None \<Rightarrow> ''/dev/null'' | Some t \<Rightarrow> ''a/'' @ path) (''b/'' @ path))"

definition compute_diff :: "differ \<Rightarrow> (string \<Rightarrow> string option) \<Rightarrow> snapshot \<Rightarrow> string" where
  "compute_diff differ old new = concat (map (\<lambda>(path, text). file_diff differ path (old path) text) new)"

definition changed_paths :: "(string \<Rightarrow> string option) \<Rightarrow> snapshot \<Rightarrow> string list" where
  "changed_paths old new = sort (keys (filter (\<lambda>(path, text). old path \<noteq> Some text) new))"

definition summarize_changes :: "differ \<Rightarrow> (string \<Rightarrow> string option) \<Rightarrow> snapshot \<Rightarrow> snapshot \<Rightarrow> string" where
  \<comment> \<open>the second argument reads the files of the project\<close>
  "summarize_changes differ base vfs original =
     compute_diff differ (\<lambda>path. case dget original path of Some t \<Rightarrow> Some t | None \<Rightarrow> base path) vfs"

definition log_entry :: "nat \<Rightarrow> string \<Rightarrow> string \<Rightarrow> string \<Rightarrow> string" where
  "log_entry i edit_id summary diff =
     newline @ ''--- Edit #'' @ show_nat i @ '' (ID: '' @ edit_id @ '')'' @ newline @ newline @
     ''Summary: '' @ summary @ newline @ newline @
     ''Diff from '' @ (if i > 0 then ''prior edit'' else ''project directory'') @ '':'' @ newline @ newline @ diff @ newline"

fun log_entries :: "differ \<Rightarrow> (string \<Rightarrow> string option) \<Rightarrow> edit_store \<Rightarrow> nat \<Rightarrow> snapshot \<Rightarrow> string list \<Rightarrow> string list option" where
  \<comment> \<open>with the position and the snapshot of the edit before; None at an orphan\<close>
  "log_entries differ base st i prev [] = Some []"
| "log_entries differ base st i prev (x # xs) =
     (case read_edit st x of
        None \<Rightarrow> None
      | Some e \<Rightarrow> map_option ((#) (log_entry i x (ed_summary e) (summarize_changes differ base (ed_vfs e) prev)))
          (log_entries differ base st (Suc i) (ed_vfs e) xs))"

definition edit_history_log :: "differ \<Rightarrow> (string \<Rightarrow> string option) \<Rightarrow> edit_store \<Rightarrow> string list \<Rightarrow> string" where
  "edit_history_log differ base st versions =
     (if versions = [] then ''No edits applied, working against clean project directory''
      else case log_entries differ base st 0 [] versions of
             None \<Rightarrow> ''Something has gone very wrong; your edit history has an orphan ID. This is an unrecoverable error; terminate your task immediately''
           | Some es \<Rightarrow> join (newline @ newline) es)"

subsection \<open>Laws\<close>

lemma commit_edit_ok: "edit_store_ok sha st \<Longrightarrow> edit_store_ok sha (commit_edit sha e st)"
proof -
  have "set (dset k v d) \<subseteq> insert (k, v) (set d)" for k and v :: stored_edit and d by (induction d) auto
  then show "edit_store_ok sha st \<Longrightarrow> edit_store_ok sha (commit_edit sha e st)"
    by (fastforce simp: edit_store_ok_def commit_edit_def)
qed

lemma read_edit_ok: "edit_store_ok sha st \<Longrightarrow> read_edit st i = Some e \<Longrightarrow> deterministic_hash sha (ed_vfs e) = i"
  by (auto simp: edit_store_ok_def read_edit_def dest!: dget_Some_in)

text \<open>The identity forgets the paths.\<close>

lemma moved_file_keeps_the_edit_id:
  "deterministic_hash sha [(''src/A.sol'', text)] = deterministic_hash sha [(''src/B.sol'', text)]"
  by (simp add: deterministic_hash_def hashed_bytes_def)

end
