(* ===== verification/Cvl_State.thy ===== *)
theory Cvl_State
  imports Buffer_Tools Conf_Edits Edit_Store
begin

text \<open>
  The state of a CVL authoring session (\<^verbatim>\<open>composer/spec/source/author.py\<close>, with the parts of it that \<^verbatim>\<open>prover.py\<close>,
  \<^verbatim>\<open>spec_buffers.py\<close> and \<^verbatim>\<open>live_explorer.py\<close> declare), its reducers, what is fixed during a session, and what a single call
  can find. The draft of the shared authoring state stays unused: the text is in the named buffers.
\<close>

record cvl_state = authored +
  s_buffers :: buffers
  s_rule_skips :: "(string, string) dict"
  s_config :: conf
  s_history :: "history_item list"
  s_reminders :: "string list"
  s_vfs :: snapshot
  s_versions :: "string list"
  s_stem :: string
  s_plugin_tools :: "string list"
  s_curtailed :: bool
  s_messages :: "(string \<times> string) list list" \<comment> \<open>the calls of each message of the agent: their ids and tool names\<close>

datatype cvl_write =
    BufferWrite buffer_write
  | RuleSkipWrite "(string, string) dict"
  | ConfigWrite conf
  | HistoryWrite "history_item list"
  | RemindersWrite "string list"
  | VfsWrite snapshot
  | VersionWrite "string list"

fun cvl_own :: "cvl_write \<Rightarrow> cvl_state \<Rightarrow> cvl_state" where
  "cvl_own (BufferWrite w) s = s\<lparr>s_buffers := merge_buffers (s_buffers s) [w]\<rparr>"
| "cvl_own (RuleSkipWrite u) s = s\<lparr>s_rule_skips := merge_rule_skips (s_rule_skips s) u\<rparr>"
| "cvl_own (ConfigWrite c) s = s\<lparr>s_config := c\<rparr>"
| "cvl_own (HistoryWrite u) s = s\<lparr>s_history := merge_prover_history (s_history s) u\<rparr>"
| "cvl_own (RemindersWrite r) s = s\<lparr>s_reminders := r\<rparr>"
| "cvl_own (VfsWrite v) s = s\<lparr>s_vfs := v\<rparr>"
| "cvl_own (VersionWrite u) s = s\<lparr>s_versions := merge_version_history (s_versions s) u\<rparr>"

text \<open>The channels without a reducer: the configuration, the reminders and the working copy.\<close>

fun cvl_channel :: "cvl_write \<Rightarrow> nat option" where
  "cvl_channel (ConfigWrite c) = Some 0"
| "cvl_channel (RemindersWrite r) = Some 1"
| "cvl_channel (VfsWrite v) = Some 2"
| "cvl_channel _ = None"

record cvl_env =
  e_sha :: "string \<Rightarrow> string"
  e_md5 :: "string \<Rightarrow> string"
  e_main :: string
  e_titles :: "string list"
  e_focus :: "(string list \<times> nat) option" \<comment> \<open>\<^verbatim>\<open>FocusPolicy\<close>: protected titles, and the runs owed before giving up\<close>
  e_cap :: int
  e_syntax :: "string \<Rightarrow> string option"
  e_ast :: "string \<Rightarrow> json option"
  e_dump :: "conf \<Rightarrow> string"
  e_differ :: differ
  e_base :: "string \<Rightarrow> string option" \<comment> \<open>the files of the unedited project\<close>

definition focus_min_give_up_attempts :: nat where "focus_min_give_up_attempts = 3"

text \<open>Rebuttals name the unit of review they are filed against.\<close>

record cvl_rebuttal = rebuttal +
  reb_unit :: string

subsection \<open>Digests of the current state\<close>

definition content_digest :: "cvl_env \<Rightarrow> cvl_state \<Rightarrow> string \<Rightarrow> buffer_error + string" where
  "content_digest env s name = buffer_state_digest (e_sha env) (s_buffers s) name (s_versions s) (Some (s_config s)) False"

definition claim_digest :: "cvl_env \<Rightarrow> cvl_state \<Rightarrow> string \<Rightarrow> buffer_error + string" where
  "claim_digest env s name = buffer_state_digest (e_sha env) (s_buffers s) name (s_versions s) (Some (s_config s)) True"

definition prover_digest :: "cvl_env \<Rightarrow> cvl_state \<Rightarrow> string \<Rightarrow> buffer_error + string" where
  "prover_digest env s name =
     buffer_prover_digest (e_sha env) (e_md5 env) (s_buffers s) name (s_versions s) (Some (s_config s)) (keys (s_rule_skips s))"

definition skipped_pairs :: "cvl_state \<Rightarrow> (string \<times> string) list" where
  "skipped_pairs s = map (\<lambda>k. (property_title k, reason k)) (skipped s)"

definition gate_of :: "cvl_state \<Rightarrow> gate_inputs" where
  \<comment> \<open>what \<^verbatim>\<open>PublishResultTool\<close> hands to \<^verbatim>\<open>check_buffer_completion\<close>\<close>
  "gate_of s = \<lparr>stamps = validations s, required = required_validations s, skip_decls = skipped_pairs s,
     history = s_versions s, prover_config = Some (s_config s), marked_rules = keys (s_rule_skips s)\<rparr>"

definition buffer_complete_at :: "cvl_state \<Rightarrow> history_item list \<Rightarrow> string \<Rightarrow> string \<Rightarrow> buffer_error + bool" where
  \<comment> \<open>with the part of the history the call itself has found\<close>
  "buffer_complete_at s extra name digest =
     (case dget (s_buffers s) name of
        None \<Rightarrow> Inl (KeyError name)
      | Some b \<Rightarrow> Inr (buffer_is_complete (s_history s @ extra) name digest (keys (s_rule_skips s)) [] (owned_rules b)))"

subsection \<open>The monitor between turns\<close>

definition cvl_wrap_up :: "cvl_state \<Rightarrow> cvl_state" where
  \<comment> \<open>the transformer of the budget alert\<close>
  "cvl_wrap_up s = s\<lparr>required_validations := [], s_curtailed := True\<rparr>"

definition drain_reminders :: "cvl_state \<Rightarrow> string option \<times> cvl_state" where
  "drain_reminders s =
     (if s_reminders s = [] then (None, s)
      else (Some (''<system-reminder>'' @ join newline (s_reminders s) @ ''</system-reminder>''), s\<lparr>s_reminders := []\<rparr>))"

definition author_monitor :: "bool \<Rightarrow> cvl_state \<Rightarrow> cvl_state" where
  \<comment> \<open>whether the budget monitor raises its alert comes first\<close>
  "author_monitor alerted s = (if alerted then cvl_wrap_up s else snd (drain_reminders s))"

end
