(* ===== verification/Buffer_Jobs.thy ===== *)
theory Buffer_Jobs
  imports Cvl_State
begin

text \<open>
  The background prover jobs of an author (\<^verbatim>\<open>make_buffer_tools\<close> in \<^verbatim>\<open>composer/spec/source/prover.py\<close>). A job proves a
  frozen copy of the buffers, the source edits and the configuration; the table of jobs and the queue of results live outside
  the state of the graph. A call runs to its end before the next call of its turn touches them, and a job ends when it puts
  its result on the queue. What the prover answers is an argument of the events that end jobs.
\<close>

subsection \<open>Jobs\<close>

type_synonym job_key = "string \<times> rule_selection"

record buf_job =
  job_digest :: string
  job_finished :: bool
  job_buffers :: buffers
  job_vfs :: snapshot
  job_conf :: conf
  job_label :: string
  job_slug :: string

record buf_done =
  d_name :: string
  d_digest :: string
  d_result :: "string + prover_report"
  d_rules :: "string list"
  d_selection :: rule_selection

record job_pool =
  p_jobs :: "(job_key, buf_job) dict"
  p_queue :: "buf_done list"
  p_counts :: "(string, nat) dict"

definition empty_pool :: job_pool where
  "empty_pool = \<lparr>p_jobs = [], p_queue = [], p_counts = []\<rparr>"

text \<open>How a job ends: the declared rules could not be listed, the prover returned, or something else raised.\<close>

datatype job_answer = SpecFails string | Proved "string list" "string + prover_report" | Crashed string

fun job_done :: "job_key \<Rightarrow> string \<Rightarrow> job_answer \<Rightarrow> buf_done" where
  "job_done (name, sel) digest (SpecFails out) =
     \<lparr>d_name = name, d_digest = digest, d_result = Inl (''[buffer '' @ name @ ''] failed to compile:'' @ newline @ out),
      d_rules = [], d_selection = InheritRules\<rparr>"
| "job_done (name, sel) digest (Proved rules res) =
     \<lparr>d_name = name, d_digest = digest, d_result = res, d_rules = rules, d_selection = sel\<rparr>"
| "job_done (name, sel) digest (Crashed msg) =
     \<lparr>d_name = name, d_digest = digest, d_result = Inl (''[buffer '' @ name @ ''] job error: '' @ msg),
      d_rules = [], d_selection = sel\<rparr>"

definition job_ends :: "job_key \<times> job_answer \<Rightarrow> job_pool \<Rightarrow> job_pool" where
  "job_ends = (\<lambda>(k, a) p.
     case dget (p_jobs p) k of
       None \<Rightarrow> p
     | Some j \<Rightarrow>
         if job_finished j then p
         else p\<lparr>p_jobs := dset k (j\<lparr>job_finished := True\<rparr>) (p_jobs p), p_queue := p_queue p @ [job_done k (job_digest j) a]\<rparr>)"

text \<open>What a job stages: a file for every buffer, and the configuration of its run.\<close>

definition buffer_files :: "buf_job \<Rightarrow> (string \<times> string) list" where
  "buffer_files j =
     map (\<lambda>(name, b). (path_str (path_join (path_join (pure_path specs_dir) (job_slug j)) (name @ ''.spec'')), cvl b)) (job_buffers j)"

definition buffer_conf :: "string \<Rightarrow> job_key \<Rightarrow> buf_job \<Rightarrow> conf" where
  "buffer_conf main k j =
     (case k of (name, sel) \<Rightarrow>
        prover_config_overlay (job_conf j) main
          (main @ '':'' @ path_str (path_join (path_join (pure_path specs_dir) (job_slug j)) (name @ ''.spec'')))
          [(''msg'', JString (job_label j))] sel)"

subsection \<open>Submitting\<close>

definition selection_complaint :: "named_buffer \<Rightarrow> string \<Rightarrow> rule_selection \<Rightarrow> string option" where
  "selection_complaint b name sel =
     (let owned = owned_rules b;
          unknown = (\<lambda>names. filter (\<lambda>r. r \<notin> set owned) names);
          judge = (\<lambda>names.
            if unknown names \<noteq> []
            then Some (''Buffer '' @ py_repr name @ '' declares no rule(s) '' @ repr_list (unknown names) @ ''; its rules are '' @
                   repr_list (sort owned) @ ''.'')
            else if checked_rules_of sel owned = []
            then Some (''That selection would run no rule of buffer '' @ py_repr name @ ''; its rules are '' @ repr_list (sort owned) @ ''.'')
            else None)
      in case sel of InheritRules \<Rightarrow> None | SelectRules names \<Rightarrow> judge names | ExcludeRules names \<Rightarrow> judge names)"

definition already_submitted :: "string \<Rightarrow> bool \<Rightarrow> string" where
  "already_submitted name finished =
     ''Buffer '' @ py_repr name @ '' was already submitted at its current content and '' @
     (if finished then ''has already finished'' else ''is still proving'') @ ''; do not '' @
     ''re-submit it. Call collect_results to take its result '' @ em_dash @ '' if this is your only '' @
     ''remaining buffer/task and you are just waiting on it, use collect_results(wait=true).''"

definition superseded :: "string \<Rightarrow> string \<Rightarrow> job_key \<times> buf_job \<Rightarrow> bool" where
  "superseded name digest = (\<lambda>((nm, sel), j). nm = name \<and> job_digest j \<noteq> digest \<and> \<not> job_finished j)"

definition running_names :: "(job_key, buf_job) dict \<Rightarrow> string list" where
  "running_names js = sorted_set (map (fst \<circ> fst) (filter (\<lambda>(k, j). \<not> job_finished j) js))"

definition selection_note :: "rule_selection \<Rightarrow> string" where
  "selection_note sel =
     (case sel of
        InheritRules \<Rightarrow> []
      | SelectRules names \<Rightarrow> '' (rules '' @ repr_list names @ '')''
      | ExcludeRules names \<Rightarrow> '' (excluding '' @ repr_list names @ '')'')"

definition submissions :: "job_pool \<Rightarrow> string \<Rightarrow> nat" where
  "submissions p name = (case dget (p_counts p) name of None \<Rightarrow> 0 | Some n \<Rightarrow> n)"

definition launch :: "cvl_env \<Rightarrow> cvl_state \<Rightarrow> job_pool \<Rightarrow> string \<Rightarrow> rule_selection \<Rightarrow> string \<Rightarrow> cvl_write tool_reply \<times> job_pool" where
  "launch env s p name sel digest =
     (let n = Suc (submissions p name);
          slug = component_slug (Some (s_stem s)) (e_main env);
          job = \<lparr>job_digest = digest, job_finished = False, job_buffers = s_buffers s, job_vfs = s_vfs s, job_conf = s_config s,
            job_label = slug @ ''/'' @ name @ '' submission '' @ show_nat n, job_slug = slug\<rparr>;
          jobs = dset (name, sel) job (filter (\<lambda>e. \<not> superseded name digest e) (p_jobs p))
      in (Reply (''Submitted buffer '' @ py_repr name @ selection_note sel @ '' (submission '' @ show_nat n @ ''); it is now proving in the '' @
            ''background. Running: '' @ repr_list (running_names jobs) @ ''. Call collect_results to retrieve results as jobs finish.''),
          p\<lparr>p_jobs := jobs, p_counts := dset name n (p_counts p)\<rparr>))"

definition submit_buffer :: "cvl_env \<Rightarrow> cvl_state \<Rightarrow> job_pool \<Rightarrow> string \<Rightarrow> string list option \<Rightarrow> string list option \<Rightarrow>
    buffer_error + cvl_write tool_reply \<times> job_pool" where
  "submit_buffer env s p name rule excluded =
     (case dget (s_buffers s) name of
        None \<Rightarrow> Inr (Reply (no_buffer name), p)
      | Some b \<Rightarrow>
          if \<not> is_run_target b
          then Inr (Reply (''Buffer '' @ py_repr name @ '' is a shared (imports-only) buffer; it runs no rules of its own.''), p)
          else (case rule_selection_of rule excluded of
            Inl e \<Rightarrow> Inr (Reply ''Pass at most one of `rule` / `exclude_rules`; omit both to run the whole buffer.'', p)
          | Inr sel \<Rightarrow>
              (case selection_complaint b name sel of
                 Some msg \<Rightarrow> Inr (Reply msg, p)
               | None \<Rightarrow>
                   bindE (content_digest env s name) (\<lambda>digest.
                   bindE (buffer_complete_at s [] name digest) (\<lambda>complete.
                     if complete
                     then Inr (Reply (''Buffer '' @ py_repr name @ '' is already verified at its current content; nothing to submit.''), p)
                     else case dget (p_jobs p) (name, sel) of
                            None \<Rightarrow> Inr (launch env s p name sel digest)
                          | Some j \<Rightarrow>
                              if job_digest j = digest then Inr (Reply (already_submitted name (job_finished j)), p)
                              else Inr (launch env s p name sel digest))))))"

subsection \<open>Collecting\<close>

record call_world =
  w_judge :: "string \<Rightarrow> string \<Rightarrow> string list \<Rightarrow> skipped_property list \<Rightarrow> cvl_rebuttal list \<Rightarrow> judge_run"
    \<comment> \<open>the unit under review, its text, the properties it claims\<close>
  w_arrivals :: "(job_key \<times> job_answer) list" \<comment> \<open>the jobs that end while a call waits\<close>
  w_pressured :: bool

definition some_running :: "job_pool \<Rightarrow> bool" where
  "some_running p \<longleftrightarrow> list_ex (\<lambda>(k, j). \<not> job_finished j) (p_jobs p)"

definition drain :: "call_world \<Rightarrow> bool \<Rightarrow> job_pool \<Rightarrow> buf_done list \<times> job_pool" where
  \<comment> \<open>the results taken off the queue; a waiting call that finds none takes those of the jobs that end meanwhile\<close>
  "drain w wait p =
     (let p' = (if p_queue p = [] \<and> wait \<and> some_running p \<and> \<not> w_pressured w then fold job_ends (w_arrivals w) p else p)
      in (p_queue p', p'\<lparr>p_queue := []\<rparr>))"

definition keep_job :: "cvl_env \<Rightarrow> cvl_state \<Rightarrow> job_key \<times> buf_job \<Rightarrow> bool" where
  \<comment> \<open>what neither the cancelling of outdated jobs nor the retiring of finished ones removes\<close>
  "keep_job env s = (\<lambda>((name, sel), j).
     \<not> job_finished j \<and> dget (s_buffers s) name \<noteq> None \<and> content_digest env s name = Inr (job_digest j))"

definition run_log_of :: "cvl_env \<Rightarrow> cvl_state \<Rightarrow> string \<Rightarrow> buf_done \<Rightarrow> prover_report \<Rightarrow> prover_run_log" where
  "run_log_of env s call d rep =
     \<lparr>run_tool_call = call, run_results = raw_rule_status rep,
      run_spec_digest = (case dget (s_buffers s) (d_name d) of None \<Rightarrow> [] | Some b \<Rightarrow> hash_text (e_sha env) (cvl b)),
      run_rules = d_selection d, run_declared = d_rules d, run_state_digest = d_digest d, run_buffer = Some (d_name d),
      run_link = Some (link rep)\<rparr>"

definition run_logs_of :: "cvl_env \<Rightarrow> cvl_state \<Rightarrow> string \<Rightarrow> buf_done list \<Rightarrow> history_item list" where
  \<comment> \<open>a result without a report records no run\<close>
  "run_logs_of env s call ds =
     List.map_filter (\<lambda>d. case d_result d of Inl msg \<Rightarrow> None | Inr rep \<Rightarrow> Some (RunLog (run_log_of env s call d rep))) ds"

definition result_block :: "cvl_env \<Rightarrow> cvl_state \<Rightarrow> buf_done \<Rightarrow> string" where
  "result_block env s d =
     (let stale = dget (s_buffers s) (d_name d) \<noteq> None \<and> content_digest env s (d_name d) \<noteq> Inr (d_digest d)
      in ''=== buffer '' @ d_name d @ '' ==='' @
         (case d_result d of
            Inl msg \<Rightarrow> newline @ msg
          | Inr rep \<Rightarrow>
              (if stale then '' (NOTE: the spec changed since this was submitted '' @ em_dash @ '' this result is STALE; re-submit '' @
                 ''this buffer.)'' else []) @ newline @ result_str rep))"

definition fresh_statuses :: "buf_done list \<Rightarrow> statuses" where
  \<comment> \<open>the results by buffer, in the order of the buffers' first results\<close>
  "fresh_statuses ds =
     concat (vals (fold (\<lambda>d acc. case d_result d of
         Inl msg \<Rightarrow> acc
       | Inr rep \<Rightarrow> dset (d_name d) ((case dget acc (d_name d) of None \<Rightarrow> [] | Some rs \<Rightarrow> rs) @ raw_rule_status rep) acc) ds []))"

definition add_prover_stamp :: "cvl_env \<Rightarrow> cvl_state \<Rightarrow> history_item list \<Rightarrow> named_buffer \<Rightarrow> (string, string) dict \<Rightarrow>
    buffer_error + (string, string) dict" where
  "add_prover_stamp env s update b acc =
     bindE (content_digest env s (buf_name b)) (\<lambda>digest.
     bindE (buffer_complete_at s update (buf_name b) digest) (\<lambda>complete.
       if complete
       then bindE (prover_digest env s (buf_name b)) (\<lambda>d. Inr (dset (prover_validation_key @ '':'' @ buf_name b) d acc))
       else Inr acc))"

definition board :: "string list \<Rightarrow> string list \<Rightarrow> string list \<Rightarrow> string list" where
  "board complete running needs =
     [[], ''[buffers] complete: '' @ repr_list (sorted_set complete), ''[buffers] running: '' @ repr_list (sorted_set running),
      ''[buffers] needs (re)submission: '' @ repr_list (sort needs)]"

definition verified_note :: "string list \<Rightarrow> string" where
  "verified_note complete =
     ''Buffers '' @ comma_join (sorted_set complete) @ '' are verified at their current content. Once '' @
     ''each also has feedback, you can publish.''"

definition known_collects :: "cvl_state \<Rightarrow> string list" where
  "known_collects s = map fst (filter (\<lambda>(i, n). n = ''collect_results'') (concat (s_messages s)))"

definition collect_results :: "cvl_env \<Rightarrow> cvl_state \<Rightarrow> job_pool \<Rightarrow> call_world \<Rightarrow> string \<Rightarrow> bool \<Rightarrow>
    buffer_error + cvl_write tool_reply \<times> job_pool" where
  "collect_results env s p w call wait =
     (let targets = run_targets (s_buffers s)
      in if targets = [] then Inr (Reply ''No run-target buffers to collect. Author buffers and submit_buffer them first.'', p)
         else
           case drain w wait p of (ds, p1) \<Rightarrow>
             let p2 = p1\<lparr>p_jobs := filter (keep_job env s) (p_jobs p1)\<rparr>;
                 update = run_logs_of env s call ds
             in bindE (foldE (add_prover_stamp env s update) targets []) (\<lambda>new_stamps.
                let complete = map buf_name (filter (\<lambda>b. dget new_stamps (prover_validation_key @ '':'' @ buf_name b) \<noteq> None) targets);
                    running = map (fst \<circ> fst) (p_jobs p2);
                    needs = filter (\<lambda>n. n \<notin> set complete \<and> n \<notin> set running) (map buf_name targets);
                    idle = (if ds \<noteq> [] then []
                      else [if running \<noteq> [] then ''No finished jobs yet.'' else ''No finished jobs and nothing running.'']);
                    (nag, marks) = stuck_rule_nag (fresh_statuses ds) (s_history s) (keys (s_rule_skips s)) (known_collects s) (s_plugin_tools s);
                    notes = nag @ (if needs = [] \<and> running = [] then [verified_note complete] else [])
                in Inr (Command (join newline (map (result_block env s) ds @ idle @ board complete running needs))
                      ([StampWrite new_stamps, OwnWrite (HistoryWrite (update @ marks))] @
                       (if notes = [] then [] else [OwnWrite (RemindersWrite notes)])), p2)))"

end
