(* ===== verification/Cvl_Session.thy ===== *)
theory Cvl_Session
  imports Buffer_Jobs
begin

text \<open>
  The CVL author's session (\<^verbatim>\<open>composer/spec/source/author.py\<close>): the remaining tools, the call dispatcher, the session as a
  relation over turns and the events between them, and the result a session is turned into. The judge, the parser and the
  prover are arguments; see \<^verbatim>\<open>Cvl_State\<close> and \<^verbatim>\<open>Buffer_Jobs\<close>.
\<close>

subsection \<open>Markings and edits\<close>

definition expect_rule_failure :: "string \<Rightarrow> string \<Rightarrow> cvl_write tool_reply" where
  "expect_rule_failure rule why = Command ''Success'' [OwnWrite (RuleSkipWrite [(rule, why)])]"

definition expect_rule_passage :: "string \<Rightarrow> cvl_write tool_reply" where
  "expect_rule_passage rule = Command ''Success'' [OwnWrite (RuleSkipWrite [(rule, delete_skip)])]"

definition apply_edit :: "edit_store \<Rightarrow> cvl_state \<Rightarrow> string \<Rightarrow> cvl_write tool_reply" where
  "apply_edit st s i =
     (if i \<in> set (s_versions s)
      then Reply (i @ '' has already been applied; if you want to revert to that state, use the revert_to_edit tool'')
      else case read_edit st i of
             None \<Rightarrow> Reply (i @ '' does not denote any known edit'')
           | Some e \<Rightarrow> Command ''Edit applied'' [OwnWrite (VfsWrite (ed_vfs e)), OwnWrite (VersionWrite [i])])"

definition upto_first :: "string \<Rightarrow> string list \<Rightarrow> string list" where
  \<comment> \<open>\<^verbatim>\<open>xs[:xs.index(x)+1]\<close>\<close>
  "upto_first x xs = takeWhile (\<lambda>y. y \<noteq> x) xs @ [x]"

definition revert_to_edit :: "edit_store \<Rightarrow> cvl_state \<Rightarrow> string option \<Rightarrow> cvl_write tool_reply" where
  "revert_to_edit st s target =
     (case target of
        None \<Rightarrow>
          if s_versions s = [] then Reply ''No edits are applied; the working copy is already the unedited project directory''
          else Command ''Reverted to the unedited project directory'' [OwnWrite (VfsWrite []), OwnWrite (VersionWrite [wipe_history])]
      | Some i \<Rightarrow>
          if i \<notin> set (s_versions s) then Reply (i @ '' does not appear in your edit history, nothing to revert to'')
          else if last (s_versions s) = i then Reply (''Already at edit id '' @ i @ '', nothing to do'')
          else case read_edit st i of
                 None \<Rightarrow> Reply (i @ '' is in your history but absent from the edit store; this is an unrecoverable error'')
               | Some e \<Rightarrow> Command (''Reverted to id '' @ i)
                   [OwnWrite (VfsWrite (ed_vfs e)), OwnWrite (VersionWrite (wipe_history # upto_first i (s_versions s)))])"

subsection \<open>Review\<close>

definition review_block :: "string \<Rightarrow> property_feedback \<Rightarrow> string" where
  "review_block unit_name v =
     ''=== '' @ unit_name @ '' ==='' @ newline @ ''Good? '' @ (if good v then ''True'' else ''False'') @ newline @ ''Feedback '' @ feedback v"

definition own_rebuttals :: "cvl_rebuttal list \<Rightarrow> string \<Rightarrow> cvl_rebuttal list" where
  "own_rebuttals rs name = filter (\<lambda>r. reb_unit r = name) rs"

definition feedback_stamp_key :: "string \<Rightarrow> string" where
  "feedback_stamp_key name = feedback_validation_key @ '':'' @ name"

definition review_buffer :: "cvl_env \<Rightarrow> cvl_state \<Rightarrow> call_world \<Rightarrow> cvl_rebuttal list \<Rightarrow> named_buffer \<Rightarrow>
    (string, string) dict \<times> string list \<Rightarrow> buffer_error + (string, string) dict \<times> string list" where
  "review_buffer env s w rs b = (\<lambda>(new_stamps, blocks).
     bindE (claim_digest env s (buf_name b)) (\<lambda>d.
       if dget (validations s) (feedback_stamp_key (buf_name b)) = Some d then Inr (new_stamps, blocks)
       else
         let claimed = filter (\<lambda>t. t \<in> set (properties b)) (e_titles env);
             v = judge_verdict (w_judge w (''buffer:'' @ buf_name b) (buffer_review_text (s_buffers s) (buf_name b)) claimed []
                   (own_rebuttals rs (buf_name b)))
         in Inr (if good v then dset (feedback_stamp_key (buf_name b)) d new_stamps else new_stamps,
                 blocks @ [review_block (''buffer '' @ buf_name b) v])))"

definition review_skips :: "cvl_env \<Rightarrow> cvl_state \<Rightarrow> call_world \<Rightarrow> cvl_rebuttal list \<Rightarrow>
    (string, string) dict \<times> string list \<Rightarrow> (string, string) dict \<times> string list" where
  "review_skips env s w rs = (\<lambda>(new_stamps, blocks).
     let d = skips_review_digest (e_sha env) (s_buffers s) (skipped_pairs s) (s_versions s)
     in if skipped s = [] \<or> dget (validations s) skips_validation_key = Some d then (new_stamps, blocks)
        else
          let v = judge_verdict (w_judge w skips_validation_key (combined_buffers_view (s_buffers s)) [] (skipped s)
                    (own_rebuttals rs skips_validation_key))
          in (if good v then dset skips_validation_key d new_stamps else new_stamps,
              blocks @ [review_block ''skipped properties'' v]))"

definition feedback_tool :: "cvl_env \<Rightarrow> cvl_state \<Rightarrow> call_world \<Rightarrow> cvl_rebuttal list \<Rightarrow> buffer_error + cvl_write tool_reply" where
  "feedback_tool env s w rs =
     (if run_targets (s_buffers s) = [] then Inr (Reply ''No run-target buffers to review yet.'')
      else bindE (foldE (review_buffer env s w rs) (run_targets (s_buffers s)) ([], [])) (\<lambda>reviewed.
        case review_skips env s w rs reviewed of (new_stamps, blocks) \<Rightarrow>
          Inr (if blocks = [] then Reply ''All buffers already reviewed and approved at their current state.''
               else Command (join (newline @ newline) blocks) [StampWrite new_stamps])))"

subsection \<open>Publishing\<close>

definition declared_by_buffer :: "cvl_env \<Rightarrow> cvl_state \<Rightarrow> buffer_error + (string, string list option) dict" where
  "declared_by_buffer env s =
     foldE (\<lambda>b acc. bindE (content_digest env s (buf_name b)) (\<lambda>d.
         Inr (dset (buf_name b) (declared_rules_at (s_history s) d) acc))) (run_targets (s_buffers s)) []"

definition cited_by_buffer :: "cvl_env \<Rightarrow> cvl_state \<Rightarrow> (string, string list) dict" where
  "cited_by_buffer env s =
     fold (\<lambda>b. dset (buf_name b) (requireinvariant_citations (e_ast env) (cvl b))) (run_targets (s_buffers s)) []"

definition publish_complaint :: "cvl_env \<Rightarrow> cvl_state \<Rightarrow> buffer_error + string option" where
  \<comment> \<open>the first validation that rejects the state, None when it is accepted\<close>
  "publish_complaint env s =
     bindE (check_buffer_completion (e_sha env) (e_md5 env) (s_buffers s) (gate_of s)) (\<lambda>err.
       let rejected = map_option (\<lambda>e. ''Completion REJECTED: '' @ e) in
       case err of Some e \<Rightarrow> Inr (Some e) | None \<Rightarrow>
       case validate_coverage (s_buffers s) (e_titles env) (map property_title (skipped s)) of
         Some e \<Rightarrow> Inr (rejected (Some e)) | None \<Rightarrow>
       case validate_disjoint_rules (s_buffers s) of Some e \<Rightarrow> Inr (rejected (Some e)) | None \<Rightarrow>
       bindE (declared_by_buffer env s) (\<lambda>declared.
         case validate_declared_rules_mapped (s_buffers s) declared of Some e \<Rightarrow> Inr (rejected (Some e)) | None \<Rightarrow>
         Inr (rejected (validate_requireinvariant_proved (s_buffers s) (cited_by_buffer env s) declared (keys (s_rule_skips s))))))"

definition publish_cvl :: "cvl_env \<Rightarrow> cvl_state \<Rightarrow> string \<Rightarrow> buffer_error + cvl_write tool_reply" where
  "publish_cvl env s commentary =
     bindE (publish_complaint env s) (\<lambda>err. Inr (case err of
       Some e \<Rightarrow> Reply e
     | None \<Rightarrow> Command ''Accepted'' [ResultWrite commentary, FailedWrite False]))"

subsection \<open>Calls\<close>

datatype cvl_call =
    PutBuffer string string "(string, string list) dict" bool
  | GetBuffer string
  | EditBuffer string string string
  | RemapBuffer string "(string, string list) dict"
  | ListBuffers
  | DeleteBuffer string
  | SubmitBuffer string "string list option" "string list option"
  | CollectResults bool
  | CvlFeedback "cvl_rebuttal list"
  | SkipTitle string string
  | UnskipTitle string
  | ExpectRuleFailure string string
  | ExpectRulePassage string
  | EditConfig "config_edit list"
  | ApplyEdit string
  | RevertToEdit "string option"
  | EditHistoryLog
  | PublishCvl string
  | GiveUpAuthoring give_up_sort string

datatype cvl_error = BufferFault buffer_error | ConfFault conf_error

definition faulty :: "('e \<Rightarrow> cvl_error) \<Rightarrow> 'e + 'a \<Rightarrow> cvl_error + 'a" where
  "faulty f r = (case r of Inl e \<Rightarrow> Inl (f e) | Inr x \<Rightarrow> Inr x)"

definition written_by_tool :: "job_pool \<Rightarrow> buffer_write tool_reply \<Rightarrow> cvl_error + cvl_write tool_reply \<times> job_pool" where
  "written_by_tool p r = Inr (map_tool_reply BufferWrite r, p)"

definition messages_seen :: "cvl_state \<Rightarrow> message list" where
  "messages_seen s = map (\<lambda>calls. AIMessage (map snd calls)) (s_messages s)"

fun cvl_tool :: "cvl_env \<Rightarrow> edit_store \<Rightarrow> cvl_state \<Rightarrow> job_pool \<Rightarrow> string \<times> call_world \<times> cvl_call \<Rightarrow>
    cvl_error + cvl_write tool_reply \<times> job_pool" where
  "cvl_tool env st s p (i, w, PutBuffer name t rules target) =
     written_by_tool p (put_buffer (e_syntax env) (e_cap env) (s_buffers s) name t rules target)"
| "cvl_tool env st s p (i, w, GetBuffer name) = written_by_tool p (get_buffer (s_buffers s) name)"
| "cvl_tool env st s p (i, w, EditBuffer name old new) =
     written_by_tool p (edit_buffer_tool (e_syntax env) (s_buffers s) name old new)"
| "cvl_tool env st s p (i, w, RemapBuffer name rules) = written_by_tool p (remap_buffer (s_buffers s) name rules)"
| "cvl_tool env st s p (i, w, ListBuffers) = written_by_tool p (list_buffers (s_buffers s))"
| "cvl_tool env st s p (i, w, DeleteBuffer name) = written_by_tool p (delete_buffer (s_buffers s) name)"
| "cvl_tool env st s p (i, w, SubmitBuffer name rule excluded) = faulty BufferFault (submit_buffer env s p name rule excluded)"
| "cvl_tool env st s p (i, w, CollectResults wait) = faulty BufferFault (collect_results env s p w i wait)"
| "cvl_tool env st s p (i, w, CvlFeedback rs) = faulty BufferFault (map_sum id (\<lambda>r. (r, p)) (feedback_tool env s w rs))"
| "cvl_tool env st s p (i, w, SkipTitle title why) =
     Inr (record_skip (e_titles env) (case e_focus env of None \<Rightarrow> [] | Some f \<Rightarrow> fst f) (s_curtailed s) title why, p)"
| "cvl_tool env st s p (i, w, UnskipTitle title) = Inr (unskip (e_titles env) title, p)"
| "cvl_tool env st s p (i, w, ExpectRuleFailure rule why) = Inr (expect_rule_failure rule why, p)"
| "cvl_tool env st s p (i, w, ExpectRulePassage rule) = Inr (expect_rule_passage rule, p)"
| "cvl_tool env st s p (i, w, EditConfig es) =
     faulty ConfFault (map_sum id (\<lambda>r. (map_tool_reply ConfigWrite r, p)) (config_edit_tool (e_dump env) (s_config s) es))"
| "cvl_tool env st s p (i, w, ApplyEdit e) = Inr (apply_edit st s e, p)"
| "cvl_tool env st s p (i, w, RevertToEdit e) = Inr (revert_to_edit st s e, p)"
| "cvl_tool env st s p (i, w, EditHistoryLog) =
     Inr (Reply (edit_history_log (e_differ env) (e_base env) st (s_versions s)), p)"
| "cvl_tool env st s p (i, w, PublishCvl commentary) = faulty BufferFault (map_sum id (\<lambda>r. (r, p)) (publish_cvl env s commentary))"
| "cvl_tool env st s p (i, w, GiveUpAuthoring kind why) =
     Inr (case e_focus env of None \<Rightarrow> give_up_call why | Some f \<Rightarrow> gated_give_up (snd f) (messages_seen s) kind why, p)"

fun tool_name :: "cvl_call \<Rightarrow> string" where
  \<comment> \<open>the names the code looks for in the messages\<close>
  "tool_name (SubmitBuffer name rule excluded) = ''submit_buffer''"
| "tool_name (CollectResults wait) = ''collect_results''"
| "tool_name c = []"

text \<open>The calls of a turn all see the state, and each sees what the calls before it did to the jobs.\<close>

fun run_calls :: "cvl_env \<Rightarrow> edit_store \<Rightarrow> cvl_state \<Rightarrow> job_pool \<Rightarrow> (string \<times> call_world \<times> cvl_call) list \<Rightarrow>
    cvl_error + cvl_write tool_reply list \<times> job_pool" where
  "run_calls env st s p [] = Inr ([], p)"
| "run_calls env st s p (c # cs) =
     bindE (cvl_tool env st s p c) (\<lambda>(r, p1). bindE (run_calls env st s p1 cs) (\<lambda>(rs, p2). Inr (r # rs, p2)))"

definition with_message :: "(string \<times> call_world \<times> cvl_call) list \<Rightarrow> cvl_state \<Rightarrow> cvl_state" where
  "with_message calls s = s\<lparr>s_messages := s_messages s @ [map (\<lambda>(i, w, c). (i, tool_name c)) calls]\<rparr>"

subsection \<open>The session\<close>

text \<open>What an earlier attempt left behind: its applied edits, and its configuration.\<close>

record last_attempt =
  la_versions :: "string list"
  la_config :: "conf option"

definition restored :: "edit_store \<Rightarrow> conf \<Rightarrow> last_attempt option \<Rightarrow> (conf \<times> string list \<times> snapshot) option" where
  \<comment> \<open>None where the code asserts that the last edit is in the store\<close>
  "restored st init_config prior =
     (case prior of
        None \<Rightarrow> Some (init_config, [], [])
      | Some la \<Rightarrow>
          let c = (case la_config la of None \<Rightarrow> init_config | Some c \<Rightarrow> c)
          in if la_versions la = [] then Some (c, [], [])
             else case read_edit st (last (la_versions la)) of
                    None \<Rightarrow> None
                  | Some e \<Rightarrow> Some (c, la_versions la, ed_vfs e))"

definition cvl_start :: "string \<Rightarrow> string list \<Rightarrow> conf \<times> string list \<times> snapshot \<Rightarrow> cvl_state" where
  "cvl_start stem plugin_tools = (\<lambda>(c, versions, vfs).
     \<lparr>curr_spec = None, skipped = [], validations = [], required_validations = [feedback_validation_key, prover_validation_key],
      expected_failures = [], failed = None, closing = None, s_buffers = [], s_rule_skips = [], s_config = c, s_history = [],
      s_reminders = [], s_vfs = vfs, s_versions = versions, s_stem = stem, s_plugin_tools = plugin_tools, s_curtailed = False,
      s_messages = []\<rparr>)"

text \<open>
  The session, its jobs and its edit store move together. Between turns a job may end, the editor or a plugin may commit an
  edit, the monitor runs, and the messages may be replaced by a summary.
\<close>

record cvl_system =
  y_state :: cvl_state
  y_pool :: job_pool
  y_store :: edit_store

datatype cvl_event =
    CvlTurn cvl_system "(string \<times> call_world \<times> cvl_call) list"
  | JobEnds cvl_system job_key buf_job job_answer
  | EditCommitted cvl_system stored_edit
  | Monitored cvl_system bool
  | Summarized cvl_system

inductive cvl_step :: "cvl_env \<Rightarrow> cvl_system \<Rightarrow> cvl_event \<Rightarrow> cvl_system \<Rightarrow> bool" for env where
  turn: "closing (y_state y) = None \<Longrightarrow> run_calls env (y_store y) (with_message calls (y_state y)) (y_pool y) calls = Inr (replies, p) \<Longrightarrow>
    merge_turn cvl_channel cvl_own replies (with_message calls (y_state y)) = Some s \<Longrightarrow>
    cvl_step env y (CvlTurn y calls) (y\<lparr>y_state := s, y_pool := p\<rparr>)"
| job_end: "dget (p_jobs (y_pool y)) k = Some j \<Longrightarrow> \<not> job_finished j \<Longrightarrow>
    cvl_step env y (JobEnds y k j a) (y\<lparr>y_pool := job_ends (k, a) (y_pool y)\<rparr>)"
| committed: "cvl_step env y (EditCommitted y e) (y\<lparr>y_store := commit_edit (e_sha env) e (y_store y)\<rparr>)"
| monitored: "closing (y_state y) = None \<Longrightarrow> cvl_step env y (Monitored y alerted) (y\<lparr>y_state := author_monitor alerted (y_state y)\<rparr>)"
| summarized: "closing (y_state y) = None \<Longrightarrow> cvl_step env y (Summarized y) (y\<lparr>y_state := (y_state y)\<lparr>s_messages := []\<rparr>\<rparr>)"

inductive cvl_session :: "cvl_env \<Rightarrow> cvl_system \<Rightarrow> cvl_event list \<Rightarrow> bool" for env where
  cvl_begin: "edit_store_ok (e_sha env) st \<Longrightarrow> restored st c prior = Some r \<Longrightarrow>
    cvl_session env \<lparr>y_state = cvl_start stem plugin_tools r, y_pool = empty_pool, y_store = st\<rparr> []"
| cvl_next: "cvl_session env y hist \<Longrightarrow> cvl_step env y e y' \<Longrightarrow> cvl_session env y' (e # hist)"

subsection \<open>The result\<close>

record property_rule_mapping =
  pr_title :: string
  pr_rules :: "string list"
  pr_spec_file :: string

record applied_edit =
  ae_id :: string
  ae_summary :: string
  ae_why :: string

record generated_cvl =
  gc_commentary :: string
  gc_skipped :: "skipped_property list"
  gc_property_rules :: "property_rule_mapping list"
  gc_config :: conf
  gc_final_link :: "string option"
  gc_run_link_specs :: "(string \<times> string) list"
  gc_vfs :: snapshot
  gc_applied_edits :: "applied_edit list"
  gc_covering_links :: "string list"
  gc_spec_files :: "(string, string) dict"
  gc_entrypoint_specs :: "string list"

datatype author_end = AuthorEnded cvl_system | AuthorOverBudget string

datatype author_result =
    GeneratedCvl generated_cvl
  | CurtailedCvl "generated_cvl option" "string option"
  | AuthorGaveUp string
  | AuthorAssertion

fun applied_edits_of :: "edit_store \<Rightarrow> string list \<Rightarrow> applied_edit list option" where
  "applied_edits_of st [] = Some []"
| "applied_edits_of st (i # is) =
     (case (read_edit st i, applied_edits_of st is) of
        (Some e, Some es) \<Rightarrow> Some (\<lparr>ae_id = i, ae_summary = ed_summary e, ae_why = ed_why e\<rparr> # es)
      | _ \<Rightarrow> None)"

definition mapping_of :: "string \<Rightarrow> cvl_state \<Rightarrow> property_rule_mapping list" where
  "mapping_of slug s =
     concat (map (\<lambda>b. map (\<lambda>(t, rs). \<lparr>pr_title = t, pr_rules = rs, pr_spec_file = buffer_spec_file slug (buf_name b)\<rparr>) (property_rules b))
       (run_targets (s_buffers s)))"

definition digest_or_empty :: "buffer_error + string \<Rightarrow> string" where
  \<comment> \<open>the content digest does not raise\<close>
  "digest_or_empty r = (case r of Inr d \<Rightarrow> d | Inl e \<Rightarrow> [])"

definition generated_cvl_of :: "cvl_env \<Rightarrow> string \<Rightarrow> cvl_state \<Rightarrow> string \<Rightarrow> applied_edit list \<Rightarrow> generated_cvl" where
  "generated_cvl_of env slug s commentary edits =
     (let links = completing_run_specs (s_history s) (run_targets (s_buffers s)) (\<lambda>n. digest_or_empty (content_digest env s n)) slug
      in \<lparr>gc_commentary = commentary, gc_skipped = skipped s, gc_property_rules = mapping_of slug s, gc_config = s_config s,
          gc_final_link = (case links of [] \<Rightarrow> None | l # _ \<Rightarrow> Some (fst l)), gc_run_link_specs = links, gc_vfs = s_vfs s,
          gc_applied_edits = edits, gc_covering_links = [], gc_spec_files = map (\<lambda>(n, b). (n, cvl b)) (s_buffers s),
          gc_entrypoint_specs = map buf_name (run_targets (s_buffers s))\<rparr>)"

fun author_outcome :: "cvl_env \<Rightarrow> string \<Rightarrow> author_end \<Rightarrow> author_result" where
  "author_outcome env slug (AuthorOverBudget msg) = CurtailedCvl None (Some msg)"
| "author_outcome env slug (AuthorEnded y) =
     (let s = y_state y in
      case (closing s, failed s) of
        (Some t, Some True) \<Rightarrow> if s_curtailed s then CurtailedCvl None (Some t) else AuthorGaveUp t
      | (Some t, Some False) \<Rightarrow>
          (case applied_edits_of (y_store y) (s_versions s) of
             None \<Rightarrow> AuthorAssertion
           | Some edits \<Rightarrow>
               let g = generated_cvl_of env slug s t edits
               in if s_curtailed s then CurtailedCvl (Some g) None else GeneratedCvl g)
      | _ \<Rightarrow> AuthorAssertion)"

definition artifact_text :: "generated_cvl \<Rightarrow> string" where
  "artifact_text g =
     join (newline @ newline) (map (\<lambda>(name, t). ''// ===== '' @ name @ '' ====='' @ newline @ rstrip t) (gc_spec_files g))"

definition property_checks_of :: "generated_cvl \<Rightarrow> (string \<times> string list) list" where
  "property_checks_of g = map (\<lambda>m. (pr_title m, pr_rules m)) (gc_property_rules g)"

definition remembered :: "cvl_state \<Rightarrow> last_attempt" where
  \<comment> \<open>what the session leaves for the next attempt, however it ends\<close>
  "remembered s = \<lparr>la_versions = s_versions s, la_config = Some (s_config s)\<rparr>"

end
