(* ===== verification/Conf_Laws.thy ===== *)
theory Conf_Laws
  imports Conf_Edits
begin

text \<open>
  The compiler maps of a configuration stay all-or-nothing: where every file is matched by every map that is present, it
  still is after any sequence of accepted edits, so no edit of the author makes the prover's command line fail on an
  unmatched file.
\<close>

definition maps_cover_files :: "conf \<Rightarrow> bool" where
  "maps_cover_files config \<longleftrightarrow> (\<exists>fs. files_of config = Inr fs \<and>
     (\<forall>k\<in>set compiler_map_keys. \<forall>m. map_in config k = Some m \<longrightarrow> (\<forall>f\<in>set fs. dget m (files_entry_contract f) \<noteq> None)))"

lemmas key_names = setting_to_maps_def compiler_map_keys_def flag_keys_def

subsection \<open>What the maps gain\<close>

lemma add_entry_other: "k' \<noteq> k \<Longrightarrow> dget (add_entry (k, c, v) config) k' = dget config k'"
  by (auto simp: add_entry_def dget_dset split: option.split)

lemma add_entry_map:
  "map_in (add_entry (k, c, v) config) k' =
     (case map_in config k' of None \<Rightarrow> None | Some m \<Rightarrow> Some (if k' = k then dset c v m else m))"
proof (cases "map_in config k")
  case None
  then show ?thesis by (auto simp: add_entry_def split: option.split)
next
  case (Some m)
  have "dset c v m \<noteq> []" by (metis dget_dset fun_upd_same list.simps(8) map_of.simps(1) option.distinct(1))
  then show ?thesis using Some
    by (cases "k' = k") (auto simp: add_entry_def map_in_def dget_dset split: option.splits json.splits if_splits)
qed

lemma add_entries_other: "k' \<notin> fst ` set as \<Longrightarrow> dget (fold add_entry as config) k' = dget config k'"
proof (induction as arbitrary: config)
  case (Cons a as)
  then show ?case by (cases a) (simp add: add_entry_other)
qed simp

lemma add_entries_map:
  "(map_in (fold add_entry as config) k = None) = (map_in config k = None) \<and>
   (\<forall>m m'. map_in config k = Some m \<longrightarrow> map_in (fold add_entry as config) k = Some m' \<longrightarrow>
      (\<forall>c. dget m' c \<noteq> None \<longleftrightarrow> dget m c \<noteq> None \<or> (\<exists>v. (k, c, v) \<in> set as)))"
proof (induction as arbitrary: config)
  case (Cons a as)
  obtain k0 c0 v0 where a: "a = (k0, c0, v0)" by (cases a)
  show ?case
  proof (cases "map_in config k")
    case None
    then have "map_in (add_entry a config) k = None" by (simp add: a add_entry_map)
    then show ?thesis using None Cons.IH [of "add_entry a config"] by simp
  next
    case (Some m)
    let ?m1 = "if k = k0 then dset c0 v0 m else m"
    have "map_in (add_entry a config) k = Some ?m1" by (simp add: a add_entry_map Some)
    then show ?thesis using Some Cons.IH [of "add_entry a config"] by (auto simp: a dget_dset)
  qed
qed auto

subsection \<open>What a file demands\<close>

definition demand_ok :: "conf \<Rightarrow> string \<Rightarrow> (string \<times> string list) list \<Rightarrow> file_demand \<Rightarrow> bool" where
  \<comment> \<open>the entries go to these maps only, and a map without the contract either gains it or is noted as lacking it\<close>
  "demand_ok config contract fks d \<longleftrightarrow>
     (\<forall>(k, c, v)\<in>set (additions d). k \<in> set (concat (map snd fks))) \<and>
     (lacking d = [] \<and> spurious d = [] \<longrightarrow>
       (\<forall>k\<in>set (concat (map snd fks)). \<forall>m. map_in config k = Some m \<longrightarrow>
          dget m contract \<noteq> None \<or> (\<exists>v. (k, contract, v) \<in> set (additions d))))"

lemma demand_grows:
  assumes d: "demand_ok config c fks d"
    and adds: "set (additions d') = set (additions d) \<union> new" and own: "\<And>k x v. (k, x, v) \<in> new \<Longrightarrow> k \<in> set spellings"
    and clean: "lacking d' = [] \<Longrightarrow> spurious d' = [] \<Longrightarrow> lacking d = [] \<and> spurious d = []"
    and met: "\<And>k m. lacking d' = [] \<Longrightarrow> spurious d' = [] \<Longrightarrow> k \<in> set spellings \<Longrightarrow> map_in config k = Some m \<Longrightarrow>
      dget m c \<noteq> None \<or> (\<exists>v. (k, c, v) \<in> new)"
  shows "demand_ok config c (fks @ [(field, spellings)]) d'"
  unfolding demand_ok_def
proof (intro conjI impI ballI allI, goal_cases)
  case (1 x)
  obtain k y v where x: "x = (k, y, v)" by (cases x)
  have "k \<in> set (concat (map snd fks)) \<or> k \<in> set spellings"
  proof (cases "(k, y, v) \<in> new")
    case False
    then have "(k, y, v) \<in> set (additions d)" using 1 adds x by blast
    then show ?thesis using d unfolding demand_ok_def by blast
  qed (use own in blast)
  then show ?case by (simp add: x)
next
  case (2 k m)
  then have ok: "lacking d' = []" "spurious d' = []"
    and k: "k \<in> set (concat (map snd fks)) \<or> k \<in> set spellings" by simp_all
  from k show ?case
  proof
    assume "k \<in> set (concat (map snd fks))"
    with d clean [OF ok] 2(3) have "dget m c \<noteq> None \<or> (\<exists>v. (k, c, v) \<in> set (additions d))"
      unfolding demand_ok_def by blast
    then show ?thesis using adds by blast
  next
    assume "k \<in> set spellings"
    then show ?thesis using met [OF ok _ 2(3)] adds by blast
  qed
qed

lemma demand_of_field_ok:
  assumes "demand_ok config contract fks d"
  shows "demand_ok config contract (fks @ [fk]) (demand_of_field config contract settings fk d)"
proof (cases fk)
  case (Pair field spellings)
  let ?present = "filter (\<lambda>k. map_in config k \<noteq> None) spellings"
  show ?thesis
  proof (cases "Option.bind settings (\<lambda>s. setting_of s field)")
    case None
    let ?lack = "List.map_filter (\<lambda>k. case map_in config k of None \<Rightarrow> None
        | Some m \<Rightarrow> if dget m contract = None
            then Some \<lparr>rs_field = field, rs_map_key = k, rs_existing = distinct_values m\<rparr> else None) ?present"
    have d: "demand_of_field config contract settings (field, spellings) d = d\<lparr>lacking := lacking d @ ?lack\<rparr>"
      by (simp add: demand_of_field_def None Let_def)
    have here: "dget m contract \<noteq> None" if "?lack = []" "k \<in> set spellings" "map_in config k = Some m" for k m
    proof
      assume "dget m contract = None"
      then have "\<lparr>rs_field = field, rs_map_key = k, rs_existing = distinct_values m\<rparr> \<in> set ?lack"
        using that(2,3) by (force simp: List.map_filter_def image_iff)
      with that(1) show False by simp
    qed
    show ?thesis unfolding Pair
      by (rule demand_grows [OF assms, where new = "{}"]) (use here in \<open>simp_all add: d\<close>)
  next
    case (Some v)
    have d: "demand_of_field config contract settings (field, spellings) d =
        (if ?present = [] then d\<lparr>spurious := spurious d @ [field]\<rparr>
         else d\<lparr>additions := additions d @ map (\<lambda>k. (k, contract, v)) ?present\<rparr>)"
      by (simp add: demand_of_field_def Some Let_def)
    show ?thesis unfolding Pair
    proof (rule demand_grows [OF assms, where new = "(\<lambda>k. (k, contract, v)) ` set ?present"], goal_cases)
      case 1
      then show ?case by (cases "?present = []") (simp_all add: d)
    next
      case (2 k x w)
      then show ?case by auto
    next
      case 3
      then show ?case by (cases "?present = []") (simp_all add: d)
    next
      case (4 k m)
      then show ?case by auto
    qed
  qed
qed

lemma demand_of_fields_ok:
  "demand_ok config c seen d \<Longrightarrow> demand_ok config c (seen @ fks) (fold (demand_of_field config c settings) fks d)"
proof (induction fks arbitrary: seen d)
  case (Cons fk fks)
  from Cons.IH [OF demand_of_field_ok [OF Cons.prems, of fk settings]] show ?case by simp
qed simp

lemma demand_of_file_ok: "demand_ok config (files_entry_contract f) setting_to_maps (demand_of_file config (f, settings))"
  using demand_of_fields_ok [of config "files_entry_contract f" "[]" "\<lparr>additions = [], lacking = [], spurious = []\<rparr>" setting_to_maps settings]
  by (simp add: demand_of_file_def demand_ok_def)

lemma extend_one_file:
  assumes "extend_compiler_maps config [(f, settings)] = Inr c"
  shows "k \<notin> set compiler_map_keys \<Longrightarrow> dget c k = dget config k"
    and "k \<in> set compiler_map_keys \<Longrightarrow> map_in c k = Some m' \<Longrightarrow>
      (\<exists>m. map_in config k = Some m \<and> (\<forall>x. dget m x \<noteq> None \<longrightarrow> dget m' x \<noteq> None) \<and> dget m' (files_entry_contract f) \<noteq> None)"
proof -
  let ?d = "demand_of_file config (f, settings)"
  have ok: "lacking ?d = []" "spurious ?d = []" and c: "c = fold add_entry (additions ?d) config"
    using assms by (auto simp: extend_compiler_maps_def Let_def split: if_splits)
  note demand = demand_of_file_ok [of config f settings, unfolded demand_ok_def]
  have "fst ` set (additions ?d) \<subseteq> set compiler_map_keys"
    using conjunct1 [OF demand] by (force simp: compiler_map_keys_def)
  then show "dget c k = dget config k" if "k \<notin> set compiler_map_keys"
    using that unfolding c by (intro add_entries_other) blast
  show "\<exists>m. map_in config k = Some m \<and> (\<forall>x. dget m x \<noteq> None \<longrightarrow> dget m' x \<noteq> None) \<and> dget m' (files_entry_contract f) \<noteq> None"
    if k: "k \<in> set compiler_map_keys" and m': "map_in c k = Some m'"
  proof -
    note grown = add_entries_map [of "additions ?d" config k, folded c]
    then obtain m where m: "map_in config k = Some m" using m' by fastforce
    have "dget m (files_entry_contract f) \<noteq> None \<or> (\<exists>v. (k, files_entry_contract f, v) \<in> set (additions ?d))"
      using conjunct2 [OF demand, rule_format, OF conjI [OF ok] _ m] k by (simp add: compiler_map_keys_def)
    then show ?thesis using grown m m' by blast
  qed
qed

subsection \<open>The edits\<close>

lemma files_of_with_files [simp]: "files_of (with_files fs config) = Inr fs"
proof -
  have "mapE (\<lambda>v. case v of JString f \<Rightarrow> Inr f | _ \<Rightarrow> Inl NoFileList) (map JString fs) = Inr fs" by (induction fs) simp_all
  then show ?thesis by (simp add: files_of_def with_files_def dget_dset)
qed

lemma map_in_with_files [simp]: "k \<in> set compiler_map_keys \<Longrightarrow> map_in (with_files fs config) k = map_in config k"
  by (auto simp: map_in_def with_files_def dget_dset key_names)

lemma files_of_cong: "dget c ''files'' = dget d ''files'' \<Longrightarrow> files_of c = files_of d"
  by (simp add: files_of_def)

lemma map_in_cong: "dget c k = dget d k \<Longrightarrow> map_in c k = map_in d k"
  by (simp add: map_in_def)

lemma set_flag_covers: "k \<in> set flag_keys \<Longrightarrow> maps_cover_files (set_flag k v config) = maps_cover_files config"
proof -
  assume k: "k \<in> set flag_keys"
  have same: "dget (set_flag k v config) k' = dget config k'" if "k' \<noteq> k" for k'
    using that by (simp add: set_flag_def dget_dset dget_dpop split: option.split)
  have "files_of (set_flag k v config) = files_of config" using k by (intro files_of_cong same) (auto simp: key_names)
  moreover have "map_in (set_flag k v config) k' = map_in config k'" if "k' \<in> set compiler_map_keys" for k'
    using k that by (intro map_in_cong same) (auto simp: key_names)
  ultimately show ?thesis by (simp add: maps_cover_files_def)
qed

lemma remove_first_subset: "remove_first p fs = Some fs' \<Longrightarrow> set fs' \<subseteq> set fs"
  using set_dropWhileD [of _ "\<lambda>f. \<not> starts_with p f" fs]
  by (cases "dropWhile (\<lambda>f. \<not> starts_with p f) fs") (auto simp: remove_first_def dest: set_takeWhileD)

lemma added_file_covers:
  assumes "maps_cover_files config" and "files_of config = Inr fs"
    and ext: "extend_compiler_maps (with_files (fs @ [entry]) config) [(entry, settings)] = Inr c"
  shows "maps_cover_files c"
proof -
  let ?config = "with_files (fs @ [entry]) config"
  have covered: "dget m (files_entry_contract f) \<noteq> None"
    if "k \<in> set compiler_map_keys" "map_in config k = Some m" "f \<in> set fs" for k m f
    using assms(1,2) that by (auto simp: maps_cover_files_def)
  have "dget c ''files'' = dget ?config ''files''" by (rule extend_one_file(1) [OF ext]) (simp add: key_names)
  then have "files_of c = Inr (fs @ [entry])" using files_of_cong [of c ?config] by simp
  moreover have "dget m' (files_entry_contract f) \<noteq> None"
    if k: "k \<in> set compiler_map_keys" and m': "map_in c k = Some m'" and f: "f \<in> set (fs @ [entry])" for k m' f
  proof -
    obtain m where m: "map_in config k = Some m" "\<forall>x. dget m x \<noteq> None \<longrightarrow> dget m' x \<noteq> None"
      "dget m' (files_entry_contract entry) \<noteq> None"
      using extend_one_file(2) [OF ext k m'] k by auto
    show ?thesis
    proof (cases "f = entry")
      case False
      then have "f \<in> set fs" using f by simp
      then show ?thesis using covered [OF k m(1)] m(2) by blast
    next
      case True
      then show ?thesis using m(3) by simp
    qed
  qed
  ultimately show ?thesis by (auto simp: maps_cover_files_def)
qed

lemma config_edit_covers:
  assumes "maps_cover_files config" and "apply_config_edit config e = Inr (Inr c)"
  shows "maps_cover_files c"
proof (cases e)
  case (AddFile p name settings)
  obtain fs where fs: "files_of config = Inr fs" using assms(1) by (auto simp: maps_cover_files_def)
  let ?entry = "p @ (case name of None \<Rightarrow> [] | Some n \<Rightarrow> '':'' @ n)"
  have "extend_compiler_maps (with_files (fs @ [?entry]) config) [(?entry, settings)] = Inr c"
    using assms(2) unfolding AddFile apply_config_edit.simps fs bindE.simps Let_def
    by (cases "extend_compiler_maps (with_files (fs @ [?entry]) config) [(?entry, settings)]") (simp_all split: if_splits)
  then show ?thesis by (rule added_file_covers [OF assms(1) fs])
next
  case (RemoveFile p)
  then obtain fs fs' where fs: "files_of config = Inr fs" "remove_first p fs = Some fs'" "c = with_files fs' config"
    using assms(2) by (auto simp: bindE_Inr_iff split: option.splits)
  then show ?thesis using assms(1) remove_first_subset [OF fs(2)] by (fastforce simp: maps_cover_files_def)
qed (use assms set_flag_covers [of _ _ config] in \<open>auto simp: flag_keys_def split: if_splits\<close>)

lemma config_edits_cover:
  "maps_cover_files config \<Longrightarrow> apply_config_edits config es = Inr (Inr c) \<Longrightarrow> maps_cover_files c"
proof (induction es arbitrary: config)
  case (Cons e es)
  then obtain x where x: "apply_config_edit config e = Inr x" "(case x of Inl t \<Rightarrow> Inr (Inl t) | Inr c \<Rightarrow> apply_config_edits c es) = Inr (Inr c)"
    by (auto simp: bindE_Inr_iff)
  then obtain c1 where "apply_config_edit config e = Inr (Inr c1)" "apply_config_edits c1 es = Inr (Inr c)"
    by (cases x) auto
  then show ?case using Cons.IH config_edit_covers [OF Cons.prems(1)] by blast
qed simp

end
