(* ===== verification/Cvl_Laws.thy ===== *)
theory Cvl_Laws
  imports Cvl_Session Conf_Laws Agent_Laws Spec_Buffers_Laws
begin

text \<open>
  The tools of a CVL session, specified by the writes they may produce; the turns as replies to calls that each see a pool of
  jobs; and what every session keeps: buffers filed under their names, compiler maps that match every file, and a working
  copy whose identity is the last applied edit.
\<close>

subsection \<open>What a call can write\<close>

type_synonym seen_call = "edit_store \<times> job_pool \<times> string \<times> call_world \<times> cvl_call"

definition well_named :: "buffer_write \<Rightarrow> bool" where
  "well_named w \<longleftrightarrow> (case snd w of None \<Rightarrow> True | Some b \<Rightarrow> buf_name b = fst w)"

definition writes_buffer :: "cvl_call \<Rightarrow> bool" where
  "writes_buffer c \<longleftrightarrow> (case c of PutBuffer n t r g \<Rightarrow> True | EditBuffer n a b \<Rightarrow> True | RemapBuffer n r \<Rightarrow> True | DeleteBuffer n \<Rightarrow> True | _ \<Rightarrow> False)"

definition only_nags :: "history_item list \<Rightarrow> bool" where
  "only_nags h \<longleftrightarrow> list_all (\<lambda>it. run_of it = None) h"

definition found_by :: "cvl_env \<Rightarrow> cvl_state \<Rightarrow> job_pool \<Rightarrow> string \<Rightarrow> call_world \<Rightarrow> bool \<Rightarrow> history_item list" where
  \<comment> \<open>the runs a collecting call records\<close>
  "found_by env s p i w wait = run_logs_of env s i (fst (drain w wait p))"

inductive cvl_effect :: "cvl_env \<Rightarrow> cvl_state \<Rightarrow> seen_call \<Rightarrow> cvl_write channel_write list \<Rightarrow> bool" for env s where
  no_effect: "cvl_effect env s c []"
| buffer_written: "(buffers_ok (s_buffers s) \<longrightarrow> well_named u) \<Longrightarrow> writes_buffer c \<Longrightarrow>
    cvl_effect env s (st, p, i, w, c) [OwnWrite (BufferWrite u)]"
| collected: "foldE (add_prover_stamp env s (found_by env s p i w wait)) (run_targets (s_buffers s)) [] = Inr new_stamps \<Longrightarrow>
    only_nags marks \<Longrightarrow> notes = [] \<or> (\<exists>r. notes = [OwnWrite (RemindersWrite r)]) \<Longrightarrow>
    cvl_effect env s (st, p, i, w, CollectResults wait)
      ([StampWrite new_stamps, OwnWrite (HistoryWrite (found_by env s p i w wait @ marks))] @ notes)"
| reviewed: "foldE (review_buffer env s w rs) (run_targets (s_buffers s)) ([], []) = Inr part \<Longrightarrow>
    review_skips env s w rs part = (new_stamps, blocks) \<Longrightarrow>
    cvl_effect env s (st, p, i, w, CvlFeedback rs) [StampWrite new_stamps]"
| skip: "title \<in> set (e_titles env) \<Longrightarrow> strip why \<noteq> [] \<Longrightarrow>
    cvl_effect env s (st, p, i, w, SkipTitle title why) [SkipWrite [\<lparr>property_title = title, reason = why\<rparr>]]"
| unskip: "title \<in> set (e_titles env) \<Longrightarrow>
    cvl_effect env s (st, p, i, w, UnskipTitle title) [SkipWrite [\<lparr>property_title = title, reason = []\<rparr>]]"
| expect_failure: "cvl_effect env s (st, p, i, w, ExpectRuleFailure rule why) [OwnWrite (RuleSkipWrite [(rule, why)])]"
| expect_passage: "cvl_effect env s (st, p, i, w, ExpectRulePassage rule) [OwnWrite (RuleSkipWrite [(rule, delete_skip)])]"
| configured: "apply_config_edits (s_config s) es = Inr (Inr c) \<Longrightarrow>
    cvl_effect env s (st, p, i, w, EditConfig es) [OwnWrite (ConfigWrite c)]"
| applied: "read_edit st e = Some r \<Longrightarrow>
    cvl_effect env s (st, p, i, w, ApplyEdit e) [OwnWrite (VfsWrite (ed_vfs r)), OwnWrite (VersionWrite [e])]"
| emptied: "cvl_effect env s (st, p, i, w, RevertToEdit None) [OwnWrite (VfsWrite []), OwnWrite (VersionWrite [wipe_history])]"
| reverted: "read_edit st e = Some r \<Longrightarrow> e \<in> set (s_versions s) \<Longrightarrow>
    cvl_effect env s (st, p, i, w, RevertToEdit (Some e))
      [OwnWrite (VfsWrite (ed_vfs r)), OwnWrite (VersionWrite (wipe_history # upto_first e (s_versions s)))]"
| published: "publish_complaint env s = Inr None \<Longrightarrow>
    cvl_effect env s (st, p, i, w, PublishCvl t) [ResultWrite t, FailedWrite False]"
| gave_up: "cvl_effect env s (st, p, i, w, GiveUpAuthoring kind why) [FailedWrite True, ResultWrite why]"

definition seen_tool :: "cvl_env \<Rightarrow> cvl_state \<Rightarrow> seen_call \<Rightarrow> cvl_error + cvl_write tool_reply" where
  \<comment> \<open>the reply of a call that sees the store and the jobs\<close>
  "seen_tool env s = (\<lambda>(st, p, c). map_sum id fst (cvl_tool env st s p c))"

lemma map_sum_Inr: "map_sum f g x = Inr y \<longleftrightarrow> (\<exists>z. x = Inr z \<and> y = g z)"
  by (cases x) auto

lemma faulty_Inr: "faulty f x = Inr y \<longleftrightarrow> x = Inr y"
  by (simp add: faulty_def split: sum.split)

lemma derived_name [simp]: "buf_name (derive_path_from_name b) = buf_name b"
  by (simp add: derive_path_from_name_def)

text \<open>Each tool in turn.\<close>

definition buffer_reply_ok :: "cvl_state \<Rightarrow> buffer_write tool_reply \<Rightarrow> bool" where
  "buffer_reply_ok s r \<longleftrightarrow> writes_of r = [] \<or> (\<exists>u. writes_of r = [OwnWrite u] \<and> (buffers_ok (s_buffers s) \<longrightarrow> well_named u))"

lemma accept_buffer_ok: "(buffers_ok (s_buffers s) \<Longrightarrow> buf_name b = name) \<Longrightarrow> buffer_reply_ok s (accept_buffer bs b name)"
  by (simp add: buffer_reply_ok_def accept_buffer_def well_named_def)

lemma buffer_tools_ok:
  "buffer_reply_ok s (put_buffer syntax cap (s_buffers s) name t rules target)"
  "buffer_reply_ok s (edit_buffer_tool syntax (s_buffers s) name old new)"
  "buffer_reply_ok s (remap_buffer (s_buffers s) name rules)"
  "buffer_reply_ok s (delete_buffer (s_buffers s) name)"
proof -
  have reply: "buffer_reply_ok s (Reply m)" for m by (simp add: buffer_reply_ok_def)
  show "buffer_reply_ok s (put_buffer syntax cap (s_buffers s) name t rules target)"
    by (auto simp: put_buffer_def Let_def reply intro!: accept_buffer_ok split: option.split)
  show "buffer_reply_ok s (edit_buffer_tool syntax (s_buffers s) name old new)"
    by (auto simp: edit_buffer_tool_def reply buffers_ok_name intro!: accept_buffer_ok split: option.split edit_result.split)
  show "buffer_reply_ok s (remap_buffer (s_buffers s) name rules)"
    by (auto simp: remap_buffer_def reply buffers_ok_name intro!: accept_buffer_ok split: option.split)
  show "buffer_reply_ok s (delete_buffer (s_buffers s) name)"
    by (simp add: delete_buffer_def reply) (simp add: buffer_reply_ok_def well_named_def)
qed

lemma buffer_reply_effect:
  assumes "buffer_reply_ok s r" and "writes_buffer c"
  shows "cvl_effect env s (st, p, i, w, c) (writes_of (map_tool_reply BufferWrite r))"
proof (cases r)
  case (Command t ws)
  then show ?thesis using assms by (auto simp: buffer_reply_ok_def intro: cvl_effect.intros)
qed (auto intro: cvl_effect.intros)

lemma submit_buffer_effect: "submit_buffer env s p name rule excluded = Inr (r, p') \<Longrightarrow> writes_of r = []"
  by (auto simp: submit_buffer_def launch_def Let_def bindE_Inr_iff split: option.splits if_splits sum.splits)

lemma stuck_rule_nag_marks: "only_nags (snd (stuck_rule_nag pairs h skips known tools))"
  by (simp add: only_nags_def stuck_rule_nag_def split: prod.split)

lemma collect_results_effect:
  assumes "collect_results env s p w i wait = Inr (r, p')"
  shows "cvl_effect env s (st, p, i, w, CollectResults wait) (writes_of r)"
proof (cases "run_targets (s_buffers s) = []")
  case True
  then show ?thesis using assms by (auto simp: collect_results_def intro: cvl_effect.intros)
next
  case False
  obtain ds p1 where d: "drain w wait p = (ds, p1)" by (cases "drain w wait p")
  obtain nag marks where n: "stuck_rule_nag (fresh_statuses ds) (s_history s) (keys (s_rule_skips s)) (known_collects s) (s_plugin_tools s) = (nag, marks)"
    by fastforce
  then have m: "only_nags marks" using stuck_rule_nag_marks by (metis snd_conv)
  obtain new_stamps where st: "foldE (add_prover_stamp env s (run_logs_of env s i ds)) (run_targets (s_buffers s)) [] = Inr new_stamps"
    using assms False by (auto simp: collect_results_def d bindE_Inr_iff Let_def)
  have "\<exists>notes. (notes = [] \<or> (\<exists>r. notes = [OwnWrite (RemindersWrite r)])) \<and>
      writes_of r = [StampWrite new_stamps, OwnWrite (HistoryWrite (run_logs_of env s i ds @ marks))] @ notes"
    using assms False by (auto simp: collect_results_def d st n Let_def)
  then show ?thesis using collected [of env s p i w wait new_stamps marks] st m by (auto simp: found_by_def d)
qed

lemma feedback_tool_effect:
  assumes "feedback_tool env s w rs = Inr r"
  shows "cvl_effect env s (st, p, i, w, CvlFeedback rs) (writes_of r)"
proof (cases "run_targets (s_buffers s) = []")
  case False
  then obtain part where part: "foldE (review_buffer env s w rs) (run_targets (s_buffers s)) ([], []) = Inr part"
    using assms by (auto simp: feedback_tool_def bindE_Inr_iff)
  obtain new_stamps blocks where rev: "review_skips env s w rs part = (new_stamps, blocks)" by fastforce
  show ?thesis using assms False part rev
    by (auto simp: feedback_tool_def intro: cvl_effect.intros split: if_splits)
qed (use assms in \<open>auto simp: feedback_tool_def intro: cvl_effect.intros\<close>)

lemma config_edit_effect:
  "config_edit_tool dump (s_config s) es = Inr r \<Longrightarrow>
   cvl_effect env s (st, p, i, w, EditConfig es) (writes_of (map_tool_reply ConfigWrite r))"
proof -
  assume "config_edit_tool dump (s_config s) es = Inr r"
  then obtain x where "apply_config_edits (s_config s) es = Inr x" and
    "(case x of Inl t \<Rightarrow> Inr (Reply t) | Inr c \<Rightarrow> Inr (Command (''Accepted, new config is:'' @ newline @ ''```json'' @ newline @
        dump c @ newline @ ''```'') [OwnWrite c])) = (Inr r :: conf_error + _)"
    unfolding config_edit_tool_def bindE_Inr_iff by blast
  then show ?thesis by (cases x) (auto intro!: no_effect configured)
qed

lemma publish_cvl_effect:
  "publish_cvl env s t = Inr r \<Longrightarrow> cvl_effect env s (st, p, i, w, PublishCvl t) (writes_of r)"
  by (auto simp: publish_cvl_def bindE_Inr_iff intro!: no_effect published split: option.splits)

lemma cvl_tool_effects: "seen_tool env s (st, p, c) = Inr r \<Longrightarrow> cvl_effect env s (st, p, c) (writes_of r)"
proof -
  assume "seen_tool env s (st, p, c) = Inr r"
  then obtain p' where "cvl_tool env st s p c = Inr (r, p')" by (auto simp: seen_tool_def map_sum_Inr)
  then show ?thesis
  proof (induction env st s p c rule: cvl_tool.induct)
    case (1 env st s p i w name t rules target)
    then show ?case using buffer_reply_effect [OF buffer_tools_ok(1)] by (auto simp: written_by_tool_def writes_buffer_def)
  next
    case (3 env st s p i w name old new)
    then show ?case using buffer_reply_effect [OF buffer_tools_ok(2)] by (auto simp: written_by_tool_def writes_buffer_def)
  next
    case (4 env st s p i w name rules)
    then show ?case using buffer_reply_effect [OF buffer_tools_ok(3)] by (auto simp: written_by_tool_def writes_buffer_def)
  next
    case (6 env st s p i w name)
    then show ?case using buffer_reply_effect [OF buffer_tools_ok(4)] by (auto simp: written_by_tool_def writes_buffer_def)
  next
    case (7 env st s p i w name rule excluded)
    then show ?case using submit_buffer_effect by (simp add: faulty_Inr) (metis no_effect)
  next
    case (8 env st s p i w wait)
    then show ?case using collect_results_effect by (simp add: faulty_Inr)
  next
    case (9 env st s p i w rs)
    then show ?case using feedback_tool_effect by (auto simp: faulty_Inr map_sum_Inr)
  next
    case (14 env st s p i w es)
    then show ?case using config_edit_effect by (auto simp: faulty_Inr map_sum_Inr)
  next
    case (18 env st s p i w t)
    then show ?case using publish_cvl_effect by (auto simp: faulty_Inr map_sum_Inr)
  next
    case (19 env st s p i w kind why)
    then show ?case
      by (auto simp: give_up_call_def gated_give_up_def Let_def intro: cvl_effect.intros split: option.splits if_splits)
  qed (auto simp: written_by_tool_def get_buffer_def list_buffers_def record_skip_def unskip_def expect_rule_failure_def
      expect_rule_passage_def apply_edit_def revert_to_edit_def intro: cvl_effect.intros split: if_splits option.splits)
qed

interpretation cvl_turns: tool_session cvl_channel cvl_own "\<lambda>turn. seen_tool env" "cvl_effect env" for env
  by unfold_locales (use cvl_tool_effects in \<open>auto split: prod.splits\<close>)

subsection \<open>Turns\<close>

lemma run_calls_seen:
  assumes "run_calls env st s p calls = Inr (replies, p')" and "Q p"
    and tool: "\<And>c q r q'. c \<in> set calls \<Longrightarrow> Q q \<Longrightarrow> cvl_tool env st s q c = Inr (r, q') \<Longrightarrow> Q q'"
  shows "Q p' \<and> (\<exists>ps. length ps = length calls \<and> list_all Q ps \<and>
    mapE (seen_tool env s) (map2 (\<lambda>q c. (st, q, c)) ps calls) = Inr replies)"
  using assms
proof (induction calls arbitrary: p replies)
  case (Cons c cs)
  then obtain r q rs where c: "cvl_tool env st s p c = Inr (r, q)" "run_calls env st s q cs = Inr (rs, p')" "replies = r # rs"
    by (auto simp: bindE_Inr_iff)
  have "Q q" by (rule Cons.prems(3) [OF _ Cons.prems(2) c(1)]) simp
  then have "Q p' \<and> (\<exists>ps. length ps = length cs \<and> list_all Q ps \<and>
      mapE (seen_tool env s) (map2 (\<lambda>q c. (st, q, c)) ps cs) = Inr rs)"
    by (rule Cons.IH [OF c(2)]) (use Cons.prems(3) in \<open>meson list.set_intros(2)\<close>)
  then obtain ps where "Q p'" "length ps = length cs" "list_all Q ps"
    "mapE (seen_tool env s) (map2 (\<lambda>q c. (st, q, c)) ps cs) = Inr rs" by blast
  then show ?case using Cons.prems(2) c
    by (intro conjI exI [of _ "p # ps"]) (simp_all add: seen_tool_def)
qed simp

lemma cvl_turn_invariant:
  assumes calls: "run_calls env st s p calls = Inr (replies, p')" and merged: "merge_turn cvl_channel cvl_own replies s = Some s'"
    and start: "Q p" "P s" and tool: "\<And>c q r q'. c \<in> set calls \<Longrightarrow> Q q \<Longrightarrow> cvl_tool env st s q c = Inr (r, q') \<Longrightarrow> Q q'"
    and step: "\<And>q c ws s1. c \<in> set calls \<Longrightarrow> Q q \<Longrightarrow> cvl_effect env s (st, q, c) ws \<Longrightarrow> P s1 \<Longrightarrow> P (fold (apply_write cvl_own) ws s1)"
  shows "P s'"
proof -
  obtain ps where ps: "length ps = length calls" "list_all Q ps"
    "mapE (seen_tool env s) (map2 (\<lambda>q c. (st, q, c)) ps calls) = Inr replies"
    using run_calls_seen [of env st s p calls replies p' Q] calls start(1) tool by blast
  show ?thesis
  proof (rule cvl_turns.replies_invariant [where P = P, OF ps(3) merged start(2)])
    fix c ws and s1 :: cvl_state
    assume c: "c \<in> set (map2 (\<lambda>q c. (st, q, c)) ps calls)" and e: "cvl_effect env s c ws" "P s1"
    then obtain q d where "c = (st, q, d)" "q \<in> set ps" "d \<in> set calls" by (auto elim!: in_set_zipE)
    moreover have "Q q" using \<open>q \<in> set ps\<close> ps(2) by (simp add: list_all_iff)
    ultimately show "P (fold (apply_write cvl_own) ws s1)" using e step [of d q ws s1] by simp
  qed
qed

subsection \<open>Invariants of the state\<close>

lemma cvl_state_invariant:
  assumes "cvl_session env y hist"
    and start: "\<And>st c prior r stem tools. edit_store_ok (e_sha env) st \<Longrightarrow> restored st c prior = Some r \<Longrightarrow> P (cvl_start stem tools r)"
    and messages: "\<And>s m. P (s\<lparr>s_messages := m\<rparr>) = P s"
    and monitor: "\<And>s alerted. P s \<Longrightarrow> P (author_monitor alerted s)"
    and effect: "\<And>s st q c ws s1. edit_store_ok (e_sha env) st \<Longrightarrow> P s \<Longrightarrow> P s1 \<Longrightarrow> cvl_effect env s (st, q, c) ws \<Longrightarrow>
      P (fold (apply_write cvl_own) ws s1)"
  shows "edit_store_ok (e_sha env) (y_store y) \<and> P (y_state y)"
  using assms(1)
proof induction
  case (cvl_begin st c prior r stem tools)
  then show ?case using start by simp
next
  case (cvl_next y hist e y')
  from cvl_next.hyps(2) show ?case
  proof cases
    case (turn calls replies p s)
    have "P s"
    proof (rule cvl_turn_invariant [OF turn(4,5), where Q = "\<lambda>q. True" and P = P])
      show "P (with_message calls (y_state y))" using cvl_next.IH messages by (simp add: with_message_def)
      fix q c ws and s1 :: cvl_state
      assume "cvl_effect env (with_message calls (y_state y)) (y_store y, q, c) ws" "P s1"
      then show "P (fold (apply_write cvl_own) ws s1)"
        by (intro effect [of "y_store y" "with_message calls (y_state y)" s1 q c ws])
          (use cvl_next.IH messages in \<open>simp_all add: with_message_def\<close>)
    qed simp_all
    then show ?thesis using turn cvl_next.IH by simp
  qed (use cvl_next.IH monitor messages commit_edit_ok in simp_all)
qed

lemma well_named_merge: "buffers_ok bs \<Longrightarrow> well_named w \<Longrightarrow> buffers_ok (merge_buffers bs [w])"
proof -
  assume ok: "buffers_ok bs" and w: "well_named w"
  have sub: "set (dset n b bs) \<subseteq> insert (n, b) (set bs)" for n b by (induction bs) auto
  have pop: "set (dpop n bs) \<subseteq> set bs" for n by (induction bs) auto
  show "buffers_ok (merge_buffers bs [w])"
  proof (cases "snd w")
    case None
    then show ?thesis using ok pop [of "fst w"] by (auto simp: merge_buffers_def buffers_ok_def split: prod.split)
  next
    case (Some b)
    then show ?thesis using ok w sub [of "fst w" b]
      by (fastforce simp: merge_buffers_def buffers_ok_def well_named_def split: prod.split)
  qed
qed

lemma session_buffers_ok:
  assumes "cvl_session env y hist"
  shows "buffers_ok (s_buffers (y_state y))"
proof -
  have "edit_store_ok (e_sha env) (y_store y) \<and> buffers_ok (s_buffers (y_state y))"
  proof (rule cvl_state_invariant [OF assms, where P = "\<lambda>s. buffers_ok (s_buffers s)"])
    show "buffers_ok (s_buffers (fold (apply_write cvl_own) ws s1))"
      if "cvl_effect env s (st, q, c) ws" "buffers_ok (s_buffers s)" "buffers_ok (s_buffers s1)" for s st q c ws s1
      using that by cases (auto simp: well_named_merge)
  qed (auto simp: cvl_start_def buffers_ok_def author_monitor_def cvl_wrap_up_def drain_reminders_def split: prod.split)
  then show ?thesis by simp
qed

text \<open>The identity of the working copy.\<close>

definition working_copy_ok :: "cvl_env \<Rightarrow> cvl_state \<Rightarrow> bool" where
  "working_copy_ok env s \<longleftrightarrow>
     (if s_versions s = [] then s_vfs s = [] else deterministic_hash (e_sha env) (s_vfs s) = last (s_versions s))"

lemma working_copy_has_the_last_id:
  assumes "cvl_session env y hist" and hex: "\<And>t. e_sha env t \<noteq> wipe_history"
  shows "working_copy_ok env (y_state y)"
proof -
  have id: "deterministic_hash (e_sha env) v \<noteq> wipe_history" for v using hex by (simp add: deterministic_hash_def)
  have "edit_store_ok (e_sha env) (y_store y) \<and> working_copy_ok env (y_state y)"
  proof (rule cvl_state_invariant [OF assms(1), where P = "working_copy_ok env"])
    show "working_copy_ok env (fold (apply_write cvl_own) ws s1)"
      if e: "cvl_effect env s (st, q, c) ws" and st: "edit_store_ok (e_sha env) st" and s1: "working_copy_ok env s1" for s st q c ws s1
      using e
    proof cases
      case (applied i r w p)
      then have "deterministic_hash (e_sha env) (ed_vfs r) = i" using st by (simp add: read_edit_ok)
      then show ?thesis using applied id [of "ed_vfs r"] by (auto simp: working_copy_ok_def merge_version_history_def)
    next
      case (reverted i r w p)
      then have "deterministic_hash (e_sha env) (ed_vfs r) = i" using st by (simp add: read_edit_ok)
      then show ?thesis using reverted by (simp add: working_copy_ok_def merge_version_history_def upto_first_def)
    next
      case collected
      then show ?thesis using s1 by (auto simp: working_copy_ok_def)
    qed (use s1 in \<open>auto simp: working_copy_ok_def merge_version_history_def\<close>)
    show "working_copy_ok env (cvl_start stem tools r)"
      if "edit_store_ok (e_sha env) st" "restored st c prior = Some r" for st c prior r stem tools
      using that read_edit_ok
      by (auto simp: restored_def working_copy_ok_def cvl_start_def Let_def split: option.splits if_splits)
  qed (auto simp: working_copy_ok_def author_monitor_def cvl_wrap_up_def drain_reminders_def)
  then show ?thesis by simp
qed

lemma step_keeps_the_maps:
  assumes "cvl_step env y e y'" and "maps_cover_files (s_config (y_state y))"
  shows "maps_cover_files (s_config (y_state y'))"
  using assms(1)
proof cases
  case (turn calls replies p s)
  let ?P = "\<lambda>s. maps_cover_files (s_config s)"
  have start: "?P (with_message calls (y_state y))" using assms(2) by (simp add: with_message_def)
  have "?P s"
  proof (rule cvl_turn_invariant [OF turn(4,5), where Q = "\<lambda>q. True" and P = ?P])
    show "?P (fold (apply_write cvl_own) ws s1)"
      if "cvl_effect env (with_message calls (y_state y)) (y_store y, q, c) ws" "?P s1" for q c ws s1
      using that by cases (use start config_edits_cover in auto)
  qed (use start in simp_all)
  then show ?thesis using turn by simp
qed (use assms(2) in \<open>auto simp: author_monitor_def cvl_wrap_up_def drain_reminders_def\<close>)

end
