(* ===== verification/Cvl_Origins.thy ===== *)
theory Cvl_Origins
  imports Cvl_Laws
begin

text \<open>
  Where the history of prover runs and the stamps of a CVL session come from. A recorded run is the answer to a job that a
  turn submitted, with the buffers, the source edits and the configuration of that turn; a prover stamp was written by a turn
  whose recorded runs complete the buffer; a feedback stamp by a turn whose judge accepted it.
\<close>

subsection \<open>Turns of a history\<close>

definition turn_state :: "cvl_event list \<Rightarrow> cvl_state \<Rightarrow> (string \<times> call_world \<times> cvl_call) list \<Rightarrow> bool" where
  \<comment> \<open>the calls of a turn, and the state they saw\<close>
  "turn_state hist s calls \<longleftrightarrow> (\<exists>y. CvlTurn y calls \<in> set hist \<and> s = with_message calls (y_state y))"

lemma turn_state_later: "turn_state hist s calls \<Longrightarrow> turn_state (e # hist) s calls"
  by (auto simp: turn_state_def)

definition answered :: "cvl_event list \<Rightarrow> job_key \<Rightarrow> job_answer \<Rightarrow> bool" where
  \<comment> \<open>a job of this key ended with the answer, between turns or while a call waited\<close>
  "answered hist k a \<longleftrightarrow>
     (\<exists>y j. JobEnds y k j a \<in> set hist) \<or> (\<exists>s calls i w c. turn_state hist s calls \<and> (i, w, c) \<in> set calls \<and> (k, a) \<in> set (w_arrivals w))"

lemma answered_later: "answered hist k a \<Longrightarrow> answered (e # hist) k a"
  unfolding answered_def using turn_state_later by (metis list.set_intros(2))

definition frozen_at :: "cvl_env \<Rightarrow> cvl_state \<Rightarrow> string \<Rightarrow> buf_job \<Rightarrow> bool" where
  \<comment> \<open>the job proves the buffer as it is in the state\<close>
  "frozen_at env s name j \<longleftrightarrow> content_digest env s name = Inr (job_digest j) \<and>
     job_buffers j = s_buffers s \<and> job_vfs j = s_vfs s \<and> job_conf j = s_config s"

definition submitted :: "cvl_env \<Rightarrow> cvl_event list \<Rightarrow> cvl_state \<Rightarrow> job_key \<Rightarrow> buf_job \<Rightarrow> bool" where
  "submitted env hist s k j \<longleftrightarrow> (\<exists>calls. turn_state hist s calls) \<and> frozen_at env s (fst k) j"

lemma submitted_later: "submitted env hist s k j \<Longrightarrow> submitted env (e # hist) s k j"
  unfolding submitted_def using turn_state_later by blast

definition done_origin :: "cvl_env \<Rightarrow> cvl_event list \<Rightarrow> buf_done \<Rightarrow> bool" where
  "done_origin env hist d \<longleftrightarrow> (\<exists>s k j a. submitted env hist s k j \<and> answered hist k a \<and> d = job_done k (job_digest j) a)"

lemma done_origin_later: "done_origin env hist d \<Longrightarrow> done_origin env (e # hist) d"
  unfolding done_origin_def using submitted_later answered_later by blast

definition pool_ok :: "cvl_env \<Rightarrow> cvl_event list \<Rightarrow> job_pool \<Rightarrow> bool" where
  "pool_ok env hist p \<longleftrightarrow>
     (\<forall>(k, j)\<in>set (p_jobs p). \<exists>s. submitted env hist s k j) \<and> (\<forall>d\<in>set (p_queue p). done_origin env hist d)"

lemma pool_ok_later: "pool_ok env hist p \<Longrightarrow> pool_ok env (e # hist) p"
  unfolding pool_ok_def using submitted_later done_origin_later by blast

definition prover_ran :: "cvl_env \<Rightarrow> cvl_event list \<Rightarrow> string \<Rightarrow> string \<Rightarrow> statuses \<Rightarrow> bool" where
  \<comment> \<open>the prover answered with these results for the buffer, on a state with the digest\<close>
  "prover_ran env hist name digest results \<longleftrightarrow>
     (\<exists>s sel j declared rep. submitted env hist s (name, sel) j \<and> job_digest j = digest \<and>
        answered hist (name, sel) (Proved declared (Inr rep)) \<and> results = raw_rule_status rep)"

lemma prover_ran_later: "prover_ran env hist name digest results \<Longrightarrow> prover_ran env (e # hist) name digest results"
  unfolding prover_ran_def using submitted_later answered_later by blast

subsection \<open>The pool\<close>

lemma set_dset_subset: "set (dset k v d) \<subseteq> insert (k, v) (set d)"
  by (induction d) auto

lemma job_ends_ok:
  assumes "pool_ok env hist p" and "answered hist k a"
  shows "pool_ok env hist (job_ends (k, a) p)"
proof (cases "dget (p_jobs p) k")
  case (Some j)
  obtain s where s: "submitted env hist s k j" using assms(1) Some by (auto simp: pool_ok_def dest!: dget_Some_in)
  then have fin: "submitted env hist s k (j\<lparr>job_finished := True\<rparr>)" by (simp add: submitted_def frozen_at_def)
  have "done_origin env hist (job_done k (job_digest j) a)" unfolding done_origin_def using s assms(2) by blast
  then show ?thesis using assms(1) Some fin set_dset_subset [of k "j\<lparr>job_finished := True\<rparr>" "p_jobs p"]
    by (auto simp: job_ends_def pool_ok_def)
qed (use assms in \<open>simp add: job_ends_def\<close>)

lemma jobs_end_ok:
  "pool_ok env hist p \<Longrightarrow> (\<And>k a. (k, a) \<in> set arrivals \<Longrightarrow> answered hist k a) \<Longrightarrow> pool_ok env hist (fold job_ends arrivals p)"
proof (induction arrivals arbitrary: p)
  case (Cons x xs)
  obtain k a where x: "x = (k, a)" by (cases x)
  have "pool_ok env hist (job_ends (k, a) p)" using Cons.prems(1) Cons.prems(2) [of k a] by (intro job_ends_ok) (simp_all add: x)
  then show ?case using Cons.IH Cons.prems(2) by (simp add: x)
qed simp

lemma drain_ok:
  assumes "pool_ok env hist p" and "turn_state hist s calls" and "(i, w, c) \<in> set calls" and "drain w wait p = (ds, p1)"
  shows "pool_ok env hist p1 \<and> (\<forall>d\<in>set ds. done_origin env hist d)"
proof -
  have "answered hist k a" if "(k, a) \<in> set (w_arrivals w)" for k a
    unfolding answered_def using that assms(2,3) by blast
  then have "pool_ok env hist (fold job_ends (w_arrivals w) p)" using jobs_end_ok [OF assms(1)] by blast
  then show ?thesis using assms(1,4) by (auto simp: drain_def Let_def pool_ok_def split: if_splits)
qed

lemma launch_ok:
  assumes "pool_ok env hist p" and "turn_state hist s calls" and "content_digest env s name = Inr digest"
  shows "pool_ok env hist (snd (launch env s p name sel digest))"
proof -
  define slug where "slug = component_slug (Some (s_stem s)) (e_main env)"
  let ?job = "\<lparr>job_digest = digest, job_finished = False, job_buffers = s_buffers s, job_vfs = s_vfs s, job_conf = s_config s,
    job_label = slug @ ''/'' @ name @ '' submission '' @ show_nat (Suc (submissions p name)), job_slug = slug\<rparr>"
  have "submitted env hist s (name, sel) ?job" using assms(2,3) by (auto simp: submitted_def frozen_at_def)
  then show ?thesis using assms(1) set_dset_subset [of "(name, sel)" ?job "filter (\<lambda>e. \<not> superseded name digest e) (p_jobs p)"]
    by (auto simp: launch_def Let_def pool_ok_def slug_def)
qed

lemma cvl_tool_pool_ok:
  assumes turn: "turn_state hist s calls" and c: "c \<in> set calls" and p: "pool_ok env hist p" and r: "cvl_tool env st s p c = Inr (r, p')"
  shows "pool_ok env hist p'"
proof -
  obtain i w call where call: "c = (i, w, call)" by (cases c)
  show ?thesis
  proof (cases call)
    case (SubmitBuffer name rule excluded)
    then have "submit_buffer env s p name rule excluded = Inr (r, p')" using r by (simp add: call faulty_Inr)
    then show ?thesis using p launch_ok [OF p turn]
      by (auto simp: submit_buffer_def bindE_Inr_iff split: option.splits if_splits sum.splits) (metis snd_conv)+
  next
    case (CollectResults wait)
    then have col: "collect_results env s p w i wait = Inr (r, p')" using r by (simp add: call faulty_Inr)
    obtain ds p1 where d: "drain w wait p = (ds, p1)" by (cases "drain w wait p")
    have "p' = p \<or> p' = p1\<lparr>p_jobs := filter (keep_job env s) (p_jobs p1)\<rparr>"
      using col by (auto simp: collect_results_def d bindE_Inr_iff Let_def split: if_splits prod.splits)
    then show ?thesis using p drain_ok [OF p turn c [unfolded call] d] by (auto simp: pool_ok_def)
  qed (use p r in \<open>auto simp: call written_by_tool_def faulty_Inr map_sum_Inr\<close>)
qed

subsection \<open>Completion\<close>

text \<open>The loop over the newest runs: some of them, from the newest on, are clean and cover every rule between them.\<close>

definition covers_rules :: "string list \<Rightarrow> string list \<Rightarrow> statuses list \<Rightarrow> bool" where
  "covers_rules expected rules hs \<longleftrightarrow>
     hs \<noteq> [] \<and> (\<forall>h\<in>set hs. \<not> unforgiven expected h) \<and> set rules \<subseteq> (\<Union>h\<in>set hs. set (covered_by h))"

lemma completes_iff: "completes expected hs rules \<longleftrightarrow> (\<exists>n. covers_rules expected rules (take n hs))"
proof (induction hs arbitrary: rules)
  case (Cons h hs)
  let ?rest = "filter (\<lambda>r. r \<notin> set (covered_by h)) rules"
  have shift: "(\<exists>n. covers_rules expected rules (take n (h # hs))) \<longleftrightarrow> (\<exists>n. covers_rules expected rules (h # take n hs))"
    by (metis covers_rules_def take0 take_Suc_Cons old.nat.exhaust)
  have one: "covers_rules expected rules (h # take n hs) \<longleftrightarrow>
      \<not> unforgiven expected h \<and> (?rest = [] \<and> (\<forall>x\<in>set (take n hs). \<not> unforgiven expected x) \<or> covers_rules expected ?rest (take n hs))" for n
    by (auto simp: covers_rules_def filter_empty_conv)
  show ?case
  proof (cases "unforgiven expected h")
    case False
    have "(\<exists>n. covers_rules expected rules (h # take n hs)) \<longleftrightarrow> ?rest = [] \<or> (\<exists>n. covers_rules expected ?rest (take n hs))"
      unfolding one using False by (metis empty_iff list.set(1) take0)
    then show ?thesis using False Cons.IH unfolding shift by (simp add: Let_def)
  qed (simp only: shift one, simp)
qed (simp add: covers_rules_def)

lemma runs_at_origin:
  "r \<in> set (runs_at (history_for_buffer h name) digest) \<Longrightarrow> RunLog r \<in> set h \<and> run_buffer r = Some name \<and> run_state_digest r = digest"
proof -
  assume "r \<in> set (runs_at (history_for_buffer h name) digest)"
  then have r: "r \<in> set (runs_newest_first (history_for_buffer h name))" "run_state_digest r = digest"
    by (auto simp: runs_at_def dest: set_takeWhileD)
  then have "\<exists>it\<in>set (history_for_buffer h name). run_of it = Some r"
    by (force simp: runs_newest_first_def List.map_filter_def)
  then obtain it where "it \<in> set (history_for_buffer h name)" "run_of it = Some r" by blast
  then have "it \<in> set h" "case it of RunLog r \<Rightarrow> run_buffer r = Some name | NagMarker ps \<Rightarrow> True" "it = RunLog r"
    by (auto simp: history_for_buffer_def elim: run_of.elims)
  then show ?thesis using r(2) by simp
qed

lemma complete_buffer_runs:
  assumes "buffer_is_complete h name digest expected [] rules"
  obtains hs where "\<forall>x\<in>set hs. \<exists>r. RunLog r \<in> set h \<and> run_buffer r = Some name \<and> run_state_digest r = digest \<and> run_results r = x"
    "\<forall>x\<in>set hs. \<not> unforgiven expected x" "set rules \<subseteq> (\<Union>x\<in>set hs. set (covered_by x))"
proof -
  let ?runs = "map run_results (runs_at (history_for_buffer h name) digest)"
  obtain n where n: "covers_rules expected rules (take n ([] # ?runs))"
    using assms by (auto simp: buffer_is_complete_def is_completion_history_def iterate_history_def completes_iff)
  have "set (take n ([] # ?runs)) \<subseteq> insert [] (set ?runs)" using set_take_subset [of n "[] # ?runs"] by simp
  then show thesis
    using that [of "filter (\<lambda>x. x \<in> set ?runs) (take n ([] # ?runs))"] n runs_at_origin
    by (fastforce simp: covers_rules_def covered_by_def)
qed

subsection \<open>Stamps\<close>

definition verified :: "cvl_env \<Rightarrow> cvl_event list \<Rightarrow> string \<Rightarrow> string \<Rightarrow> bool" where
  \<comment> \<open>a turn saw the buffer complete under this prover digest: the prover's results on its content cover its rules\<close>
  "verified env hist name d \<longleftrightarrow>
     (\<exists>s calls b content hs. turn_state hist s calls \<and> dget (s_buffers s) name = Some b \<and> prover_digest env s name = Inr d \<and>
        content_digest env s name = Inr content \<and> (\<forall>h\<in>set hs. prover_ran env hist name content h) \<and>
        (\<forall>h\<in>set hs. \<forall>(path, st)\<in>set h. st = VERIFIED \<or> rp_rule path \<in> set (keys (s_rule_skips s))) \<and>
        set (owned_rules b) \<subseteq> (\<Union>h\<in>set hs. set (covered_by h)))"

definition approved :: "cvl_env \<Rightarrow> cvl_event list \<Rightarrow> string \<Rightarrow> string \<Rightarrow> bool" where
  \<comment> \<open>the judge accepted the buffer, with the properties it claims, in a state with this claim digest\<close>
  "approved env hist name d \<longleftrightarrow>
     (\<exists>s calls i w rs b. turn_state hist s calls \<and> (i, w, CvlFeedback rs) \<in> set calls \<and> b \<in> set (run_targets (s_buffers s)) \<and>
        buf_name b = name \<and> claim_digest env s name = Inr d \<and>
        good (judge_verdict (w_judge w (''buffer:'' @ name) (buffer_review_text (s_buffers s) name)
          (filter (\<lambda>t. t \<in> set (properties b)) (e_titles env)) [] (own_rebuttals rs name))))"

definition skips_approved :: "cvl_env \<Rightarrow> cvl_event list \<Rightarrow> string \<Rightarrow> bool" where
  "skips_approved env hist d \<longleftrightarrow>
     (\<exists>s calls i w rs. turn_state hist s calls \<and> (i, w, CvlFeedback rs) \<in> set calls \<and>
        d = skips_review_digest (e_sha env) (s_buffers s) (skipped_pairs s) (s_versions s) \<and>
        good (judge_verdict (w_judge w skips_validation_key (combined_buffers_view (s_buffers s)) [] (skipped s)
          (own_rebuttals rs skips_validation_key))))"

lemma origins_later:
  "verified env hist name d \<Longrightarrow> verified env (e # hist) name d"
  "approved env hist name d \<Longrightarrow> approved env (e # hist) name d"
  "skips_approved env hist d \<Longrightarrow> skips_approved env (e # hist) d"
  subgoal unfolding verified_def by (elim exE conjE, intro exI conjI) (assumption | blast intro: turn_state_later prover_ran_later)+
  subgoal unfolding approved_def by (elim exE conjE, intro exI conjI) (assumption | blast intro: turn_state_later)+
  subgoal unfolding skips_approved_def by (elim exE conjE, intro exI conjI) (assumption | blast intro: turn_state_later)+
  done

definition history_ok :: "cvl_env \<Rightarrow> cvl_event list \<Rightarrow> history_item list \<Rightarrow> bool" where
  "history_ok env hist h \<longleftrightarrow>
     (\<forall>r name. RunLog r \<in> set h \<longrightarrow> run_buffer r = Some name \<longrightarrow> prover_ran env hist name (run_state_digest r) (run_results r))"

definition stamp_ok :: "cvl_env \<Rightarrow> cvl_event list \<Rightarrow> string \<Rightarrow> string \<Rightarrow> bool" where
  "stamp_ok env hist k d \<longleftrightarrow>
     (\<forall>name. k = prover_validation_key @ '':'' @ name \<longrightarrow> verified env hist name d) \<and>
     (\<forall>name. k = feedback_stamp_key name \<longrightarrow> approved env hist name d) \<and>
     (k = skips_validation_key \<longrightarrow> skips_approved env hist d)"

definition stamps_ok :: "cvl_env \<Rightarrow> cvl_event list \<Rightarrow> (string, string) dict \<Rightarrow> bool" where
  "stamps_ok env hist v \<longleftrightarrow> (\<forall>k d. (k, d) \<in> set v \<longrightarrow> stamp_ok env hist k d)"

lemma stamps_later: "stamps_ok env hist v \<Longrightarrow> stamps_ok env (e # hist) v"
  unfolding stamps_ok_def stamp_ok_def using origins_later by blast

lemma history_later: "history_ok env hist h \<Longrightarrow> history_ok env (e # hist) h"
  unfolding history_ok_def using prover_ran_later by blast

lemmas stamp_keys = prover_validation_key_def feedback_validation_key_def skips_validation_key_def feedback_stamp_key_def

lemma stamps_dset: "stamps_ok env hist v \<Longrightarrow> stamp_ok env hist k d \<Longrightarrow> stamps_ok env hist (dset k d v)"
  using set_dset_subset [of k d v] unfolding stamps_ok_def by blast

lemma set_merge_validation: "set (merge_validation v u) \<subseteq> set v \<union> set u"
proof (induction u arbitrary: v)
  case (Cons x u)
  obtain k d where x: "x = (k, d)" by (cases x)
  have "set (merge_validation (dset k d v) u) \<subseteq> insert (k, d) (set v) \<union> set u"
    using Cons.IH [of "dset k d v"] set_dset_subset [of k d v] by blast
  then show ?case by (simp add: merge_validation_def x)
qed (simp add: merge_validation_def)

lemma stamps_merge: "stamps_ok env hist v \<Longrightarrow> stamps_ok env hist u \<Longrightarrow> stamps_ok env hist (merge_validation v u)"
  using set_merge_validation [of v u] unfolding stamps_ok_def by blast

lemma foldE_keeps: "foldE f xs a = Inr b \<Longrightarrow> P a \<Longrightarrow> (\<And>x a b. x \<in> set xs \<Longrightarrow> P a \<Longrightarrow> f x a = Inr b \<Longrightarrow> P b) \<Longrightarrow> P b"
proof (induction xs arbitrary: a)
  case (Cons x xs)
  then obtain c where "f x a = Inr c" "foldE f xs c = Inr b" by (auto simp: bindE_Inr_iff)
  have "P c" by (rule Cons.prems(3) [OF _ Cons.prems(2) \<open>f x a = Inr c\<close>]) simp
  then show ?case by (rule Cons.IH [OF \<open>foldE f xs c = Inr b\<close>]) (use Cons.prems(3) in \<open>meson list.set_intros(2)\<close>)
qed simp

lemma found_runs_ok:
  assumes "turn_state hist s calls" and "(i, w, CollectResults wait) \<in> set calls" and "pool_ok env hist p"
  shows "history_ok env hist (found_by env s p i w wait)"
  unfolding history_ok_def
proof (intro allI impI)
  fix r name assume r: "RunLog r \<in> set (found_by env s p i w wait)" and name: "run_buffer r = Some name"
  obtain ds p1 where d: "drain w wait p = (ds, p1)" by (cases "drain w wait p")
  from r obtain x rep where x: "x \<in> set ds" "d_result x = Inr rep" "r = run_log_of env s i x rep"
    by (auto simp: found_by_def run_logs_of_def d List.map_filter_def split: sum.splits)
  then obtain s1 k j a where o: "submitted env hist s1 k j" "answered hist k a" "x = job_done k (job_digest j) a"
    using drain_ok [OF assms(3,1,2) d] by (auto simp: done_origin_def)
  then obtain declared where a: "a = Proved declared (Inr rep)" using x(2) by (cases k; cases a) auto
  have "k = (name, snd k)" "run_state_digest r = job_digest j" "run_results r = raw_rule_status rep"
    using o(3) a name x(3) by (cases k; simp add: run_log_of_def)+
  then show "prover_ran env hist name (run_state_digest r) (run_results r)"
    using o(1,2) a unfolding prover_ran_def by metis
qed

lemma history_ok_append [simp]: "history_ok env hist (g @ h) \<longleftrightarrow> history_ok env hist g \<and> history_ok env hist h"
  unfolding history_ok_def set_append by blast

lemma collected_stamps_ok:
  assumes turn: "turn_state hist s calls" and h: "history_ok env hist (s_history s @ found)"
    and fold: "foldE (add_prover_stamp env s found) bs [] = Inr u"
  shows "stamps_ok env hist u"
  using fold
proof (rule foldE_keeps)
  fix b acc acc' assume acc: "stamps_ok env hist acc" and add: "add_prover_stamp env s found b acc = Inr acc'"
  let ?n = "buf_name b"
  obtain content where content: "content_digest env s ?n = Inr content" using add by (auto simp: add_prover_stamp_def bindE_Inr_iff)
  then obtain b' where b': "dget (s_buffers s) ?n = Some b'"
    using add by (auto simp: add_prover_stamp_def buffer_complete_at_def split: option.splits)
  let ?complete = "buffer_is_complete (s_history s @ found) ?n content (keys (s_rule_skips s)) [] (owned_rules b')"
  show "stamps_ok env hist acc'"
  proof (cases ?complete)
    case True
    then obtain d where d: "prover_digest env s ?n = Inr d" "acc' = dset (prover_validation_key @ '':'' @ ?n) d acc"
      using add content b' by (auto simp: add_prover_stamp_def buffer_complete_at_def bindE_Inr_iff)
    obtain hs where hs: "\<forall>x\<in>set hs. \<exists>r. RunLog r \<in> set (s_history s @ found) \<and> run_buffer r = Some ?n \<and>
        run_state_digest r = content \<and> run_results r = x" "\<forall>x\<in>set hs. \<not> unforgiven (keys (s_rule_skips s)) x"
      "set (owned_rules b') \<subseteq> (\<Union>x\<in>set hs. set (covered_by x))"
      using complete_buffer_runs [OF True] by blast
    have "\<forall>x\<in>set hs. prover_ran env hist ?n content x" using hs(1) h unfolding history_ok_def by metis
    moreover have "\<forall>x\<in>set hs. \<forall>(path, st)\<in>set x. st = VERIFIED \<or> rp_rule path \<in> set (keys (s_rule_skips s))"
      using hs(2) by (fastforce simp: unforgiven_def list_ex_iff)
    ultimately have "verified env hist ?n d"
      unfolding verified_def using turn b' d(1) content hs(3) by blast
    then have "stamp_ok env hist (prover_validation_key @ '':'' @ ?n) d" by (simp add: stamp_ok_def stamp_keys)
    then show ?thesis using stamps_dset [OF acc] d(2) by simp
  qed (use add acc content b' in \<open>simp add: add_prover_stamp_def buffer_complete_at_def\<close>)
qed (simp add: stamps_ok_def)

lemma reviewed_stamps_ok:
  assumes turn: "turn_state hist s calls" "(i, w, CvlFeedback rs) \<in> set calls"
    and fold: "foldE (review_buffer env s w rs) (run_targets (s_buffers s)) ([], []) = Inr part"
    and skips: "review_skips env s w rs part = (u, blocks)"
  shows "stamps_ok env hist u"
proof -
  have "stamps_ok env hist (fst part)"
    using fold
  proof (rule foldE_keeps [where P = "\<lambda>x. stamps_ok env hist (fst x)"])
    fix b acc acc' assume b: "b \<in> set (run_targets (s_buffers s))" and acc: "stamps_ok env hist (fst acc)"
      and rev: "review_buffer env s w rs b acc = Inr acc'"
    obtain d where d: "claim_digest env s (buf_name b) = Inr d"
      using rev by (cases acc) (auto simp: review_buffer_def bindE_Inr_iff)
    have "stamp_ok env hist (feedback_stamp_key (buf_name b)) d" if "good (judge_verdict (w_judge w (''buffer:'' @ buf_name b)
        (buffer_review_text (s_buffers s) (buf_name b)) (filter (\<lambda>t. t \<in> set (properties b)) (e_titles env)) []
        (own_rebuttals rs (buf_name b))))"
    proof -
      have "approved env hist (buf_name b) d" unfolding approved_def using turn b d that by blast
      then show ?thesis by (simp add: stamp_ok_def stamp_keys)
    qed
    then show "stamps_ok env hist (fst acc')" using rev acc d
      by (cases acc) (auto simp: review_buffer_def Let_def intro: stamps_dset split: if_splits)
  qed (simp add: stamps_ok_def)
  moreover have "stamp_ok env hist skips_validation_key (skips_review_digest (e_sha env) (s_buffers s) (skipped_pairs s) (s_versions s))"
    if "good (judge_verdict (w_judge w skips_validation_key (combined_buffers_view (s_buffers s)) [] (skipped s)
      (own_rebuttals rs skips_validation_key)))"
  proof -
    have "skips_approved env hist (skips_review_digest (e_sha env) (s_buffers s) (skipped_pairs s) (s_versions s))"
      unfolding skips_approved_def using turn that by blast
    then show ?thesis by (simp add: stamp_ok_def stamp_keys)
  qed
  ultimately show ?thesis using skips
    by (cases part) (auto simp: review_skips_def Let_def intro: stamps_dset split: if_splits)
qed

subsection \<open>The session\<close>

lemma session_origins:
  assumes "cvl_session env y hist"
  shows "pool_ok env hist (y_pool y) \<and> history_ok env hist (s_history (y_state y)) \<and> stamps_ok env hist (validations (y_state y))"
  using assms
proof induction
  case (cvl_begin st c prior r stem tools)
  then show ?case by (auto simp: cvl_start_def empty_pool_def pool_ok_def history_ok_def stamps_ok_def split: prod.split)
next
  case (cvl_next y hist e y')
  note later = pool_ok_later [of env hist _ e] history_later [of env hist _ e] stamps_later [of env hist _ e]
  from cvl_next.hyps(2) show ?case
  proof cases
    case (turn calls replies p s)
    let ?s0 = "with_message calls (y_state y)" and ?Q = "pool_ok env (e # hist)"
    let ?P = "\<lambda>s. history_ok env (e # hist) (s_history s) \<and> stamps_ok env (e # hist) (validations s)"
    have at: "turn_state (e # hist) ?s0 calls" using turn(1) by (auto simp: turn_state_def)
    have start: "?Q (y_pool y)" "?P ?s0" using cvl_next.IH later by (simp_all add: with_message_def)
    have tool: "?Q q'" if "c \<in> set calls" "?Q q" "cvl_tool env (y_store y) ?s0 q c = Inr (r, q')" for c q r q'
      using cvl_tool_pool_ok [OF at that] .
    have "?Q p" using run_calls_seen [where Q = ?Q, OF turn(4) start(1)] tool by blast
    moreover have "?P s"
    proof (rule cvl_turn_invariant [where Q = ?Q and P = ?P, OF turn(4,5) start])
      fix q c ws and s1 :: cvl_state
      assume c: "c \<in> set calls" and q: "?Q q" and e: "cvl_effect env ?s0 (y_store y, q, c) ws" and s1: "?P s1"
      from e c q s1 show "?P (fold (apply_write cvl_own) ws s1)"
      proof cases
        case (collected i w wait new_stamps marks reminders)
        have found: "history_ok env (e # hist) (found_by env ?s0 q i w wait)"
          using found_runs_ok [OF at _ q] c collected(1) by simp
        moreover have "history_ok env (e # hist) marks" using collected(4) by (auto simp: history_ok_def only_nags_def list_all_iff)
        moreover have "stamps_ok env (e # hist) new_stamps"
          by (rule collected_stamps_ok [OF at _ collected(3)]) (use start found in simp)
        ultimately show ?thesis using collected s1 by (auto simp: merge_prover_history_def stamps_merge)
      next
        case (reviewed w rs part new_stamps blocks i)
        have "stamps_ok env (e # hist) new_stamps"
          by (rule reviewed_stamps_ok [OF at _ reviewed(3,4)]) (use c reviewed(1) in simp)
        then show ?thesis using reviewed s1 by (simp add: stamps_merge)
      qed auto
    qed (use tool in blast)
    ultimately show ?thesis using turn by simp
  next
    case (job_end k j a)
    have "pool_ok env (e # hist) (job_ends (k, a) (y_pool y))"
      by (rule job_ends_ok) (use cvl_next.IH later job_end in \<open>auto simp: answered_def\<close>)
    then show ?thesis using job_end cvl_next.IH later by simp
  qed (use cvl_next.IH later in \<open>auto simp: author_monitor_def cvl_wrap_up_def drain_reminders_def\<close>)
qed

end
