(* ===== verification/Cvl_Published.thy ===== *)
theory Cvl_Published
  imports Cvl_Origins
begin

text \<open>
  What a CVL specification that is returned as a full result has been through: every run target was verified by the prover
  and approved by the judge under the digests the publishing call computed.
\<close>

subsection \<open>The gate\<close>

definition gates_fixed :: "cvl_state \<Rightarrow> bool" where
  "gates_fixed s \<longleftrightarrow> required_validations s = (if s_curtailed s then [] else [feedback_validation_key, prover_validation_key])"

lemma session_gates_fixed: "cvl_session env y hist \<Longrightarrow> gates_fixed (y_state y)"
proof -
  assume s: "cvl_session env y hist"
  have "edit_store_ok (e_sha env) (y_store y) \<and> gates_fixed (y_state y)"
  proof (rule cvl_state_invariant [OF s, where P = gates_fixed])
    show "gates_fixed (fold (apply_write cvl_own) ws s1)" if "cvl_effect env s (st, q, c) ws" "gates_fixed s1" for s st q c ws s1
      using that by cases (auto simp: gates_fixed_def)
  qed (auto simp: gates_fixed_def cvl_start_def author_monitor_def cvl_wrap_up_def drain_reminders_def split: prod.split)
  then show ?thesis by simp
qed

definition claimed_or_skipped :: "cvl_env \<Rightarrow> cvl_state \<Rightarrow> string \<Rightarrow> bool" where
  "claimed_or_skipped env s t \<longleftrightarrow>
     t \<in> property_title ` set (skipped s) \<or> (\<exists>b\<in>set (run_targets (s_buffers s)). t \<in> set (properties b))"

lemma coverage_claims_every_title:
  assumes "validate_coverage bs titles skips = None" and "t \<in> set titles"
  shows "t \<in> set skips \<or> (\<exists>b\<in>set (run_targets bs). t \<in> set (properties b))"
proof -
  obtain seen dup where sd: "scan_duplicates (concat (map properties (run_targets bs))) [] [] = (seen, dup)" by fastforce
  have seen: "set seen = set (concat (map properties (run_targets bs)))" using scan_duplicates_spec [OF sd] by simp
  have "set_minus (set_minus titles skips) seen = []"
    using assms(1) by (auto simp: validate_coverage_def sd Let_def split: if_splits)
  then show ?thesis using assms(2) seen by (auto simp: set_minus_def filter_empty_conv)
qed

lemma publish_complaint_None:
  assumes "publish_complaint env s = Inr None" and "buffers_ok (s_buffers s)"
  shows "\<forall>t\<in>set (e_titles env). claimed_or_skipped env s t"
    and "b \<in> set (run_targets (s_buffers s)) \<Longrightarrow> key \<in> set (required_validations s) \<Longrightarrow>
      \<exists>d. stamp_digest (e_sha env) (e_md5 env) (s_buffers s) (gate_of s) key (buf_name b) = Inr d \<and>
        dget (validations s) (key @ '':'' @ buf_name b) = Some d"
    and "skipped s \<noteq> [] \<Longrightarrow>
      dget (validations s) skips_validation_key = Some (skips_review_digest (e_sha env) (s_buffers s) (skipped_pairs s) (s_versions s))"
proof -
  obtain err where err: "check_buffer_completion (e_sha env) (e_md5 env) (s_buffers s) (gate_of s) = Inr err"
    using assms(1) by (auto simp: publish_complaint_def bindE_Inr_iff)
  have none: "err = None" using assms(1) by (cases err) (simp_all add: publish_complaint_def err)
  have cov: "validate_coverage (s_buffers s) (e_titles env) (map property_title (skipped s)) = None"
    using assms(1) by (auto simp: publish_complaint_def err none Let_def split: option.splits)
  show "\<forall>t\<in>set (e_titles env). claimed_or_skipped env s t"
    using coverage_claims_every_title [OF cov] by (auto simp: claimed_or_skipped_def)
  note gate = conjunct2 [OF buffer_gate [OF assms(2), of "e_sha env" "e_md5 env" "gate_of s"]]
  from err none gate show "b \<in> set (run_targets (s_buffers s)) \<Longrightarrow> key \<in> set (required_validations s) \<Longrightarrow>
      \<exists>d. stamp_digest (e_sha env) (e_md5 env) (s_buffers s) (gate_of s) key (buf_name b) = Inr d \<and>
        dget (validations s) (key @ '':'' @ buf_name b) = Some d"
    by (simp add: gate_of_def)
  from err none gate show "skipped s \<noteq> [] \<Longrightarrow>
      dget (validations s) skips_validation_key = Some (skips_review_digest (e_sha env) (s_buffers s) (skipped_pairs s) (s_versions s))"
    by (simp add: gate_of_def skipped_pairs_def)
qed

subsection \<open>The publishing turn\<close>

definition publishing :: "cvl_env \<Rightarrow> cvl_event list \<Rightarrow> cvl_system \<Rightarrow> cvl_state \<Rightarrow> (string \<times> call_world \<times> cvl_call) list \<Rightarrow> bool" where
  \<comment> \<open>the turn saw the state, a call of it was accepted, and the session ended with what the turn wrote\<close>
  "publishing env hist y s0 calls \<longleftrightarrow>
     turn_state hist s0 calls \<and> publish_complaint env s0 = Inr None \<and> (\<exists>i w t. (i, w, PublishCvl t) \<in> set calls) \<and>
     stamps_ok env hist (validations s0) \<and> buffers_ok (s_buffers s0) \<and> gates_fixed s0 \<and>
     s_curtailed (y_state y) = s_curtailed s0 \<and>
     (\<forall>i w t. calls = [(i, w, PublishCvl t)] \<longrightarrow> y_state y = s0\<lparr>closing := Some t, failed := Some False\<rparr>)"

lemma publishing_later: "publishing env hist y s0 calls \<Longrightarrow> y_state y' = y_state y \<Longrightarrow> publishing env (e # hist) y' s0 calls"
  using turn_state_later stamps_later unfolding publishing_def by metis

lemma publish_alone_state:
  assumes "run_calls env st s p [(i, w, PublishCvl t)] = Inr (replies, p')" and "publish_complaint env s = Inr None"
    and "merge_turn cvl_channel cvl_own replies s = Some s'"
  shows "s' = s\<lparr>closing := Some t, failed := Some False\<rparr>"
proof -
  have "replies = [Command ''Accepted'' [ResultWrite t, FailedWrite False]]"
    using assms(1,2) by (simp add: publish_cvl_def faulty_def)
  then show ?thesis using assms(3) by (auto simp: merge_turn_def Let_def split: if_splits)
qed

lemma turn_ending:
  assumes calls: "run_calls env st s0 p calls = Inr (replies, p')" and merged: "merge_turn cvl_channel cvl_own replies s0 = Some s"
    and start: "closing s0 = None"
  shows "s_curtailed s = s_curtailed s0 \<and> (closing s = None \<or> failed s = Some True \<or>
    failed s = Some False \<and> publish_complaint env s0 = Inr None \<and> (\<exists>i w t. (i, w, PublishCvl t) \<in> set calls))"
    (is "?P s")
proof (rule cvl_turn_invariant [where Q = "\<lambda>q. True" and P = ?P, OF calls merged])
  show "?P s0" using start by simp
  fix q c ws and s1 :: cvl_state
  assume "c \<in> set calls" "cvl_effect env s0 (st, q, c) ws" "?P s1"
  from this(2,1,3) show "?P (fold (apply_write cvl_own) ws s1)"
    by cases auto
qed simp_all

lemma cvl_ending:
  assumes "cvl_session env y hist" and "closing (y_state y) \<noteq> None"
  shows "failed (y_state y) = Some True \<or> failed (y_state y) = Some False \<and> (\<exists>s0 calls. publishing env hist y s0 calls)"
  using assms
proof induction
  case (cvl_begin st c prior r stem tools)
  then show ?case by (auto simp: cvl_start_def split: prod.splits)
next
  case (cvl_next y hist e y')
  from cvl_next.hyps(2) show ?case
  proof cases
    case (turn calls replies p s)
    let ?s0 = "with_message calls (y_state y)"
    have y': "y_state y' = s" using turn(2) by simp
    have "closing ?s0 = None" using turn(3) by (simp add: with_message_def)
    note ends = turn_ending [OF turn(4,5) this]
    have prior: "stamps_ok env (e # hist) (validations ?s0)" "buffers_ok (s_buffers ?s0)" "gates_fixed ?s0"
      using session_origins [OF cvl_next.hyps(1)] session_buffers_ok [OF cvl_next.hyps(1)] session_gates_fixed [OF cvl_next.hyps(1)]
        stamps_later by (simp_all add: with_message_def gates_fixed_def)
    have at: "turn_state (e # hist) ?s0 calls" using turn(1) by (auto simp: turn_state_def)
    show ?thesis
    proof (cases "failed s = Some True")
      case False
      then have pub: "failed s = Some False" "publish_complaint env ?s0 = Inr None" "\<exists>i w t. (i, w, PublishCvl t) \<in> set calls"
        using ends cvl_next.prems y' by auto
      have "s = ?s0\<lparr>closing := Some t, failed := Some False\<rparr>" if "calls = [(i, w, PublishCvl t)]" for i w t
        by (rule publish_alone_state [OF turn(4) [unfolded that] pub(2) [unfolded that] turn(5) [unfolded that], folded that])
      then have "publishing env (e # hist) y' ?s0 calls"
        unfolding publishing_def y' using at pub prior ends by blast
      then show ?thesis using pub(1) y' by blast
    qed (simp add: y')
  next
    case (job_end k j a)
    then have "y_state y' = y_state y" by simp
    then show ?thesis using cvl_next.IH cvl_next.prems publishing_later [OF _ \<open>y_state y' = y_state y\<close>] by metis
  next
    case (committed ed)
    then have "y_state y' = y_state y" by simp
    then show ?thesis using cvl_next.IH cvl_next.prems publishing_later [OF _ \<open>y_state y' = y_state y\<close>] by metis
  next
    case (monitored alerted)
    then show ?thesis using cvl_next.prems by (auto simp: author_monitor_def cvl_wrap_up_def drain_reminders_def split: if_splits)
  next
    case summarized
    then show ?thesis using cvl_next.prems by simp
  qed
qed

subsection \<open>What is delivered\<close>

definition checked_target :: "cvl_env \<Rightarrow> cvl_event list \<Rightarrow> cvl_state \<Rightarrow> named_buffer \<Rightarrow> bool" where
  "checked_target env hist s b \<longleftrightarrow>
     (\<exists>d c. prover_digest env s (buf_name b) = Inr d \<and> verified env hist (buf_name b) d \<and>
        claim_digest env s (buf_name b) = Inr c \<and> approved env hist (buf_name b) c)"

definition skips_checked :: "cvl_env \<Rightarrow> cvl_event list \<Rightarrow> cvl_state \<Rightarrow> bool" where
  "skips_checked env hist s \<longleftrightarrow> skipped s = [] \<or>
     skips_approved env hist (skips_review_digest (e_sha env) (s_buffers s) (skipped_pairs s) (s_versions s))"

definition delivers :: "string \<Rightarrow> cvl_state \<Rightarrow> generated_cvl \<Rightarrow> bool" where
  \<comment> \<open>the result has the texts, the mapping, the source edits, the configuration and the skips of the state\<close>
  "delivers slug s g \<longleftrightarrow>
     gc_spec_files g = map (\<lambda>(n, b). (n, cvl b)) (s_buffers s) \<and> gc_property_rules g = mapping_of slug s \<and>
     gc_vfs g = s_vfs s \<and> gc_config g = s_config s \<and> gc_skipped g = skipped s"

lemma full_result:
  assumes "author_outcome env slug (AuthorEnded y) = GeneratedCvl g"
  shows "closing (y_state y) \<noteq> None" "failed (y_state y) = Some False" "\<not> s_curtailed (y_state y)"
    "\<exists>t edits. g = generated_cvl_of env slug (y_state y) t edits"
  using assms by (auto simp: Let_def split: option.splits if_splits bool.splits)

lemma publishing_checks:
  assumes pub: "publishing env hist y s0 calls" and full: "\<not> s_curtailed (y_state y)"
  shows "list_all (claimed_or_skipped env s0) (e_titles env)" "list_all (checked_target env hist s0) (run_targets (s_buffers s0))"
    "skips_checked env hist s0"
proof -
  have accepted: "publish_complaint env s0 = Inr None" and ok: "buffers_ok (s_buffers s0)"
    and stamps: "stamps_ok env hist (validations s0)" and req: "required_validations s0 = [feedback_validation_key, prover_validation_key]"
    using pub full by (auto simp: publishing_def gates_fixed_def)
  note gate = publish_complaint_None [OF accepted ok]
  have stamped: "stamp_ok env hist k d" if "dget (validations s0) k = Some d" for k d
    using stamps dget_Some_in [OF that] by (simp add: stamps_ok_def)
  show "list_all (claimed_or_skipped env s0) (e_titles env)" using gate(1) by (simp add: list_all_iff)
  show "list_all (checked_target env hist s0) (run_targets (s_buffers s0))"
    unfolding list_all_iff
  proof
    fix b assume b: "b \<in> set (run_targets (s_buffers s0))"
    let ?n = "buf_name b"
    obtain d where "stamp_digest (e_sha env) (e_md5 env) (s_buffers s0) (gate_of s0) prover_validation_key ?n = Inr d"
      "dget (validations s0) (prover_validation_key @ '':'' @ ?n) = Some d"
      using gate(2) [OF b, of prover_validation_key] req by auto
    then have d: "prover_digest env s0 ?n = Inr d" "verified env hist ?n d"
      using stamped by (auto simp: stamp_digest_def prover_digest_def gate_of_def stamp_ok_def)
    obtain c where "stamp_digest (e_sha env) (e_md5 env) (s_buffers s0) (gate_of s0) feedback_validation_key ?n = Inr c"
      "dget (validations s0) (feedback_stamp_key ?n) = Some c"
      using gate(2) [OF b, of feedback_validation_key] req by (auto simp: feedback_stamp_key_def)
    then have "claim_digest env s0 ?n = Inr c" "approved env hist ?n c"
      using stamped by (auto simp: stamp_digest_def claim_digest_def gate_of_def stamp_ok_def prover_validation_key_def feedback_validation_key_def)
    with d show "checked_target env hist s0 b" unfolding checked_target_def by blast
  qed
  show "skips_checked env hist s0"
    using gate(3) stamped by (auto simp: skips_checked_def stamp_ok_def)
qed

lemma published_alone_delivers:
  assumes "publishing env hist y s0 calls" and "calls = [(i, w, PublishCvl t)]" and "g = generated_cvl_of env slug (y_state y) c edits"
  shows "delivers slug s0 g"
proof -
  have "y_state y = s0\<lparr>closing := Some t, failed := Some False\<rparr>" using assms(1,2) unfolding publishing_def by blast
  then show ?thesis by (simp add: assms(3) delivers_def generated_cvl_of_def Let_def mapping_of_def)
qed


end
