(* ===== verification/Cvl_Scripts.thy ===== *)
theory Cvl_Scripts
  imports Cvl_Published
begin

text \<open>
  Sample sessions of the CVL author, run by evaluation: a specification that is verified, reviewed and published, and sessions
  in which the gate accepts more than its documentation says.
\<close>

subsection \<open>Scripts\<close>

datatype script_event =
    DoTurn "(string \<times> call_world \<times> cvl_call) list" | DoJob job_key job_answer | DoCommit stored_edit | DoMonitor bool | DoSummary

fun run_script :: "cvl_env \<Rightarrow> cvl_system \<Rightarrow> cvl_event list \<Rightarrow> script_event list \<Rightarrow> (cvl_system \<times> cvl_event list) option" where
  "run_script env y hist [] = Some (y, hist)"
| "run_script env y hist (DoTurn calls # es) =
     (if closing (y_state y) \<noteq> None then None
      else case run_calls env (y_store y) (with_message calls (y_state y)) (y_pool y) calls of
        Inl e \<Rightarrow> None
      | Inr (replies, p) \<Rightarrow>
          (case merge_turn cvl_channel cvl_own replies (with_message calls (y_state y)) of
             None \<Rightarrow> None
           | Some s \<Rightarrow> run_script env (y\<lparr>y_state := s, y_pool := p\<rparr>) (CvlTurn y calls # hist) es))"
| "run_script env y hist (DoJob k a # es) =
     (case dget (p_jobs (y_pool y)) k of
        None \<Rightarrow> None
      | Some j \<Rightarrow>
          if job_finished j then None
          else run_script env (y\<lparr>y_pool := job_ends (k, a) (y_pool y)\<rparr>) (JobEnds y k j a # hist) es)"
| "run_script env y hist (DoCommit e # es) =
     run_script env (y\<lparr>y_store := commit_edit (e_sha env) e (y_store y)\<rparr>) (EditCommitted y e # hist) es"
| "run_script env y hist (DoMonitor b # es) =
     (if closing (y_state y) \<noteq> None then None
      else run_script env (y\<lparr>y_state := author_monitor b (y_state y)\<rparr>) (Monitored y b # hist) es)"
| "run_script env y hist (DoSummary # es) =
     (if closing (y_state y) \<noteq> None then None
      else run_script env (y\<lparr>y_state := (y_state y)\<lparr>s_messages := []\<rparr>\<rparr>) (Summarized y # hist) es)"

lemma run_script_first_turn:
  assumes "run_script env y hist (DoTurn calls # es) = Some (y', hist')"
  obtains y1 where "cvl_step env y (CvlTurn y calls) y1" "run_script env y1 (CvlTurn y calls # hist) es = Some (y', hist')"
proof -
  obtain replies p s where "closing (y_state y) = None"
    "run_calls env (y_store y) (with_message calls (y_state y)) (y_pool y) calls = Inr (replies, p)"
    "merge_turn cvl_channel cvl_own replies (with_message calls (y_state y)) = Some s"
    and rest: "run_script env (y\<lparr>y_state := s, y_pool := p\<rparr>) (CvlTurn y calls # hist) es = Some (y', hist')"
    using assms by (auto split: if_splits sum.splits option.splits)
  then have "cvl_step env y (CvlTurn y calls) (y\<lparr>y_state := s, y_pool := p\<rparr>)" by (intro turn)
  then show thesis using that rest by blast
qed

lemma run_script_turn: "run_script env y hist [DoTurn calls] = Some (y', hist') \<Longrightarrow> cvl_step env y (CvlTurn y calls) y'"
  by (erule run_script_first_turn) simp

lemma run_script_session:
  "cvl_session env y hist \<Longrightarrow> run_script env y hist es = Some (y', hist') \<Longrightarrow> cvl_session env y' hist'"
proof (induction es arbitrary: y hist)
  case (Cons e es)
  then show ?case
  proof (cases e)
    case (DoTurn calls)
    obtain y1 where "cvl_step env y (CvlTurn y calls) y1" and rest: "run_script env y1 (CvlTurn y calls # hist) es = Some (y', hist')"
      using Cons.prems(2) unfolding DoTurn by (rule run_script_first_turn)
    from Cons.IH [OF cvl_next [OF Cons.prems(1) this(1)] rest] show ?thesis .
  next
    case (DoJob k a)
    obtain j where "dget (p_jobs (y_pool y)) k = Some j" "\<not> job_finished j"
      and rest: "run_script env (y\<lparr>y_pool := job_ends (k, a) (y_pool y)\<rparr>) (JobEnds y k j a # hist) es = Some (y', hist')"
      using Cons.prems(2) DoJob by (auto split: if_splits option.splits)
    then have "cvl_step env y (JobEnds y k j a) (y\<lparr>y_pool := job_ends (k, a) (y_pool y)\<rparr>)" by (intro job_end)
    from Cons.IH [OF cvl_next [OF Cons.prems(1) this] rest] show ?thesis .
  next
    case (DoCommit ed)
    then show ?thesis using Cons.prems cvl_next [OF Cons.prems(1) committed] Cons.IH by auto
  next
    case (DoMonitor b)
    then show ?thesis using Cons.prems cvl_next [OF Cons.prems(1) monitored] Cons.IH by (auto split: if_splits)
  next
    case DoSummary
    then show ?thesis using Cons.prems cvl_next [OF Cons.prems(1) summarized] Cons.IH by (auto split: if_splits)
  qed
qed simp

subsection \<open>A project\<close>

definition demo_env :: cvl_env where
  "demo_env = \<lparr>e_sha = (\<lambda>t. ''h'' @ t), e_md5 = (\<lambda>t. t), e_main = ''Pool'', e_titles = [''p'', ''q''], e_focus = None, e_cap = 6,
     e_syntax = (\<lambda>t. None), e_ast = (\<lambda>t. None), e_dump = (\<lambda>c. []), e_differ = (\<lambda>a b c d. []), e_base = (\<lambda>f. None)\<rparr>"

definition demo_world :: call_world where
  "demo_world = \<lparr>w_judge = (\<lambda>n t c sk rs. JudgeResult \<lparr>good = True, feedback = []\<rparr>), w_arrivals = [], w_pressured = False\<rparr>"

definition demo_start :: cvl_system where
  "demo_start = \<lparr>y_state = cvl_start ''autospec_pool'' [] ([], [], []), y_pool = empty_pool, y_store = []\<rparr>"

definition demo_report :: "string list \<Rightarrow> prover_report" where
  \<comment> \<open>every rule was verified\<close>
  "demo_report rules = \<lparr>raw_rule_status = map (\<lambda>r. (rule_path_of r, VERIFIED)) rules,
     result_str = [], link = ''job1'', certora_run_stdout = [], alerts = AlertReport [], incomplete = []\<rparr>"

definition say :: "cvl_call \<Rightarrow> script_event" where
  "say c = DoTurn [(''1'', demo_world, c)]"

definition demo :: "script_event list \<Rightarrow> (cvl_system \<times> cvl_event list) option" where
  "demo es = run_script demo_env demo_start [] es"

definition demo_result :: "script_event list \<Rightarrow> author_result option" where
  "demo_result es = map_option (\<lambda>(y, hist). author_outcome demo_env ''pool'' (AuthorEnded y)) (demo es)"

definition whole :: "(string, string list) dict" where
  "whole = [(''p'', [''r1'']), (''q'', [''r2''])]"

definition proved_spec :: "script_event list" where
  "proved_spec =
     [say (PutBuffer ''m'' ''rules'' whole True), say (SubmitBuffer ''m'' None None),
      DoJob (''m'', InheritRules) (Proved [''r1'', ''r2''] (Inr (demo_report [''r1'', ''r2'']))),
      say (CollectResults False), say (CvlFeedback []), say (PublishCvl ''done'')]"

definition delivered_cvl :: "(string \<times> string) list \<Rightarrow> snapshot \<Rightarrow> applied_edit list \<Rightarrow> generated_cvl" where
  "delivered_cvl links vfs edits = \<lparr>gc_commentary = ''done'', gc_skipped = [],
     gc_property_rules = [\<lparr>pr_title = ''p'', pr_rules = [''r1''], pr_spec_file = ''pool/m.spec''\<rparr>,
       \<lparr>pr_title = ''q'', pr_rules = [''r2''], pr_spec_file = ''pool/m.spec''\<rparr>],
     gc_config = [], gc_final_link = Some ''job1'', gc_run_link_specs = links, gc_vfs = vfs, gc_applied_edits = edits, gc_covering_links = [],
     gc_spec_files = [(''m'', ''rules'')], gc_entrypoint_specs = [''m'']\<rparr>"

lemma proved_spec_result: "demo_result proved_spec = Some (GeneratedCvl (delivered_cvl [(''job1'', ''pool/m.spec'')] [] []))"
  by code_simp

lemma demo_session: "demo es = Some (y, hist) \<Longrightarrow> cvl_session demo_env y hist"
proof -
  have "cvl_session demo_env demo_start []"
    using cvl_begin [of demo_env "[]" "[]" None "([], [], [])" "''autospec_pool''" "[]"]
    by (simp add: demo_start_def edit_store_ok_def restored_def)
  then show "demo es = Some (y, hist) \<Longrightarrow> cvl_session demo_env y hist" using run_script_session by (simp add: demo_def)
qed


subsection \<open>Where the gate is looser than it reads\<close>

definition recorded_results :: "script_event list \<Rightarrow> (string \<times> status_code) list option" where
  \<comment> \<open>what the prover ever answered in the session\<close>
  "recorded_results es = map_option (\<lambda>(y, hist).
     concat (List.map_filter (\<lambda>it. map_option (\<lambda>r. map (\<lambda>(p, st). (rp_rule p, st)) (run_results r)) (run_of it)) (s_history (y_state y)))) (demo es)"

text \<open>
  The prover digest leaves out what a buffer claims. A buffer that owns one of its two rules, and is run for this rule alone,
  earns its stamp; mapping the other rule afterwards keeps the stamp, so a rule the prover never ran is published.
\<close>

theorem remapped_rule_is_published_unproved:
  "let es = [say (PutBuffer ''m'' ''rules'' [(''p'', [''r1''])] True), say (SubmitBuffer ''m'' (Some [''r1'']) None),
        DoJob (''m'', SelectRules [''r1'']) (Proved [''r1'', ''r2''] (Inr (demo_report [''r1'']))),
        say (CollectResults False), say (RemapBuffer ''m'' whole), say (CvlFeedback []), say (PublishCvl ''done'')]
   in demo_result es = Some (GeneratedCvl (delivered_cvl [(''job1'', ''pool/m.spec'')] [] [])) \<and>
      recorded_results es = Some [(''r1'', VERIFIED)]"
  by code_simp

text \<open>
  Nothing to prove counts as proved: a run target without any mapped rule is complete without a run, so that with every property
  skipped a text that no prover has compiled is delivered as a verified entry point.
\<close>

theorem unmapped_buffer_needs_no_run:
  "let es = [say (PutBuffer ''m'' ''rules'' [] True), say (SkipTitle ''p'' ''hard''), say (SkipTitle ''q'' ''hard''),
        say (CollectResults False), say (CvlFeedback []), say (PublishCvl ''done'')]
   in map_option (\<lambda>r. case r of GeneratedCvl g \<Rightarrow> gc_entrypoint_specs g | _ \<Rightarrow> []) (demo_result es) = Some [''m''] \<and>
      recorded_results es = Some [] \<and> map_option (\<lambda>(y, hist). p_counts (y_pool y)) (demo es) = Some []"
  by code_simp

text \<open>
  The cap on run targets is checked where a name is new. A shared buffer put again as a run target passes it.
\<close>

theorem shared_buffer_becomes_a_target_beyond_the_cap:
  assumes "dget bs name = None" and "\<not> escapes_component_dir name" and "syntax t = None"
  shows "\<exists>b1 b2 n1 n2. put_buffer syntax cap bs name t [] False = Command n1 [OwnWrite (name, Some b1)] \<and>
    put_buffer syntax cap (merge_buffers bs [(name, Some b1)]) name t rules True = Command n2 [OwnWrite (name, Some b2)] \<and> is_run_target b2"
  using assms by (simp add: put_buffer_def accept_buffer_def Let_def kept_mapping_def merge_buffers_def dget_dset derive_path_from_name_def)

subsection \<open>Edits with one identity\<close>

text \<open>What the digests read of a state.\<close>

definition same_for_digests :: "cvl_state \<Rightarrow> cvl_state \<Rightarrow> bool" where
  "same_for_digests s s' \<longleftrightarrow> s_buffers s' = s_buffers s \<and> s_versions s' = s_versions s \<and> s_config s' = s_config s \<and>
     s_rule_skips s' = s_rule_skips s \<and> skipped s' = skipped s \<and> validations s' = validations s \<and>
     required_validations s' = required_validations s \<and> s_history s' = s_history s"

lemma same_publish:
  assumes "same_for_digests s s'"
  shows "publish_complaint env s' = publish_complaint env s"
proof -
  have eqs: "s_buffers s' = s_buffers s" "skipped s' = skipped s" "s_rule_skips s' = s_rule_skips s"
    using assms by (simp_all add: same_for_digests_def)
  have gate: "gate_of s' = gate_of s" using assms by (simp add: same_for_digests_def gate_of_def skipped_pairs_def)
  have declared: "declared_by_buffer env s' = declared_by_buffer env s"
    using assms by (simp add: same_for_digests_def declared_by_buffer_def content_digest_def)
  have cited: "cited_by_buffer env s' = cited_by_buffer env s" by (simp add: cited_by_buffer_def eqs)
  show ?thesis by (simp only: publish_complaint_def eqs gate declared cited)
qed

lemma answered_Cons:
  "answered (e # hist) k a \<longleftrightarrow> answered hist k a \<or>
     (case e of JobEnds y k' j a' \<Rightarrow> k' = k \<and> a' = a | CvlTurn y calls \<Rightarrow> \<exists>(i, w, c)\<in>set calls. (k, a) \<in> set (w_arrivals w) | _ \<Rightarrow> False)"
proof (cases e)
  case (CvlTurn y calls)
  then show ?thesis unfolding answered_def turn_state_def by fastforce
qed (auto simp: answered_def turn_state_def)

lemma single_call_turn:
  assumes "cvl_session env y hist" and "closing (y_state y) = None"
    and "cvl_tool env (y_store y) (with_message [c] (y_state y)) (y_pool y) c = Inr (Command t ws, p)"
    and "distinct (List.map_filter (single_channel cvl_channel) ws)"
  shows "cvl_session env (y\<lparr>y_state := fold (apply_write cvl_own) ws (with_message [c] (y_state y)), y_pool := p\<rparr>) (CvlTurn y [c] # hist)"
proof -
  have "cvl_step env y (CvlTurn y [c]) (y\<lparr>y_state := fold (apply_write cvl_own) ws (with_message [c] (y_state y)), y_pool := p\<rparr>)"
    by (rule turn [of y env "[c]" "[Command t ws]"]) (use assms in \<open>simp_all add: merge_turn_def\<close>)
  then show ?thesis by (rule cvl_next [OF assms(1)])
qed

lemma replaced_edit_session:
  fixes e :: stored_edit
  assumes ses: "cvl_session env y hist" and open_state: "closing (y_state y) = None" and versions: "s_versions (y_state y) = [i]"
    and i: "i = deterministic_hash (e_sha env) (ed_vfs e)" "i \<noteq> wipe_history"
  obtains y' new where "cvl_session env y' (new @ hist)" "closing (y_state y') = None" "s_vfs (y_state y') = ed_vfs e"
    "same_for_digests (y_state y) (y_state y')"
    "\<And>k a. answered (new @ hist) k a \<longleftrightarrow> answered hist k a"
proof -
  let ?c1 = "([], demo_world, RevertToEdit None)" and ?c2 = "([], demo_world, ApplyEdit i)"
  let ?s1 = "with_message [?c1] (y_state y)\<lparr>s_vfs := [], s_versions := []\<rparr>"
  let ?y1 = "y\<lparr>y_state := ?s1, y_pool := y_pool y\<rparr>"
  have "cvl_session env ?y1 (CvlTurn y [?c1] # hist)"
    using single_call_turn [OF ses open_state, of ?c1 "''Reverted to the unedited project directory''"
        "[OwnWrite (VfsWrite []), OwnWrite (VersionWrite [wipe_history])]" "y_pool y"] versions
    by (simp add: revert_to_edit_def with_message_def merge_version_history_def List.map_filter_simps)
  then have two: "cvl_session env (?y1\<lparr>y_store := commit_edit (e_sha env) e (y_store y)\<rparr>) (EditCommitted ?y1 e # CvlTurn y [?c1] # hist)"
    using cvl_next committed [of env ?y1 e] by fastforce
  let ?y2 = "?y1\<lparr>y_store := commit_edit (e_sha env) e (y_store y)\<rparr>"
  have read: "read_edit (y_store ?y2) i = Some e" by (simp add: read_edit_def commit_edit_def i(1) dget_dset)
  let ?s3 = "with_message [?c2] (y_state ?y2)\<lparr>s_vfs := ed_vfs e, s_versions := [i]\<rparr>"
  have "cvl_session env (?y2\<lparr>y_state := ?s3, y_pool := y_pool y\<rparr>) (CvlTurn ?y2 [?c2] # EditCommitted ?y1 e # CvlTurn y [?c1] # hist)"
    using single_call_turn [OF two, of ?c2 "''Edit applied''" "[OwnWrite (VfsWrite (ed_vfs e)), OwnWrite (VersionWrite [i])]" "y_pool y"]
      open_state read i(2)
    by (simp add: apply_edit_def with_message_def merge_version_history_def List.map_filter_simps)
  moreover have "answered ([CvlTurn ?y2 [?c2], EditCommitted ?y1 e, CvlTurn y [?c1]] @ hist) k a \<longleftrightarrow> answered hist k a" for k a
    by (simp add: answered_Cons demo_world_def)
  ultimately show thesis
    using that [of "?y2\<lparr>y_state := ?s3, y_pool := y_pool y\<rparr>" "[CvlTurn ?y2 [?c2], EditCommitted ?y1 e, CvlTurn y [?c1]]"] open_state versions
    by (simp add: same_for_digests_def with_message_def)
qed

text \<open>
  C28: The identity of a source edit is a hash of the texts of its files, in the order of their paths but without the paths. So in any session
  with one edit applied, and for any snapshot with the same texts in path order, under whatever paths, the author can revert the edit,
  and apply the other snapshot once it is committed: the working copy is then the other snapshot, the applied edit has the same id,
  every digest of every buffer and every stamp is what it was, publishing is answered as before, and the prover has not
  answered anything in between. (No hash is the marker that wipes the history.)
\<close>

definition same_texts :: "snapshot \<Rightarrow> snapshot \<Rightarrow> bool" where
  "same_texts v v' \<longleftrightarrow> map snd (sort_key fst v) = map snd (sort_key fst v')"

lemma same_texts_same_id: "same_texts v v' \<Longrightarrow> deterministic_hash sha v = deterministic_hash sha v'"
proof -
  have "hashed_bytes v = concat (map (\<lambda>t. t @ [CHR 0x00]) (map snd (sort_key fst v)))" for v
    by (simp add: hashed_bytes_def comp_def case_prod_unfold)
  then show "same_texts v v' \<Longrightarrow> ?thesis" by (simp add: deterministic_hash_def same_texts_def del: map_map)
qed

theorem moved_edit_keeps_every_stamp:
  fixes e :: stored_edit
  assumes "cvl_session env y hist" and "\<And>t. e_sha env t \<noteq> wipe_history" and "closing (y_state y) = None"
    and "s_versions (y_state y) = [i]" and "same_texts (ed_vfs e) (s_vfs (y_state y))"
  shows "\<exists>y' new. cvl_session env y' (new @ hist) \<and> s_vfs (y_state y') = ed_vfs e \<and> s_versions (y_state y') = [i] \<and>
    (\<forall>n. content_digest env (y_state y') n = content_digest env (y_state y) n \<and>
      claim_digest env (y_state y') n = claim_digest env (y_state y) n \<and>
      prover_digest env (y_state y') n = prover_digest env (y_state y) n) \<and>
    validations (y_state y') = validations (y_state y) \<and>
    publish_complaint env (y_state y') = publish_complaint env (y_state y) \<and>
    (\<forall>k a. answered (new @ hist) k a = answered hist k a)"
proof -
  have "working_copy_ok env (y_state y)" by (rule working_copy_has_the_last_id [OF assms(1,2)])
  then have "i = deterministic_hash (e_sha env) (s_vfs (y_state y))" using assms(4) by (simp add: working_copy_ok_def)
  also have "\<dots> = deterministic_hash (e_sha env) (ed_vfs e)" using same_texts_same_id [OF assms(5)] by simp
  finally have i: "i = deterministic_hash (e_sha env) (ed_vfs e)" .
  have "i \<noteq> wipe_history" using assms(2) by (simp add: i deterministic_hash_def)
  from replaced_edit_session [OF assms(1,3,4) i this] obtain y' new where y': "cvl_session env y' (new @ hist)"
    "s_vfs (y_state y') = ed_vfs e" "same_for_digests (y_state y) (y_state y')"
    "\<And>k a. answered (new @ hist) k a = answered hist k a" by metis
  from y'(3) have "s_versions (y_state y') = [i]" "validations (y_state y') = validations (y_state y)"
    "\<forall>n. content_digest env (y_state y') n = content_digest env (y_state y) n \<and>
      claim_digest env (y_state y') n = claim_digest env (y_state y) n \<and>
      prover_digest env (y_state y') n = prover_digest env (y_state y) n"
    using assms(4) by (simp_all add: same_for_digests_def content_digest_def claim_digest_def prover_digest_def)
  then show ?thesis using y' same_publish [OF y'(3)] by blast
qed

definition edit_of :: "snapshot \<Rightarrow> stored_edit" where
  "edit_of vfs = \<lparr>ed_vfs = vfs, ed_summary = [], ed_why = [], ed_by = MungeEditor\<rparr>"

definition edited_and_proved :: "script_event list" where
  "edited_and_proved =
     [DoCommit (edit_of [(''A.sol'', ''fixed'')]), say (ApplyEdit (deterministic_hash (e_sha demo_env) [(''A.sol'', ''fixed'')])),
      say (PutBuffer ''m'' ''rules'' whole True), say (SubmitBuffer ''m'' None None),
      DoJob (''m'', InheritRules) (Proved [''r1'', ''r2''] (Inr (demo_report [''r1'', ''r2'']))),
      say (CollectResults False), say (CvlFeedback [])]"

lemma edited_and_proved_state:
  "case demo edited_and_proved of None \<Rightarrow> False | Some (y, hist) \<Rightarrow> closing (y_state y) = None \<and>
     s_versions (y_state y) = [deterministic_hash (e_sha demo_env) [(''A.sol'', ''fixed'')]] \<and>
     publish_complaint demo_env (y_state y) = Inr None \<and> s_vfs (y_state y) = [(''A.sol'', ''fixed'')]"
  by code_simp

lemma moved_edit_keeps_every_stamp_witness:
  "\<exists>y hist y' new. cvl_session demo_env y hist \<and> cvl_session demo_env y' (new @ hist) \<and> s_vfs (y_state y) = [(''A.sol'', ''fixed'')] \<and>
     s_vfs (y_state y') = [(''B.sol'', ''fixed'')] \<and> publish_complaint demo_env (y_state y') = Inr None"
proof -
  obtain y hist where run: "demo edited_and_proved = Some (y, hist)"
    and y: "closing (y_state y) = None" "s_versions (y_state y) = [deterministic_hash (e_sha demo_env) [(''A.sol'', ''fixed'')]]"
      "publish_complaint demo_env (y_state y) = Inr None" "s_vfs (y_state y) = [(''A.sol'', ''fixed'')]"
    using edited_and_proved_state by (cases "demo edited_and_proved") auto
  let ?e = "edit_of [(''B.sol'', ''fixed'')]"
  have same: "same_texts (ed_vfs ?e) (s_vfs (y_state y))" by (simp add: same_texts_def edit_of_def y(4))
  have hex: "e_sha demo_env t \<noteq> wipe_history" for t by (simp add: demo_env_def wipe_history_def)
  obtain y' new where "cvl_session demo_env y' (new @ hist)" "s_vfs (y_state y') = ed_vfs ?e"
    "publish_complaint demo_env (y_state y') = Inr None"
    using moved_edit_keeps_every_stamp [OF demo_session [OF run] hex y(1,2) same] y(3) by metis
  moreover have "ed_vfs ?e = [(''B.sol'', ''fixed'')]" by (simp add: edit_of_def)
  ultimately show ?thesis using y(4) demo_session [OF run] by auto
qed

end
