(* ===== verification/Cvl_Guarantees.thy ===== *)
theory Cvl_Guarantees
  imports Cvl_Scripts
begin

text \<open>
  The remaining guarantees of a CVL session: when a buffer counts as verified, that a clean run earns the stamp, and what holds
  of the working copy and of the configuration.
\<close>

subsection \<open>Completion\<close>

text \<open>
  C13: When a buffer counts as verified. Take the runs recorded for the buffer under its name, newest first, up to the first of another
  content digest. The buffer is complete exactly when the results at hand together with those of some (possibly none) of these runs, from the newest on,
  are all verified or of rules that may fail, and have a result for every rule. So a buffer without rules is complete
  without a run, an older failure does no harm once newer clean runs cover everything, and no older success helps behind a newer failure.
\<close>

definition clean_status :: "string list \<Rightarrow> rule_path \<times> status_code \<Rightarrow> bool" where
  "clean_status expected e \<longleftrightarrow> snd e = VERIFIED \<or> rp_rule (fst e) \<in> set expected"

definition recorded_runs :: "history_item list \<Rightarrow> prover_run_log list" where
  "recorded_runs h = concat (map (\<lambda>it. case it of RunLog r \<Rightarrow> [r] | NagMarker ps \<Rightarrow> []) h)"

theorem completion_is_a_clean_cover:
  "buffer_is_complete h name digest expected curr_status rules =
     (\<exists>n. let recorded = filter (\<lambda>r. run_buffer r = Some name) (rev (recorded_runs h));
              seen = curr_status @ concat (map run_results (take n (takeWhile (\<lambda>r. run_state_digest r = digest) recorded)))
          in list_all (clean_status expected) seen \<and> set rules \<subseteq> (\<lambda>e. rp_rule (fst e)) ` set seen)"
proof -
  have runs: "runs_newest_first (history_for_buffer h name) = filter (\<lambda>r. run_buffer r = Some name) (rev (recorded_runs h))"
  proof (induction h)
    case (Cons it h)
    then show ?case
      by (cases it) (simp_all add: runs_newest_first_def history_for_buffer_def recorded_runs_def List.map_filter_def)
  qed (simp add: runs_newest_first_def history_for_buffer_def recorded_runs_def List.map_filter_def)
  have clean: "\<not> unforgiven expected h \<longleftrightarrow> list_all (clean_status expected) h" for h
    by (auto simp: unforgiven_def clean_status_def list_all_iff list_ex_iff split: prod.splits)
  have rules_of: "set (covered_by h) = (\<lambda>e. rp_rule (fst e)) ` set h" for h
    by (simp add: covered_by_def case_prod_unfold)
  have block: "covers_rules expected rules (curr_status # hs) \<longleftrightarrow>
      list_all (clean_status expected) (curr_status @ concat hs) \<and>
      set rules \<subseteq> (\<lambda>e. rp_rule (fst e)) ` set (curr_status @ concat hs)" for hs
  proof -
    have "(\<Union>h\<in>set (curr_status # hs). set (covered_by h)) = (\<lambda>e. rp_rule (fst e)) ` set (curr_status @ concat hs)"
      by (auto simp: rules_of)
    moreover have "(\<forall>h\<in>set (curr_status # hs). \<not> unforgiven expected h) \<longleftrightarrow>
        list_all (clean_status expected) (curr_status @ concat hs)"
      unfolding clean by (auto simp: list_all_iff)
    ultimately show ?thesis by (simp only: covers_rules_def) simp
  qed
  have "buffer_is_complete h name digest expected curr_status rules \<longleftrightarrow>
      (\<exists>n. covers_rules expected rules (take n (curr_status # map run_results (runs_at (history_for_buffer h name) digest))))"
    by (simp add: buffer_is_complete_def is_completion_history_def iterate_history_def completes_iff)
  also have "\<dots> \<longleftrightarrow> (\<exists>n. covers_rules expected rules (curr_status # take n (map run_results (runs_at (history_for_buffer h name) digest))))"
    by (metis covers_rules_def take0 take_Suc_Cons old.nat.exhaust)
  finally show ?thesis by (simp add: block runs_at_def runs Let_def take_map del: set_append)
qed

lemma newest_run_completes:
  assumes "run_buffer r = Some name" and "run_state_digest r = digest" and "\<not> unforgiven expected (run_results r)"
    and "set rules \<subseteq> set (covered_by (run_results r))"
  shows "buffer_is_complete (h @ [RunLog r]) name digest expected [] rules"
proof -
  have "runs_newest_first (history_for_buffer (h @ [RunLog r]) name) = r # runs_newest_first (history_for_buffer h name)"
    using assms(1) by (simp add: runs_newest_first_def history_for_buffer_def List.map_filter_simps)
  then have runs: "runs_at (history_for_buffer (h @ [RunLog r]) name) digest = r # runs_at (history_for_buffer h name) digest"
    using assms(2) by (simp add: runs_at_def)
  have "covers_rules expected rules [[], run_results r]"
    using assms(3,4) by (auto simp: covers_rules_def unforgiven_def covered_by_def)
  then have "covers_rules expected rules (take 2 ([] # map run_results (r # runs_at (history_for_buffer h name) digest)))"
    by (simp add: numeral_2_eq_2)
  then show ?thesis
    unfolding buffer_is_complete_def is_completion_history_def iterate_history_def completes_iff runs by blast
qed

subsection \<open>Stamps are earned\<close>

lemma content_digest_total: "\<exists>d. content_digest env s name = Inr d"
  by (simp add: content_digest_def buffer_state_digest_def Let_def)

lemma prover_digest_total: "dget (s_buffers s) name = Some b \<Longrightarrow> \<exists>d. prover_digest env s name = Inr d"
  by (simp add: prover_digest_def buffer_prover_digest_def buffer_state_digest_def Let_def)

lemma add_prover_stamp_total:
  assumes "dget (s_buffers s) (buf_name b) = Some b'"
  shows "\<exists>acc'. add_prover_stamp env s found b acc = Inr acc'"
  using content_digest_total [of env s "buf_name b"] prover_digest_total [OF assms, of env] assms
  by (auto simp: add_prover_stamp_def buffer_complete_at_def)

lemma stamps_of_complete_targets:
  assumes ok: "buffers_ok (s_buffers s)" and b: "b \<in> set (run_targets (s_buffers s))"
    and complete: "content_digest env s (buf_name b) = Inr c" "buffer_complete_at s found (buf_name b) c = Inr True"
    and d: "prover_digest env s (buf_name b) = Inr d"
    and bs: "set bs \<subseteq> set (run_targets (s_buffers s))"
    and start: "b \<in> set bs \<or> dget acc (prover_validation_key @ '':'' @ buf_name b) = Some d"
  shows "\<exists>u. foldE (add_prover_stamp env s found) bs acc = Inr u \<and> dget u (prover_validation_key @ '':'' @ buf_name b) = Some d"
  using bs start
proof (induction bs arbitrary: acc)
  case (Cons x bs)
  let ?k = "prover_validation_key @ '':'' @ buf_name b"
  have "dget (s_buffers s) (buf_name x) = Some x" using Cons.prems(1) run_target_dget [OF ok] by simp
  then obtain acc1 where acc1: "add_prover_stamp env s found x acc = Inr acc1" using add_prover_stamp_total by blast
  have "b \<in> set bs \<or> dget acc1 ?k = Some d"
  proof (cases "buf_name x = buf_name b")
    case True
    then show ?thesis using acc1 complete d by (auto simp: add_prover_stamp_def dget_dset)
  next
    case False
    then have "dget acc1 ?k = dget acc ?k"
      using acc1 by (auto simp: add_prover_stamp_def bindE_Inr_iff dget_dset split: if_splits)
    then show ?thesis using Cons.prems(2) False by auto
  qed
  then show ?case using Cons.IH [of acc1] Cons.prems(1) acc1 by simp
qed simp

lemma dget_merge_validation: "dict_ok u \<Longrightarrow> dget u k = Some d \<Longrightarrow> dget (merge_validation v u) k = Some d"
proof (induction u arbitrary: v)
  case (Cons x u)
  obtain k' d' where x: "x = (k', d')" by (cases x)
  show ?case
  proof (cases "k = k'")
    case True
    then have "dget (merge_validation w u) k = dget w k" for w
      using Cons.prems(1) x by (induction u arbitrary: w) (auto simp: merge_validation_def dget_dset dict_ok_def)
    then show ?thesis using Cons.prems(2) True x by (simp add: merge_validation_def dget_dset)
  next
    case False
    then show ?thesis using Cons x by (simp add: merge_validation_def dict_ok_def)
  qed
qed simp

lemma add_prover_stamp_distinct:
  "add_prover_stamp env s found b acc = Inr acc' \<Longrightarrow> dict_ok acc \<Longrightarrow> dict_ok acc'"
  by (auto simp: add_prover_stamp_def bindE_Inr_iff dict_ok_dset split: if_splits)

lemma collect_results_reply:
  assumes targets: "run_targets (s_buffers s) \<noteq> []" and d: "drain w wait p = (ds, p1)"
    and u: "foldE (add_prover_stamp env s (run_logs_of env s i ds)) (run_targets (s_buffers s)) [] = Inr u"
  shows "\<exists>t marks reminders p'. collect_results env s p w i wait =
      Inr (Command t ([StampWrite u, OwnWrite (HistoryWrite (run_logs_of env s i ds @ marks))] @ reminders), p') \<and>
    (reminders = [] \<or> (\<exists>r. reminders = [OwnWrite (RemindersWrite r)]))"
proof -
  obtain nag marks where nag: "stuck_rule_nag (fresh_statuses ds) (s_history s) (keys (s_rule_skips s)) (known_collects s)
      (s_plugin_tools s) = (nag, marks)" by fastforce
  have "\<exists>t N p'. collect_results env s p w i wait =
      Inr (Command t ([StampWrite u, OwnWrite (HistoryWrite (run_logs_of env s i ds @ marks))] @
        (if N = [] then [] else [OwnWrite (RemindersWrite N)])), p')"
    unfolding collect_results_def Let_def d prod.case u bindE.simps nag if_not_P [OF targets]
    by (intro exI) (rule refl)
  then obtain t N p' where "collect_results env s p w i wait =
      Inr (Command t ([StampWrite u, OwnWrite (HistoryWrite (run_logs_of env s i ds @ marks))] @
        (if N = [] then [] else [OwnWrite (RemindersWrite N)])), p')" by blast
  then show ?thesis by (intro exI conjI) (assumption, simp)
qed

text \<open>
  A queue that holds one result, of a run on the current content of a run target, in which every rule the buffer owns has a
  result and every result is verified or of a rule marked as expected to fail: collecting it stamps the buffer.
\<close>

lemma clean_result_is_stamped:
  assumes "buffers_ok (s_buffers (y_state y))" and "closing (y_state y) = None" and b: "b \<in> set (run_targets (s_buffers (y_state y)))"
    and queue: "p_queue (y_pool y) = [d]" and d: "d_name d = buf_name b" "content_digest env (y_state y) (buf_name b) = Inr (d_digest d)"
    and rep: "d_result d = Inr rep" "\<not> unforgiven (keys (s_rule_skips (y_state y))) (raw_rule_status rep)"
    and cover: "set (owned_rules b) \<subseteq> set (covered_by (raw_rule_status rep))"
  shows "\<exists>y' e. cvl_step env y (CvlTurn y [(i, w, CollectResults wait)]) y' \<and> prover_digest env (y_state y') (buf_name b) = Inr e \<and>
    dget (validations (y_state y')) (prover_validation_key @ '':'' @ buf_name b) = Some e"
proof -
  let ?c = "(i, w, CollectResults wait)" and ?k = "prover_validation_key @ '':'' @ buf_name b"
  define s where "s = with_message [?c] (y_state y)"
  have s: "s_buffers s = s_buffers (y_state y)" "s_rule_skips s = s_rule_skips (y_state y)" "content_digest env s = content_digest env (y_state y)"
    "closing s = None"
    using assms(2) by (simp_all add: s_def with_message_def content_digest_def fun_eq_iff)
  have ok: "buffers_ok (s_buffers s)" using assms(1) s by simp
  have target: "b \<in> set (run_targets (s_buffers s))" "dget (s_buffers s) (buf_name b) = Some b"
    using b run_target_dget [OF ok] s by simp_all
  define p1 where "p1 = (y_pool y)\<lparr>p_queue := []\<rparr>"
  have drain: "drain w wait (y_pool y) = ([d], p1)" by (simp add: drain_def queue p1_def)
  let ?r = "run_log_of env s i d rep"
  have found: "run_logs_of env s i [d] = [RunLog ?r]" by (simp add: run_logs_of_def rep List.map_filter_simps)
  obtain e where e: "prover_digest env s (buf_name b) = Inr e" using prover_digest_total [OF target(2)] by blast
  have "buffer_complete_at s [RunLog ?r] (buf_name b) (d_digest d) = Inr True"
    using newest_run_completes [of ?r "buf_name b" "d_digest d" "keys (s_rule_skips s)" "owned_rules b" "s_history s"] target rep cover d s
    by (simp add: buffer_complete_at_def run_log_of_def)
  then obtain u where u: "foldE (add_prover_stamp env s [RunLog ?r]) (run_targets (s_buffers s)) [] = Inr u" "dget u ?k = Some e"
    using stamps_of_complete_targets [OF ok target(1) _ _ e subset_refl] d(2) target(1) s(3) by metis
  have "dict_ok u"
    by (rule foldE_keeps [OF u(1), where P = "\<lambda>a. dict_ok a"]) (use add_prover_stamp_distinct in \<open>auto simp: dict_ok_def\<close>)
  have "run_targets (s_buffers s) \<noteq> []" using target(1) by auto
  then obtain t marks reminders p' where "collect_results env s (y_pool y) w i wait =
      Inr (Command t ([StampWrite u, OwnWrite (HistoryWrite ([RunLog ?r] @ marks))] @ reminders), p')"
    and reminders: "reminders = [] \<or> (\<exists>r. reminders = [OwnWrite (RemindersWrite r)])"
    using collect_results_reply [OF _ drain, of s env i u] u(1) unfolding found by blast
  then have tool: "cvl_tool env (y_store y) s (y_pool y) ?c =
      Inr (Command t ([StampWrite u, OwnWrite (HistoryWrite ([RunLog ?r] @ marks))] @ reminders), p')"
    by (simp add: faulty_def)
  let ?s' = "fold (apply_write cvl_own) ([StampWrite u, OwnWrite (HistoryWrite ([RunLog ?r] @ marks))] @ reminders) s"
  have "cvl_step env y (CvlTurn y [?c]) (y\<lparr>y_state := ?s', y_pool := p'\<rparr>)"
    by (rule turn [OF assms(2), where replies = "[Command t ([StampWrite u, OwnWrite (HistoryWrite ([RunLog ?r] @ marks))] @ reminders)]"])
      (use tool reminders in \<open>auto simp: s_def [symmetric] merge_turn_def List.map_filter_simps Let_def\<close>)
  moreover have "prover_digest env ?s' (buf_name b) = Inr e" using reminders e by (auto simp: prover_digest_def)
  moreover have "dget (validations ?s') ?k = Some e"
    using reminders dget_merge_validation [OF \<open>dict_ok u\<close> u(2)] by auto
  ultimately show ?thesis by (intro exI conjI) (assumption | simp)+
qed

text \<open>
  C14: A clean run is enough, from the submission on. Take a run target of an open session that is not complete at its content digest and
  was not submitted as a whole at this digest, with no result waiting. Submitting it as a whole puts a job on that very content
  on the table; when that job ends with a report in which every rule the buffer owns has a result and every result is verified or of a rule marked as expected
  to fail, collecting succeeds, waiting or not, and leaves the buffer with the prover stamp that the publish gate asks
  of the new state.
\<close>

theorem clean_run_earns_the_stamp:
  assumes "cvl_session env y hist" and "closing (y_state y) = None" and b: "b \<in> set (run_targets (s_buffers (y_state y)))"
    and idle: "p_queue (y_pool y) = []" and digest: "content_digest env (y_state y) (buf_name b) = Inr d"
    and incomplete: "buffer_complete_at (y_state y) [] (buf_name b) d = Inr False"
    and new: "\<And>j. dget (p_jobs (y_pool y)) (buf_name b, InheritRules) = Some j \<Longrightarrow> job_digest j \<noteq> d"
    and clean: "\<not> unforgiven (keys (s_rule_skips (y_state y))) (raw_rule_status rep)"
    and cover: "set (owned_rules b) \<subseteq> set (covered_by (raw_rule_status rep))"
  shows "\<exists>y1 y2 y3 j e. cvl_step env y (CvlTurn y [(i, w, SubmitBuffer (buf_name b) None None)]) y1 \<and>
    dget (p_jobs (y_pool y1)) (buf_name b, InheritRules) = Some j \<and> \<not> job_finished j \<and>
    job_buffers j = s_buffers (y_state y) \<and> job_vfs j = s_vfs (y_state y) \<and> job_conf j = s_config (y_state y) \<and>
    cvl_step env y1 (JobEnds y1 (buf_name b, InheritRules) j (Proved rules (Inr rep))) y2 \<and>
    cvl_step env y2 (CvlTurn y2 [(i', w', CollectResults wait)]) y3 \<and>
    prover_digest env (y_state y3) (buf_name b) = Inr e \<and>
    dget (validations (y_state y3)) (prover_validation_key @ '':'' @ buf_name b) = Some e"
proof -
  let ?n = "buf_name b" and ?c = "(i, w, SubmitBuffer (buf_name b) None None)"
  let ?k = "(buf_name b, InheritRules)"
  define s where "s = with_message [?c] (y_state y)"
  have s: "s_buffers s = s_buffers (y_state y)" "s_rule_skips s = s_rule_skips (y_state y)" "s_vfs s = s_vfs (y_state y)"
    "s_config s = s_config (y_state y)" "content_digest env s = content_digest env (y_state y)" "closing s = None"
    "buffer_complete_at s = buffer_complete_at (y_state y)"
    using assms(2) by (simp_all add: s_def with_message_def content_digest_def buffer_complete_at_def fun_eq_iff split: option.split)
  have ok: "buffers_ok (s_buffers (y_state y))" by (rule session_buffers_ok [OF assms(1)])
  have target: "dget (s_buffers s) ?n = Some b" "is_run_target b"
    using b run_target_dget [OF ok] s by (auto simp: run_targets_def)
  obtain r p where launch: "launch env s (y_pool y) ?n InheritRules d = (r, p)" by fastforce
  have "submit_buffer env s (y_pool y) ?n None None = Inr (r, p)"
    using target digest incomplete new
    by (auto simp: submit_buffer_def rule_selection_of_def selection_complaint_def Let_def s launch split: option.split)
  then have tool: "cvl_tool env (y_store y) s (y_pool y) ?c = Inr (r, p)" by (simp add: faulty_def)
  have r: "writes_of r = []" and queue: "p_queue p = []"
    and job: "\<exists>j. dget (p_jobs p) ?k = Some j \<and> \<not> job_finished j \<and> job_digest j = d \<and> job_buffers j = s_buffers s \<and>
      job_vfs j = s_vfs s \<and> job_conf j = s_config s"
    using launch idle by (auto simp: launch_def Let_def dget_dset)
  obtain m where "r = Reply m" using launch by (auto simp: launch_def Let_def)
  define y1 where "y1 = y\<lparr>y_state := s, y_pool := p\<rparr>"
  have step1: "cvl_step env y (CvlTurn y [?c]) y1" unfolding y1_def
    by (rule turn [OF assms(2), where replies = "[r]"])
      (use tool in \<open>auto simp: s_def [symmetric] merge_turn_def List.map_filter_simps \<open>r = Reply m\<close>\<close>)
  obtain j where j: "dget (p_jobs (y_pool y1)) ?k = Some j" "\<not> job_finished j" "job_digest j = d" "job_buffers j = s_buffers s"
    "job_vfs j = s_vfs s" "job_conf j = s_config s"
    using job by (auto simp: y1_def)
  define y2 where "y2 = y1\<lparr>y_pool := job_ends (?k, Proved rules (Inr rep)) (y_pool y1)\<rparr>"
  have step2: "cvl_step env y1 (JobEnds y1 ?k j (Proved rules (Inr rep))) y2"
    unfolding y2_def by (rule job_end [OF j(1,2)])
  have y2: "y_state y2 = s" "p_queue (y_pool y2) = [job_done ?k d (Proved rules (Inr rep))]"
    using j queue by (auto simp: y2_def y1_def job_ends_def)
  have "\<exists>y3 e. cvl_step env y2 (CvlTurn y2 [(i', w', CollectResults wait)]) y3 \<and> prover_digest env (y_state y3) ?n = Inr e \<and>
      dget (validations (y_state y3)) (prover_validation_key @ '':'' @ ?n) = Some e"
    by (rule clean_result_is_stamped [OF _ _ _ y2(2)]) (use ok b digest clean cover s y2 in simp_all)
  then show ?thesis using step1 step2 j s by metis
qed

definition drafted_only :: "script_event list" where
  "drafted_only = take 1 proved_spec"

lemma drafted_only_state:
  "case demo drafted_only of None \<Rightarrow> False | Some (y, hist) \<Rightarrow> closing (y_state y) = None \<and>
     map buf_name (run_targets (s_buffers (y_state y))) = [''m''] \<and> map owned_rules (run_targets (s_buffers (y_state y))) = [[''r1'', ''r2'']] \<and>
     s_rule_skips (y_state y) = [] \<and> p_queue (y_pool y) = [] \<and> p_jobs (y_pool y) = [] \<and>
     (case content_digest demo_env (y_state y) ''m'' of Inl e \<Rightarrow> False
      | Inr d \<Rightarrow> buffer_complete_at (y_state y) [] ''m'' d = Inr False)"
  by code_simp

lemma clean_run_earns_the_stamp_witness:
  "\<exists>y1 y2 y3 j e hist. cvl_session demo_env y1 hist \<and> cvl_step demo_env y1 (JobEnds y1 (''m'', InheritRules) j
       (Proved [''r1'', ''r2''] (Inr (demo_report [''r1'', ''r2''])))) y2 \<and>
     cvl_step demo_env y2 (CvlTurn y2 [(''2'', demo_world, CollectResults False)]) y3 \<and>
     prover_digest demo_env (y_state y3) ''m'' = Inr e \<and> dget (validations (y_state y3)) (prover_validation_key @ '':'' @ ''m'') = Some e"
proof -
  obtain y hist where run: "demo drafted_only = Some (y, hist)" and y: "closing (y_state y) = None"
    and names: "map buf_name (run_targets (s_buffers (y_state y))) = [''m'']"
    and rules: "map owned_rules (run_targets (s_buffers (y_state y))) = [[''r1'', ''r2'']]" and skips: "s_rule_skips (y_state y) = []"
    and pool: "p_queue (y_pool y) = []" "p_jobs (y_pool y) = []"
    and digest: "case content_digest demo_env (y_state y) ''m'' of Inl e \<Rightarrow> False
      | Inr d \<Rightarrow> buffer_complete_at (y_state y) [] ''m'' d = Inr False"
    using drafted_only_state by (cases "demo drafted_only") auto
  obtain b where b: "b \<in> set (run_targets (s_buffers (y_state y)))" "buf_name b = ''m''" "owned_rules b = [''r1'', ''r2'']"
    using names rules by (cases "run_targets (s_buffers (y_state y))") auto
  obtain d where d: "content_digest demo_env (y_state y) ''m'' = Inr d" "buffer_complete_at (y_state y) [] ''m'' d = Inr False"
    using digest by (auto split: sum.splits)
  let ?rep = "demo_report [''r1'', ''r2'']"
  have rep: "\<not> unforgiven [] (raw_rule_status ?rep)" "set [''r1'', ''r2''] \<subseteq> set (covered_by (raw_rule_status ?rep))"
    by code_simp+
  note ses = demo_session [OF run]
  have "\<exists>y1 y2 y3 j e. cvl_step demo_env y (CvlTurn y [(''1'', demo_world, SubmitBuffer ''m'' None None)]) y1 \<and>
    dget (p_jobs (y_pool y1)) (''m'', InheritRules) = Some j \<and> \<not> job_finished j \<and>
    job_buffers j = s_buffers (y_state y) \<and> job_vfs j = s_vfs (y_state y) \<and> job_conf j = s_config (y_state y) \<and>
    cvl_step demo_env y1 (JobEnds y1 (''m'', InheritRules) j (Proved [''r1'', ''r2''] (Inr ?rep))) y2 \<and>
    cvl_step demo_env y2 (CvlTurn y2 [(''2'', demo_world, CollectResults False)]) y3 \<and>
    prover_digest demo_env (y_state y3) ''m'' = Inr e \<and>
    dget (validations (y_state y3)) (prover_validation_key @ '':'' @ ''m'') = Some e"
    using clean_run_earns_the_stamp [OF ses y b(1) pool(1) d(1) [folded b(2)] d(2) [folded b(2)], of ?rep
        "''1''" demo_world "[''r1'', ''r2'']" "''2''" demo_world False] b(2,3) skips pool(2) rep
    by simp
  then show ?thesis using cvl_next [OF ses] by metis
qed

subsection \<open>The working copy and the configuration\<close>

text \<open>
  Where the working copy comes from. The relation \<open>R\<close> stands for what is known of a store, the events since, an id and a snapshot: it has to hold
  of what is read from a store, and to survive the steps of a session.
\<close>

lemma working_copy_origin:
  assumes "cvl_session env y hist" and hex: "\<And>t. e_sha env t \<noteq> wipe_history"
    and read: "\<And>st hist i r. read_edit st i = Some r \<Longrightarrow> R st hist i (ed_vfs r)"
    and later: "\<And>y hist e y' i v. cvl_step env y e y' \<Longrightarrow> R (y_store y) hist i v \<Longrightarrow> R (y_store y') (e # hist) i v"
  shows "if s_versions (y_state y) = [] then s_vfs (y_state y) = []
    else R (y_store y) hist (last (s_versions (y_state y))) (s_vfs (y_state y))"
proof -
  let ?P = "\<lambda>st hist s. if s_versions s = [] then s_vfs s = [] else R st hist (last (s_versions s)) (s_vfs s)"
  have id: "deterministic_hash (e_sha env) v \<noteq> wipe_history" for v using hex by (simp add: deterministic_hash_def)
  have "edit_store_ok (e_sha env) (y_store y) \<and> ?P (y_store y) hist (y_state y)"
    using assms(1)
  proof induction
    case (cvl_begin st c prior r stem tools)
    then show ?case using read by (auto simp: restored_def cvl_start_def Let_def split: option.splits if_splits)
  next
    case (cvl_next y hist e y')
    have prior: "?P (y_store y') (e # hist) (y_state y)"
      using cvl_next.IH later [OF cvl_next.hyps(2)] by (auto split: if_splits)
    from cvl_next.hyps(2) show ?case
    proof cases
      case (turn calls replies p s)
      have store: "y_store y' = y_store y" using turn by simp
      have start: "?P (y_store y) (e # hist) (y_state y)" using prior by (simp only: store)
      have s: "?P (y_store y) (e # hist) s"
      proof (rule cvl_turn_invariant [OF turn(4,5), where Q = "\<lambda>q. True" and P = "?P (y_store y) (e # hist)"])
        show "?P (y_store y) (e # hist) (with_message calls (y_state y))" using start by (simp add: with_message_def)
        fix q c ws and s1 :: cvl_state
        assume eff: "cvl_effect env (with_message calls (y_state y)) (y_store y, q, c) ws" and s1: "?P (y_store y) (e # hist) s1"
        from eff show "?P (y_store y) (e # hist) (fold (apply_write cvl_own) ws s1)"
        proof cases
          case (applied i r w p)
          then have "i \<noteq> wipe_history" using cvl_next.IH id [of "ed_vfs r"] by (auto simp: read_edit_ok)
          then show ?thesis using applied read by (simp add: merge_version_history_def)
        next
          case (reverted i r w p)
          then show ?thesis using read by (simp add: merge_version_history_def upto_first_def)
        next
          case collected
          then show ?thesis using s1 by auto
        qed (use s1 in \<open>auto simp: merge_version_history_def\<close>)
      qed simp_all
      have "y_state y' = s" using turn(2) by simp
      with s store cvl_next.IH show ?thesis by simp
    qed (use prior cvl_next.IH commit_edit_ok in \<open>auto simp: author_monitor_def cvl_wrap_up_def drain_reminders_def\<close>)
  qed
  then show ?thesis by blast
qed

text \<open>The stores a session has seen, and the sessions in which no commit replaced a record by one with another snapshot.\<close>

fun event_store :: "cvl_event \<Rightarrow> edit_store" where
  "event_store (CvlTurn y calls) = y_store y"
| "event_store (JobEnds y k j a) = y_store y"
| "event_store (EditCommitted y e) = y_store y"
| "event_store (Monitored y alerted) = y_store y"
| "event_store (Summarized y) = y_store y"

fun keeps_snapshots :: "cvl_env \<Rightarrow> cvl_event \<Rightarrow> bool" where
  "keeps_snapshots env (EditCommitted y e) =
     (case read_edit (y_store y) (deterministic_hash (e_sha env) (ed_vfs e)) of None \<Rightarrow> True | Some r \<Rightarrow> ed_vfs r = ed_vfs e)"
| "keeps_snapshots env e = True"

definition stored_as :: "edit_store \<Rightarrow> string \<Rightarrow> snapshot \<Rightarrow> bool" where
  "stored_as st i v \<longleftrightarrow> (case read_edit st i of None \<Rightarrow> False | Some r \<Rightarrow> ed_vfs r = v)"

lemma stored_as_commit:
  "stored_as st i v \<Longrightarrow> (case read_edit st (deterministic_hash sha (ed_vfs e)) of None \<Rightarrow> True | Some r \<Rightarrow> ed_vfs r = ed_vfs e) \<Longrightarrow>
   stored_as (commit_edit sha e st) i v"
  by (auto simp: stored_as_def read_edit_def commit_edit_def dget_dset split: option.splits)

text \<open>
  C12: The working copy is the snapshot of the last applied edit, at every moment of a session, after any sequence of applied, reverted and
  restored edits and whatever other calls are made in the same turns. Without an applied edit it is the unedited project. Otherwise it is the
  snapshot some store of the session, the present or an earlier one, has under the last id; its own id is the last id; the present store has a record under this
  id, and, when no commit of the session replaced a record by one with another snapshot, that record's snapshot is the
  working copy. (The identity of an edit is a hash, and no hash is the marker that wipes the history.)
\<close>

theorem working_copy_is_the_last_edit:
  assumes "cvl_session env y hist" and "\<And>t. e_sha env t \<noteq> wipe_history"
  shows "if s_versions (y_state y) = [] then s_vfs (y_state y) = []
    else let i = last (s_versions (y_state y)); v = s_vfs (y_state y) in
      list_ex (\<lambda>st. stored_as st i v) (y_store y # map event_store hist) \<and>
      deterministic_hash (e_sha env) v = i \<and> read_edit (y_store y) i \<noteq> None \<and>
      (list_all (keeps_snapshots env) hist \<longrightarrow> stored_as (y_store y) i v)"
proof (cases "s_versions (y_state y) = []")
  case True
  then show ?thesis using working_copy_has_the_last_id [OF assms] by (simp add: working_copy_ok_def)
next
  case False
  let ?i = "last (s_versions (y_state y))" and ?v = "s_vfs (y_state y)"
  have "if s_versions (y_state y) = [] then s_vfs (y_state y) = []
      else list_ex (\<lambda>st. stored_as st ?i ?v) (y_store y # map event_store hist)"
  proof (rule working_copy_origin [OF assms, where R = "\<lambda>st hist i v. list_ex (\<lambda>st. stored_as st i v) (st # map event_store hist)"])
    show "list_ex (\<lambda>st. stored_as st i v) (y_store y' # map event_store (e # hist))"
      if "cvl_step env y e y'" "list_ex (\<lambda>st. stored_as st i v) (y_store y # map event_store hist)" for y hist e y' i v
      using that by cases auto
  qed (simp add: stored_as_def)
  then have once: "list_ex (\<lambda>st. stored_as st ?i ?v) (y_store y # map event_store hist)" using False by simp
  have "if s_versions (y_state y) = [] then s_vfs (y_state y) = [] else read_edit (y_store y) ?i \<noteq> None"
  proof (rule working_copy_origin [OF assms, where R = "\<lambda>st hist i v. read_edit st i \<noteq> None"])
    show "read_edit (y_store y') i \<noteq> None" if "cvl_step env y e y'" "read_edit (y_store y) i \<noteq> None" for y e y' i
      using that by cases (auto simp: read_edit_def commit_edit_def dget_dset)
  qed simp
  then have present: "read_edit (y_store y) ?i \<noteq> None" using False by simp
  have "if s_versions (y_state y) = [] then s_vfs (y_state y) = []
      else list_all (keeps_snapshots env) hist \<longrightarrow> stored_as (y_store y) ?i ?v"
  proof (rule working_copy_origin [OF assms, where R = "\<lambda>st hist i v. list_all (keeps_snapshots env) hist \<longrightarrow> stored_as st i v"])
    show "list_all (keeps_snapshots env) (e # hist) \<longrightarrow> stored_as (y_store y') i v"
      if "cvl_step env y e y'" "list_all (keeps_snapshots env) hist \<longrightarrow> stored_as (y_store y) i v" for y hist e y' i v
      using that by cases (auto simp: stored_as_commit)
  qed (simp add: stored_as_def)
  then have kept: "list_all (keeps_snapshots env) hist \<longrightarrow> stored_as (y_store y) ?i ?v" using False by simp
  show ?thesis
    using False once present kept working_copy_has_the_last_id [OF assms] by (simp add: working_copy_ok_def Let_def)
qed

lemma edits_kept: "case demo edited_and_proved of None \<Rightarrow> False | Some (y, hist) \<Rightarrow> list_all (keeps_snapshots demo_env) hist"
  by code_simp

lemma working_copy_is_the_last_edit_witness:
  "\<exists>y hist. cvl_session demo_env y hist \<and> s_versions (y_state y) \<noteq> [] \<and>
     stored_as (y_store y) (last (s_versions (y_state y))) (s_vfs (y_state y))"
proof -
  obtain y hist where run: "demo edited_and_proved = Some (y, hist)" and y: "s_versions (y_state y) \<noteq> []"
    and kept: "list_all (keeps_snapshots demo_env) hist"
    using edited_and_proved_state edits_kept by (cases "demo edited_and_proved") auto
  have hex: "e_sha demo_env t \<noteq> wipe_history" for t by (simp add: demo_env_def wipe_history_def)
  show ?thesis using working_copy_is_the_last_edit [OF demo_session [OF run] hex] y kept demo_session [OF run]
    by (auto simp: Let_def)
qed

text \<open>
  C29: The per-file compiler maps of the configuration stay all-or-nothing: when every file of the configuration has an entry in every map that is
  present, it still is so after any step of a session, in particular after any accepted sequence of configuration edits.
\<close>

theorem steps_keep_the_compiler_maps_total:
  assumes "cvl_step env y e y'" and "maps_cover_files (s_config (y_state y))"
  shows "maps_cover_files (s_config (y_state y'))"
  using assms by (rule step_keeps_the_maps)

definition mapped_conf :: conf where
  "mapped_conf = [(''files'', JArray [JString ''A.sol'']), (''solc_map'', JObject [(''A'', JString ''solc8'')])]"

definition demo_settings :: compiler_settings where
  "demo_settings = \<lparr>set_solc = Some (JString ''solc7''), set_optimize = None, set_via_ir = None, set_evm_version = None\<rparr>"

lemma maps_cover_files_code:
  "maps_cover_files config \<longleftrightarrow> (case files_of config of Inl e \<Rightarrow> False | Inr fs \<Rightarrow>
     list_all (\<lambda>k. case map_in config k of None \<Rightarrow> True | Some m \<Rightarrow> list_all (\<lambda>f. dget m (files_entry_contract f) \<noteq> None) fs) compiler_map_keys)"
  by (simp add: maps_cover_files_def list_all_iff split: sum.split option.split)

lemma steps_keep_the_compiler_maps_total_witness:
  "\<exists>e y'. cvl_step demo_env (demo_start\<lparr>y_state := (y_state demo_start)\<lparr>s_config := mapped_conf\<rparr>\<rparr>) e y' \<and>
     files_of (s_config (y_state y')) = Inr [''A.sol'', ''B.sol''] \<and> maps_cover_files (s_config (y_state y'))"
proof -
  let ?y = "demo_start\<lparr>y_state := (y_state demo_start)\<lparr>s_config := mapped_conf\<rparr>\<rparr>"
  let ?es = "[DoTurn [(''1'', demo_world, EditConfig [AddFile ''B.sol'' None (Some demo_settings)])]]"
  have "case run_script demo_env ?y [] ?es of None \<Rightarrow> False | Some (y', hist) \<Rightarrow> files_of (s_config (y_state y')) = Inr [''A.sol'', ''B.sol'']"
    by code_simp
  then obtain y' hist where run: "run_script demo_env ?y [] ?es = Some (y', hist)" and files: "files_of (s_config (y_state y')) = Inr [''A.sol'', ''B.sol'']"
    by (cases "run_script demo_env ?y [] ?es") auto
  note step = run_script_turn [OF run]
  have "maps_cover_files mapped_conf" unfolding maps_cover_files_code by code_simp
  then have "maps_cover_files (s_config (y_state ?y))" by simp
  from steps_keep_the_compiler_maps_total [OF step this] step files show ?thesis by blast
qed

end
