(* ===== verification/Spec2Isabelle.thy ===== *)
theory Spec2Isabelle
  imports Cvl_Reader Cvl_Blocks Budget_Laws Spec_Buffers_Laws Report_Laws Callgraph_Laws Harness_Laws Prover_Laws Run_Summary_Laws
    Remappings_Paths Build_Laws Harness_Provenance Rust_Report Foundry_Report
    Cvl_Guarantees
begin

text \<open>
  AutoProver: agents write CVL specifications for smart contracts and run the Certora Prover on them. This library
  models the deterministic parts that decide what an agent may publish, what a run costs, what a prover result
  means, and what the user is told. All paths are under \<^verbatim>\<open>src/\<close>.

  \<^bold>\<open>How the parts interact.\<close> An agent edits named spec buffers; a validation of a draft is stamped with a digest of
  the draft, and the publish gate compares the stamps with the current digests. Structured specs are printed as CVL text.
  Everything an agent spends is charged to the run budget, whose monitors warn and stop it. A prover run leaves a
  tree of verdicts, which is flattened into one verdict per rule instance and from there into outcomes per rule. At the
  end the report collects the properties of all components with these outcomes. Before that, autosetup follows the
  imports of spec files and generates a contract around a library that is to be verified, and the detector of
  summarization candidates walks the call graph of the program.

  \<^bold>\<open>Theories and code.\<close>
  \<^item> \<^verbatim>\<open>Prelude\<close>, \<^verbatim>\<open>Pystr\<close>, \<^verbatim>\<open>Walks\<close>: strings, dictionaries in insertion order, errors as sums, the routines of
    Python's library the code uses, and the locale of worklist searches with its closure theorem.
  \<^item> \<^verbatim>\<open>Cvl_Schema\<close>, \<^verbatim>\<open>Cvl_Printer\<close>, \<^verbatim>\<open>Cvl_Lines\<close>, \<^verbatim>\<open>Cvl_Blocks\<close>, \<^verbatim>\<open>Cvl_Reader\<close>: the abstract syntax of CVL
    (\<^verbatim>\<open>composer/cvl/schema.py\<close>) and its printer (\<^verbatim>\<open>composer/cvl/pretty_print.py\<close>). The printed lines are those of a
    layout given independently of the line builder; the tokens of a printed expression have one reading, the tree.
  \<^item> \<^verbatim>\<open>Budget\<close>, \<^verbatim>\<open>Budget_Laws\<close>: \<^verbatim>\<open>composer/diagnostics/budget.py\<close>. Counters live in a heap and refer to their parents by
    address; context variables are the fields of a state, and a context manager is a function of its body. Charges are
    accounted for exactly, scopes restore the context, and stopping always lies inside the warning window.
  \<^item> \<^verbatim>\<open>Run_Summary\<close>, \<^verbatim>\<open>Run_Summary_Laws\<close>: \<^verbatim>\<open>composer/diagnostics/timing.py\<close>: what a run has used, by model, by task,
    by phase and by the origin of a call. The accounts agree after every history of records.
  \<^item> \<^verbatim>\<open>Authoring\<close>, \<^verbatim>\<open>Authoring_Laws\<close>: \<^verbatim>\<open>composer/authoring/state.py\<close> and \<^verbatim>\<open>composer/core/edit.py\<close>: the reducers of the
    session state, digests and stamps, the gate, and the mapping from properties to checks. What is published was accepted.
  \<^item> \<^verbatim>\<open>Agent_Tools\<close>: \<^verbatim>\<open>composer/authoring\<close> (tools, buffer, judge): the calls every author can make (skips, giving up,
    writing and editing the draft) as lists of writes to the channels of the state, and the judge's verdict.
  \<^item> \<^verbatim>\<open>Rust_Wire\<close>, \<^verbatim>\<open>Rust_Session\<close>: \<^verbatim>\<open>composer/rustapp\<close> (wire, session, result, parts of adapter): the parsers of what a wheel
    answers, the tools of an authoring session, and the session as a relation over turns. \<^verbatim>\<open>Rust_Session_Laws\<close>,
    \<^verbatim>\<open>Rust_Published\<close> and \<^verbatim>\<open>Rust_Report\<close>: an invariant of the turns that records where every stamp came from; what a
    session publishes was validated as it is; and what the report then shows. They compose the wire format, the
    gate of \<^verbatim>\<open>Authoring\<close> and the collection of \<^verbatim>\<open>Report\<close>.
  \<^item> \<^verbatim>\<open>Json_Fields\<close>, \<^verbatim>\<open>Agent_Laws\<close>, \<^verbatim>\<open>Component_Report\<close>: what the back ends share: reading fields of JSON of unknown shape,
    the laws of the calls and of the locale \<^verbatim>\<open>tool_session\<close>, and the report over the one component a session wrote.
  \<^item> \<^verbatim>\<open>Foundry_Session\<close>, \<^verbatim>\<open>Foundry_Laws\<close>, \<^verbatim>\<open>Foundry_Published\<close>, \<^verbatim>\<open>Foundry_Report\<close>: \<^verbatim>\<open>composer/foundry\<close> (state, runner,
    author, report): the session of the back end that writes Foundry tests, as a relation over turns and budget alerts, with
    forge and the judge as arguments; what is published was run and judged, and what the report makes of it.
  \<^item> \<^verbatim>\<open>Spec_Imports\<close>: \<^verbatim>\<open>certora_autosetup/parsers/spec_imports.py\<close>: the lexer that finds imports, and the search over files.
  \<^item> \<^verbatim>\<open>Spec_Buffers\<close>, \<^verbatim>\<open>Spec_Buffers_Laws\<close>: \<^verbatim>\<open>composer/spec/source/spec_buffers.py\<close>: the import closure, its digest, the gate
    of the buffers and their validators.
  \<^item> \<^verbatim>\<open>Buffer_Tools\<close> (\<^verbatim>\<open>source/buffer_tools.py\<close> and the heuristic on copied declarations), \<^verbatim>\<open>Prover_Runs\<close> (the run history of
    \<^verbatim>\<open>source/prover.py\<close>, the rule scopes of \<^verbatim>\<open>prover/conf.py\<close>), \<^verbatim>\<open>Conf_Edits\<close> with \<^verbatim>\<open>Conf_Laws\<close> (\<^verbatim>\<open>source/conf_maps.py\<close>, the
    configuration tool of \<^verbatim>\<open>author.py\<close>), \<^verbatim>\<open>Edit_Store\<close> (\<^verbatim>\<open>source/munge\<close>, the history reducer of \<^verbatim>\<open>live_explorer.py\<close>): the parts of
    the session in which an agent writes and proves CVL. A per-file compiler map keeps an entry for every input file.
  \<^item> \<^verbatim>\<open>Cvl_State\<close>, \<^verbatim>\<open>Buffer_Jobs\<close>, \<^verbatim>\<open>Cvl_Session\<close>: that session (\<^verbatim>\<open>source/author.py\<close>, the job tools of \<^verbatim>\<open>source/prover.py\<close>,
    \<^verbatim>\<open>monitor.py\<close>, the results of \<^verbatim>\<open>cvl_generation.py\<close>): the state with its reducers, the background prover jobs and their queue,
    every tool that changes the state, and a step relation over turns, ends of jobs, commits of edits, the monitor and
    summaries of the messages. \<^verbatim>\<open>Cvl_Laws\<close> says what each call can write; \<^verbatim>\<open>Cvl_Origins\<close> traces each stamp to the job or the
    review it came from; \<^verbatim>\<open>Cvl_Published\<close> concludes that what is published was proved and approved as it is;
    \<^verbatim>\<open>Cvl_Scripts\<close> runs sessions on concrete inputs; \<^verbatim>\<open>Cvl_Guarantees\<close> holds the invariants of the working copy and of the
    configuration, the specification of completion, and that a clean run earns the stamp.
  \<^item> \<^verbatim>\<open>Report\<close>, \<^verbatim>\<open>Report_Laws\<close>: \<^verbatim>\<open>composer/spec/source/report\<close> (schema, collect, grouping, coverage, build): a ledger of the
    properties, the table of rules, and the grouping with its fallback.
  \<^item> \<^verbatim>\<open>Callgraph\<close>, \<^verbatim>\<open>Callgraph_Laws\<close>: \<^verbatim>\<open>summarization_detector/detect/callgraph.py\<close>: the call graph of an AST dump,
    reachability, cones, boundaries above and below a function, and the types that have no opaque part.
  \<^item> \<^verbatim>\<open>Harness\<close>, \<^verbatim>\<open>Harness_Render\<close>, \<^verbatim>\<open>Harness_Laws\<close>: \<^verbatim>\<open>certora_autosetup/harnesser\<close> (model, plan, render),
    \<^verbatim>\<open>utils/cvl_keywords.py\<close> and \<^verbatim>\<open>render_wrapper_contract\<close> of \<^verbatim>\<open>utils/contract_linker.py\<close>: what the contract around a
    library contains. Every function is wrapped or reported, signatures are unique and cross the ABI boundary.
  \<^item> \<^verbatim>\<open>Handles\<close>, \<^verbatim>\<open>Build_Reader\<close>, \<^verbatim>\<open>Build_Laws\<close>: \<^verbatim>\<open>utils/types.py\<close> (contract handles, type descriptors, the records of a
    build), \<^verbatim>\<open>utils/contract_utils.py\<close> and \<^verbatim>\<open>harnesser/read_build.py\<close>: how the API of a library is read from the JSON
    of a build whose shape is not known beforehand. What was read has a function, a matching path and typed parameters.
  \<^item> \<^verbatim>\<open>Harness_Run\<close>, \<^verbatim>\<open>Harness_Run_Laws\<close>, \<^verbatim>\<open>Harness_Provenance\<close>: \<^verbatim>\<open>harnesser/run.py\<close> and \<^verbatim>\<open>swap.py\<close>: the run from the
    stub to the manifest as a sequence of writes, and the scene in which the harness takes the library's place. This is
    the composition of the reader, the plan and the renderer: what is reported was rendered from what was read and compiled.
  \<^item> \<^verbatim>\<open>Remappings\<close>, \<^verbatim>\<open>Remappings_Laws\<close>, \<^verbatim>\<open>Remappings_Paths\<close>: \<^verbatim>\<open>certora_autosetup/utils/remappings.py\<close>: one ordered
    list of import remappings from foundry.toml, remappings.txt, package.json and forge, for a project and for the other
    projects of a run. The reading of a project is specified as the choice of the first entry for each canonical key.
  \<^item> \<^verbatim>\<open>Prover_Results\<close>, \<^verbatim>\<open>Prover_Core\<close>, \<^verbatim>\<open>Prover_Laws\<close>: \<^verbatim>\<open>composer/prover/ptypes.py\<close>, \<^verbatim>\<open>results.py\<close> and the decisions of
    \<^verbatim>\<open>run_prover\<close> and \<^verbatim>\<open>ProverReport\<close> in \<^verbatim>\<open>core.py\<close>. The flattening is specified by a visit relation; every verdict
    is one the Prover gave; traces are accounted for frame by frame.

  \<^bold>\<open>Conventions.\<close> A raised exception is the left value of a sum. A dictionary is an association list in insertion order
  with distinct keys. Code outside the repository's Python files is an argument: the digest functions (MD5, SHA-256; a
  property that needs them to be injective on the texts involved says so), the readers of JSON and of files, the model's
  answer to the grouping call, the clock, the compiler of the harnesser, the world of files and parsed tables the remappings
  are read from. JSON of unknown shape is a value of \<^verbatim>\<open>json\<close>; an operation the value does not support raises a \<^verbatim>\<open>py_error\<close>.
  The tools of an agent's turn all see the state at the start of the turn and their writes are merged by the reducers
  of the channels in the order of the calls: this is the documented behaviour of LangGraph. The callouts of a wheel, its judge and the JSON reader are arguments.
  The prover jobs of a CVL session live outside that state: the calls of a turn touch them one after another, and a job that ends,
  a committed edit, the monitor and a summary are events between turns, so every interleaving of them is a session. What the
  prover answers is an argument of the event that ends a job, the judge and the jobs that end while a call waits are arguments of the call.
  Log messages are part of a result where the code composes them from its decisions (remappings), and left out elsewhere. Validation by pydantic is modelled where a raw value is read (the files of a
  run) and is the typing of the arguments elsewhere. Amounts of money and time are rationals, not floating point.

  \<^bold>\<open>Loops and bounds.\<close> Worklist loops are total functions: the measure is the number of keys not yet seen, or the remaining
  depth, so none needs fuel. The rounds of name mangling are bounded as in the code, by one more than the number of wrappers, and failing to converge is a value.
  Readers are limited to 24 of depth four by the code's own constants.

  \<^bold>\<open>Interfaces.\<close> The locales are \<^verbatim>\<open>graph_walk\<close> (interpreted for buffers, spec files, the call graph and its cones),
  \<^verbatim>\<open>tool_session\<close> (the calls of a turn, for the three back ends), \<^verbatim>\<open>keyed_reducer\<close> (the reducers of the session state and of the buffers), \<^verbatim>\<open>spent_resource\<close> and \<^verbatim>\<open>store_order\<close> (tokens,
  time, and their union in the budget) and \<^verbatim>\<open>ledger\<close> (the collection of properties).

  \<^bold>\<open>Where the code departs from its intent.\<close> A violated instance can disappear when two contracts have a method of one name;
  an error without a message becomes a time-out; a conditional inside a condition is printed ambiguously; a storage
  type and an array of it share a variable name in the harness; two colliding overloads with equal receivers are never
  separated; the plan hash of a harness misses parts of the file; the fallback grouping fails on duplicate titles;
  overlapping occurrences pass as a unique edit site; a declaration of a skip can share a digest with spec text. Each is
  a lemma or theorem here. A draft written in the very turn that publishes is published unchecked; a check declared with
  blanks around its name passes the gate while the report shows its property as unknown. Under budget pressure a Foundry
  session publishes without any check of its mapping; a mapping can name the tests of another draft; and a test forge skipped is reported good. The cap on the origins of calls does not bound the accounts of a run. A mapping to a function
  type is read without its value type; \<^verbatim>\<open>same_source_file\<close> is not transitive; a handle added twice keeps its double; a library
  in another spelling of its path is listed twice; the prover stamp of a buffer does not cover the mapping of its properties, so a
  remapped rule is published without a run; a run target without rules is complete at once; the id of an edit ignores the paths of its
  files, so a moved edit keeps every stamp; a shared buffer becomes a run target beyond the cap; a directory whose name begins with two dots counts as outside of
  the run root, and a nested run root is listed among its own other projects.

  \<^bold>\<open>Not modelled.\<close> Agents, prompts, model providers, user interfaces, subprocesses, HTTP and the file system; the parsers of
  third-party project formats; floating-point scores (the fusion of the detector's signals, run timing); the drivers of
  autosetup. Of a CVL session, the editor agent,
  the staging for plugins and the read-only tools are left out. Candidates for extension are the detection step of the harnesser and
  the text table of the run summary.
\<close>

end
